(* ===== verification/Prelude.thy ===== *)
theory Prelude
  imports Main "HOL-Library.Word"
begin

text \<open>
  The vocabulary every component shares: the fixed-width integer types of the code, the way a
  C++ call ends (\<open>result\<close>), checked memory accesses, the byte layout of integers, and lemmas on
  lists and words that no single component owns.

  A C++ function that returns an error code becomes a function into \<open>'a result\<close>: \<open>Inr\<close> a value
  for the non-negative return, \<open>Inl\<close> a reason to stop otherwise. Besides the error codes of
  \<open>include/lfs.h\<close> there are three reasons the code has no number for: a failed
  \<open>LFS_ASSERT\<close> (which aborts the program), an access outside a buffer (undefined behaviour in
  C++), and a loop that has used up the iterations it can need (the code then loops forever).
  A state changed before an error stays changed, so functions return the state beside the result.
\<close>

unbundle bit_operations_syntax

named_theorems mem_simps \<open>checked memory accesses that stay inside their buffer\<close>

subsection \<open>Integer types\<close>

type_synonym u8 = "8 word"
type_synonym u16 = "16 word"
type_synonym u32 = "32 word"
type_synonym u64 = "64 word"

type_synonym lfs_size_t = u64
type_synonym lfs_off_t = u64
type_synonym lfs_block_t = u64
type_synonym lfs_tag_t = u32

subsection \<open>How a call ends\<close>

datatype lfs_error =
    LFS_ERR_IO | LFS_ERR_CORRUPT | LFS_ERR_NOENT | LFS_ERR_EXIST | LFS_ERR_NOTDIR
  | LFS_ERR_ISDIR | LFS_ERR_NOTEMPTY | LFS_ERR_BADF | LFS_ERR_FBIG | LFS_ERR_INVAL
  | LFS_ERR_NOSPC | LFS_ERR_NOMEM | LFS_ERR_NOATTR | LFS_ERR_NAMETOOLONG

datatype halt = Err lfs_error | Assertion_failed | Undefined_behaviour | Out_of_fuel

type_synonym 'a result = "halt + 'a"

text \<open>The number an \<open>enum lfs_error\<close> constant stands for.\<close>

fun lfs_error_code :: "lfs_error \<Rightarrow> int" where
  "lfs_error_code LFS_ERR_IO = -5"
| "lfs_error_code LFS_ERR_CORRUPT = -84"
| "lfs_error_code LFS_ERR_NOENT = -2"
| "lfs_error_code LFS_ERR_EXIST = -17"
| "lfs_error_code LFS_ERR_NOTDIR = -20"
| "lfs_error_code LFS_ERR_ISDIR = -21"
| "lfs_error_code LFS_ERR_NOTEMPTY = -39"
| "lfs_error_code LFS_ERR_BADF = -9"
| "lfs_error_code LFS_ERR_FBIG = -27"
| "lfs_error_code LFS_ERR_INVAL = -22"
| "lfs_error_code LFS_ERR_NOSPC = -28"
| "lfs_error_code LFS_ERR_NOMEM = -12"
| "lfs_error_code LFS_ERR_NOATTR = -61"
| "lfs_error_code LFS_ERR_NAMETOOLONG = -36"

lemma lfs_error_code_neg: "lfs_error_code e < 0"
  by (cases e) simp_all

lemma lfs_error_code_inject: "lfs_error_code a = lfs_error_code b \<longleftrightarrow> a = b"
  by (cases a; cases b; simp)

text \<open>A call that ends by returning: no failed assertion, no undefined behaviour, no endless loop.\<close>

fun returns :: "'a result \<Rightarrow> bool" where
  "returns (Inr x) = True"
| "returns (Inl (Err e)) = True"
| "returns (Inl _) = False"

text \<open>Sequencing: \<open>int err = m; if (err) return err; f\<close>.\<close>

definition andthen :: "'a result \<times> 's \<Rightarrow> ('a \<Rightarrow> 's \<Rightarrow> 'b result \<times> 's) \<Rightarrow> 'b result \<times> 's" where
  "andthen m f = (case m of (Inl e, s) \<Rightarrow> (Inl e, s) | (Inr x, s) \<Rightarrow> f x s)"

lemma andthen_simps [simp]:
  "andthen (Inl e, s) f = (Inl e, s)"
  "andthen (Inr x, s) f = f x s"
  by (simp_all add: andthen_def)

lemma andthen_cong [cong]: "m = m' \<Longrightarrow> andthen m f = andthen m' f"
  by simp

lemma andthen_InrE:
  assumes "andthen m f = (Inr y, s')"
  obtains x s where "m = (Inr x, s)" "f x s = (Inr y, s')"
  using assms by (auto simp: andthen_def split: prod.splits sum.splits)

subsection \<open>Checked memory accesses\<close>

text \<open>
  \<open>mem_get m k n\<close> is \<open>memcpy(dst, &m[k], n)\<close> seen from the source, \<open>mem_put m k bs\<close> is
  \<open>memcpy(&m[k], bs, n)\<close> seen from the destination. Outside the buffer both are undefined.
\<close>

definition mem_get :: "'a list \<Rightarrow> nat \<Rightarrow> nat \<Rightarrow> 'a list result" where
  "mem_get m k n = (if k + n \<le> length m then Inr (take n (drop k m)) else Inl Undefined_behaviour)"

definition blit :: "nat \<Rightarrow> 'a list \<Rightarrow> 'a list \<Rightarrow> 'a list" where
  "blit k bs m = take k m @ bs @ drop (k + length bs) m"

definition mem_put :: "'a list \<Rightarrow> nat \<Rightarrow> 'a list \<Rightarrow> 'a list result" where
  "mem_put m k bs = (if k + length bs \<le> length m then Inr (blit k bs m) else Inl Undefined_behaviour)"

lemma mem_get_ok [mem_simps]: "k + n \<le> length m \<Longrightarrow> mem_get m k n = Inr (take n (drop k m))"
  by (simp add: mem_get_def)

lemma mem_put_ok [mem_simps]: "k + length bs \<le> length m \<Longrightarrow> mem_put m k bs = Inr (blit k bs m)"
  by (simp add: mem_put_def)

lemma length_blit [simp]: "k + length bs \<le> length m \<Longrightarrow> length (blit k bs m) = length m"
  by (simp add: blit_def)

lemma blit_Nil [simp]: "blit k [] m = m"
  by (simp add: blit_def)

lemma nth_blit:
  assumes "k + length bs \<le> length m" "i < length m"
  shows "blit k bs m ! i = (if k \<le> i \<and> i < k + length bs then bs ! (i - k) else m ! i)"
  using assms by (auto simp: blit_def nth_append min_def)

lemma take_blit_le: "n \<le> k \<Longrightarrow> k \<le> length m \<Longrightarrow> take n (blit k bs m) = take n m"
  by (simp add: blit_def min_def)

lemma blit_append:
  "k + length xs + length ys \<le> length m \<Longrightarrow> blit (k + length xs) ys (blit k xs m) = blit k (xs @ ys) m"
  by (rule nth_equalityI) (auto simp: nth_blit nth_append)

lemma blit_whole: "length bs = length m \<Longrightarrow> blit 0 bs m = bs"
  by (simp add: blit_def)

lemma take_drop_blit:
  assumes "k + length bs \<le> length m"
  shows "take (length bs) (drop k (blit k bs m)) = bs"
  using assms by (simp add: blit_def)

lemma take_drop_append:
  "take (a + b) (drop k xs) = take a (drop k xs) @ take b (drop (k + a) xs)"
  by (simp add: take_add add.commute)

subsection \<open>Byte layout of integers\<close>

text \<open>
  How a little-endian host lays an integer out in memory. A buffer of \<open>n\<close> bytes that the code
  casts to an integer is \<open>le_word\<close>; the bytes \<open>memcpy\<close> takes from \<open>&x\<close> are \<open>le_bytes\<close>.
\<close>

primrec le_bytes :: "nat \<Rightarrow> 'a::len word \<Rightarrow> u8 list" where
  "le_bytes 0 w = []"
| "le_bytes (Suc n) w = ucast w # le_bytes n (drop_bit 8 w)"

primrec le_word :: "u8 list \<Rightarrow> 'a::len word" where
  "le_word [] = 0"
| "le_word (b # bs) = ucast b OR push_bit 8 (le_word bs)"

lemma length_le_bytes [simp]: "length (le_bytes n w) = n"
  by (induction n arbitrary: w) simp_all

lemma bit_le_word:
  "bit (le_word bs :: 'a::len word) i \<longleftrightarrow> i < LENGTH('a) \<and> i div 8 < length bs \<and> bit (bs ! (i div 8)) (i mod 8)"
proof (induction bs arbitrary: i)
  case Nil
  then show ?case by simp
next
  case (Cons b bs)
  show ?case
  proof (cases "i < 8")
    case True
    then show ?thesis by (auto simp: bit_simps)
  next
    case False
    then have "i div 8 = Suc ((i - 8) div 8)" "i mod 8 = (i - 8) mod 8"
      by (simp_all add: le_div_geq le_mod_geq)
    with False Cons.IH[of "i - 8"] show ?thesis
      by (auto simp: bit_simps dest: bit_imp_le_length)
  qed
qed

lemma nth_le_bytes: "k < n \<Longrightarrow> le_bytes n w ! k = ucast (drop_bit (8 * k) w)"
proof (induction n arbitrary: k w)
  case 0
  then show ?case by simp
next
  case (Suc n)
  then show ?case by (cases k) (simp_all add: drop_bit_drop_bit add.commute)
qed

lemma le_word_le_bytes:
  assumes "LENGTH('a) \<le> 8 * n"
  shows "le_word (le_bytes n w) = (w :: 'a::len word)"
proof (rule bit_word_eqI)
  fix i
  assume i: "i < LENGTH('a)"
  then have "i div 8 < n" using assms by auto
  then show "bit (le_word (le_bytes n w) :: 'a word) i = bit w i"
    using i by (simp add: bit_le_word nth_le_bytes bit_simps)
qed

lemma le_bytes_le_word:
  assumes "8 * length bs \<le> LENGTH('a::len)"
  shows "le_bytes (length bs) (le_word bs :: 'a word) = bs"
proof (rule nth_equalityI)
  show "length (le_bytes (length bs) (le_word bs :: 'a word)) = length bs" by simp
next
  fix k
  assume "k < length (le_bytes (length bs) (le_word bs :: 'a word))"
  then have k: "k < length bs" by simp
  have "bit (ucast (drop_bit (8 * k) (le_word bs :: 'a word)) :: u8) i = bit (bs ! k) i" if "i < 8" for i
    using that k assms by (auto simp: bit_simps bit_le_word)
  then show "le_bytes (length bs) (le_word bs :: 'a word) ! k = bs ! k"
    using k by (auto simp: nth_le_bytes intro: bit_word_eqI)
qed

subsection \<open>Bounds of the 64-bit integers\<close>

lemma unat_u64_less [simp]: "unat (w :: u64) < 2 ^ 64" "unat (w :: u64) < 18446744073709551616"
  using unsigned_less[of w, where 'a = nat] by simp_all

lemma unat_of_nat_u64: "n < 2 ^ 64 \<Longrightarrow> unat (of_nat n :: u64) = n"
  by (simp only: unat_of_nat) simp

lemma unat_add_u64: "unat a + unat b < 2 ^ 64 \<Longrightarrow> unat (a + b) = unat a + unat b" for a b :: u64
  by (simp only: unat_word_ariths) simp

lemma unat_add_of_nat_u64: "unat a + n < 2 ^ 64 \<Longrightarrow> unat (a + of_nat n) = unat a + n" for a :: u64
  by (subst unat_add_u64) (simp_all add: unat_of_nat_u64)

lemma unat_sub_u64: "unat b \<le> unat a \<Longrightarrow> unat (a - b) = unat a - unat b" for a b :: u64
  by (simp add: unat_sub word_le_nat_alt)

lemma unat_mult_u64: "unat a * unat b < 2 ^ 64 \<Longrightarrow> unat (a * b) = unat a * unat b" for a b :: u64
  by (simp only: unat_word_ariths) simp

lemma word_eq_nat_alt: "a = b \<longleftrightarrow> unat a = unat b" for a b :: u64
  by (simp add: word_unat_eq_iff)

end
