(* ===== verification/Lfs_Types.thy ===== *)
theory Lfs_Types
  imports Prelude
begin

text \<open>
  The constants and data of \<open>include/lfs.h\<close>: version numbers and limits, the tag types and open
  flags, and one record per C++ struct, field for field. Three things are not addresses here as
  they are in the code. A pair of blocks \<open>lfs_block_t[2]\<close> is a pair. A buffer (\<open>uint8_t*\<close> with
  its allocation) is the list of its bytes. The nodes of the intrusive list
  \<open>lfs_t::metadata_list\<close>, which are a \<open>lfs_file_t\<close>, a \<open>lfs_dir_t\<close> or a bare
  \<open>lfs_metadata_list_t\<close> behind one pointer type, are the cases of \<open>open_node\<close>, and the list
  holds each node under the address that identifies it to its owner.

  The functions a caller of littlefs supplies in \<open>lfs_config_t\<close> (\<open>read\<close>, \<open>write\<close>, \<open>erase\<close>,
  \<open>sync\<close>) are fields of the configuration and act on a device of any type \<open>'d\<close>, which stands for
  what \<open>cfg->context\<close> points to. The callback \<open>allocate_block\<close>, which calls back into littlefs,
  is an argument of the allocator instead.
\<close>

subsection \<open>Version information and limits\<close>

definition LFS_VERSION :: u32 where "LFS_VERSION = 0x00020005"
definition LFS_VERSION_MAJOR :: u32 where "LFS_VERSION_MAJOR = 0xffff AND drop_bit 16 LFS_VERSION"
definition LFS_VERSION_MINOR :: u32 where "LFS_VERSION_MINOR = 0xffff AND drop_bit 0 LFS_VERSION"
definition LFS_DISK_VERSION :: u32 where "LFS_DISK_VERSION = 0x00020000"
definition LFS_DISK_VERSION_MAJOR :: u32 where
  "LFS_DISK_VERSION_MAJOR = 0xffff AND drop_bit 16 LFS_DISK_VERSION"
definition LFS_DISK_VERSION_MINOR :: u32 where
  "LFS_DISK_VERSION_MINOR = 0xffff AND drop_bit 0 LFS_DISK_VERSION"

abbreviation (input) LFS_NAME_MAX :: u32 where "LFS_NAME_MAX \<equiv> 255"
abbreviation (input) LFS_FILE_MAX :: u64 where "LFS_FILE_MAX \<equiv> 0x7fffffffffffffff"
abbreviation (input) LFS_ATTR_MAX :: u64 where "LFS_ATTR_MAX \<equiv> 1022"
abbreviation (input) LFS_BLOCK_NULL :: lfs_block_t where "LFS_BLOCK_NULL \<equiv> - 1"
abbreviation (input) LFS_BLOCK_INLINE :: lfs_block_t where "LFS_BLOCK_INLINE \<equiv> - 2"

subsection \<open>Non-negative return codes\<close>

datatype lfs_ok = LFS_OK | LFS_OK_RELOCATED | LFS_OK_DROPPED | LFS_OK_ORPHANED

datatype lfs_cmp = LFS_CMP_EQ | LFS_CMP_LT | LFS_CMP_GT

subsection \<open>Tag types and open flags\<close>

abbreviation (input) LFS_TYPE_REG :: u32 where "LFS_TYPE_REG \<equiv> 0x001"
abbreviation (input) LFS_TYPE_DIR :: u32 where "LFS_TYPE_DIR \<equiv> 0x002"
abbreviation (input) LFS_FROM_NOOP :: u32 where "LFS_FROM_NOOP \<equiv> 0x000"
abbreviation (input) LFS_TYPE_NAME :: u32 where "LFS_TYPE_NAME \<equiv> 0x000"
abbreviation (input) LFS_TYPE_FROM :: u32 where "LFS_TYPE_FROM \<equiv> 0x100"
abbreviation (input) LFS_FROM_MOVE :: u32 where "LFS_FROM_MOVE \<equiv> 0x101"
abbreviation (input) LFS_FROM_USERATTRS :: u32 where "LFS_FROM_USERATTRS \<equiv> 0x102"
abbreviation (input) LFS_TYPE_STRUCT :: u32 where "LFS_TYPE_STRUCT \<equiv> 0x200"
abbreviation (input) LFS_TYPE_USERATTR :: u32 where "LFS_TYPE_USERATTR \<equiv> 0x300"
abbreviation (input) LFS_TYPE_SPLICE :: u32 where "LFS_TYPE_SPLICE \<equiv> 0x400"
abbreviation (input) LFS_TYPE_CRC :: u32 where "LFS_TYPE_CRC \<equiv> 0x500"
abbreviation (input) LFS_TYPE_TAIL :: u32 where "LFS_TYPE_TAIL \<equiv> 0x600"
abbreviation (input) LFS_TYPE_GLOBALS :: u32 where "LFS_TYPE_GLOBALS \<equiv> 0x700"
abbreviation (input) LFS_TYPE_SUPERBLOCK :: u32 where "LFS_TYPE_SUPERBLOCK \<equiv> 0x0ff"
abbreviation (input) LFS_TYPE_DIRSTRUCT :: u32 where "LFS_TYPE_DIRSTRUCT \<equiv> 0x200"
abbreviation (input) LFS_TYPE_CTZSTRUCT :: u32 where "LFS_TYPE_CTZSTRUCT \<equiv> 0x202"
abbreviation (input) LFS_TYPE_INLINESTRUCT :: u32 where "LFS_TYPE_INLINESTRUCT \<equiv> 0x201"
abbreviation (input) LFS_TYPE_CREATE :: u32 where "LFS_TYPE_CREATE \<equiv> 0x401"
abbreviation (input) LFS_TYPE_DELETE :: u32 where "LFS_TYPE_DELETE \<equiv> 0x4ff"
abbreviation (input) LFS_TYPE_SOFTTAIL :: u32 where "LFS_TYPE_SOFTTAIL \<equiv> 0x600"
abbreviation (input) LFS_TYPE_HARDTAIL :: u32 where "LFS_TYPE_HARDTAIL \<equiv> 0x601"
abbreviation (input) LFS_TYPE_MOVESTATE :: u32 where "LFS_TYPE_MOVESTATE \<equiv> 0x7ff"
abbreviation (input) LFS_TYPE_HAS_ORPHANS :: u32 where "LFS_TYPE_HAS_ORPHANS \<equiv> 0x800"

abbreviation (input) LFS_O_RDONLY :: u32 where "LFS_O_RDONLY \<equiv> 1"
abbreviation (input) LFS_O_WRONLY :: u32 where "LFS_O_WRONLY \<equiv> 2"
abbreviation (input) LFS_O_RDWR :: u32 where "LFS_O_RDWR \<equiv> 3"
abbreviation (input) LFS_O_CREAT :: u32 where "LFS_O_CREAT \<equiv> 0x0100"
abbreviation (input) LFS_O_EXCL :: u32 where "LFS_O_EXCL \<equiv> 0x0200"
abbreviation (input) LFS_O_TRUNC :: u32 where "LFS_O_TRUNC \<equiv> 0x0400"
abbreviation (input) LFS_O_APPEND :: u32 where "LFS_O_APPEND \<equiv> 0x0800"
abbreviation (input) LFS_F_DIRTY :: u32 where "LFS_F_DIRTY \<equiv> 0x010000"
abbreviation (input) LFS_F_WRITING :: u32 where "LFS_F_WRITING \<equiv> 0x020000"
abbreviation (input) LFS_F_READING :: u32 where "LFS_F_READING \<equiv> 0x040000"
abbreviation (input) LFS_F_ERRED :: u32 where "LFS_F_ERRED \<equiv> 0x080000"
abbreviation (input) LFS_F_INLINE :: u32 where "LFS_F_INLINE \<equiv> 0x100000"

datatype lfs_whence = LFS_SEEK_SET | LFS_SEEK_CUR | LFS_SEEK_END

subsection \<open>Configuration\<close>

record 'd lfs_config =
  cfg_on_grow :: bool
  cfg_read :: "'d \<Rightarrow> lfs_block_t \<Rightarrow> lfs_off_t \<Rightarrow> u8 list \<Rightarrow> unit result \<times> u8 list \<times> 'd"
  cfg_write :: "'d \<Rightarrow> lfs_block_t \<Rightarrow> lfs_off_t \<Rightarrow> u8 list \<Rightarrow> unit result \<times> 'd"
  cfg_erase :: "'d \<Rightarrow> lfs_block_t \<Rightarrow> unit result \<times> 'd"
  cfg_sync :: "'d \<Rightarrow> unit result \<times> 'd"
  cfg_lock :: "'d \<Rightarrow> unit result \<times> 'd"
  cfg_unlock :: "'d \<Rightarrow> unit result \<times> 'd"
  cfg_read_size :: lfs_size_t
  cfg_write_size :: lfs_size_t
  cfg_erase_size :: lfs_size_t
  cfg_block_size :: lfs_size_t
  cfg_block_count :: lfs_size_t
  cfg_block_cycles :: "32 word"
  cfg_cache_size :: lfs_size_t
  cfg_lookahead_size :: lfs_size_t
  cfg_read_buffer :: "u8 list option"
  cfg_write_buffer :: "u8 list option"
  cfg_lookahead_buffer :: "u64 list option"
  cfg_name_max_length :: lfs_size_t
  cfg_file_max_size :: lfs_size_t
  cfg_attr_max_size :: lfs_size_t
  cfg_metadata_max :: lfs_size_t

subsection \<open>Structures of the file system\<close>

record lfs_user_attribute =
  ua_type :: u8
  ua_buffer :: "u8 list"

record lfs_file_config =
  fc_buffer :: "u8 list option"
  fc_attrs :: "lfs_user_attribute list"

record lfs_disk_offset =
  do_block :: lfs_block_t
  do_offset :: lfs_off_t

record lfs_cache =
  c_block :: lfs_block_t
  c_offset :: lfs_off_t
  c_size :: lfs_size_t
  c_buffer :: "u8 list"

record lfs_metadata_dir =
  m_pair :: "lfs_block_t \<times> lfs_block_t"
  m_revision_count :: u32
  m_offset :: lfs_off_t
  m_etag :: u32
  m_count :: u16
  m_erased :: bool
  m_split :: bool
  m_tail :: "lfs_block_t \<times> lfs_block_t"

record lfs_ctz =
  z_head :: lfs_block_t
  z_size :: lfs_size_t

record lfs_metadata_list =
  ml_id :: u16
  ml_type :: u8
  ml_metadata :: lfs_metadata_dir

record lfs_dir = lfs_metadata_list +
  d_pos :: lfs_off_t
  d_head :: "lfs_block_t \<times> lfs_block_t"

record lfs_file = lfs_metadata_list +
  f_ctz :: lfs_ctz
  f_flags :: u32
  f_pos :: lfs_off_t
  f_block :: lfs_block_t
  f_offset :: lfs_off_t
  f_cache :: lfs_cache
  f_cfg :: lfs_file_config

datatype open_node = Node lfs_metadata_list | Dir lfs_dir | File lfs_file

text \<open>What a \<open>const void*\<close> handed along with a tag points to.\<close>

datatype tag_buffer =
    Buf_null
  | Buf_mem "u8 list"
  | Buf_disk lfs_disk_offset
  | Buf_dir lfs_metadata_dir
  | Buf_attrs "lfs_user_attribute list"

record lfs_metadata_attribute =
  ma_tag :: lfs_tag_t
  ma_buffer :: tag_buffer

record lfs_commit =
  co_block :: lfs_block_t
  co_offset :: lfs_off_t
  co_ptag :: lfs_tag_t
  co_crc :: u32
  co_begin :: lfs_off_t
  co_end :: lfs_off_t

record lfs_info =
  i_type :: u8
  i_size :: lfs_size_t
  i_name :: "u8 list"

record lfs_fsinfo =
  fsi_block_size :: lfs_size_t
  fsi_block_count :: lfs_size_t
  fsi_block_usage :: lfs_size_t
  fsi_name_max :: lfs_size_t
  fsi_file_max :: lfs_size_t
  fsi_attr_max :: lfs_size_t

record lfs_superblock =
  sb_version :: u32
  sb_block_size :: lfs_size_t
  sb_block_count :: lfs_size_t
  sb_name_max_length :: lfs_size_t
  sb_file_max_size :: lfs_size_t
  sb_attr_max_size :: lfs_size_t

record lfs_gstate =
  g_tag :: u32
  g_pair :: "lfs_block_t \<times> lfs_block_t"

record lfs_free =
  fr_offset :: lfs_block_t
  fr_size :: lfs_block_t
  fr_i :: lfs_block_t
  fr_ack :: lfs_block_t
  fr_buffer :: "u64 list"

record 'd lfs =
  l_read_cache :: lfs_cache
  l_write_cache :: lfs_cache
  l_root :: "lfs_block_t \<times> lfs_block_t"
  l_metadata_list :: "(nat \<times> open_node) list"
  l_seed :: u32
  l_gstate :: lfs_gstate
  l_gdisk :: lfs_gstate
  l_gdelta :: lfs_gstate
  l_free :: lfs_free
  l_cfg :: "'d lfs_config"
  l_dev :: 'd
  l_erase_size :: lfs_size_t
  l_block_size :: lfs_size_t
  l_block_count :: lfs_size_t
  l_name_max_length :: lfs_size_t
  l_file_max_size :: lfs_size_t
  l_attr_max_size :: lfs_size_t

end
