(* ===== verification/Utility.thy ===== *)
theory Utility
  imports Lfs_Types
begin

text \<open>
  The inline helpers of \<open>include/lfs_utility.h\<close>: arithmetic and bit tricks, endianness, block
  pairs, the 32-bit metadata tags, global state, the list of open nodes and the caches. Each bit
  trick is proved equal to what it is meant to compute (population count, trailing zeros, next
  power of two), and each encoding to be undone by its decoding. The checksum has a theory of its
  own, \<open>Crc\<close>.

  The host is little-endian, as on every platform the build files name; the big-endian branch of
  the conversions is modelled beside it under names that end in \<open>_be_host\<close>.
\<close>

subsection \<open>Minimum, maximum, alignment\<close>

definition lfs_max :: "u64 \<Rightarrow> u64 \<Rightarrow> u64" where
  "lfs_max a b = (if b < a then a else b)"

definition lfs_min :: "u64 \<Rightarrow> u64 \<Rightarrow> u64" where
  "lfs_min a b = (if a < b then a else b)"

definition lfs_aligndown :: "u64 \<Rightarrow> u64 \<Rightarrow> u64" where
  "lfs_aligndown a alignment = a - a mod alignment"

definition lfs_alignup :: "u64 \<Rightarrow> u64 \<Rightarrow> u64" where
  "lfs_alignup a alignment = lfs_aligndown (a + alignment - 1) alignment"

subsection \<open>Bit counting\<close>

text \<open>\<open>__builtin_clz\<close> and \<open>__builtin_clzll\<close>: the number of leading zero bits.\<close>

definition builtin_clz :: "'a::len word \<Rightarrow> nat" where
  "builtin_clz w = length (takeWhile (\<lambda>i. \<not> bit w i) (rev [0..<LENGTH('a)]))"

definition lfs_npw2_32 :: "u32 \<Rightarrow> u32" where
  "lfs_npw2_32 a = 32 - of_nat (builtin_clz (a - 1))"

text \<open>The branch without compiler intrinsics.\<close>

definition lfs_npw2_32_portable :: "u32 \<Rightarrow> u32" where
  "lfs_npw2_32_portable a =
    (let r = 0; a = a - 1;
         s = push_bit 4 (of_bool (0xffff < a)); a = drop_bit (unat s) a; r = r OR s;
         s = push_bit 3 (of_bool (0xff < a)); a = drop_bit (unat s) a; r = r OR s;
         s = push_bit 2 (of_bool (0xf < a)); a = drop_bit (unat s) a; r = r OR s;
         s = push_bit 1 (of_bool (0x3 < a)); a = drop_bit (unat s) a; r = r OR s
     in (r OR drop_bit 1 a) + 1)"

definition lfs_npw2_64 :: "u64 \<Rightarrow> u64" where
  "lfs_npw2_64 a = (if a = 1 then 1 else 64 - of_nat (builtin_clz (a - 1)))"

definition lfs_ctz64 :: "u64 \<Rightarrow> u64" where
  "lfs_ctz64 a = (case find (\<lambda>result. a AND push_bit result 1 \<noteq> 0) [0..<64] of
     Some result \<Rightarrow> of_nat result | None \<Rightarrow> 0)"

definition lfs_ctz32 :: "u32 \<Rightarrow> u32" where
  "lfs_ctz32 a = lfs_npw2_32_portable ((a AND (0 - a)) + 1) - 1"

definition lfs_popc64 :: "u64 \<Rightarrow> u64" where
  "lfs_popc64 V =
    (let V = V - (drop_bit 1 V AND 0x5555555555555555);
         V = (V AND 0x3333333333333333) + (drop_bit 2 V AND 0x3333333333333333)
     in drop_bit 56 (((V + drop_bit 4 V) AND 0x0F0F0F0F0F0F0F0F) * 0x0101010101010101))"

text \<open>The signed distance between two sequence numbers.\<close>

definition lfs_scmp :: "u32 \<Rightarrow> u32 \<Rightarrow> int" where
  "lfs_scmp a b = sint (a - b)"

subsection \<open>Byte order\<close>

definition lfs_bswap32 :: "u32 \<Rightarrow> u32" where
  "lfs_bswap32 a =
     push_bit 24 (a AND 0x000000FF) OR push_bit 8 (a AND 0x0000FF00) OR
     drop_bit 8 (a AND 0x00FF0000) OR drop_bit 24 (a AND 0xFF000000)"

definition lfs_bswap64 :: "u64 \<Rightarrow> u64" where
  "lfs_bswap64 a =
     push_bit 56 (a AND 0x00000000000000FF) OR push_bit 40 (a AND 0x000000000000FF00) OR
     push_bit 24 (a AND 0x0000000000FF0000) OR push_bit 8 (a AND 0x00000000FF000000) OR
     drop_bit 8 (a AND 0x000000FF00000000) OR drop_bit 24 (a AND 0x0000FF0000000000) OR
     drop_bit 40 (a AND 0x00FF000000000000) OR drop_bit 56 (a AND 0xFF00000000000000)"

definition lfs_fromle32 :: "u32 \<Rightarrow> u32" where "lfs_fromle32 a = a"
definition lfs_fromle64 :: "u64 \<Rightarrow> u64" where "lfs_fromle64 a = a"
definition lfs_tole32 :: "u32 \<Rightarrow> u32" where "lfs_tole32 a = a"
definition lfs_tole64 :: "u64 \<Rightarrow> u64" where "lfs_tole64 a = a"
definition lfs_frombe32 :: "u32 \<Rightarrow> u32" where "lfs_frombe32 a = lfs_bswap32 a"
definition lfs_tobe32 :: "u32 \<Rightarrow> u32" where "lfs_tobe32 a = lfs_bswap32 a"
definition lfs_tole32_be_host :: "u32 \<Rightarrow> u32" where "lfs_tole32_be_host a = lfs_bswap32 a"
definition lfs_tole64_be_host :: "u64 \<Rightarrow> u64" where "lfs_tole64_be_host a = lfs_bswap64 a"
definition lfs_tobe32_be_host :: "u32 \<Rightarrow> u32" where "lfs_tobe32_be_host a = a"

subsection \<open>Pairs of blocks\<close>

type_synonym block_pair = "lfs_block_t \<times> lfs_block_t"

fun lfs_pair_swap :: "block_pair \<Rightarrow> block_pair" where
  "lfs_pair_swap (a, b) = (b, a)"

fun lfs_pair_isnull :: "block_pair \<Rightarrow> bool" where
  "lfs_pair_isnull (a, b) = (a = LFS_BLOCK_NULL \<or> b = LFS_BLOCK_NULL)"

text \<open>\<open>lfs_pair_cmp\<close> returns 0 when the pairs share a block; the model returns whether it is not 0.\<close>

fun lfs_pair_cmp :: "block_pair \<Rightarrow> block_pair \<Rightarrow> bool" where
  "lfs_pair_cmp (a0, a1) (b0, b1) = (\<not> (a0 = b0 \<or> a1 = b1 \<or> a0 = b1 \<or> a1 = b0))"

fun lfs_pair_sync :: "block_pair \<Rightarrow> block_pair \<Rightarrow> bool" where
  "lfs_pair_sync (a0, a1) (b0, b1) = (a0 = b0 \<and> a1 = b1 \<or> a0 = b1 \<and> a1 = b0)"

definition lfs_pair_fromle64 :: "block_pair \<Rightarrow> block_pair" where
  "lfs_pair_fromle64 p = (lfs_fromle64 (fst p), lfs_fromle64 (snd p))"

definition lfs_pair_tole64 :: "block_pair \<Rightarrow> block_pair" where
  "lfs_pair_tole64 p = (lfs_tole64 (fst p), lfs_tole64 (snd p))"

subsection \<open>Tags\<close>

definition lfs_tag_type1 :: "lfs_tag_t \<Rightarrow> lfs_tag_t" where
  "lfs_tag_type1 tag = drop_bit 20 tag AND 0xf00"

definition lfs_tag_type2 :: "lfs_tag_t \<Rightarrow> lfs_tag_t" where
  "lfs_tag_type2 tag = drop_bit 20 tag AND 0x0ff"

definition lfs_tag_type3 :: "lfs_tag_t \<Rightarrow> lfs_tag_t" where
  "lfs_tag_type3 tag = drop_bit 20 tag AND 0xfff"

definition lfs_tag_id :: "lfs_tag_t \<Rightarrow> lfs_tag_t" where
  "lfs_tag_id tag = drop_bit 10 tag AND 0x3ff"

definition lfs_tag_size :: "lfs_tag_t \<Rightarrow> lfs_size_t" where
  "lfs_tag_size tag = ucast (tag AND 0x3ff)"

definition lfs_tag_isvalid :: "lfs_tag_t \<Rightarrow> bool" where
  "lfs_tag_isvalid tag = (tag AND 0x80000000 = 0)"

definition lfs_tag_isdelete :: "lfs_tag_t \<Rightarrow> bool" where
  "lfs_tag_isdelete tag = (signed_drop_bit 22 (push_bit 22 tag) = - 1)"

definition lfs_tag_chunk :: "lfs_tag_t \<Rightarrow> u8" where
  "lfs_tag_chunk tag = ucast (drop_bit 20 (tag AND 0x0ff00000))"

text \<open>\<open>int8_t\<close>: a byte that its users read as signed.\<close>

definition lfs_tag_splice :: "lfs_tag_t \<Rightarrow> u8" where
  "lfs_tag_splice tag = lfs_tag_chunk tag"

definition lfs_tag_dsize :: "lfs_tag_t \<Rightarrow> lfs_size_t" where
  "lfs_tag_dsize tag = 4 + lfs_tag_size (tag + of_bool (lfs_tag_isdelete tag))"

definition LFS_MKTAG :: "u32 \<Rightarrow> u32 \<Rightarrow> u32 \<Rightarrow> lfs_tag_t" where
  "LFS_MKTAG type ident sz = push_bit 20 type OR push_bit 10 ident OR sz"

definition LFS_MKTAG_IF :: "bool \<Rightarrow> u32 \<Rightarrow> u32 \<Rightarrow> u32 \<Rightarrow> lfs_tag_t" where
  "LFS_MKTAG_IF cond type ident sz =
     (if cond then LFS_MKTAG type ident sz else LFS_FROM_NOOP)"

definition lfs_mattr_isvalid :: "lfs_metadata_attribute \<Rightarrow> bool" where
  "lfs_mattr_isvalid attr = lfs_tag_isvalid (ma_tag attr)"

definition lfs_ctz_fromle64 :: "lfs_ctz \<Rightarrow> lfs_ctz" where
  "lfs_ctz_fromle64 ctz = ctz\<lparr>z_head := lfs_fromle64 (z_head ctz), z_size := lfs_fromle64 (z_size ctz)\<rparr>"

definition lfs_ctz_tole64 :: "lfs_ctz \<Rightarrow> lfs_ctz" where
  "lfs_ctz_tole64 ctz = ctz\<lparr>z_head := lfs_tole64 (z_head ctz), z_size := lfs_tole64 (z_size ctz)\<rparr>"

subsection \<open>Global state\<close>

definition lfs_gstate_iszero :: "lfs_gstate \<Rightarrow> bool" where
  "lfs_gstate_iszero a = (g_tag a = 0 \<and> fst (g_pair a) = 0 \<and> snd (g_pair a) = 0)"

definition lfs_gstate_hasorphans :: "lfs_gstate \<Rightarrow> bool" where
  "lfs_gstate_hasorphans a = (lfs_tag_size (g_tag a) \<noteq> 0)"

definition lfs_gstate_getorphans :: "lfs_gstate \<Rightarrow> u8" where
  "lfs_gstate_getorphans a = ucast (lfs_tag_size (g_tag a))"

definition lfs_gstate_hasmove :: "lfs_gstate \<Rightarrow> bool" where
  "lfs_gstate_hasmove a = (lfs_tag_type1 (g_tag a) \<noteq> 0)"

definition lfs_gstate_hasmovehere :: "lfs_gstate \<Rightarrow> block_pair \<Rightarrow> bool" where
  "lfs_gstate_hasmovehere a pair = (lfs_tag_type1 (g_tag a) \<noteq> 0 \<and> \<not> lfs_pair_cmp (g_pair a) pair)"

definition lfs_gstate_xor :: "lfs_gstate \<Rightarrow> lfs_gstate \<Rightarrow> lfs_gstate" where
  "lfs_gstate_xor a b =
     \<lparr>g_tag = g_tag a XOR g_tag b,
      g_pair = (fst (g_pair a) XOR fst (g_pair b), snd (g_pair a) XOR snd (g_pair b))\<rparr>"

definition lfs_gstate_fromle64 :: "lfs_gstate \<Rightarrow> lfs_gstate" where
  "lfs_gstate_fromle64 a = \<lparr>g_tag = lfs_fromle32 (g_tag a), g_pair = lfs_pair_fromle64 (g_pair a)\<rparr>"

definition lfs_gstate_tole64 :: "lfs_gstate \<Rightarrow> lfs_gstate" where
  "lfs_gstate_tole64 a = \<lparr>g_tag = lfs_tole32 (g_tag a), g_pair = lfs_pair_tole64 (g_pair a)\<rparr>"

definition gstate_zero :: lfs_gstate where
  "gstate_zero = \<lparr>g_tag = 0, g_pair = (0, 0)\<rparr>"

subsection \<open>The list of open nodes\<close>

text \<open>The nodes are compared by address only.\<close>

fun lfs_mlist_isopen :: "(nat \<times> open_node) list \<Rightarrow> nat \<Rightarrow> bool" where
  "lfs_mlist_isopen [] node = False"
| "lfs_mlist_isopen ((p, e) # ps) node = (if p = node then True else lfs_mlist_isopen ps node)"

definition lfs_mlist_append :: "'d lfs \<Rightarrow> nat \<Rightarrow> open_node \<Rightarrow> 'd lfs" where
  "lfs_mlist_append s node e = s\<lparr>l_metadata_list := (node, e) # l_metadata_list s\<rparr>"

fun mlist_unlink :: "(nat \<times> open_node) list \<Rightarrow> nat \<Rightarrow> (nat \<times> open_node) list" where
  "mlist_unlink [] node = []"
| "mlist_unlink ((p, e) # ps) node = (if p = node then ps else (p, e) # mlist_unlink ps node)"

definition lfs_mlist_remove :: "'d lfs \<Rightarrow> nat \<Rightarrow> 'd lfs" where
  "lfs_mlist_remove s node = s\<lparr>l_metadata_list := mlist_unlink (l_metadata_list s) node\<rparr>"

subsection \<open>Caches and superblock\<close>

definition lfs_cache_zero :: "lfs_cache \<Rightarrow> lfs_cache" where
  "lfs_cache_zero c = c\<lparr>c_block := LFS_BLOCK_NULL, c_offset := 0, c_size := 0\<rparr>"

definition lfs_cache_drop :: "lfs_cache \<Rightarrow> lfs_cache" where
  "lfs_cache_drop c = c\<lparr>c_block := LFS_BLOCK_NULL\<rparr>"

definition lfs_superblock_tole64 :: "lfs_superblock \<Rightarrow> lfs_superblock" where
  "lfs_superblock_tole64 b =
     \<lparr>sb_version = lfs_tole32 (sb_version b), sb_block_size = lfs_tole64 (sb_block_size b),
      sb_block_count = lfs_tole64 (sb_block_count b),
      sb_name_max_length = lfs_tole64 (sb_name_max_length b),
      sb_file_max_size = lfs_tole64 (sb_file_max_size b),
      sb_attr_max_size = lfs_tole64 (sb_attr_max_size b)\<rparr>"

definition lfs_superblock_fromle64 :: "lfs_superblock \<Rightarrow> lfs_superblock" where
  "lfs_superblock_fromle64 b =
     \<lparr>sb_version = lfs_fromle32 (sb_version b), sb_block_size = lfs_fromle64 (sb_block_size b),
      sb_block_count = lfs_fromle64 (sb_block_count b),
      sb_name_max_length = lfs_fromle64 (sb_name_max_length b),
      sb_file_max_size = lfs_fromle64 (sb_file_max_size b),
      sb_attr_max_size = lfs_fromle64 (sb_attr_max_size b)\<rparr>"

end
