(* ===== verification/Bits.thy ===== *)
theory Bits
  imports Utility
begin

text \<open>
  The bit tricks of \<open>include/lfs_utility.h\<close> compute what their names promise: \<open>lfs_popc64\<close> counts
  the set bits, \<open>lfs_ctz64\<close> finds the lowest one, \<open>lfs_npw2_64\<close> the exponent of the next power of
  two, the byte swaps reverse the bytes and the alignments round to multiples. The tags, the
  global state and the list of open nodes have their laws here too.

  The proof of the population count follows the three reductions of the code. Read in base 4, 16
  and 256, the words of the code are the numbers \<open>popA\<close>, \<open>popB\<close> and \<open>popC\<close> whose digits count
  the set bits of the corresponding 2, 4 and 8 bits.
\<close>

subsection \<open>Population count\<close>

lemma and_nat_split:
  fixes a b c d :: nat
  assumes "b < 2 ^ j" "d < 2 ^ j"
  shows "(2 ^ j * a + b) AND (2 ^ j * c + d) = 2 ^ j * (a AND c) + (b AND d)" (is "?l = _")
proof -
  have d: "drop_bit j (2 ^ j * x + y) = x" and t: "take_bit j (2 ^ j * x + y) = y" if "y < 2 ^ j" for x y :: nat
    using that by (simp_all add: drop_bit_eq_div take_bit_eq_mod)
  have "?l = push_bit j (drop_bit j ?l) + take_bit j ?l"
    by (simp only: bits_ident)
  also have "\<dots> = push_bit j (a AND c) + (b AND d)"
    using assms by (simp only: drop_bit_and take_bit_and d t)
  finally show ?thesis by (simp add: push_bit_eq_mult mult.commute)
qed

lemma and_4_split: "b < 4 \<Longrightarrow> d < 4 \<Longrightarrow> (4 * a + b) AND (4 * c + d) = 4 * (a AND c) + (b AND d)" for a b c d :: nat
  using and_nat_split[of b 2 d a c] by simp

lemma and_16_split: "b < 16 \<Longrightarrow> d < 16 \<Longrightarrow> (16 * a + b) AND (16 * c + d) = 16 * (a AND c) + (b AND d)" for a b c d :: nat
  using and_nat_split[of b 4 d a c] by simp

lemma and_256_split: "b < 256 \<Longrightarrow> d < 256 \<Longrightarrow> (256 * a + b) AND (256 * c + d) = 256 * (a AND c) + (b AND d)" for a b c d :: nat
  using and_nat_split[of b 8 d a c] by simp

primrec reps :: "nat \<Rightarrow> nat \<Rightarrow> nat \<Rightarrow> nat" where
  "reps B c 0 = 0"
| "reps B c (Suc k) = B * reps B c k + c"

primrec pop :: "nat \<Rightarrow> nat \<Rightarrow> nat" where
  "pop 0 n = 0"
| "pop (Suc k) n = n mod 2 + pop k (n div 2)"

primrec popA :: "nat \<Rightarrow> nat \<Rightarrow> nat" where
  "popA 0 n = 0"
| "popA (Suc k) n = 4 * popA k (n div 4) + pop 2 n"

primrec popB :: "nat \<Rightarrow> nat \<Rightarrow> nat" where
  "popB 0 n = 0"
| "popB (Suc k) n = 16 * popB k (n div 16) + pop 4 n"

primrec popC :: "nat \<Rightarrow> nat \<Rightarrow> nat" where
  "popC 0 n = 0"
| "popC (Suc k) n = 256 * popC k (n div 256) + pop 8 n"

lemma pop_le: "pop k n \<le> k"
proof (induction k arbitrary: n)
  case 0
  then show ?case by simp
next
  case (Suc k)
  have "n mod 2 \<le> 1" by simp
  then show ?case using Suc.IH[of "n div 2"] by (simp del: mod2_Suc_Suc)
qed

lemma pop_add: "pop (i + j) n = pop i n + pop j (n div 2 ^ i)"
  by (induction i arbitrary: n) (simp_all add: div_mult2_eq)

lemma pop_num:
  "pop 2 n = n mod 2 + n div 2 mod 2"
  "pop 4 n = pop 2 n + pop 2 (n div 4)" "pop 8 n = pop 4 n + pop 4 (n div 16)"
proof -
  show "pop 2 n = n mod 2 + n div 2 mod 2" by (simp add: numeral_2_eq_2)
  show "pop 4 n = pop 2 n + pop 2 (n div 4)" using pop_add[of 2 2 n] by simp
  show "pop 8 n = pop 4 n + pop 4 (n div 16)" using pop_add[of 4 4 n] by simp
qed

lemma aux2: "a \<le> h \<Longrightarrow> h - a = p \<Longrightarrow> 4 * h + 2 * u + v = n \<Longrightarrow> 4 * a + u \<le> n \<and> n - (4 * a + u) = 4 * p + (v + u)" for a :: nat
  by linarith

lemma stepA: "n < 4 ^ k \<Longrightarrow> (n div 2) AND reps 4 1 k \<le> n \<and> n - ((n div 2) AND reps 4 1 k) = popA k n"
proof (induction k arbitrary: n)
  case 0
  then show ?case by simp
next
  case (Suc k)
  let ?h = "n div 4" and ?r = "reps 4 1 k"
  have h: "?h < 4 ^ k" using Suc.prems by auto
  have "n div 2 = 4 * (n div 2 div 4) + (n div 2) mod 4" by simp
  moreover have "n div 2 div 4 = ?h div 2" by (simp add: div_mult2_eq [symmetric])
  ultimately have "n div 2 = 4 * (?h div 2) + (n div 2) mod 4" by simp
  then have "(n div 2) AND reps 4 1 (Suc k) = (4 * (?h div 2) + (n div 2) mod 4) AND (4 * ?r + 1)"
    by (simp only: reps.simps)
  also have "\<dots> = 4 * ((?h div 2) AND ?r) + (((n div 2) mod 4) AND 1)"
    by (rule and_4_split) simp_all
  also have "((n div 2) mod 4) AND 1 = n div 2 mod 2"
    by (simp add: and_one_eq mod_mod_cancel)
  finally have e: "(n div 2) AND reps 4 1 (Suc k) = 4 * ((?h div 2) AND ?r) + n div 2 mod 2" by simp
  have n: "4 * ?h + 2 * (n div 2 mod 2) + n mod 2 = n" by presburger
  show ?case unfolding e popA.simps pop_num(1)
    by (rule aux2 [OF conjunct1 [OF Suc.IH [OF h]] conjunct2 [OF Suc.IH [OF h]] n])
qed

lemma pop2_and3: "pop 2 n AND 3 = pop 2 n"
proof -
  have "pop 2 n \<le> 2" by (rule pop_le)
  then have "pop 2 n = 0 \<or> pop 2 n = 1 \<or> pop 2 n = 2" by auto
  then show ?thesis by auto
qed

lemma popA_Suc2: "popA (Suc (Suc k)) n = 16 * popA k (n div 16) + (4 * pop 2 (n div 4) + pop 2 n)"
  by (simp add: div_mult2_eq [symmetric])

lemma stepB:
  "(popA (2 * k) n AND reps 16 3 k) + ((popA (2 * k) n div 4) AND reps 16 3 k) = popB k n"
proof (induction k arbitrary: n)
  case 0
  then show ?case by simp
next
  case (Suc k)
  let ?x = "popA (2 * k) (n div 16)" and ?a = "pop 2 n" and ?b = "pop 2 (n div 4)" and ?r = "reps 16 3 k"
  have le: "?a \<le> 2" "?b \<le> 2" by (rule pop_le)+
  have x: "popA (2 * Suc k) n = 16 * ?x + (4 * ?b + ?a)"
    using popA_Suc2[of "2 * k" n] by simp
  have m: "(4 * b + a) AND 3 = a AND 3" if "a < 4" for a b :: nat
    using and_4_split[of a 3 b 0] that by simp
  have "popA (2 * Suc k) n AND reps 16 3 (Suc k) = 16 * (?x AND ?r) + ((4 * ?b + ?a) AND 3)"
    unfolding x reps.simps using le by (intro and_16_split) simp_all
  also have "(4 * ?b + ?a) AND 3 = ?a" using m le by (simp add: pop2_and3)
  finally have 1: "popA (2 * Suc k) n AND reps 16 3 (Suc k) = 16 * (?x AND ?r) + ?a" .
  have y: "popA (2 * Suc k) n div 4 = 16 * (?x div 4) + (4 * (?x mod 4) + ?b)"
  proof -
    have "popA (2 * Suc k) n div 4 = 4 * ?x + ?b" unfolding x using le by simp
    moreover have "?x = 4 * (?x div 4) + ?x mod 4" by simp
    ultimately show ?thesis by linarith
  qed
  have "popA (2 * Suc k) n div 4 AND reps 16 3 (Suc k) = 16 * ((?x div 4) AND ?r) + ((4 * (?x mod 4) + ?b) AND 3)"
    unfolding y reps.simps
  proof (rule and_16_split)
    have "?x mod 4 < 4" by simp
    then show "4 * (?x mod 4) + ?b < 16" using le by linarith
  qed simp
  also have "(4 * (?x mod 4) + ?b) AND 3 = ?b" using m le by (simp add: pop2_and3)
  finally have 2: "popA (2 * Suc k) n div 4 AND reps 16 3 (Suc k) = 16 * ((?x div 4) AND ?r) + ?b" .
  show ?case unfolding 1 2 popB.simps pop_num(2) using Suc.IH[of "n div 16"] by linarith
qed

lemma popB_mod: "popB k n mod 16 \<le> 4"
  using pop_le[of 4 n] by (cases k) simp_all

lemma aux: "x = 16 * q + r \<Longrightarrow> 256 * x + (16 * b + a) + (16 * x + b) = 256 * (x + q) + (16 * (b + r) + (a + b))" for x :: nat
  by simp

lemma stepC: "(popB (2 * k) n + popB (2 * k) n div 16) AND reps 256 15 k = popC k n"
proof (induction k arbitrary: n)
  case 0
  then show ?case by simp
next
  case (Suc k)
  let ?x = "popB (2 * k) (n div 256)" and ?a = "pop 4 n" and ?b = "pop 4 (n div 16)" and ?r = "reps 256 15 k"
  have le: "?a \<le> 4" "?b \<le> 4" by (rule pop_le)+
  have x: "popB (2 * Suc k) n = 256 * ?x + (16 * ?b + ?a)"
    by (simp add: div_mult2_eq [symmetric])
  have y: "popB (2 * Suc k) n div 16 = 16 * ?x + ?b"
    unfolding x using le by simp
  have s: "popB (2 * Suc k) n + popB (2 * Suc k) n div 16
      = 256 * (?x + ?x div 16) + (16 * (?b + ?x mod 16) + (?a + ?b))"
    unfolding y unfolding x by (rule aux) simp
  have m: "(16 * b + a) AND 15 = a" if "a \<le> 8" for a b :: nat
  proof -
    have "(16 * b + a) AND (16 * 0 + 15) = 16 * (b AND 0) + (a AND 15)"
      using that by (intro and_16_split) simp_all
    moreover have "a AND 15 = take_bit 4 a" by (simp add: take_bit_eq_mask mask_eq_exp_minus_1)
    moreover have "take_bit 4 a = a" using that by (simp add: take_bit_nat_eq_self)
    ultimately show ?thesis by simp
  qed
  have "?x mod 16 \<le> 4" by (rule popB_mod)
  then have "(popB (2 * Suc k) n + popB (2 * Suc k) n div 16) AND reps 256 15 (Suc k)
     = 256 * ((?x + ?x div 16) AND ?r) + ((16 * (?b + ?x mod 16) + (?a + ?b)) AND 15)"
    unfolding s reps.simps using le by (intro and_256_split) simp_all
  also have "(16 * (?b + ?x mod 16) + (?a + ?b)) AND 15 = ?a + ?b" using le by (intro m) simp
  finally show ?case using Suc.IH[of "n div 256"] by (simp add: pop_num(3))
qed

lemma popC_mult: "popC 8 n * 0x0101010101010101 mod 2 ^ 64 div 2 ^ 56 = pop 64 n"
proof -
  have "\<exists>a b c d e f g h. popC 8 n = a + 256 * (b + 256 * (c + 256 * (d + 256 * (e + 256 * (f + 256 * (g + 256 * h)))))) \<and>
     pop 64 n = a + b + c + d + e + f + g + h \<and> a \<le> 8 \<and> b \<le> 8 \<and> c \<le> 8 \<and> d \<le> 8 \<and> e \<le> 8 \<and> f \<le> 8 \<and> g \<le> 8 \<and> h \<le> 8"
  proof -
    have C: "popC 8 m = pop 8 m + 256 * popC 7 (m div 256)" "popC 7 m = pop 8 m + 256 * popC 6 (m div 256)"
      "popC 6 m = pop 8 m + 256 * popC 5 (m div 256)" "popC 5 m = pop 8 m + 256 * popC 4 (m div 256)"
      "popC 4 m = pop 8 m + 256 * popC 3 (m div 256)" "popC 3 m = pop 8 m + 256 * popC 2 (m div 256)"
      "popC 2 m = pop 8 m + 256 * popC 1 (m div 256)" "popC 1 m = pop 8 m" for m
      using popC.simps(2)[of 7 m] popC.simps(2)[of 6 m] popC.simps(2)[of 5 m] popC.simps(2)[of 4 m]
        popC.simps(2)[of 3 m] popC.simps(2)[of 2 m] popC.simps(2)[of 1 m] popC.simps(2)[of 0 m]
      by (simp_all del: popC.simps(2) add: numeral_2_eq_2 [symmetric])
    have P: "pop 64 m = pop 8 m + pop 56 (m div 256)" "pop 56 m = pop 8 m + pop 48 (m div 256)"
      "pop 48 m = pop 8 m + pop 40 (m div 256)" "pop 40 m = pop 8 m + pop 32 (m div 256)"
      "pop 32 m = pop 8 m + pop 24 (m div 256)" "pop 24 m = pop 8 m + pop 16 (m div 256)"
      "pop 16 m = pop 8 m + pop 8 (m div 256)" for m
      using pop_add[of 8 56 m] pop_add[of 8 48 m] pop_add[of 8 40 m] pop_add[of 8 32 m] pop_add[of 8 24 m]
        pop_add[of 8 16 m] pop_add[of 8 8 m] by simp_all
    show ?thesis unfolding C P by (intro exI conjI, rule refl, simp only: add.assoc) (rule pop_le)+
  qed
  then obtain a b c d e f g h where p: "popC 8 n = a + 256 * (b + 256 * (c + 256 * (d + 256 * (e + 256 * (f + 256 * (g + 256 * h))))))"
    "pop 64 n = a + b + c + d + e + f + g + h" "a \<le> 8" "b \<le> 8" "c \<le> 8" "d \<le> 8" "e \<le> 8" "f \<le> 8" "g \<le> 8" "h \<le> 8" by blast
  define m where "m = a + 256 * (a+b + 256 * (a+b+c + 256 * (a+b+c+d + 256 * (a+b+c+d+e + 256 * (a+b+c+d+e+f + 256 * (a+b+c+d+e+f+g))))))"
  define s where "s = a + b + c + d + e + f + g + h"
  define q where "q = b+c+d+e+f+g+h + 256 * (c+d+e+f+g+h + 256 * (d+e+f+g+h + 256 * (e+f+g+h + 256 * (f+g+h + 256 * (g+h + 256 * h)))))"
  have "popC 8 n * 0x0101010101010101 = 2 ^ 64 * q + (2 ^ 56 * s + m)"
    unfolding p m_def s_def q_def by simp
  moreover have m: "m < 2 ^ 56" using p(3-) unfolding m_def by simp
  moreover have "s < 256" using p(3-) unfolding s_def by simp
  ultimately have "popC 8 n * 0x0101010101010101 mod 2 ^ 64 = 2 ^ 56 * s + m"
    by simp
  then show ?thesis using m unfolding p(2) s_def [symmetric] by simp
qed

lemma pop_eq_card: "pop k n = card {i. i < k \<and> bit n i}"
proof (induction k arbitrary: n)
  case 0
  then show ?case by simp
next
  case (Suc k)
  have "{i. i < Suc k \<and> bit n i} = (if odd n then {0} else {}) \<union> Suc ` {i. i < k \<and> bit (n div 2) i}"
    by (auto simp: bit_0 bit_Suc image_iff less_Suc_eq_0_disj split: if_splits)
  moreover have "card (Suc ` {i. i < k \<and> bit (n div 2) i}) = pop k (n div 2)"
    by (simp add: card_image Suc.IH)
  ultimately show ?case by (auto simp: card_Un_disjoint mod_2_eq_odd)
qed

lemma reps_closed: "B * reps B c k + c = reps B c k + c * B ^ k"
proof (induction k)
  case 0
  then show ?case by simp
next
  case (Suc k)
  have "B * (B * reps B c k + c) = B * (reps B c k + c * B ^ k)" using Suc.IH by simp
  then show ?case by (simp add: algebra_simps)
qed

lemma reps_num:
  "reps 4 1 32 = 0x5555555555555555" "reps 16 3 16 = 0x3333333333333333" "reps 256 15 8 = 0x0F0F0F0F0F0F0F0F"
  using reps_closed[of 4 1 32] reps_closed[of 16 3 16] reps_closed[of 256 15 8] by simp_all

lemma popB_bound: "15 * popB k n + 4 \<le> 4 * 16 ^ k"
proof (induction k arbitrary: n)
  case 0
  then show ?case by simp
next
  case (Suc k)
  have "pop 4 n \<le> 4" by (rule pop_le)
  then show ?case using Suc.IH[of "n div 16"] by simp
qed

lemma unat_and_drop:
  "unat (drop_bit k V AND w) = (unat V div 2 ^ k) AND unat w" for V w :: u64
  by (simp only: unsigned_and_eq unat_drop_bit_eq) (simp only: drop_bit_eq_div)

lemma popB_le: "popB 16 n \<le> 0x4444444444444444"
  using popB_bound[of 16 n] by simp

lemma unat_lfs_popc64: "unat (lfs_popc64 V) = card {i. i < 64 \<and> bit V i}"
proof -
  let ?n = "unat V"
  define V1 where "V1 = V - (drop_bit 1 V AND 0x5555555555555555)"
  define V2 where "V2 = (V1 AND 0x3333333333333333) + (drop_bit 2 V1 AND 0x3333333333333333)"
  define V3 where "V3 = (V2 + drop_bit 4 V2) AND 0x0F0F0F0F0F0F0F0F"
  have n: "?n < 4 ^ 32" using unsigned_less[of V] by simp
  have m1: "unat (drop_bit 1 V AND 0x5555555555555555) = (?n div 2) AND reps 4 1 32"
    unfolding unat_and_drop reps_num by simp
  have 1: "unat V1 = popA 32 ?n"
    using stepA[OF n] m1 by (simp only: unat_sub word_le_nat_alt V1_def)
  have B: "popB 16 ?n + popB 16 ?n div 16 < 2 ^ 64"
    using popB_le[of ?n] by simp
  have "unat (drop_bit 2 V1 AND 0x3333333333333333) = (popA 32 ?n div 4) AND reps 16 3 16"
    unfolding unat_and_drop reps_num 1 by simp
  moreover have "unat (V1 AND 0x3333333333333333) = popA 32 ?n AND reps 16 3 16"
    using unat_and_drop[of 0 V1 "0x3333333333333333"] unfolding reps_num 1 by simp
  ultimately have "unat (V1 AND 0x3333333333333333) + unat (drop_bit 2 V1 AND 0x3333333333333333) = popB 16 ?n"
    using stepB[of 16 ?n] by simp
  then have 2: "unat V2 = popB 16 ?n"
    unfolding V2_def using B by (simp only: unat_word_ariths) simp
  have "unat (V2 + drop_bit 4 V2) = popB 16 ?n + popB 16 ?n div 16"
    using B by (simp only: unat_word_ariths unat_drop_bit_eq drop_bit_eq_div 2) simp
  then have 3: "unat V3 = popC 8 ?n"
    using stepC[of 8 ?n] unat_and_drop[of 0 "V2 + drop_bit 4 V2" "0x0F0F0F0F0F0F0F0F"]
    unfolding V3_def reps_num by simp
  have "unat (lfs_popc64 V) = unat (V3 * 0x0101010101010101) div 2 ^ 56"
    unfolding lfs_popc64_def Let_def V1_def [symmetric] V2_def [symmetric] V3_def [symmetric]
    by (simp only: unat_drop_bit_eq) (simp only: drop_bit_eq_div)
  also have "\<dots> = pop 64 ?n"
    using popC_mult[of ?n] by (simp only: unat_word_ariths 3) simp
  finally have "unat (lfs_popc64 V) = card {i. i < 64 \<and> bit ?n i}" by (simp add: pop_eq_card)
  moreover have "bit ?n i = bit V i" for i
    by (auto simp: bit_unsigned_iff dest: bit_imp_le_length)
  ultimately show ?thesis by simp
qed

subsection \<open>Trailing zeros\<close>

lemma lfs_ctz64_char:
  assumes "V \<noteq> 0"
  obtains i where "lfs_ctz64 V = of_nat i" "i < 64" "bit V i" "\<And>k. k < i \<Longrightarrow> \<not> bit V k"
proof -
  have t: "V AND push_bit k 1 \<noteq> 0 \<longleftrightarrow> bit V k" for k
    by (simp add: bit_iff_and_push_bit_not_eq_0)
  obtain j where j: "bit V j" "j < 64"
    using assms by (auto simp: bit_eq_iff dest: bit_imp_le_length)
  then have "\<exists>k<64. V AND push_bit k 1 \<noteq> 0"
    using t by blast
  then have "find (\<lambda>result. V AND push_bit result 1 \<noteq> 0) [0..<64] \<noteq> None"
    by (auto simp: find_None_iff simp del: push_bit_of_1)
  then obtain i where i: "find (\<lambda>result. V AND push_bit result 1 \<noteq> 0) [0..<64] = Some i" by blast
  then obtain p where p: "p < 64" "bit V ([0..<64] ! p)" "i = [0..<64] ! p" "\<And>q. q < p \<Longrightarrow> \<not> bit V ([0..<64] ! q)"
    unfolding find_Some_iff t by auto
  then have "i = p" by simp
  moreover have "lfs_ctz64 V = of_nat i" unfolding lfs_ctz64_def i by simp
  ultimately show thesis using that[of i] p by simp
qed

lemma lfs_ctz64_0 [simp]: "lfs_ctz64 0 = 0"
  by (simp add: lfs_ctz64_def find_None_iff split: option.split) (metis find_None_iff option.distinct(1))

lemma unat_lfs_ctz64:
  assumes "V \<noteq> 0"
  shows "unat (lfs_ctz64 V) < 64" "bit V (unat (lfs_ctz64 V))" "k < unat (lfs_ctz64 V) \<Longrightarrow> \<not> bit V k"
proof -
  obtain i where i: "lfs_ctz64 V = of_nat i" "i < 64" "bit V i" "\<And>k. k < i \<Longrightarrow> \<not> bit V k"
    using lfs_ctz64_char[OF assms] by blast
  have "unat (lfs_ctz64 V) = i"
    using i(2) unfolding i(1) by (simp add: unat_of_nat)
  with i show "unat (lfs_ctz64 V) < 64" "bit V (unat (lfs_ctz64 V))" "k < unat (lfs_ctz64 V) \<Longrightarrow> \<not> bit V k"
    by simp_all
qed

subsection \<open>Next power of two\<close>

lemma builtin_clz_char:
  fixes w :: "'a::len word"
  assumes "w \<noteq> 0"
  obtains k where "k < LENGTH('a)" "builtin_clz w = LENGTH('a) - Suc k" "2 ^ k \<le> unat w" "unat w < 2 ^ Suc k"
proof -
  define k where "k = Max {i. i < LENGTH('a) \<and> bit w i}"
  have ne: "{i. i < LENGTH('a) \<and> bit w i} \<noteq> {}"
    using assms by (auto simp: bit_eq_iff dest: bit_imp_le_length)
  have k: "k < LENGTH('a)" "bit w k"
    using Max_in[OF _ ne] unfolding k_def by auto
  have hi: "\<not> bit w i" if "k < i" for i
  proof
    assume b: "bit w i"
    then have "i \<le> k"
      unfolding k_def by (intro Max_ge) (auto dest: bit_imp_le_length)
    with that show False by simp
  qed
  have s: "rev [0..<LENGTH('a)] = rev [Suc k..<LENGTH('a)] @ k # rev [0..<k]"
    using k(1) upt_add_eq_append[of 0 k "LENGTH('a) - k"] by (simp add: upt_conv_Cons)
  have "builtin_clz w = LENGTH('a) - Suc k"
    unfolding builtin_clz_def s using k(2) hi
    by (subst takeWhile_append2) auto
  moreover have "unat w < 2 ^ Suc k"
  proof -
    have "take_bit (Suc k) w = w"
      using hi by (auto intro!: bit_word_eqI simp: bit_take_bit_iff less_Suc_eq_le) (meson not_le)
    then have "take_bit (Suc k) (unat w) = unat w" by (metis unsigned_take_bit_eq)
    then show ?thesis by (metis take_bit_nat_less_exp)
  qed
  moreover have "2 ^ k \<le> unat w"
  proof (rule ccontr)
    assume "\<not> 2 ^ k \<le> unat w"
    then have "unat w div 2 ^ k = 0" by simp
    then have "\<not> bit (unat w) k" by (simp add: bit_iff_odd)
    then show False using k by (simp add: bit_unsigned_iff)
  qed
  ultimately show thesis using that k(1) by blast
qed

lemma unat_lfs_npw2_64:
  assumes "1 < a"
  shows "0 < unat (lfs_npw2_64 a)" "unat a \<le> 2 ^ unat (lfs_npw2_64 a)" "2 ^ (unat (lfs_npw2_64 a) - 1) < unat a"
proof -
  have a: "a - 1 \<noteq> 0" "a \<noteq> 1" using assms by auto
  obtain k where k: "k < 64" "builtin_clz (a - 1) = 64 - Suc k" "2 ^ k \<le> unat (a - 1)" "unat (a - 1) < 2 ^ Suc k"
    using builtin_clz_char[OF a(1)] by auto
  have "lfs_npw2_64 a = of_nat (Suc k)"
    using k(1,2) a(2) by (simp add: lfs_npw2_64_def of_nat_diff)
  then have r: "unat (lfs_npw2_64 a) = Suc k"
    using k(1) by (simp only: unat_of_nat) simp
  have u: "unat (a - 1) = unat a - 1" "1 < unat a"
  proof -
    show "1 < unat a" using assms by (simp add: word_less_nat_alt)
    have "a \<noteq> 0" using assms by auto
    then show "unat (a - 1) = unat a - 1" by (rule unat_minus_one)
  qed
  from k(3,4) u show "0 < unat (lfs_npw2_64 a)" "unat a \<le> 2 ^ unat (lfs_npw2_64 a)"
    "2 ^ (unat (lfs_npw2_64 a) - 1) < unat a"
    unfolding r by simp_all
qed

subsection \<open>Byte order\<close>

lemma bswap_masks:
  "0x000000FF = (mask 8 :: u32)" "0x0000FF00 = push_bit 8 (mask 8 :: u32)"
  "0x00FF0000 = push_bit 16 (mask 8 :: u32)" "0xFF000000 = push_bit 24 (mask 8 :: u32)"
  by (simp_all add: mask_eq_exp_minus_1 push_bit_eq_mult)

lemma le_bytes_4: "le_bytes 4 w = [ucast w, ucast (drop_bit 8 w), ucast (drop_bit 16 w), ucast (drop_bit 24 w)]"
  by (simp add: eval_nat_numeral drop_bit_drop_bit)

lemma bswap32_bytes: "le_bytes 4 (lfs_bswap32 a) = rev (le_bytes 4 a)"
  unfolding lfs_bswap32_def bswap_masks le_bytes_4 rev.simps append.simps list.inject
  by (intro conjI bit_word_eqI; simp only: bit_simps) (auto simp: bit_simps)

subsection \<open>Alignment\<close>

lemma unat_lfs_aligndown: "unat (lfs_aligndown a n) = unat a - unat a mod unat n"
proof -
  have "a mod n \<le> a" by (simp add: word_le_nat_alt unat_mod)
  then show ?thesis by (simp add: lfs_aligndown_def unat_sub unat_mod)
qed

lemma unat_lfs_alignup:
  assumes "0 < n" "unat a + unat n \<le> 2 ^ 64"
  shows "unat (lfs_alignup a n) = (unat a + unat n - 1) div unat n * unat n"
proof -
  have n: "0 < unat n" using assms(1) by (simp add: word_less_nat_alt)
  have "unat (a + n - 1) = unat a + unat n - 1"
  proof -
    have "a + n - 1 = of_nat (unat a + unat n - 1)"
      using n by (simp add: of_nat_diff)
    then show ?thesis using assms(2) n by (simp only: unat_of_nat) simp
  qed
  then show ?thesis
    unfolding lfs_alignup_def unat_lfs_aligndown
    by (simp add: minus_mod_eq_div_mult)
qed

end
