(* ===== verification/BlockDevice.thy ===== *)
theory BlockDevice
  imports Bits
begin

text \<open>
  The block devices of \<open>include/lfs_block_device.h\<close>: the interface \<open>IBlockDevice\<close> as a record of
  its virtual functions, the memory and host-file devices, and the decorators that scramble, count
  and fail. A decorator is a function from the operations of the device it wraps to its own, over a
  state that holds the wrapped state.

  What a client may rely on is stated by three locales. A \<open>readable_device\<close> returns what it holds;
  a \<open>block_device\<close> also holds what was last written to it, unless it reports an error; a
  \<open>reliable_device\<close> reports none. The memory device is reliable, the scrambler and the counter keep
  whatever contract the device below them has, and a device that injects faults is a \<open>block_device\<close>
  until it is told to corrupt a write, and a \<open>readable_device\<close> always.
\<close>

subsection \<open>The interface\<close>

record 'd IBlockDevice =
  bd_read :: "'d \<Rightarrow> lfs_block_t \<Rightarrow> lfs_off_t \<Rightarrow> u8 list \<Rightarrow> unit result \<times> u8 list \<times> 'd"
  bd_write :: "'d \<Rightarrow> lfs_block_t \<Rightarrow> lfs_off_t \<Rightarrow> u8 list \<Rightarrow> unit result \<times> 'd"
  bd_erase :: "'d \<Rightarrow> lfs_block_t \<Rightarrow> unit result \<times> 'd"
  bd_sync :: "'d \<Rightarrow> unit result \<times> 'd"
  bd_allocate_block :: "'d \<Rightarrow> unit result \<times> 'd"
  bd_get_block_size :: "'d \<Rightarrow> lfs_size_t"
  bd_get_block_count :: "'d \<Rightarrow> lfs_size_t"
  bd_set_block_count :: "'d \<Rightarrow> lfs_size_t \<Rightarrow> 'd"

definition IBlockDevice_allocate_block :: "'d \<Rightarrow> unit result \<times> 'd" where
  "IBlockDevice_allocate_block d = (Inl (Err LFS_ERR_NOSPC), d)"

text \<open>\<open>std::vector::resize\<close>.\<close>

definition vector_resize :: "nat \<Rightarrow> 'a \<Rightarrow> 'a list \<Rightarrow> 'a list" where
  "vector_resize n v xs = take n xs @ replicate (n - length xs) v"

lemma length_vector_resize [simp]: "length (vector_resize n v xs) = n"
  by (simp add: vector_resize_def)

subsection \<open>The memory device\<close>

record memory_device =
  md_block_size :: lfs_size_t
  md_block_count :: lfs_size_t
  md_storage :: "u8 list"

definition MemoryBlockDevice :: "lfs_size_t \<Rightarrow> lfs_size_t \<Rightarrow> memory_device" where
  "MemoryBlockDevice block_size block_count =
     \<lparr>md_block_size = block_size, md_block_count = block_count,
      md_storage = vector_resize (unat (block_size * block_count)) 0xFF []\<rparr>"

definition memory_read :: "memory_device \<Rightarrow> lfs_block_t \<Rightarrow> lfs_off_t \<Rightarrow> u8 list \<Rightarrow> unit result \<times> u8 list \<times> memory_device" where
  "memory_read d block off buffer =
     (if md_block_count d \<le> block \<or> md_block_size d < off + of_nat (length buffer)
      then (Inl (Err LFS_ERR_IO), buffer, d)
      else case mem_get (md_storage d) (unat (block * md_block_size d + off)) (length buffer) of
        Inl h \<Rightarrow> (Inl h, buffer, d)
      | Inr data \<Rightarrow> (Inr (), data, d))"

definition memory_write :: "memory_device \<Rightarrow> lfs_block_t \<Rightarrow> lfs_off_t \<Rightarrow> u8 list \<Rightarrow> unit result \<times> memory_device" where
  "memory_write d block off buffer =
     (if md_block_count d \<le> block \<or> md_block_size d < off + of_nat (length buffer)
      then (Inl (Err LFS_ERR_IO), d)
      else case mem_put (md_storage d) (unat (block * md_block_size d + off)) buffer of
        Inl h \<Rightarrow> (Inl h, d)
      | Inr st \<Rightarrow> (Inr (), d\<lparr>md_storage := st\<rparr>))"

definition memory_erase :: "memory_device \<Rightarrow> lfs_block_t \<Rightarrow> unit result \<times> memory_device" where
  "memory_erase d block =
     (if md_block_count d \<le> block then (Inl (Err LFS_ERR_IO), d)
      else case mem_put (md_storage d) (unat (block * md_block_size d)) (replicate (unat (md_block_size d)) 0xFF) of
        Inl h \<Rightarrow> (Inl h, d)
      | Inr st \<Rightarrow> (Inr (), d\<lparr>md_storage := st\<rparr>))"

definition memory_sync :: "memory_device \<Rightarrow> unit result \<times> memory_device" where
  "memory_sync d = (Inr (), d)"

definition memory_allocate_block :: "memory_device \<Rightarrow> unit result \<times> memory_device" where
  "memory_allocate_block d =
     (let new_count = md_block_count d + 8
      in (Inr (), d\<lparr>md_storage := vector_resize (unat (md_block_size d * new_count)) 0xFF (md_storage d),
                    md_block_count := new_count\<rparr>))"

definition memory_set_block_count :: "memory_device \<Rightarrow> lfs_size_t \<Rightarrow> memory_device" where
  "memory_set_block_count d count =
     d\<lparr>md_block_count := count,
       md_storage := vector_resize (unat (md_block_size d * count)) 0xFF (md_storage d)\<rparr>"

definition memory_ops :: "memory_device IBlockDevice" where
  "memory_ops =
     \<lparr>bd_read = memory_read, bd_write = memory_write, bd_erase = memory_erase, bd_sync = memory_sync,
      bd_allocate_block = memory_allocate_block, bd_get_block_size = md_block_size,
      bd_get_block_count = md_block_count, bd_set_block_count = memory_set_block_count\<rparr>"

subsection \<open>The host-file device\<close>

text \<open>
  A \<open>FILE*\<close> opened for update is the content of the file and the number of bytes the host has room
  for. \<open>fseeko\<close> refuses a negative position, \<open>fread\<close> stops at the end of the file, \<open>fwrite\<close> stops
  when the host is full and fills the gap up to the position with zero bytes.
\<close>

record host_file =
  hf_content :: "u8 list"
  hf_capacity :: nat

definition host_fread :: "host_file \<Rightarrow> nat \<Rightarrow> nat \<Rightarrow> u8 list" where
  "host_fread f pos n = take n (drop pos (hf_content f))"

definition host_fwrite :: "host_file \<Rightarrow> nat \<Rightarrow> u8 list \<Rightarrow> nat \<times> host_file" where
  "host_fwrite f pos bs =
     (let n = min (length bs) (hf_capacity f - pos)
      in (n, if n = 0 then f
             else f\<lparr>hf_content := blit pos (take n bs) (vector_resize (max (pos + n) (length (hf_content f))) 0 (hf_content f))\<rparr>))"

record file_device =
  fd_block_size :: lfs_size_t
  fd_block_count :: lfs_size_t
  fd_file :: "host_file option"

definition lfs_fseek64 :: "u64 \<Rightarrow> nat option" where
  "lfs_fseek64 offset = (if sint offset < 0 then None else Some (unat offset))"

definition grow_file_to_blocks :: "file_device \<Rightarrow> lfs_size_t \<Rightarrow> bool \<times> file_device" where
  "grow_file_to_blocks d blocks =
     (case fd_file d of None \<Rightarrow> (False, d)
      | Some f \<Rightarrow> (case lfs_fseek64 (blocks * fd_block_size d - 1) of None \<Rightarrow> (False, d)
        | Some pos \<Rightarrow> (let (n, f) = host_fwrite f pos [0]
            in (n = 1, d\<lparr>fd_file := Some f\<rparr>))))"

text \<open>The constructor, given what \<open>fopen\<close> found: no file, or a file with its content.\<close>

definition FileBlockDevice :: "host_file option \<Rightarrow> lfs_size_t \<Rightarrow> lfs_size_t \<Rightarrow> bool \<Rightarrow> file_device" where
  "FileBlockDevice opened block_size initial_blocks truncate_new =
     (let d = \<lparr>fd_block_size = block_size, fd_block_count = initial_blocks, fd_file = opened\<rparr>
      in case opened of None \<Rightarrow> d
         | Some f \<Rightarrow>
             (if truncate_new then snd (grow_file_to_blocks d initial_blocks)
              else let fsize = length (hf_content f)
                   in if 0 < fsize \<and> unat block_size \<le> fsize
                      then d\<lparr>fd_block_count := of_nat (fsize div unat block_size)\<rparr>
                      else snd (grow_file_to_blocks d initial_blocks)))"

definition file_read :: "file_device \<Rightarrow> lfs_block_t \<Rightarrow> lfs_off_t \<Rightarrow> u8 list \<Rightarrow> unit result \<times> u8 list \<times> file_device" where
  "file_read d block off buffer =
     (case fd_file d of None \<Rightarrow> (Inl (Err LFS_ERR_IO), buffer, d)
      | Some f \<Rightarrow>
        if fd_block_count d \<le> block \<or> fd_block_size d < off + of_nat (length buffer)
        then (Inl (Err LFS_ERR_IO), buffer, d)
        else case lfs_fseek64 (block * fd_block_size d + off) of None \<Rightarrow> (Inl (Err LFS_ERR_IO), buffer, d)
        | Some pos \<Rightarrow>
          (let bs = host_fread f pos (length buffer)
           in (if length bs = length buffer then Inr () else Inl (Err LFS_ERR_IO), blit 0 bs buffer, d)))"

definition file_write :: "file_device \<Rightarrow> lfs_block_t \<Rightarrow> lfs_off_t \<Rightarrow> u8 list \<Rightarrow> unit result \<times> file_device" where
  "file_write d block off buffer =
     (case fd_file d of None \<Rightarrow> (Inl (Err LFS_ERR_IO), d)
      | Some f \<Rightarrow>
        if fd_block_count d \<le> block \<or> fd_block_size d < off + of_nat (length buffer)
        then (Inl (Err LFS_ERR_IO), d)
        else case lfs_fseek64 (block * fd_block_size d + off) of None \<Rightarrow> (Inl (Err LFS_ERR_IO), d)
        | Some pos \<Rightarrow>
          (let (n, f) = host_fwrite f pos buffer
           in (if n = length buffer then Inr () else Inl (Err LFS_ERR_IO), d\<lparr>fd_file := Some f\<rparr>)))"

definition file_erase :: "file_device \<Rightarrow> lfs_block_t \<Rightarrow> unit result \<times> file_device" where
  "file_erase d block = (Inr (), d)"

definition file_sync :: "file_device \<Rightarrow> unit result \<times> file_device" where
  "file_sync d = (case fd_file d of None \<Rightarrow> (Inl (Err LFS_ERR_IO), d) | Some f \<Rightarrow> (Inr (), d))"

definition file_allocate_block :: "file_device \<Rightarrow> unit result \<times> file_device" where
  "file_allocate_block d =
     (let new_count = fd_block_count d + 8;
          (ok, d) = grow_file_to_blocks d new_count
      in if ok then (Inr (), d\<lparr>fd_block_count := new_count\<rparr>) else (Inl (Err LFS_ERR_NOSPC), d))"

definition file_set_block_count :: "file_device \<Rightarrow> lfs_size_t \<Rightarrow> file_device" where
  "file_set_block_count d count = snd (grow_file_to_blocks (d\<lparr>fd_block_count := count\<rparr>) count)"

definition file_ops :: "file_device IBlockDevice" where
  "file_ops =
     \<lparr>bd_read = file_read, bd_write = file_write, bd_erase = file_erase, bd_sync = file_sync,
      bd_allocate_block = file_allocate_block, bd_get_block_size = fd_block_size,
      bd_get_block_count = fd_block_count, bd_set_block_count = file_set_block_count\<rparr>"

subsection \<open>Decorators\<close>

text \<open>The base decorator forwards every call to the device it wraps, field \<open>decorated\<close> of its state.\<close>

record 'd decorator =
  decorated :: 'd

definition decorator_ops :: "'d IBlockDevice \<Rightarrow> ('d, 'x) decorator_scheme IBlockDevice" where
  "decorator_ops u =
     \<lparr>bd_read = (\<lambda>d block off buffer. let (r, buf, d') = bd_read u (decorated d) block off buffer in (r, buf, d\<lparr>decorated := d'\<rparr>)),
      bd_write = (\<lambda>d block off buffer. let (r, d') = bd_write u (decorated d) block off buffer in (r, d\<lparr>decorated := d'\<rparr>)),
      bd_erase = (\<lambda>d block. let (r, d') = bd_erase u (decorated d) block in (r, d\<lparr>decorated := d'\<rparr>)),
      bd_sync = (\<lambda>d. let (r, d') = bd_sync u (decorated d) in (r, d\<lparr>decorated := d'\<rparr>)),
      bd_allocate_block = (\<lambda>d. let (r, d') = bd_allocate_block u (decorated d) in (r, d\<lparr>decorated := d'\<rparr>)),
      bd_get_block_size = (\<lambda>d. bd_get_block_size u (decorated d)),
      bd_get_block_count = (\<lambda>d. bd_get_block_count u (decorated d)),
      bd_set_block_count = (\<lambda>d count. d\<lparr>decorated := bd_set_block_count u (decorated d) count\<rparr>)\<rparr>"

text \<open>Scrambling.\<close>

record 'd crypto_device = "'d decorator" +
  cr_key :: u64

definition crypto_mask :: "u64 \<Rightarrow> lfs_block_t \<Rightarrow> lfs_off_t \<Rightarrow> u8" where
  "crypto_mask key block pos =
     (let block_key = key XOR (block * 0x9E3779B97F4A7C15);
          key_byte = ucast (drop_bit (unat ((pos mod 8) * 8)) block_key AND 0xFF)
      in key_byte XOR ucast ((pos * 37) AND 0xFF))"

definition crypto_transform :: "u64 \<Rightarrow> lfs_block_t \<Rightarrow> lfs_off_t \<Rightarrow> u8 list \<Rightarrow> u8 list" where
  "crypto_transform key block off data =
     map (\<lambda>i. data ! i XOR crypto_mask key block (off + of_nat i)) [0..<length data]"

definition crypto_read :: "'d IBlockDevice \<Rightarrow> ('d, 'x) crypto_device_scheme \<Rightarrow> lfs_block_t \<Rightarrow> lfs_off_t \<Rightarrow> u8 list \<Rightarrow> unit result \<times> u8 list \<times> ('d, 'x) crypto_device_scheme" where
  "crypto_read u d block off buffer =
     (let (res, buffer, d') = bd_read u (decorated d) block off buffer
      in (res, if res = Inr () then crypto_transform (cr_key d) block off buffer else buffer, d\<lparr>decorated := d'\<rparr>))"

definition crypto_write :: "'d IBlockDevice \<Rightarrow> ('d, 'x) crypto_device_scheme \<Rightarrow> lfs_block_t \<Rightarrow> lfs_off_t \<Rightarrow> u8 list \<Rightarrow> unit result \<times> ('d, 'x) crypto_device_scheme" where
  "crypto_write u d block off buffer =
     (let encrypted = crypto_transform (cr_key d) block off buffer;
          (res, d') = bd_write u (decorated d) block off encrypted
      in (res, d\<lparr>decorated := d'\<rparr>))"

definition crypto_ops :: "'d IBlockDevice \<Rightarrow> 'd crypto_device IBlockDevice" where
  "crypto_ops u = (decorator_ops u)\<lparr>bd_read := crypto_read u, bd_write := crypto_write u\<rparr>"

text \<open>Statistics.\<close>

record 'd statistics_device = "'d decorator" +
  st_reads_count :: u64
  st_writes_count :: u64
  st_erases_count :: u64
  st_syncs_count :: u64
  st_bytes_read :: u64
  st_bytes_written :: u64

definition statistics_read :: "'d IBlockDevice \<Rightarrow> 'd statistics_device \<Rightarrow> lfs_block_t \<Rightarrow> lfs_off_t \<Rightarrow> u8 list \<Rightarrow> unit result \<times> u8 list \<times> 'd statistics_device" where
  "statistics_read u d block off buffer =
     (let d = d\<lparr>st_reads_count := st_reads_count d + 1, st_bytes_read := st_bytes_read d + of_nat (length buffer)\<rparr>;
          (res, buffer, d') = bd_read u (decorated d) block off buffer
      in (res, buffer, d\<lparr>decorated := d'\<rparr>))"

definition statistics_write :: "'d IBlockDevice \<Rightarrow> 'd statistics_device \<Rightarrow> lfs_block_t \<Rightarrow> lfs_off_t \<Rightarrow> u8 list \<Rightarrow> unit result \<times> 'd statistics_device" where
  "statistics_write u d block off buffer =
     (let d = d\<lparr>st_writes_count := st_writes_count d + 1, st_bytes_written := st_bytes_written d + of_nat (length buffer)\<rparr>;
          (res, d') = bd_write u (decorated d) block off buffer
      in (res, d\<lparr>decorated := d'\<rparr>))"

definition statistics_erase :: "'d IBlockDevice \<Rightarrow> 'd statistics_device \<Rightarrow> lfs_block_t \<Rightarrow> unit result \<times> 'd statistics_device" where
  "statistics_erase u d block =
     (let d = d\<lparr>st_erases_count := st_erases_count d + 1\<rparr>;
          (res, d') = bd_erase u (decorated d) block
      in (res, d\<lparr>decorated := d'\<rparr>))"

definition statistics_sync :: "'d IBlockDevice \<Rightarrow> 'd statistics_device \<Rightarrow> unit result \<times> 'd statistics_device" where
  "statistics_sync u d =
     (let d = d\<lparr>st_syncs_count := st_syncs_count d + 1\<rparr>;
          (res, d') = bd_sync u (decorated d)
      in (res, d\<lparr>decorated := d'\<rparr>))"

definition statistics_reset :: "'d statistics_device \<Rightarrow> 'd statistics_device" where
  "statistics_reset d =
     d\<lparr>st_reads_count := 0, st_writes_count := 0, st_erases_count := 0, st_syncs_count := 0,
       st_bytes_read := 0, st_bytes_written := 0\<rparr>"

definition statistics_ops :: "'d IBlockDevice \<Rightarrow> 'd statistics_device IBlockDevice" where
  "statistics_ops u =
     (decorator_ops u)\<lparr>bd_read := statistics_read u, bd_write := statistics_write u,
        bd_erase := statistics_erase u, bd_sync := statistics_sync u\<rparr>"

text \<open>Fault injection. Both counters are a C++ \<open>int\<close>, read as signed.\<close>

record 'd fault_device = "'d decorator" +
  fi_fail_after_writes :: "32 word"
  fi_write_count :: "32 word"
  fi_corrupt_next_write :: bool

definition FaultInjectBlockDevice :: "'d \<Rightarrow> 'd fault_device" where
  "FaultInjectBlockDevice underlying =
     \<lparr>decorated = underlying, fi_fail_after_writes = - 1, fi_write_count = 0, fi_corrupt_next_write = False\<rparr>"

definition set_fail_after_writes :: "'d fault_device \<Rightarrow> 32 word \<Rightarrow> 'd fault_device" where
  "set_fail_after_writes d count = d\<lparr>fi_fail_after_writes := count, fi_write_count := 0\<rparr>"

definition set_corrupt_next_write :: "'d fault_device \<Rightarrow> bool \<Rightarrow> 'd fault_device" where
  "set_corrupt_next_write d corrupt = d\<lparr>fi_corrupt_next_write := corrupt\<rparr>"

definition fault_spent :: "'d fault_device \<Rightarrow> bool" where
  "fault_spent d \<longleftrightarrow> 0 \<le> sint (fi_fail_after_writes d) \<and> sint (fi_fail_after_writes d) \<le> sint (fi_write_count d)"

fun corrupt_first :: "u8 list \<Rightarrow> u8 list" where
  "corrupt_first [] = []"
| "corrupt_first (b # bs) = (b XOR 0xFF) # bs"

definition fault_write :: "'d IBlockDevice \<Rightarrow> 'd fault_device \<Rightarrow> lfs_block_t \<Rightarrow> lfs_off_t \<Rightarrow> u8 list \<Rightarrow> unit result \<times> 'd fault_device" where
  "fault_write u d block off buffer =
     (if fault_spent d then (Inl (Err LFS_ERR_IO), d)
      else
        let d = d\<lparr>fi_write_count := fi_write_count d + 1\<rparr>
        in if fi_corrupt_next_write d
           then let d = d\<lparr>fi_corrupt_next_write := False\<rparr>;
                    (res, d') = bd_write u (decorated d) block off (corrupt_first buffer)
                in (res, d\<lparr>decorated := d'\<rparr>)
           else let (res, d') = bd_write u (decorated d) block off buffer
                in (res, d\<lparr>decorated := d'\<rparr>))"

definition fault_sync :: "'d IBlockDevice \<Rightarrow> 'd fault_device \<Rightarrow> unit result \<times> 'd fault_device" where
  "fault_sync u d =
     (if fault_spent d then (Inl (Err LFS_ERR_IO), d)
      else let (res, d') = bd_sync u (decorated d) in (res, d\<lparr>decorated := d'\<rparr>))"

definition fault_ops :: "'d IBlockDevice \<Rightarrow> 'd fault_device IBlockDevice" where
  "fault_ops u = (decorator_ops u)\<lparr>bd_write := fault_write u, bd_sync := fault_sync u\<rparr>"

subsection \<open>What a client may rely on\<close>

text \<open>
  \<open>content d b\<close> is what the device in state \<open>d\<close> holds in block \<open>b\<close>; \<open>inv\<close> says that the device is
  in working order. A device that fails still reports it as an error.
\<close>

locale readable_device =
  fixes ops :: "'d IBlockDevice"
    and inv :: "'d \<Rightarrow> bool"
    and bsize bcount :: nat
    and content :: "'d \<Rightarrow> nat \<Rightarrow> u8 list"
  assumes bounds: "inv d \<Longrightarrow> bsize < 2 ^ 64 \<and> bcount < 2 ^ 64"
    and length_content: "inv d \<Longrightarrow> k < bcount \<Longrightarrow> length (content d k) = bsize"
    and read_law: "inv d \<Longrightarrow> unat b < bcount \<Longrightarrow> unat off + length buf \<le> bsize \<Longrightarrow>
      bd_read ops d b off buf = (r, buf', d') \<Longrightarrow>
      inv d' \<and> content d' = content d \<and> length buf' = length buf \<and> returns r \<and>
      (r = Inr () \<longrightarrow> buf' = take (length buf) (drop (unat off) (content d (unat b))))"
    and write_inv: "inv d \<Longrightarrow> unat b < bcount \<Longrightarrow> unat off + length data \<le> bsize \<Longrightarrow>
      bd_write ops d b off data = (r, d') \<Longrightarrow>
      inv d' \<and> returns r \<and> (\<forall>b'. b' < bcount \<longrightarrow> b' \<noteq> unat b \<longrightarrow> content d' b' = content d b')"
    and erase_inv: "inv d \<Longrightarrow> unat b < bcount \<Longrightarrow> bd_erase ops d b = (r, d') \<Longrightarrow>
      inv d' \<and> returns r \<and> (\<forall>b'. b' < bcount \<longrightarrow> b' \<noteq> unat b \<longrightarrow> content d' b' = content d b')"
    and sync_inv: "inv d \<Longrightarrow> bd_sync ops d = (r, d') \<Longrightarrow> inv d' \<and> returns r \<and> content d' = content d"

locale block_device = readable_device ops inv bsize bcount content
  for ops :: "'d IBlockDevice" and inv :: "'d \<Rightarrow> bool" and bsize bcount :: nat and content :: "'d \<Rightarrow> nat \<Rightarrow> u8 list" +
  assumes write_law: "inv d \<Longrightarrow> unat b < bcount \<Longrightarrow> unat off + length data \<le> bsize \<Longrightarrow>
      bd_write ops d b off data = (Inr (), d') \<Longrightarrow>
      content d' (unat b) = blit (unat off) data (content d (unat b))"

locale reliable_device = block_device ops inv bsize bcount content
  for ops :: "'d IBlockDevice" and inv :: "'d \<Rightarrow> bool" and bsize bcount :: nat and content :: "'d \<Rightarrow> nat \<Rightarrow> u8 list" +
  assumes read_ok: "inv d \<Longrightarrow> unat b < bcount \<Longrightarrow> unat off + length buf \<le> bsize \<Longrightarrow> fst (bd_read ops d b off buf) = Inr ()"
    and write_ok: "inv d \<Longrightarrow> unat b < bcount \<Longrightarrow> unat off + length data \<le> bsize \<Longrightarrow> fst (bd_write ops d b off data) = Inr ()"
    and erase_ok: "inv d \<Longrightarrow> unat b < bcount \<Longrightarrow> fst (bd_erase ops d b) = Inr ()"
    and sync_ok: "inv d \<Longrightarrow> fst (bd_sync ops d) = Inr ()"

subsection \<open>The memory device keeps the contract\<close>

definition memory_inv :: "lfs_size_t \<Rightarrow> lfs_size_t \<Rightarrow> memory_device \<Rightarrow> bool" where
  "memory_inv bs bc d \<longleftrightarrow> md_block_size d = bs \<and> md_block_count d = bc \<and>
     unat bs * unat bc < 2 ^ 64 \<and> length (md_storage d) = unat bs * unat bc"

definition memory_content :: "memory_device \<Rightarrow> nat \<Rightarrow> u8 list" where
  "memory_content d b = take (unat (md_block_size d)) (drop (b * unat (md_block_size d)) (md_storage d))"

lemma block_range:
  assumes "b < (n::nat)" "k \<le> m"
  shows "b * m + k \<le> m * n"
proof -
  have "b * m + k \<le> Suc b * m" using assms(2) by simp
  also have "\<dots> \<le> n * m" using assms(1) by (intro mult_le_mono1) simp
  finally show ?thesis by (simp add: mult.commute)
qed

lemma block_address:
  fixes b bs bc off :: u64
  assumes "unat b < unat bc" "unat off + n \<le> unat bs" "unat bs * unat bc < 2 ^ 64"
  shows "unat (b * bs + off) = unat b * unat bs + unat off" "unat (off + of_nat n) = unat off + n"
    "\<not> bc \<le> b" "\<not> bs < off + of_nat n" "unat b * unat bs + (unat off + n) \<le> unat bs * unat bc"
proof -
  show r: "unat b * unat bs + (unat off + n) \<le> unat bs * unat bc"
    using assms by (intro block_range)
  have "b * bs + off = of_nat (unat b * unat bs + unat off)" by simp
  moreover have "unat b * unat bs + unat off < 2 ^ 64" using r assms(3) by linarith
  ultimately show "unat (b * bs + off) = unat b * unat bs + unat off"
    by (simp only: unat_of_nat) simp
  have "off + of_nat n = of_nat (unat off + n)" by simp
  moreover have "unat off + n < 2 ^ 64" using assms(2) unat_u64_less(1)[of bs] by linarith
  ultimately show u: "unat (off + of_nat n) = unat off + n"
    by (simp only: unat_of_nat) simp
  show "\<not> bc \<le> b" using assms(1) by (simp add: word_le_nat_alt)
  show "\<not> bs < off + of_nat n" using assms(2) by (simp add: word_less_nat_alt u)
qed

lemma blit_block:
  assumes "b * bs + (k + length data) \<le> length st" "k + length data \<le> bs" "b' * bs + bs \<le> length st" "b * bs + bs \<le> length st"
  shows "take bs (drop (b' * bs) (blit (b * bs + k) data st)) =
    (if b' = b then blit k data (take bs (drop (b * bs) st)) else take bs (drop (b' * bs) st))"
proof (rule nth_equalityI)
  let ?t = "blit (b * bs + k) data st"
  have l: "length ?t = length st" using assms(1) by simp
  show "length (take bs (drop (b' * bs) ?t)) = length (if b' = b then blit k data (take bs (drop (b * bs) st)) else take bs (drop (b' * bs) st))"
    using assms l by simp
  fix i
  assume "i < length (take bs (drop (b' * bs) ?t))"
  then have i: "i < bs" "b' * bs + i < length st" using l assms(3) by simp_all
  have n: "take bs (drop (b' * bs) ?t) ! i = ?t ! (b' * bs + i)"
    using i assms(3) l by simp
  show "take bs (drop (b' * bs) ?t) ! i =
      (if b' = b then blit k data (take bs (drop (b * bs) st)) else take bs (drop (b' * bs) st)) ! i"
  proof (cases "b' = b")
    case True
    then show ?thesis using i assms unfolding n by (simp add: nth_blit)
  next
    case False
    have "\<not> (b * bs + k \<le> b' * bs + i \<and> b' * bs + i < b * bs + k + length data)"
    proof
      assume a: "b * bs + k \<le> b' * bs + i \<and> b' * bs + i < b * bs + k + length data"
      then have "b * bs \<le> b' * bs + i" "b' * bs + i < b * bs + bs" using assms(2) by linarith+
      then have "(b' * bs + i) div bs = b" by (intro div_nat_eqI) (simp_all add: mult.commute)
      moreover have "(b' * bs + i) div bs = b'" using i(1) by simp
      ultimately show False using False by simp
    qed
    moreover have "b * bs + k + length data \<le> length st" using assms(1) by simp
    ultimately have "?t ! (b' * bs + i) = st ! (b' * bs + i)" using i(2) by (simp only: nth_blit) simp
    with False show ?thesis using i assms unfolding n by simp
  qed
qed

lemma memory_put_block:
  fixes b off bs bc :: u64
  assumes "memory_inv bs bc d" "unat b < unat bc" "unat off + length data \<le> unat bs"
  defines "st \<equiv> blit (unat b * unat bs + unat off) data (md_storage d)"
  shows "mem_put (md_storage d) (unat b * unat bs + unat off) data = Inr st"
    "memory_inv bs bc (d\<lparr>md_storage := st\<rparr>)"
    "k < unat bc \<Longrightarrow> k \<noteq> unat b \<Longrightarrow> memory_content (d\<lparr>md_storage := st\<rparr>) k = memory_content d k"
    "memory_content (d\<lparr>md_storage := st\<rparr>) (unat b) = blit (unat off) data (memory_content d (unat b))"
proof -
  have i: "md_block_size d = bs" "md_block_count d = bc" "unat bs * unat bc < 2 ^ 64" "length (md_storage d) = unat bs * unat bc"
    using assms(1) by (simp_all add: memory_inv_def)
  have r: "unat b * unat bs + (unat off + length data) \<le> length (md_storage d)"
    using block_address(5)[OF assms(2,3) i(3)] i(4) by simp
  have s: "k * unat bs + unat bs \<le> length (md_storage d)" if "k < unat bc" for k
    using block_range[OF that order_refl] i(4) by simp
  note B = blit_block[OF r assms(3) s s[OF assms(2)]]
  show "mem_put (md_storage d) (unat b * unat bs + unat off) data = Inr st"
    using r by (simp add: mem_put_def st_def add.assoc)
  show "memory_inv bs bc (d\<lparr>md_storage := st\<rparr>)"
    using r i by (simp add: memory_inv_def st_def add.assoc)
  show "k < unat bc \<Longrightarrow> k \<noteq> unat b \<Longrightarrow> memory_content (d\<lparr>md_storage := st\<rparr>) k = memory_content d k"
    using B[of k] by (simp add: memory_content_def i st_def)
  show "memory_content (d\<lparr>md_storage := st\<rparr>) (unat b) = blit (unat off) data (memory_content d (unat b))"
    using B[OF assms(2)] by (simp add: memory_content_def i st_def)
qed

lemma memory_read_law:
  assumes "memory_inv bs bc d" "unat b < unat bc" "unat off + length buf \<le> unat bs"
  shows "memory_read d b off buf = (Inr (), take (length buf) (drop (unat off) (memory_content d (unat b))), d)"
proof -
  have i: "md_block_size d = bs" "md_block_count d = bc" "unat bs * unat bc < 2 ^ 64" "length (md_storage d) = unat bs * unat bc"
    using assms(1) by (simp_all add: memory_inv_def)
  note a = block_address[OF assms(2,3) i(3)]
  have "mem_get (md_storage d) (unat b * unat bs + unat off) (length buf) =
      Inr (take (length buf) (drop (unat b * unat bs + unat off) (md_storage d)))"
    using a(5) i(4) by (intro mem_get_ok) simp
  also have "take (length buf) (drop (unat b * unat bs + unat off) (md_storage d)) =
      take (length buf) (drop (unat off) (memory_content d (unat b)))"
    using assms(3) by (simp add: memory_content_def i drop_take add.commute min_def)
  finally show ?thesis unfolding memory_read_def i a(1) using a(3,4) by simp
qed

lemma memory_write_law:
  assumes "memory_inv bs bc d" "unat b < unat bc" "unat off + length data \<le> unat bs"
  shows "memory_write d b off data =
    (Inr (), d\<lparr>md_storage := blit (unat b * unat bs + unat off) data (md_storage d)\<rparr>)"
proof -
  have i: "md_block_size d = bs" "md_block_count d = bc" "unat bs * unat bc < 2 ^ 64"
    using assms(1) by (simp_all add: memory_inv_def)
  note a = block_address[OF assms(2,3) i(3)]
  show ?thesis unfolding memory_write_def i a(1) memory_put_block(1)[OF assms]
    using a(3,4) by simp
qed

lemma memory_erase_law:
  assumes "memory_inv bs bc d" "unat b < unat bc"
  shows "memory_erase d b =
    (Inr (), d\<lparr>md_storage := blit (unat b * unat bs) (replicate (unat bs) 0xFF) (md_storage d)\<rparr>)"
proof -
  have i: "md_block_size d = bs" "md_block_count d = bc" "unat bs * unat bc < 2 ^ 64"
    using assms(1) by (simp_all add: memory_inv_def)
  have l: "unat (0::u64) + length (replicate (unat bs) (0xFF :: u8)) \<le> unat bs" by simp
  note a = block_address[OF assms(2) l i(3)]
  show ?thesis unfolding memory_erase_def i using a(1,3) memory_put_block(1)[OF assms l] by simp
qed

interpretation mem: reliable_device memory_ops "memory_inv bs bc" "unat bs" "unat bc" memory_content
  for bs bc :: u64
proof
  fix d :: memory_device and b off :: u64 and buf data buf' :: "u8 list" and k and d' r
  assume i: "memory_inv bs bc d"
  show "unat bs < 2 ^ 64 \<and> unat bc < 2 ^ 64"
    by simp
  show "length (memory_content d k) = unat bs" if "k < unat bc"
    using i block_range[OF that order_refl, of "unat bs"] by (simp add: memory_inv_def memory_content_def)
  show "memory_inv bs bc d' \<and> returns r \<and> memory_content d' = memory_content d"
    if "bd_sync memory_ops d = (r, d')"
    using i that by (auto simp: memory_ops_def memory_sync_def)
  show "fst (bd_sync memory_ops d) = Inr ()"
    by (simp add: memory_ops_def memory_sync_def)
  assume b: "unat b < unat bc"
  show "fst (bd_erase memory_ops d b) = Inr ()"
    using memory_erase_law[OF i b] by (simp add: memory_ops_def)
  have l: "unat (0::u64) + length (replicate (unat bs) (0xFF :: u8)) \<le> unat bs" by simp
  show "memory_inv bs bc d' \<and> returns r \<and> (\<forall>k. k < unat bc \<longrightarrow> k \<noteq> unat b \<longrightarrow> memory_content d' k = memory_content d k)"
    if "bd_erase memory_ops d b = (r, d')"
    using that memory_erase_law[OF i b] memory_put_block(2,3)[OF i b l] by (auto simp: memory_ops_def)
  show "memory_inv bs bc d' \<and> memory_content d' = memory_content d \<and> length buf' = length buf \<and> returns r \<and>
      (r = Inr () \<longrightarrow> buf' = take (length buf) (drop (unat off) (memory_content d (unat b))))"
    if "unat off + length buf \<le> unat bs" "bd_read memory_ops d b off buf = (r, buf', d')"
    using that memory_read_law[OF i b that(1)] i block_range[OF b order_refl, of "unat bs"]
    by (auto simp: memory_ops_def memory_content_def memory_inv_def)
  show "fst (bd_read memory_ops d b off buf) = Inr ()" if "unat off + length buf \<le> unat bs"
    using memory_read_law[OF i b that] by (simp add: memory_ops_def)
  assume l: "unat off + length data \<le> unat bs"
  note W = memory_write_law[OF i b l] and P = memory_put_block(2-4)[OF i b l]
  show "fst (bd_write memory_ops d b off data) = Inr ()"
    using W by (simp add: memory_ops_def)
  show "memory_inv bs bc d' \<and> returns r \<and> (\<forall>k. k < unat bc \<longrightarrow> k \<noteq> unat b \<longrightarrow> memory_content d' k = memory_content d k)"
    if "bd_write memory_ops d b off data = (r, d')"
    using that W P(1,2) by (auto simp: memory_ops_def)
  show "memory_content d' (unat b) = blit (unat off) data (memory_content d (unat b))"
    if "bd_write memory_ops d b off data = (Inr (), d')"
    using that W P(3) by (auto simp: memory_ops_def)
qed

subsection \<open>Decorators keep the contract\<close>

lemma length_crypto_transform [simp]: "length (crypto_transform key block off data) = length data"
  by (simp add: crypto_transform_def)

lemma nth_crypto_transform:
  "i < length data \<Longrightarrow> crypto_transform key block off data ! i = data ! i XOR crypto_mask key block (off + of_nat i)"
  by (simp add: crypto_transform_def)

lemma crypto_transform_twice: "crypto_transform key block off (crypto_transform key block off data) = data"
  by (rule nth_equalityI) (simp_all add: nth_crypto_transform xor.assoc)

text \<open>The mask of a byte depends on its position in the block only, not on the call that wrote it.\<close>

lemma crypto_transform_window:
  assumes "unat off + n \<le> length data"
  shows "crypto_transform key block off (take n (drop (unat off) data)) =
    take n (drop (unat off) (crypto_transform key block 0 data))"
  using assms by (intro nth_equalityI) (simp_all add: nth_crypto_transform)

lemma crypto_transform_blit:
  assumes "unat off + length bs \<le> length data"
  shows "crypto_transform key block 0 (blit (unat off) (crypto_transform key block off bs) data) =
    blit (unat off) bs (crypto_transform key block 0 data)"
proof (rule nth_equalityI)
  fix i
  assume "i < length (crypto_transform key block 0 (blit (unat off) (crypto_transform key block off bs) data))"
  then have i: "i < length data" using assms by simp
  have "off + of_nat (i - unat off) = of_nat i" if "unat off \<le> i"
    using that by (simp add: of_nat_diff)
  then have "crypto_transform key block off bs ! (i - unat off) XOR crypto_mask key block (of_nat i) = bs ! (i - unat off)"
    if "unat off \<le> i" "i < unat off + length bs"
    using that by (simp add: nth_crypto_transform xor.assoc less_diff_conv2)
  then show "crypto_transform key block 0 (blit (unat off) (crypto_transform key block off bs) data) ! i =
      blit (unat off) bs (crypto_transform key block 0 data) ! i"
    using i assms by (auto simp: nth_crypto_transform nth_blit)
qed (use assms in simp)

text \<open>What a scrambled device holds is what the device below holds, unscrambled.\<close>

definition crypto_content :: "('d \<Rightarrow> nat \<Rightarrow> u8 list) \<Rightarrow> 'd crypto_device \<Rightarrow> nat \<Rightarrow> u8 list" where
  "crypto_content content d k = crypto_transform (cr_key d) (of_nat k) 0 (content (decorated d) k)"

text \<open>
  A device that hands every call on to another one, at most counting it, has the contract of the
  other one.
\<close>

definition forwards :: "'e IBlockDevice \<Rightarrow> 'd IBlockDevice \<Rightarrow> ('e \<Rightarrow> 'd) \<Rightarrow> bool" where
  "forwards v u p \<longleftrightarrow>
     (\<forall>d b off buf. (case bd_read v d b off buf of (r, buf', d') \<Rightarrow> (r, buf', p d')) = bd_read u (p d) b off buf) \<and>
     (\<forall>d b off data. (case bd_write v d b off data of (r, d') \<Rightarrow> (r, p d')) = bd_write u (p d) b off data) \<and>
     (\<forall>d b. (case bd_erase v d b of (r, d') \<Rightarrow> (r, p d')) = bd_erase u (p d) b) \<and>
     (\<forall>d. (case bd_sync v d of (r, d') \<Rightarrow> (r, p d')) = bd_sync u (p d))"

lemma forwardsD:
  assumes "forwards v u p"
  shows "bd_read v d b off buf = (r, buf', d') \<Longrightarrow> bd_read u (p d) b off buf = (r, buf', p d')"
    "bd_write v d b off data = (q, d') \<Longrightarrow> bd_write u (p d) b off data = (q, p d')"
    "bd_erase v d b = (q, d') \<Longrightarrow> bd_erase u (p d) b = (q, p d')"
    "bd_sync v d = (q, d') \<Longrightarrow> bd_sync u (p d) = (q, p d')"
    "fst (bd_read v d b off buf) = fst (bd_read u (p d) b off buf)"
    "fst (bd_write v d b off data) = fst (bd_write u (p d) b off data)"
    "fst (bd_erase v d b) = fst (bd_erase u (p d) b)"
    "fst (bd_sync v d) = fst (bd_sync u (p d))"
proof -
  have f: "bd_read u (p d) b off buf = (case bd_read v d b off buf of (r, buf', d') \<Rightarrow> (r, buf', p d'))"
    "bd_write u (p d) b off data = (case bd_write v d b off data of (r, d') \<Rightarrow> (r, p d'))"
    "bd_erase u (p d) b = (case bd_erase v d b of (r, d') \<Rightarrow> (r, p d'))"
    "bd_sync u (p d) = (case bd_sync v d of (r, d') \<Rightarrow> (r, p d'))"
    using assms unfolding forwards_def by simp_all
  show "bd_read v d b off buf = (r, buf', d') \<Longrightarrow> bd_read u (p d) b off buf = (r, buf', p d')"
    "bd_write v d b off data = (q, d') \<Longrightarrow> bd_write u (p d) b off data = (q, p d')"
    "bd_erase v d b = (q, d') \<Longrightarrow> bd_erase u (p d) b = (q, p d')"
    "bd_sync v d = (q, d') \<Longrightarrow> bd_sync u (p d) = (q, p d')"
    "fst (bd_read v d b off buf) = fst (bd_read u (p d) b off buf)"
    "fst (bd_write v d b off data) = fst (bd_write u (p d) b off data)"
    "fst (bd_erase v d b) = fst (bd_erase u (p d) b)"
    "fst (bd_sync v d) = fst (bd_sync u (p d))"
    unfolding f by (simp_all split: prod.splits)
qed

lemma decorator_forwards: "forwards (decorator_ops u) u decorated"
  by (simp add: forwards_def decorator_ops_def split: prod.splits)

lemma statistics_forwards: "forwards (statistics_ops u) u decorated"
  by (simp add: forwards_def statistics_ops_def decorator_ops_def statistics_read_def statistics_write_def
      statistics_erase_def statistics_sync_def Let_def split: prod.splits)

context readable_device begin

lemma forwarded_readable:
  assumes "forwards v ops p"
  shows "readable_device v (\<lambda>d. inv (p d)) bsize bcount (\<lambda>d. content (p d))"
proof (unfold_locales, goal_cases)
  case 1 then show ?case by (rule bounds)
next
  case 2 then show ?case by (rule length_content)
next
  case 3 show ?case by (rule read_law [OF 3(1-3) forwardsD(1) [OF assms 3(4)]])
next
  case 4 show ?case by (rule write_inv [OF 4(1-3) forwardsD(2) [OF assms 4(4)]])
next
  case 5 show ?case by (rule erase_inv [OF 5(1,2) forwardsD(3) [OF assms 5(3)]])
next
  case 6 show ?case by (rule sync_inv [OF 6(1) forwardsD(4) [OF assms 6(2)]])
qed

lemma restricted:
  assumes "\<And>d b off buf r buf' d'. P d \<Longrightarrow> bd_read ops d b off buf = (r, buf', d') \<Longrightarrow> P d'"
    "\<And>d b off data r d'. P d \<Longrightarrow> bd_write ops d b off data = (r, d') \<Longrightarrow> P d'"
    "\<And>d b r d'. P d \<Longrightarrow> bd_erase ops d b = (r, d') \<Longrightarrow> P d'"
    "\<And>d r d'. P d \<Longrightarrow> bd_sync ops d = (r, d') \<Longrightarrow> P d'"
  shows "readable_device ops (\<lambda>d. inv d \<and> P d) bsize bcount content"
proof (unfold_locales, goal_cases)
  case 1 then show ?case using bounds by blast
next
  case 2 then show ?case using length_content by blast
next
  case (3 d b off buf r buf' d') then show ?case using read_law[of d b off buf r buf' d'] assms(1) by blast
next
  case 4 then show ?case using write_inv assms(2) by meson
next
  case 5 then show ?case using erase_inv assms(3) by meson
next
  case 6 then show ?case using sync_inv assms(4) by meson
qed

lemma crypto_readable:
  "readable_device (crypto_ops ops) (\<lambda>d. inv (decorated d)) bsize bcount (crypto_content content)"
proof
  fix d d' :: "'d crypto_device" and b off :: u64 and buf data buf' :: "u8 list" and k and r
  assume i: "inv (decorated d)"
  show "bsize < 2 ^ 64 \<and> bcount < 2 ^ 64" using bounds[OF i] .
  show "length (crypto_content content d k) = bsize" if "k < bcount"
    using length_content[OF i that] by (simp add: crypto_content_def)
  show "inv (decorated d') \<and> returns r \<and> crypto_content content d' = crypto_content content d"
    if "bd_sync (crypto_ops ops) d = (r, d')"
    using that sync_inv[OF i] by (auto simp: crypto_ops_def decorator_ops_def crypto_content_def fun_eq_iff split: prod.splits)
  assume b: "unat b < bcount"
  show "inv (decorated d') \<and> returns r \<and> (\<forall>k<bcount. k \<noteq> unat b \<longrightarrow> crypto_content content d' k = crypto_content content d k)"
    if "bd_erase (crypto_ops ops) d b = (r, d')"
    using that erase_inv[OF i b] by (auto simp: crypto_ops_def decorator_ops_def crypto_content_def split: prod.splits)
  show "inv (decorated d') \<and> crypto_content content d' = crypto_content content d \<and> length buf' = length buf \<and> returns r \<and>
      (r = Inr () \<longrightarrow> buf' = take (length buf) (drop (unat off) (crypto_content content d (unat b))))"
    if l: "unat off + length buf \<le> bsize" and e: "bd_read (crypto_ops ops) d b off buf = (r, buf', d')"
  proof -
    obtain buf1 d1 where r: "bd_read ops (decorated d) b off buf = (r, buf1, d1)"
      and d': "d' = d\<lparr>decorated := d1\<rparr>" and buf': "buf' = (if r = Inr () then crypto_transform (cr_key d) b off buf1 else buf1)"
      using e by (auto simp: crypto_ops_def crypto_read_def Let_def split: prod.splits)
    note R = read_law[OF i b l r]
    have "buf' = take (length buf) (drop (unat off) (crypto_content content d (unat b)))" if "r = Inr ()"
      using R that l buf' crypto_transform_window[of off "length buf" "content (decorated d) (unat b)" "cr_key d" b]
        length_content[OF i b] by (simp add: crypto_content_def)
    with R d' buf' show ?thesis by (auto simp: crypto_content_def fun_eq_iff)
  qed
  assume l: "unat off + length data \<le> bsize"
  show "inv (decorated d') \<and> returns r \<and> (\<forall>k<bcount. k \<noteq> unat b \<longrightarrow> crypto_content content d' k = crypto_content content d k)"
    if "bd_write (crypto_ops ops) d b off data = (r, d')"
    using that write_inv[OF i b, of off "crypto_transform (cr_key d) b off data"] l
    by (auto simp: crypto_ops_def crypto_write_def Let_def crypto_content_def split: prod.splits)
qed

lemma fault_readable:
  "readable_device (fault_ops ops) (\<lambda>d. inv (decorated d)) bsize bcount (\<lambda>d. content (decorated d))"
proof
  fix d d' :: "'d fault_device" and b off :: u64 and buf data buf' :: "u8 list" and k and r
  assume i: "inv (decorated d)"
  show "bsize < 2 ^ 64 \<and> bcount < 2 ^ 64" using bounds[OF i] .
  show "length (content (decorated d) k) = bsize" if "k < bcount"
    using length_content[OF i that] .
  show "inv (decorated d') \<and> returns r \<and> content (decorated d') = content (decorated d)"
    if "bd_sync (fault_ops ops) d = (r, d')"
    using that i sync_inv[OF i] by (auto simp: fault_ops_def fault_sync_def split: prod.splits if_splits)
  assume b: "unat b < bcount"
  show "inv (decorated d') \<and> returns r \<and> (\<forall>k<bcount. k \<noteq> unat b \<longrightarrow> content (decorated d') k = content (decorated d) k)"
    if "bd_erase (fault_ops ops) d b = (r, d')"
    using that erase_inv[OF i b] by (auto simp: fault_ops_def decorator_ops_def split: prod.splits)
  show "inv (decorated d') \<and> content (decorated d') = content (decorated d) \<and> length buf' = length buf \<and> returns r \<and>
      (r = Inr () \<longrightarrow> buf' = take (length buf) (drop (unat off) (content (decorated d) (unat b))))"
    if "unat off + length buf \<le> bsize" "bd_read (fault_ops ops) d b off buf = (r, buf', d')"
    using that(2) read_law[OF i b that(1)] by (auto simp: fault_ops_def decorator_ops_def split: prod.splits)
  assume l: "unat off + length data \<le> bsize"
  have c: "unat off + length (corrupt_first data) \<le> bsize"
    using l by (cases data) simp_all
  show "inv (decorated d') \<and> returns r \<and> (\<forall>k<bcount. k \<noteq> unat b \<longrightarrow> content (decorated d') k = content (decorated d) k)"
    if "bd_write (fault_ops ops) d b off data = (r, d')"
    using that i write_inv[OF i b l] write_inv[OF i b c]
    by (auto simp: fault_ops_def fault_write_def Let_def split: prod.splits if_splits)
qed

end

context block_device begin

lemma forwarded_block:
  assumes "forwards v ops p"
  shows "block_device v (\<lambda>d. inv (p d)) bsize bcount (\<lambda>d. content (p d))"
  using write_law forwardsD(2)[OF assms]
  by (intro block_device.intro block_device_axioms.intro forwarded_readable[OF assms]) blast

lemma crypto_block: "block_device (crypto_ops ops) (\<lambda>d. inv (decorated d)) bsize bcount (crypto_content content)"
proof (intro block_device.intro crypto_readable block_device_axioms.intro)
  fix d d' :: "'d crypto_device" and b off :: u64 and data :: "u8 list"
  assume i: "inv (decorated d)" and b: "unat b < bcount" and l: "unat off + length data \<le> bsize"
    and e: "bd_write (crypto_ops ops) d b off data = (Inr (), d')"
  let ?c = "crypto_transform (cr_key d) b off data"
  obtain d1 where w: "bd_write ops (decorated d) b off ?c = (Inr (), d1)" and d': "d' = d\<lparr>decorated := d1\<rparr>"
    using e by (auto simp: crypto_ops_def crypto_write_def Let_def split: prod.splits)
  have "content d1 (unat b) = blit (unat off) ?c (content (decorated d) (unat b))"
    using write_law[OF i b _ w] l by simp
  then show "crypto_content content d' (unat b) = blit (unat off) data (crypto_content content d (unat b))"
    using crypto_transform_blit[of off data "content (decorated d) (unat b)" "cr_key d" b] l length_content[OF i b]
    by (simp add: crypto_content_def d')
qed

lemma fault_block:
  "block_device (fault_ops ops) (\<lambda>d. inv (decorated d) \<and> \<not> fi_corrupt_next_write d) bsize bcount (\<lambda>d. content (decorated d))"
proof (intro block_device.intro block_device_axioms.intro)
  show "readable_device (fault_ops ops) (\<lambda>d. inv (decorated d) \<and> \<not> fi_corrupt_next_write d) bsize bcount (\<lambda>d. content (decorated d))"
    by (rule readable_device.restricted [OF fault_readable])
      (auto simp: fault_ops_def fault_write_def fault_sync_def decorator_ops_def Let_def split: prod.splits if_splits)
next
  fix d d' :: "'d fault_device" and b off :: u64 and data :: "u8 list"
  assume i: "inv (decorated d) \<and> \<not> fi_corrupt_next_write d" and b: "unat b < bcount"
    and l: "unat off + length data \<le> bsize" and e: "bd_write (fault_ops ops) d b off data = (Inr (), d')"
  obtain d1 where "bd_write ops (decorated d) b off data = (Inr (), d1)" "decorated d' = d1"
    using e i by (auto simp: fault_ops_def fault_write_def Let_def split: prod.splits if_splits)
  then show "content (decorated d') (unat b) = blit (unat off) data (content (decorated d) (unat b))"
    using write_law[OF _ b l] i by simp
qed

end

context reliable_device begin

lemma forwarded_reliable:
  assumes "forwards v ops p"
  shows "reliable_device v (\<lambda>d. inv (p d)) bsize bcount (\<lambda>d. content (p d))"
  using read_ok write_ok erase_ok sync_ok forwardsD(5-8)[OF assms]
  by (intro reliable_device.intro reliable_device_axioms.intro forwarded_block[OF assms]) simp_all

lemma crypto_reliable: "reliable_device (crypto_ops ops) (\<lambda>d. inv (decorated d)) bsize bcount (crypto_content content)"
proof (intro reliable_device.intro crypto_block reliable_device_axioms.intro)
  fix d :: "'d crypto_device" and b off :: u64 and data buf :: "u8 list"
  assume i: "inv (decorated d)"
  show "fst (bd_sync (crypto_ops ops) d) = Inr ()"
    using sync_ok[OF i] by (auto simp: crypto_ops_def decorator_ops_def split: prod.splits)
  assume b: "unat b < bcount"
  show "fst (bd_erase (crypto_ops ops) d b) = Inr ()"
    using erase_ok[OF i b] by (auto simp: crypto_ops_def decorator_ops_def split: prod.splits)
  show "fst (bd_read (crypto_ops ops) d b off buf) = Inr ()" if "unat off + length buf \<le> bsize"
    using read_ok[OF i b that] by (auto simp: crypto_ops_def crypto_read_def split: prod.splits)
  show "fst (bd_write (crypto_ops ops) d b off data) = Inr ()" if "unat off + length data \<le> bsize"
    using write_ok[OF i b, of off "crypto_transform (cr_key d) b off data"] that
    by (auto simp: crypto_ops_def crypto_write_def Let_def split: prod.splits)
qed

end

lemma fault_spent_write: "fault_spent d \<Longrightarrow> fault_write u d b off data = (Inl (Err LFS_ERR_IO), d)"
  by (simp add: fault_write_def)

interpretation statistics_mem: reliable_device "statistics_ops memory_ops" "\<lambda>d. memory_inv bs bc (decorated d)"
    "unat bs" "unat bc" "\<lambda>d. memory_content (decorated d)"
  for bs bc :: u64
  by (rule mem.forwarded_reliable [OF statistics_forwards])

interpretation crypto_mem: reliable_device "crypto_ops memory_ops" "\<lambda>d. memory_inv bs bc (decorated d)"
    "unat bs" "unat bc" "crypto_content memory_content"
  for bs bc :: u64
  by (rule mem.crypto_reliable)

interpretation fault_mem: block_device "fault_ops memory_ops"
    "\<lambda>d. memory_inv bs bc (decorated d) \<and> \<not> fi_corrupt_next_write d" "unat bs" "unat bc" "\<lambda>d. memory_content (decorated d)"
  for bs bc :: u64
  by (rule mem.fault_block)

interpretation corrupt_mem: readable_device "fault_ops memory_ops" "\<lambda>d. memory_inv bs bc (decorated d)"
    "unat bs" "unat bc" "\<lambda>d. memory_content (decorated d)"
  for bs bc :: u64
  by (rule mem.fault_readable)

end
