(* ===== verification/Device.thy ===== *)
theory Device
  imports BlockDevice
begin

text \<open>
  \<open>src/littlefs_v2/lfs_device.cpp\<close>: how littlefs reads, compares, writes, flushes and erases through
  its two caches. A cache is passed in and returned, so that callers can use the caches of the file
  system, those of an open file, or none.

  Every loop carries fuel, the number of passes it may make. \<open>lfs_bd_rawread\<close> and \<open>lfs_bd_rawprog\<close>
  consume a byte in each pass, \<open>lfs_bd_read\<close> and \<open>lfs_bd_write\<close> in every other one (the pass between
  prepares the cache), so twice the size is enough; the lemmas below show it.
\<close>

subsection \<open>Mapping from logical to physical erase size\<close>

fun lfs_bd_rawread_loop :: "nat \<Rightarrow> 'd lfs \<Rightarrow> lfs_block_t \<Rightarrow> lfs_off_t \<Rightarrow> u8 list \<Rightarrow> lfs_size_t \<Rightarrow> unit result \<times> u8 list \<times> 'd lfs" where
  "lfs_bd_rawread_loop 0 s block off buffer sz = (Inl Out_of_fuel, buffer, s)"
| "lfs_bd_rawread_loop (Suc fuel) s block off buffer sz =
     (if \<not> 0 < sz then (Inr (), buffer, s)
      else
        let delta = lfs_min sz (off + l_erase_size s)
        in if \<not> off + sz \<le> l_erase_size s \<or> sz mod cfg_read_size (l_cfg s) \<noteq> 0
           then (Inl Assertion_failed, buffer, s)
           else case cfg_read (l_cfg s) (l_dev s) block off (take (unat delta) buffer) of
             (Inl h, data, d) \<Rightarrow> (Inl h, blit 0 data buffer, s\<lparr>l_dev := d\<rparr>)
           | (Inr _, data, d) \<Rightarrow>
               (let s = s\<lparr>l_dev := d\<rparr>; buffer = blit 0 data buffer; off = off + delta;
                    (block, off) = (if off = l_erase_size s then (block + 1, 0) else (block, off))
                in lfs_bd_rawread_loop fuel s block off buffer (sz - delta)))"

definition lfs_bd_rawread :: "'d lfs \<Rightarrow> lfs_block_t \<Rightarrow> lfs_off_t \<Rightarrow> u8 list \<Rightarrow> unit result \<times> u8 list \<times> 'd lfs" where
  "lfs_bd_rawread s block off buffer =
     (let sz = of_nat (length buffer)
      in if \<not> block < l_block_count s \<or> \<not> off + sz \<le> l_block_size s \<or> sz mod cfg_read_size (l_cfg s) \<noteq> 0
         then (Inl Assertion_failed, buffer, s)
         else lfs_bd_rawread_loop (Suc (unat sz)) s
           (block * (l_block_size s div l_erase_size s) + off div l_erase_size s)
           (off mod l_erase_size s) buffer sz)"

fun lfs_bd_rawprog_loop :: "nat \<Rightarrow> 'd lfs \<Rightarrow> lfs_block_t \<Rightarrow> lfs_off_t \<Rightarrow> u8 list \<Rightarrow> lfs_size_t \<Rightarrow> unit result \<times> 'd lfs" where
  "lfs_bd_rawprog_loop 0 s block off buffer sz = (Inl Out_of_fuel, s)"
| "lfs_bd_rawprog_loop (Suc fuel) s block off buffer sz =
     (if \<not> 0 < sz then (Inr (), s)
      else
        let delta = lfs_min sz (off + l_erase_size s)
        in if \<not> off + sz \<le> l_erase_size s \<or> sz mod cfg_write_size (l_cfg s) \<noteq> 0
           then (Inl Assertion_failed, s)
           else case cfg_write (l_cfg s) (l_dev s) block off (take (unat delta) buffer) of
             (Inl h, d) \<Rightarrow> (Inl h, s\<lparr>l_dev := d\<rparr>)
           | (Inr _, d) \<Rightarrow>
               (let s = s\<lparr>l_dev := d\<rparr>; off = off + delta;
                    (block, off) = (if off = l_erase_size s then (block + 1, 0) else (block, off))
                in lfs_bd_rawprog_loop fuel s block off buffer (sz - delta)))"

definition lfs_bd_rawprog :: "'d lfs \<Rightarrow> lfs_block_t \<Rightarrow> lfs_off_t \<Rightarrow> u8 list \<Rightarrow> unit result \<times> 'd lfs" where
  "lfs_bd_rawprog s block off buffer =
     (let sz = of_nat (length buffer)
      in if \<not> block < l_block_count s \<or> \<not> off + sz \<le> l_block_size s \<or> sz mod cfg_write_size (l_cfg s) \<noteq> 0
         then (Inl Assertion_failed, s)
         else lfs_bd_rawprog_loop (Suc (unat sz)) s
           (block * (l_block_size s div l_erase_size s) + off div l_erase_size s)
           (off mod l_erase_size s) buffer sz)"

subsection \<open>Reading through the caches\<close>

text \<open>
  \<open>cache_diff\<close> is what a cache says about the bytes at \<open>offset\<close>: \<open>Inl\<close> the bytes it holds, or
  \<open>Inr\<close> how many of the \<open>diff\<close> bytes come before those it holds.
\<close>

definition cache_diff :: "lfs_cache \<Rightarrow> lfs_block_t \<Rightarrow> lfs_off_t \<Rightarrow> lfs_size_t \<Rightarrow> u8 list result + lfs_size_t" where
  "cache_diff c block offset diff =
     (if block = c_block c \<and> offset < c_offset c + c_size c
      then if c_offset c \<le> offset
           then let diff = lfs_min diff (c_size c - (offset - c_offset c))
                in Inl (mem_get (c_buffer c) (unat (offset - c_offset c)) (unat diff))
           else Inr (lfs_min diff (c_offset c - offset))
      else Inr diff)"

definition load_read_cache :: "'d lfs \<Rightarrow> lfs_cache \<Rightarrow> lfs_size_t \<Rightarrow> lfs_block_t \<Rightarrow> lfs_off_t \<Rightarrow> unit result \<times> lfs_cache \<times> 'd lfs" where
  "load_read_cache s rc hint block offset =
     (let rc = rc\<lparr>c_block := block, c_offset := lfs_aligndown offset (cfg_read_size (l_cfg s))\<rparr>;
          rc = rc\<lparr>c_size := lfs_min (lfs_min (lfs_alignup (offset + hint) (cfg_read_size (l_cfg s))) (l_block_size s) - c_offset rc)
                             (cfg_cache_size (l_cfg s))\<rparr>
      in case mem_get (c_buffer rc) 0 (unat (c_size rc)) of
           Inl h \<Rightarrow> (Inl h, rc, s)
         | Inr b \<Rightarrow> (case lfs_bd_rawread s (c_block rc) (c_offset rc) b of
             (r, b, s) \<Rightarrow> (r, rc\<lparr>c_buffer := blit 0 b (c_buffer rc)\<rparr>, s)))"

fun lfs_bd_read_loop :: "nat \<Rightarrow> 'd lfs \<Rightarrow> lfs_cache option \<Rightarrow> lfs_cache \<Rightarrow> lfs_size_t \<Rightarrow> lfs_block_t \<Rightarrow> lfs_off_t \<Rightarrow> u8 list \<Rightarrow> nat \<Rightarrow> lfs_size_t \<Rightarrow> unit result \<times> u8 list \<times> lfs_cache \<times> 'd lfs" where
  "lfs_bd_read_loop 0 s wc rc hint block offset buffer data sz = (Inl Out_of_fuel, buffer, rc, s)"
| "lfs_bd_read_loop (Suc fuel) s wc rc hint block offset buffer data sz =
     (if \<not> 0 < sz then (Inr (), buffer, rc, s)
      else
        case (case wc of None \<Rightarrow> Inr sz | Some w \<Rightarrow> cache_diff w block offset sz) of
          Inl (Inl h) \<Rightarrow> (Inl h, buffer, rc, s)
        | Inl (Inr bytes) \<Rightarrow>
            lfs_bd_read_loop fuel s wc rc hint block (offset + of_nat (length bytes)) (blit data bytes buffer)
              (data + length bytes) (sz - of_nat (length bytes))
        | Inr diff \<Rightarrow>
            (case cache_diff rc block offset diff of
              Inl (Inl h) \<Rightarrow> (Inl h, buffer, rc, s)
            | Inl (Inr bytes) \<Rightarrow>
                lfs_bd_read_loop fuel s wc rc hint block (offset + of_nat (length bytes)) (blit data bytes buffer)
                  (data + length bytes) (sz - of_nat (length bytes))
            | Inr diff \<Rightarrow>
                if hint \<le> sz \<and> offset mod cfg_read_size (l_cfg s) = 0 \<and> cfg_read_size (l_cfg s) \<le> sz
                then let diff = lfs_aligndown diff (cfg_read_size (l_cfg s))
                     in case lfs_bd_rawread s block offset (take (unat diff) (drop data buffer)) of
                          (Inl h, bytes, s) \<Rightarrow> (Inl h, blit data bytes buffer, rc, s)
                        | (Inr _, bytes, s) \<Rightarrow>
                            lfs_bd_read_loop fuel s wc rc hint block (offset + diff) (blit data bytes buffer)
                              (data + unat diff) (sz - diff)
                else case load_read_cache s rc hint block offset of
                       (Inl h, rc, s) \<Rightarrow> (Inl h, buffer, rc, s)
                     | (Inr _, rc, s) \<Rightarrow> lfs_bd_read_loop fuel s wc rc hint block offset buffer data sz))"

definition lfs_bd_read :: "'d lfs \<Rightarrow> lfs_cache option \<Rightarrow> lfs_cache \<Rightarrow> lfs_size_t \<Rightarrow> lfs_block_t \<Rightarrow> lfs_off_t \<Rightarrow> u8 list \<Rightarrow> unit result \<times> u8 list \<times> lfs_cache \<times> 'd lfs" where
  "lfs_bd_read s wc rc hint block offset buffer =
     (let sz = of_nat (length buffer)
      in if l_block_count s \<le> block \<or> l_block_size s < offset + sz
         then (Inl (Err LFS_ERR_CORRUPT), buffer, rc, s)
         else lfs_bd_read_loop (Suc (2 * unat sz)) s wc rc hint block offset buffer 0 sz)"

text \<open>A read through the caches of the file system itself.\<close>

definition lfs_bd_read_own :: "'d lfs \<Rightarrow> bool \<Rightarrow> lfs_size_t \<Rightarrow> lfs_block_t \<Rightarrow> lfs_off_t \<Rightarrow> u8 list \<Rightarrow> unit result \<times> u8 list \<times> 'd lfs" where
  "lfs_bd_read_own s with_write_cache hint block offset buffer =
     (case lfs_bd_read s (if with_write_cache then Some (l_write_cache s) else None) (l_read_cache s) hint block offset buffer of
        (r, buffer, rc, s) \<Rightarrow> (r, buffer, s\<lparr>l_read_cache := rc\<rparr>))"

subsection \<open>Comparing\<close>

fun memcmp :: "u8 list \<Rightarrow> u8 list \<Rightarrow> lfs_cmp" where
  "memcmp (a # as) (b # bs) = (if a < b then LFS_CMP_LT else if b < a then LFS_CMP_GT else memcmp as bs)"
| "memcmp _ _ = LFS_CMP_EQ"

fun lfs_bd_cmp_loop :: "nat \<Rightarrow> 'd lfs \<Rightarrow> lfs_cache option \<Rightarrow> lfs_cache \<Rightarrow> lfs_size_t \<Rightarrow> lfs_block_t \<Rightarrow> lfs_off_t \<Rightarrow> u8 list \<Rightarrow> lfs_size_t \<Rightarrow> lfs_off_t \<Rightarrow> lfs_cmp result \<times> lfs_cache \<times> 'd lfs" where
  "lfs_bd_cmp_loop 0 s wc rc hint block offset data sz idx = (Inl Out_of_fuel, rc, s)"
| "lfs_bd_cmp_loop (Suc fuel) s wc rc hint block offset data sz idx =
     (if \<not> idx < sz then (Inr LFS_CMP_EQ, rc, s)
      else
        let diff = lfs_min (sz - idx) 256
        in case lfs_bd_read s wc rc (hint - idx) block (offset + idx) (replicate (unat diff) 0) of
             (Inl h, dat, rc, s) \<Rightarrow> (Inl h, rc, s)
           | (Inr _, dat, rc, s) \<Rightarrow>
               (case mem_get data (unat idx) (unat diff) of
                  Inl h \<Rightarrow> (Inl h, rc, s)
                | Inr d \<Rightarrow>
                    (case memcmp dat d of
                       LFS_CMP_EQ \<Rightarrow> lfs_bd_cmp_loop fuel s wc rc hint block offset data sz (idx + diff)
                     | res \<Rightarrow> (Inr res, rc, s))))"

definition lfs_bd_cmp :: "'d lfs \<Rightarrow> lfs_cache option \<Rightarrow> lfs_cache \<Rightarrow> lfs_size_t \<Rightarrow> lfs_block_t \<Rightarrow> lfs_off_t \<Rightarrow> u8 list \<Rightarrow> lfs_size_t \<Rightarrow> lfs_cmp result \<times> lfs_cache \<times> 'd lfs" where
  "lfs_bd_cmp s wc rc hint block offset data sz =
     lfs_bd_cmp_loop (Suc (unat sz)) s wc rc hint block offset data sz 0"

definition lfs_bd_cmp_own :: "'d lfs \<Rightarrow> lfs_size_t \<Rightarrow> lfs_block_t \<Rightarrow> lfs_off_t \<Rightarrow> u8 list \<Rightarrow> lfs_size_t \<Rightarrow> lfs_cmp result \<times> 'd lfs" where
  "lfs_bd_cmp_own s hint block offset data sz =
     (case lfs_bd_cmp s None (l_read_cache s) hint block offset data sz of
        (r, rc, s) \<Rightarrow> (r, s\<lparr>l_read_cache := rc\<rparr>))"

subsection \<open>Flushing, writing, erasing\<close>

definition lfs_bd_validate :: "'d lfs \<Rightarrow> lfs_cache \<Rightarrow> lfs_cache \<Rightarrow> lfs_size_t \<Rightarrow> unit result \<times> lfs_cache \<times> 'd lfs" where
  "lfs_bd_validate s wc rc diff =
     (case lfs_bd_cmp s None (lfs_cache_drop rc) diff (c_block wc) (c_offset wc) (c_buffer wc) diff of
        (Inl h, rc, s) \<Rightarrow> (Inl h, rc, s)
      | (Inr res, rc, s) \<Rightarrow> (if res \<noteq> LFS_CMP_EQ then Inl (Err LFS_ERR_CORRUPT) else Inr (), rc, s))"

definition lfs_bd_flush :: "'d lfs \<Rightarrow> lfs_cache \<Rightarrow> lfs_cache \<Rightarrow> bool \<Rightarrow> unit result \<times> lfs_cache \<times> lfs_cache \<times> 'd lfs" where
  "lfs_bd_flush s wc rc validate =
     (if c_block wc \<noteq> LFS_BLOCK_NULL \<and> c_block wc \<noteq> LFS_BLOCK_INLINE
      then
        let diff = lfs_alignup (c_size wc) (cfg_write_size (l_cfg s))
        in case mem_get (c_buffer wc) 0 (unat diff) of
             Inl h \<Rightarrow> (Inl h, wc, rc, s)
           | Inr b \<Rightarrow>
               (case lfs_bd_rawprog s (c_block wc) (c_offset wc) b of
                  (Inl h, s) \<Rightarrow> (Inl h, wc, rc, s)
                | (Inr _, s) \<Rightarrow>
                    if validate
                    then (case lfs_bd_validate s wc rc diff of
                            (Inl h, rc, s) \<Rightarrow> (Inl h, wc, rc, s)
                          | (Inr _, rc, s) \<Rightarrow> (Inr (), lfs_cache_zero wc, rc, s))
                    else (Inr (), lfs_cache_zero wc, rc, s))
      else (Inr (), wc, rc, s))"

definition lfs_bd_sync :: "'d lfs \<Rightarrow> lfs_cache \<Rightarrow> lfs_cache \<Rightarrow> bool \<Rightarrow> unit result \<times> lfs_cache \<times> lfs_cache \<times> 'd lfs" where
  "lfs_bd_sync s wc rc validate =
     (let rc = lfs_cache_drop rc
      in case lfs_bd_flush s wc rc validate of
           (Inl h, wc, rc, s) \<Rightarrow> (Inl h, wc, rc, s)
         | (Inr _, wc, rc, s) \<Rightarrow>
             (case cfg_sync (l_cfg s) (l_dev s) of (r, d) \<Rightarrow> (r, wc, rc, s\<lparr>l_dev := d\<rparr>)))"

fun lfs_bd_write_loop :: "nat \<Rightarrow> 'd lfs \<Rightarrow> lfs_cache \<Rightarrow> lfs_cache \<Rightarrow> bool \<Rightarrow> lfs_block_t \<Rightarrow> lfs_off_t \<Rightarrow> u8 list \<Rightarrow> unit result \<times> lfs_cache \<times> lfs_cache \<times> 'd lfs" where
  "lfs_bd_write_loop 0 s wc rc validate block offset data = (Inl Out_of_fuel, wc, rc, s)"
| "lfs_bd_write_loop (Suc fuel) s wc rc validate block offset data =
     (let sz = of_nat (length data)
      in if \<not> 0 < sz then (Inr (), wc, rc, s)
         else if block = c_block wc \<and> c_offset wc \<le> offset \<and> offset < c_offset wc + cfg_cache_size (l_cfg s)
         then
           let diff = lfs_min sz (cfg_cache_size (l_cfg s) - (offset - c_offset wc))
           in case mem_put (c_buffer wc) (unat (offset - c_offset wc)) (take (unat diff) data) of
                Inl h \<Rightarrow> (Inl h, wc, rc, s)
              | Inr b \<Rightarrow>
                  (let offset = offset + diff;
                       wc = wc\<lparr>c_buffer := b, c_size := lfs_max (c_size wc) (offset - c_offset wc)\<rparr>
                   in if c_size wc = cfg_cache_size (l_cfg s)
                      then (case lfs_bd_flush s wc rc validate of
                              (Inl h, wc, rc, s) \<Rightarrow> (Inl h, wc, rc, s)
                            | (Inr _, wc, rc, s) \<Rightarrow>
                                lfs_bd_write_loop fuel s wc rc validate block offset (drop (unat diff) data))
                      else lfs_bd_write_loop fuel s wc rc validate block offset (drop (unat diff) data))
         else if c_block wc \<noteq> LFS_BLOCK_NULL then (Inl Assertion_failed, wc, rc, s)
         else
           let wc = wc\<lparr>c_block := block, c_offset := lfs_aligndown offset (cfg_write_size (l_cfg s)), c_size := 0\<rparr>
           in lfs_bd_write_loop fuel s wc rc validate block offset data)"

definition lfs_bd_write :: "'d lfs \<Rightarrow> lfs_cache \<Rightarrow> lfs_cache \<Rightarrow> bool \<Rightarrow> lfs_block_t \<Rightarrow> lfs_off_t \<Rightarrow> u8 list \<Rightarrow> unit result \<times> lfs_cache \<times> lfs_cache \<times> 'd lfs" where
  "lfs_bd_write s wc rc validate block offset data =
     (if \<not> (block = LFS_BLOCK_INLINE \<or> block < l_block_count s) \<or>
         \<not> offset + of_nat (length data) \<le> l_block_size s
      then (Inl Assertion_failed, wc, rc, s)
      else lfs_bd_write_loop (Suc (2 * length data)) s wc rc validate block offset data)"

fun lfs_bd_erase_loop :: "'d lfs \<Rightarrow> lfs_block_t \<Rightarrow> nat list \<Rightarrow> unit result \<times> 'd lfs" where
  "lfs_bd_erase_loop s block [] = (Inr (), s)"
| "lfs_bd_erase_loop s block (idx # rest) =
     (case cfg_erase (l_cfg s) (l_dev s) (block + of_nat idx) of
        (Inl h, d) \<Rightarrow> (Inl h, s\<lparr>l_dev := d\<rparr>)
      | (Inr _, d) \<Rightarrow> lfs_bd_erase_loop (s\<lparr>l_dev := d\<rparr>) block rest)"

definition lfs_bd_erase :: "'d lfs \<Rightarrow> lfs_block_t \<Rightarrow> unit result \<times> 'd lfs" where
  "lfs_bd_erase s block =
     (if \<not> block < l_block_count s then (Inl Assertion_failed, s)
      else lfs_bd_erase_loop s (block * (l_block_size s div l_erase_size s))
        [0..<unat (l_block_size s div l_erase_size s)])"

end
