(* ===== verification/Crc.thy ===== *)
theory Crc
  imports Utility
begin

text \<open>
  The checksum of \<open>include/lfs_utility.h\<close> (\<open>lfs_crc\<close>), a table of sixteen words driven by half
  bytes, and the reference it implements: the reflected CRC-32 with polynomial \<open>0xEDB88320\<close>, one
  bit at a time. The reference is linear and invertible, which gives the two facts the metadata log
  relies on: a run of bytes followed by its own checksum has checksum 0, and a change that stays
  within four consecutive bytes always changes the checksum.
\<close>

definition crc_rtable :: "u32 list" where
  "crc_rtable =
    [0x00000000, 0x1db71064, 0x3b6e20c8, 0x26d930ac,
     0x76dc4190, 0x6b6b51f4, 0x4db26158, 0x5005713c,
     0xedb88320, 0xf00f9344, 0xd6d6a3e8, 0xcb61b38c,
     0x9b64c2b0, 0x86d3d2d4, 0xa00ae278, 0xbdbdf21c]"

definition crc_nibble :: "u32 \<Rightarrow> u32 \<Rightarrow> u32" where
  "crc_nibble crc d = drop_bit 4 crc XOR crc_rtable ! unat ((crc XOR d) AND 0xf)"

fun lfs_crc :: "u32 \<Rightarrow> u8 list \<Rightarrow> u32" where
  "lfs_crc crc [] = crc"
| "lfs_crc crc (d # data) =
     (let crc = crc_nibble crc (drop_bit 0 (ucast d));
          crc = crc_nibble crc (drop_bit 4 (ucast d))
      in lfs_crc crc data)"

subsection \<open>The bitwise reference\<close>

definition crc_bit :: "u32 \<Rightarrow> u32" where
  "crc_bit c = drop_bit 1 c XOR (if bit c 0 then 0xEDB88320 else 0)"

definition crc_byte :: "u32 \<Rightarrow> u8 \<Rightarrow> u32" where
  "crc_byte c d = (crc_bit ^^ 8) (c XOR ucast d)"

lemma crc_bit_0 [simp]: "(crc_bit ^^ n) 0 = 0"
  by (induction n) (simp_all add: crc_bit_def)

lemma crc_bit_xor: "crc_bit (a XOR b) = crc_bit a XOR crc_bit b"
  by (simp add: crc_bit_def drop_bit_xor bit_xor_iff xor.assoc xor.left_commute)

lemma crc_bits_xor: "(crc_bit ^^ n) (a XOR b) = (crc_bit ^^ n) a XOR (crc_bit ^^ n) b"
  by (induction n) (simp_all add: crc_bit_xor)

lemma crc_bits_high: "take_bit n c = 0 \<Longrightarrow> (crc_bit ^^ n) c = drop_bit n c"
proof (induction n)
  case 0
  then show ?case by simp
next
  case (Suc n)
  have low: "\<not> bit c i" if "i < Suc n" for i
    using that Suc.prems by (metis bit_take_bit_iff bit_0_eq bot_apply bot_bool_def)
  then have "take_bit n c = 0" by (auto simp: bit_eq_iff bit_take_bit_iff)
  then have "(crc_bit ^^ n) c = drop_bit n c" by (rule Suc.IH)
  moreover have "\<not> bit (drop_bit n c) 0" using low[of n] by (simp add: bit_drop_bit_eq)
  moreover have "drop_bit 1 (drop_bit n c) = drop_bit (Suc n) c" by (simp add: drop_bit_drop_bit)
  ultimately show ?case by (simp add: crc_bit_def[of "drop_bit n c"])
qed

lemma crc_bit_cancel: "crc_bit a = 0 \<Longrightarrow> a = 0"
proof -
  assume z: "crc_bit a = 0"
  have "bit (crc_bit a) 31 = bit a 0"
    using bit_imp_le_length[of a 32] by (auto simp: crc_bit_def bit_simps)
  with z have b: "\<not> bit a 0" by simp
  then have d: "drop_bit 1 a = 0" using z by (simp add: crc_bit_def)
  show "a = 0"
  proof (rule bit_word_eqI)
    fix i
    show "bit a i = bit 0 i"
    proof (cases i)
      case (Suc k)
      have "bit (drop_bit 1 a) k = bit a i" by (simp add: bit_drop_bit_eq Suc)
      with d show ?thesis by simp
    qed (use b in simp)
  qed
qed

lemma crc_bits_cancel: "(crc_bit ^^ n) a = 0 \<Longrightarrow> a = 0"
  by (induction n) (auto dest: crc_bit_cancel)

lemma crc_bits_inject: "(crc_bit ^^ n) a = (crc_bit ^^ n) b \<longleftrightarrow> a = b"
proof
  assume "(crc_bit ^^ n) a = (crc_bit ^^ n) b"
  then have "(crc_bit ^^ n) (a XOR b) = 0" by (simp add: crc_bits_xor)
  then have "a XOR b = 0" by (rule crc_bits_cancel)
  then show "a = b" by (metis xor.assoc xor.left_neutral xor_self_eq xor.right_neutral)
qed simp

subsection \<open>The table implements the reference\<close>

lemma crc_rtable_eval: "list_all (\<lambda>k. crc_rtable ! k = (crc_bit ^^ 4) (of_nat k)) [0..<16]"
  by code_simp

lemma all_nibbles: "(\<And>k. k \<in> set [0..<16] \<Longrightarrow> P (of_nat k)) \<Longrightarrow> n AND 0xf = n \<Longrightarrow> P (n :: u32)"
proof -
  assume P: "\<And>k. k \<in> set [0..<16] \<Longrightarrow> P (of_nat k)" and n: "n AND 0xf = n"
  have "n AND 0xf = take_bit 4 n" by (simp add: take_bit_eq_mask mask_eq_exp_minus_1)
  then have "take_bit 4 n = n" using n by simp
  then have "unat n < 2 ^ 4" by (metis unsigned_take_bit_eq take_bit_nat_less_exp)
  then have "P (of_nat (unat n))" by (intro P) simp
  then show "P n" by simp
qed

lemma crc_rtable_bits:
  assumes "n AND 0xf = n"
  shows "crc_rtable ! unat n = (crc_bit ^^ 4) n"
proof (rule all_nibbles [where P = "\<lambda>n. crc_rtable ! unat n = (crc_bit ^^ 4) n", OF _ assms])
  fix k :: nat
  assume k: "k \<in> set [0..<16]"
  then have "unat (of_nat k :: u32) = k" by (simp only: unat_of_nat) simp
  then show "crc_rtable ! unat (of_nat k :: u32) = (crc_bit ^^ 4) (of_nat k)"
    using crc_rtable_eval k by (simp only: list_all_iff)
qed

lemma mask_15: "(0xf :: u32) = mask 4"
  by (simp add: mask_eq_exp_minus_1)

lemma crc_nibble_bits: "crc_nibble c d = (crc_bit ^^ 4) (c XOR (d AND 0xf))"
proof -
  let ?n = "(c XOR d) AND 0xf" and ?h = "c AND NOT (mask 4)"
  have "take_bit 4 ?h = 0"
    by (simp add: take_bit_eq_mask mask_eq_exp_minus_1 and.assoc)
  then have h: "(crc_bit ^^ 4) ?h = drop_bit 4 ?h" by (rule crc_bits_high)
  have "drop_bit 4 (NOT (mask 4) :: u32) AND drop_bit 4 c = drop_bit 4 c"
    by (rule bit_word_eqI) (auto simp: bit_simps dest: bit_imp_le_length)
  then have "drop_bit 4 ?h = drop_bit 4 c"
    by (simp only: drop_bit_and and.commute)
  moreover have "c XOR (d AND 0xf) = ?h XOR ?n"
    unfolding mask_15 by (rule bit_word_eqI) (auto simp: bit_simps)
  moreover have "crc_rtable ! unat ?n = (crc_bit ^^ 4) ?n"
    by (rule crc_rtable_bits) (simp add: and.assoc)
  ultimately show ?thesis
    unfolding crc_nibble_def by (simp add: h crc_bits_xor)
qed

lemma lfs_crc_byte: "lfs_crc c (d # data) = lfs_crc (crc_byte c d) data"
proof -
  let ?d = "ucast d :: u32"
  have "(c XOR (?d AND 0xf)) XOR push_bit 4 (drop_bit 4 ?d AND 0xf) = c XOR ?d"
    unfolding mask_15 by (rule bit_word_eqI) (auto simp: bit_simps dest: bit_imp_le_length)
  moreover have "(crc_bit ^^ 4) (push_bit 4 (drop_bit 4 ?d AND 0xf)) = drop_bit 4 ?d AND 0xf"
  proof -
    have "take_bit 4 (push_bit 4 (drop_bit 4 ?d AND 0xf)) = 0"
      by (simp add: take_bit_push_bit)
    moreover have "drop_bit 4 (push_bit 4 (drop_bit 4 ?d AND 0xf)) = drop_bit 4 ?d AND 0xf"
      unfolding mask_15 by (rule bit_word_eqI) (auto simp: bit_simps)
    ultimately show ?thesis by (simp only: crc_bits_high)
  qed
  moreover have "(crc_bit ^^ 8) x = (crc_bit ^^ 4) ((crc_bit ^^ 4) x)" for x
    by (simp add: funpow_add [of 4 4, simplified])
  ultimately have "(crc_bit ^^ 8) (c XOR ?d) =
      (crc_bit ^^ 4) ((crc_bit ^^ 4) (c XOR (?d AND 0xf)) XOR (drop_bit 4 ?d AND 0xf))"
    by (metis crc_bits_xor)
  then show ?thesis
    unfolding crc_byte_def by (simp only: lfs_crc.simps Let_def crc_nibble_bits drop_bit_0 id_apply)
qed

lemma lfs_crc_reference: "lfs_crc c data = foldl crc_byte c data"
  by (induction data arbitrary: c) (simp_all only: lfs_crc_byte foldl_Cons foldl_Nil lfs_crc.simps(1))

lemmas lfs_crc_simps = lfs_crc.simps(1) lfs_crc_byte

lemma lfs_crc_append: "lfs_crc c (xs @ ys) = lfs_crc (lfs_crc c xs) ys"
  by (simp add: lfs_crc_reference)

subsection \<open>What the checksum detects\<close>

lemma xor_cancel: "a XOR c = b XOR c \<longleftrightarrow> a = b" for a b c :: u32
  by (auto simp: bit_eq_iff bit_xor_iff)

lemma crc_byte_inject: "crc_byte a d = crc_byte b d \<longleftrightarrow> a = b"
  unfolding crc_byte_def crc_bits_inject by (rule xor_cancel)

lemma lfs_crc_inject: "lfs_crc a xs = lfs_crc b xs \<longleftrightarrow> a = b"
  by (induction xs arbitrary: a b) (simp_all only: lfs_crc_simps crc_byte_inject)

text \<open>Up to four bytes are a word that is added to the register at once.\<close>

lemma lfs_crc_word:
  assumes "length bs \<le> 4"
  shows "lfs_crc c bs = (crc_bit ^^ (8 * length bs)) (c XOR le_word bs)"
  using assms
proof (induction bs arbitrary: c)
  case Nil
  then show ?case by simp
next
  case (Cons b bs)
  let ?w = "le_word bs :: u32" and ?n = "8 * length bs"
  have "drop_bit 8 (push_bit 8 ?w) = ?w"
  proof (rule bit_word_eqI)
    fix i
    assume i: "i < LENGTH(32)"
    have "i < 24" if "bit ?w i"
      using that Cons.prems by (auto simp: bit_le_word)
    then show "bit (drop_bit 8 (push_bit 8 ?w)) i = bit ?w i"
      using i by (auto simp: bit_simps)
  qed
  moreover have "(crc_bit ^^ 8) (push_bit 8 ?w) = drop_bit 8 (push_bit 8 ?w)"
    by (rule crc_bits_high) (simp add: take_bit_push_bit)
  ultimately have w: "(crc_bit ^^ 8) (push_bit 8 ?w) = ?w" by simp
  have d: "le_word (b # bs) = ucast b XOR push_bit 8 ?w"
    by (rule bit_word_eqI) (auto simp: bit_simps dest: bit_imp_le_length)
  have "lfs_crc c (b # bs) = (crc_bit ^^ ?n) (crc_byte c b XOR ?w)"
    using Cons.IH[of "crc_byte c b"] Cons.prems by (simp only: lfs_crc_byte) simp
  also have "crc_byte c b XOR ?w = (crc_bit ^^ 8) (c XOR le_word (b # bs))"
    unfolding d crc_byte_def crc_bits_xor w by (simp add: xor.assoc)
  also have "(crc_bit ^^ ?n) \<dots> = (crc_bit ^^ (8 * length (b # bs))) (c XOR le_word (b # bs))"
    using funpow_add[of ?n 8 crc_bit] by (simp only: length_Cons mult_Suc_right add.commute[of 8] comp_apply)
  finally show ?case .
qed

lemma lfs_crc_own_checksum: "lfs_crc c (le_bytes 4 c) = 0"
  by (simp add: lfs_crc_word le_word_le_bytes)

lemma le_word_inject:
  assumes "length xs = length ys" "8 * length xs \<le> LENGTH('a::len)"
  shows "(le_word xs :: 'a word) = le_word ys \<longleftrightarrow> xs = ys"
  using assms by (metis le_bytes_le_word)

lemma lfs_crc_burst:
  assumes "length p = length q" "length p \<le> 4"
  shows "lfs_crc c (xs @ p @ ys) = lfs_crc c (xs @ q @ ys) \<longleftrightarrow> p = q"
proof
  assume "lfs_crc c (xs @ p @ ys) = lfs_crc c (xs @ q @ ys)"
  then have "lfs_crc (lfs_crc c xs) p = lfs_crc (lfs_crc c xs) q"
    by (simp only: lfs_crc_append lfs_crc_inject)
  then have "(le_word p :: u32) = le_word q"
    using assms by (simp add: lfs_crc_word crc_bits_inject) (simp add: xor_cancel xor.commute[of "lfs_crc c xs"])
  then show "p = q" using assms by (simp add: le_word_inject)
qed simp

end
