(* ===== verification/Metadata.thy ===== *)
theory Metadata
  imports Device Crc
begin

text \<open>
  \<open>src/littlefs_v2/lfs_metadata.cpp\<close>: looking up tags in the log of a metadata pair (\<open>lfs_dir_getslice\<close>
  and its callers), walking the log together with pending attributes (\<open>lfs_dir_traverse\<close>).
  Fetching a pair and resolving a path are in \<open>Fetch\<close>.

  A C function that returns a tag or a negative error becomes a function into \<open>lfs_tag_t result\<close>; a
  directory passed by pointer is taken and returned. The callback of \<open>lfs_dir_traverse\<close> is a function on
  a state of its own; the internal callback \<open>lfs_dir_traverse_filter\<close>, whose data is the tag of a frame of
  the explicit stack, is a case of \<open>traverse_cb\<close>.

  Loops over a log advance by at least the four bytes of a tag, so the size of the block bounds them.
\<close>

subsection \<open>Reading fixed amounts\<close>

text \<open>A read into a local variable whose old value does not matter.\<close>

definition read_local :: "'d lfs \<Rightarrow> bool \<Rightarrow> lfs_size_t \<Rightarrow> lfs_block_t \<Rightarrow> lfs_off_t \<Rightarrow> nat \<Rightarrow> u8 list result \<times> 'd lfs" where
  "read_local s with_write_cache hint block offset n =
     (case lfs_bd_read_own s with_write_cache hint block offset (replicate n 0) of
        (Inl h, bytes, s) \<Rightarrow> (Inl h, s)
      | (Inr _, bytes, s) \<Rightarrow> (Inr bytes, s))"

text \<open>A pair of block addresses and a file list as they lie in memory.\<close>

definition pair_of_bytes :: "u8 list \<Rightarrow> block_pair" where
  "pair_of_bytes bs = (le_word (take 8 bs), le_word (take 8 (drop 8 bs)))"

definition pair_to_bytes :: "block_pair \<Rightarrow> u8 list" where
  "pair_to_bytes p = le_bytes 8 (fst p) @ le_bytes 8 (snd p)"

definition ctz_of_bytes :: "u8 list \<Rightarrow> lfs_ctz" where
  "ctz_of_bytes bs = \<lparr>z_head = le_word (take 8 bs), z_size = le_word (take 8 (drop 8 bs))\<rparr>"

definition ctz_to_bytes :: "lfs_ctz \<Rightarrow> u8 list" where
  "ctz_to_bytes z = le_bytes 8 (z_head z) @ le_bytes 8 (z_size z)"

text \<open>\<open>lfs_gstate_t\<close> has four bytes of padding between the tag and the pair.\<close>

definition gstate_of_bytes :: "u8 list \<Rightarrow> lfs_gstate" where
  "gstate_of_bytes bs = \<lparr>g_tag = le_word (take 4 bs), g_pair = pair_of_bytes (drop 8 bs)\<rparr>"

definition gstate_to_bytes :: "lfs_gstate \<Rightarrow> u8 list" where
  "gstate_to_bytes g = le_bytes 4 (g_tag g) @ replicate 4 0 @ pair_to_bytes (g_pair g)"

definition splice_mktag :: "lfs_tag_t \<Rightarrow> lfs_tag_t" where
  "splice_mktag tag = LFS_MKTAG 0 (scast (lfs_tag_splice tag)) 0"

subsection \<open>Looking up a tag\<close>

fun lfs_dir_getslice_loop :: "nat \<Rightarrow> 'd lfs \<Rightarrow> lfs_metadata_dir \<Rightarrow> lfs_tag_t \<Rightarrow> lfs_tag_t \<Rightarrow> lfs_off_t \<Rightarrow> u8 list \<Rightarrow> lfs_off_t \<Rightarrow> lfs_tag_t \<Rightarrow> lfs_tag_t \<Rightarrow> lfs_tag_t result \<times> u8 list \<times> 'd lfs" where
  "lfs_dir_getslice_loop 0 s dir gmask gtag goff gbuffer offset ntag gdiff = (Inl Out_of_fuel, gbuffer, s)"
| "lfs_dir_getslice_loop (Suc fuel) s dir gmask gtag goff gbuffer offset ntag gdiff =
     (if \<not> 4 + lfs_tag_dsize ntag \<le> offset then (Inl (Err LFS_ERR_NOENT), gbuffer, s)
      else
        let offset = offset - lfs_tag_dsize ntag; tag = ntag
        in case read_local s False 4 (fst (m_pair dir)) offset 4 of
             (Inl h, s) \<Rightarrow> (Inl h, gbuffer, s)
           | (Inr bytes, s) \<Rightarrow>
               (let ntag = (lfs_frombe32 (le_word bytes) XOR tag) AND 0x7fffffff;
                    splice = lfs_tag_id gmask \<noteq> 0 \<and> lfs_tag_type1 tag = LFS_TYPE_SPLICE \<and>
                      lfs_tag_id tag \<le> lfs_tag_id (gtag - gdiff)
                in if splice \<and> tag = (LFS_MKTAG LFS_TYPE_CREATE 0 0 OR (LFS_MKTAG 0 0x3ff 0 AND (gtag - gdiff)))
                   then (Inl (Err LFS_ERR_NOENT), gbuffer, s)
                   else
                     let gdiff = (if splice then gdiff + splice_mktag tag else gdiff)
                     in if (gmask AND tag) = (gmask AND (gtag - gdiff))
                        then if lfs_tag_isdelete tag then (Inl (Err LFS_ERR_NOENT), gbuffer, s)
                             else
                               let diff = unat (lfs_min (lfs_tag_size tag) (of_nat (length gbuffer)))
                               in case lfs_bd_read_own s False (of_nat diff) (fst (m_pair dir)) (offset + 4 + goff) (take diff gbuffer) of
                                    (Inl h, bytes, s) \<Rightarrow> (Inl h, blit 0 bytes gbuffer, s)
                                  | (Inr _, bytes, s) \<Rightarrow>
                                      (Inr (tag + gdiff), bytes @ replicate (length gbuffer - diff) 0, s)
                        else lfs_dir_getslice_loop fuel s dir gmask gtag goff gbuffer offset ntag gdiff))"

definition lfs_dir_getslice :: "'d lfs \<Rightarrow> lfs_metadata_dir \<Rightarrow> lfs_tag_t \<Rightarrow> lfs_tag_t \<Rightarrow> lfs_off_t \<Rightarrow> u8 list \<Rightarrow> lfs_tag_t result \<times> u8 list \<times> 'd lfs" where
  "lfs_dir_getslice s dir gmask gtag goff gbuffer =
     (let gdiff = (if lfs_gstate_hasmovehere (l_gdisk s) (m_pair dir) \<and> lfs_tag_id gmask \<noteq> 0 \<and>
                      lfs_tag_id (g_tag (l_gdisk s)) \<le> lfs_tag_id gtag
                   then 0 - LFS_MKTAG 0 1 0 else 0)
      in lfs_dir_getslice_loop (Suc (unat (m_offset dir))) s dir gmask gtag goff gbuffer (m_offset dir) (m_etag dir) gdiff)"

text \<open>\<open>lfs_dir_get\<close> into a local variable of the size its tag asks for.\<close>

definition lfs_dir_get :: "'d lfs \<Rightarrow> lfs_metadata_dir \<Rightarrow> lfs_tag_t \<Rightarrow> lfs_tag_t \<Rightarrow> u8 list \<Rightarrow> lfs_tag_t result \<times> u8 list \<times> 'd lfs" where
  "lfs_dir_get s dir gmask gtag buffer = lfs_dir_getslice s dir gmask gtag 0 (take (unat (lfs_tag_size gtag)) buffer)"

definition inline_diff :: "lfs_cache \<Rightarrow> lfs_off_t \<Rightarrow> lfs_size_t \<Rightarrow> u8 list result + lfs_size_t" where
  "inline_diff c offset diff = cache_diff c LFS_BLOCK_INLINE offset diff"

fun lfs_dir_getread_loop :: "nat \<Rightarrow> 'd lfs \<Rightarrow> lfs_metadata_dir \<Rightarrow> lfs_cache option \<Rightarrow> lfs_cache \<Rightarrow> lfs_size_t \<Rightarrow> lfs_tag_t \<Rightarrow> lfs_tag_t \<Rightarrow> lfs_off_t \<Rightarrow> u8 list \<Rightarrow> nat \<Rightarrow> lfs_size_t \<Rightarrow> unit result \<times> u8 list \<times> lfs_cache \<times> 'd lfs" where
  "lfs_dir_getread_loop 0 s dir wc rc hint gmask gtag offset buffer data sz = (Inl Out_of_fuel, buffer, rc, s)"
| "lfs_dir_getread_loop (Suc fuel) s dir wc rc hint gmask gtag offset buffer data sz =
     (if \<not> 0 < sz then (Inr (), buffer, rc, s)
      else
        case (case wc of None \<Rightarrow> Inr sz | Some w \<Rightarrow> inline_diff w offset sz) of
          Inl (Inl h) \<Rightarrow> (Inl h, buffer, rc, s)
        | Inl (Inr bytes) \<Rightarrow>
            lfs_dir_getread_loop fuel s dir wc rc hint gmask gtag (offset + of_nat (length bytes)) (blit data bytes buffer)
              (data + length bytes) (sz - of_nat (length bytes))
        | Inr diff \<Rightarrow>
            (case inline_diff rc offset diff of
              Inl (Inl h) \<Rightarrow> (Inl h, buffer, rc, s)
            | Inl (Inr bytes) \<Rightarrow>
                lfs_dir_getread_loop fuel s dir wc rc hint gmask gtag (offset + of_nat (length bytes)) (blit data bytes buffer)
                  (data + length bytes) (sz - of_nat (length bytes))
            | Inr diff \<Rightarrow>
                (let rc = rc\<lparr>c_block := LFS_BLOCK_INLINE, c_offset := lfs_aligndown offset (cfg_read_size (l_cfg s)),
                             c_size := lfs_min (lfs_alignup (offset + hint) (cfg_read_size (l_cfg s))) (cfg_cache_size (l_cfg s))\<rparr>
                 in case mem_get (c_buffer rc) 0 (unat (c_size rc)) of
                      Inl h \<Rightarrow> (Inl h, buffer, rc, s)
                    | Inr b \<Rightarrow>
                        (case lfs_dir_getslice s dir gmask gtag (c_offset rc) b of
                           (Inl h, b, s) \<Rightarrow> (Inl h, buffer, rc\<lparr>c_buffer := blit 0 b (c_buffer rc)\<rparr>, s)
                         | (Inr _, b, s) \<Rightarrow>
                             lfs_dir_getread_loop fuel s dir wc (rc\<lparr>c_buffer := blit 0 b (c_buffer rc)\<rparr>) hint gmask gtag
                               offset buffer data sz))))"

definition lfs_dir_getread :: "'d lfs \<Rightarrow> lfs_metadata_dir \<Rightarrow> lfs_cache option \<Rightarrow> lfs_cache \<Rightarrow> lfs_size_t \<Rightarrow> lfs_tag_t \<Rightarrow> lfs_tag_t \<Rightarrow> lfs_off_t \<Rightarrow> u8 list \<Rightarrow> unit result \<times> u8 list \<times> lfs_cache \<times> 'd lfs" where
  "lfs_dir_getread s dir wc rc hint gmask gtag offset buffer =
     (let sz = of_nat (length buffer)
      in if l_block_size s < offset + sz then (Inl (Err LFS_ERR_CORRUPT), buffer, rc, s)
         else lfs_dir_getread_loop (Suc (2 * unat sz)) s dir wc rc hint gmask gtag offset buffer 0 sz)"

subsection \<open>Traversing a log and pending attributes\<close>

definition lfs_dir_traverse_filter :: "lfs_tag_t \<Rightarrow> lfs_tag_t \<Rightarrow> bool \<times> lfs_tag_t" where
  "lfs_dir_traverse_filter filtertag tag =
     (let mask = (if tag AND LFS_MKTAG LFS_TYPE_FROM 0 0 \<noteq> 0
                  then LFS_MKTAG LFS_TYPE_MOVESTATE 0x3ff 0 else LFS_MKTAG LFS_TYPE_GLOBALS 0x3ff 0)
      in if (mask AND tag) = (mask AND filtertag) \<or> lfs_tag_isdelete filtertag \<or>
            (LFS_MKTAG LFS_TYPE_MOVESTATE 0x3ff 0 AND tag) =
              (LFS_MKTAG LFS_TYPE_DELETE 0 0 OR (LFS_MKTAG 0 0x3ff 0 AND filtertag))
         then (True, LFS_MKTAG LFS_FROM_NOOP 0 0)
         else if lfs_tag_type1 tag = LFS_TYPE_SPLICE \<and> lfs_tag_id tag \<le> lfs_tag_id filtertag
         then (False, filtertag + splice_mktag tag)
         else (False, filtertag))"

text \<open>The callback of a frame: the caller's, or the filter on the tag of the frame with this index.\<close>

datatype traverse_cb = Cb_user | Cb_filter nat

record lfs_dir_traverse_frame =
  dt_dir :: lfs_metadata_dir
  dt_offset :: lfs_off_t
  dt_ptag :: lfs_tag_t
  dt_attrs :: "lfs_metadata_attribute list"
  dt_tmask :: lfs_tag_t
  dt_ttag :: lfs_tag_t
  dt_begin :: u16
  dt_end :: u16
  dt_diff :: u16
  dt_cb :: traverse_cb
  dt_tag :: lfs_tag_t
  dt_buffer :: tag_buffer
  dt_disk :: lfs_disk_offset

text \<open>What the caller's callback does with a tag: stop with an error, ask to stop, or go on.\<close>

type_synonym ('d, 'c) tag_callback = "'d lfs \<Rightarrow> 'c \<Rightarrow> lfs_tag_t \<Rightarrow> tag_buffer \<Rightarrow> bool result \<times> 'c \<times> 'd lfs"

text \<open>One call of the current callback. The frames are kept with the innermost first.\<close>

definition traverse_call :: "('d, 'c) tag_callback \<Rightarrow> 'd lfs \<Rightarrow> 'c \<Rightarrow> lfs_dir_traverse_frame list \<Rightarrow> traverse_cb \<Rightarrow> lfs_tag_t \<Rightarrow> tag_buffer \<Rightarrow> bool result \<times> 'c \<times> lfs_dir_traverse_frame list \<times> 'd lfs" where
  "traverse_call user s c stack cb tag buffer =
     (case cb of
        Cb_user \<Rightarrow> (case user s c tag buffer of (r, c, s) \<Rightarrow> (r, c, stack, s))
      | Cb_filter i \<Rightarrow>
          if i < length stack
          then let k = length stack - Suc i; f = stack ! k;
                   (res, t) = lfs_dir_traverse_filter (dt_tag f) tag
               in (Inr res, c, stack[k := f\<lparr>dt_tag := t\<rparr>], s)
          else (Inl Undefined_behaviour, c, stack, s))"

text \<open>
  The loop over the user attributes of \<open>LFS_FROM_USERATTRS\<close>. It leaves at the first callback that asks
  to stop; the outer loop goes on.
\<close>

fun traverse_userattrs :: "('d, 'c) tag_callback \<Rightarrow> 'd lfs \<Rightarrow> 'c \<Rightarrow> lfs_dir_traverse_frame list \<Rightarrow> traverse_cb \<Rightarrow> lfs_tag_t \<Rightarrow> u16 \<Rightarrow> lfs_user_attribute list \<Rightarrow> unit result \<times> 'c \<times> lfs_dir_traverse_frame list \<times> 'd lfs" where
  "traverse_userattrs user s c stack cb tag diff [] = (Inr (), c, stack, s)"
| "traverse_userattrs user s c stack cb tag diff (a # as) =
     (case traverse_call user s c stack cb
        (LFS_MKTAG (LFS_TYPE_USERATTR + ucast (ua_type a)) (lfs_tag_id tag + scast diff) (of_nat (length (ua_buffer a))))
        (Buf_mem (ua_buffer a)) of
        (Inl h, c, stack, s) \<Rightarrow> (Inl h, c, stack, s)
      | (Inr res, c, stack, s) \<Rightarrow>
          if res then (Inr (), c, stack, s) else traverse_userattrs user s c stack cb tag diff as)"

datatype traverse_next = T_loop | T_popped | T_break bool

text \<open>The next tag, from the log on disk or from the attributes. Left is the end of the traversal.\<close>

definition traverse_fetch :: "'d lfs \<Rightarrow> lfs_dir_traverse_frame \<Rightarrow> (lfs_dir_traverse_frame option) result \<times> 'd lfs" where
  "traverse_fetch s f =
     (if dt_offset f + lfs_tag_dsize (dt_ptag f) < m_offset (dt_dir f)
      then
        let offset = dt_offset f + lfs_tag_dsize (dt_ptag f)
        in case read_local s False 4 (fst (m_pair (dt_dir f))) offset 4 of
             (Inl h, s) \<Rightarrow> (Inl h, s)
           | (Inr bytes, s) \<Rightarrow>
               (let tag = (lfs_frombe32 (le_word bytes) XOR dt_ptag f) OR 0x80000000;
                    disk = \<lparr>do_block = fst (m_pair (dt_dir f)), do_offset = offset + 4\<rparr>
                in (Inr (Some (f\<lparr>dt_offset := offset, dt_tag := tag, dt_disk := disk, dt_buffer := Buf_disk disk, dt_ptag := tag\<rparr>)), s))
      else case dt_attrs f of
             a # as \<Rightarrow> (Inr (Some (f\<lparr>dt_tag := ma_tag a, dt_buffer := ma_buffer a, dt_attrs := as\<rparr>)), s)
           | [] \<Rightarrow> (Inr None, s))"

text \<open>From the label \<open>popped\<close> to the end of the loop body. The current frame is the first argument.\<close>

definition traverse_popped :: "('d, 'c) tag_callback \<Rightarrow> 'd lfs \<Rightarrow> 'c \<Rightarrow> lfs_dir_traverse_frame \<Rightarrow> lfs_dir_traverse_frame list \<Rightarrow> traverse_next result \<times> 'c \<times> lfs_dir_traverse_frame \<times> lfs_dir_traverse_frame list \<times> 'd lfs" where
  "traverse_popped user s c f stack =
     (let tag = dt_tag f
      in if lfs_tag_id (dt_tmask f) \<noteq> 0 \<and> \<not> (ucast (dt_begin f) \<le> lfs_tag_id tag \<and> lfs_tag_id tag < ucast (dt_end f))
         then (Inr T_loop, c, f, stack, s)
         else if lfs_tag_type3 tag = LFS_FROM_NOOP then (Inr T_loop, c, f, stack, s)
         else if lfs_tag_type3 tag = LFS_FROM_MOVE
         then
           if dt_cb f \<noteq> Cb_user then (Inr T_loop, c, f, stack, s)
           else if 2 \<le> length stack then (Inl Undefined_behaviour, c, f, stack, s)
           else (case dt_buffer f of
               Buf_dir d \<Rightarrow>
                 (let saved = f\<lparr>dt_tag := LFS_MKTAG LFS_FROM_NOOP 0 0, dt_buffer := Buf_null, dt_disk := \<lparr>do_block = 0, do_offset = 0\<rparr>\<rparr>;
                      fromid = ucast (lfs_tag_size tag); toid = ucast (lfs_tag_id tag)
                  in (Inr T_loop, c,
                      f\<lparr>dt_dir := d, dt_offset := 0, dt_ptag := 0xffffffff, dt_attrs := [],
                        dt_tmask := LFS_MKTAG LFS_TYPE_TAIL 0x3ff 0, dt_ttag := LFS_MKTAG LFS_TYPE_STRUCT 0 0,
                        dt_begin := fromid, dt_end := fromid + 1, dt_diff := toid - fromid + dt_diff f\<rparr>,
                      saved # stack, s))
             | _ \<Rightarrow> (Inl Undefined_behaviour, c, f, stack, s))
         else if lfs_tag_type3 tag = LFS_FROM_USERATTRS
         then (case dt_buffer f of
                 Buf_attrs as \<Rightarrow>
                   if unat (lfs_tag_size tag) \<le> length as
                   then (case traverse_userattrs user s c stack (dt_cb f) tag (dt_diff f) (take (unat (lfs_tag_size tag)) as) of
                           (Inl h, c, stack, s) \<Rightarrow> (Inl h, c, f, stack, s)
                         | (Inr _, c, stack, s) \<Rightarrow> (Inr T_loop, c, f, stack, s))
                   else (Inl Undefined_behaviour, c, f, stack, s)
               | _ \<Rightarrow> (if lfs_tag_size tag = 0 then Inr T_loop else Inl Undefined_behaviour, c, f, stack, s))
         else (case traverse_call user s c stack (dt_cb f) (tag + LFS_MKTAG 0 (scast (dt_diff f)) 0) (dt_buffer f) of
                 (Inl h, c, stack, s) \<Rightarrow> (Inl h, c, f, stack, s)
               | (Inr res, c, stack, s) \<Rightarrow> (Inr (if res then T_break True else T_loop), c, f, stack, s)))"

text \<open>From the top of the loop to the label \<open>popped\<close>.\<close>

definition traverse_top :: "'d lfs \<Rightarrow> lfs_dir_traverse_frame \<Rightarrow> lfs_dir_traverse_frame list \<Rightarrow> traverse_next result \<times> lfs_dir_traverse_frame \<times> lfs_dir_traverse_frame list \<times> 'd lfs" where
  "traverse_top s f stack =
     (case traverse_fetch s f of
        (Inl h, s) \<Rightarrow> (Inl h, f, stack, s)
      | (Inr None, s) \<Rightarrow> (Inr (T_break False), f, stack, s)
      | (Inr (Some f), s) \<Rightarrow>
          (let mask = LFS_MKTAG LFS_TYPE_MOVESTATE 0 0
           in if (mask AND dt_tmask f AND dt_tag f) \<noteq> (mask AND dt_tmask f AND dt_ttag f)
              then (Inr T_loop, f, stack, s)
              else if lfs_tag_id (dt_tmask f) \<noteq> 0
              then if \<not> length stack < 3 then (Inl Assertion_failed, f, stack, s)
                   else if 2 \<le> length stack then (Inl Undefined_behaviour, f, stack, s)
                   else (Inr T_loop,
                         f\<lparr>dt_tmask := 0, dt_ttag := 0, dt_begin := 0, dt_end := 0, dt_diff := 0, dt_cb := Cb_filter (length stack)\<rparr>,
                         f # stack, s)
              else (Inr T_popped, f, stack, s)))"

text \<open>The whole machine: \<open>at_popped\<close> says where the control is.\<close>

fun lfs_dir_traverse_run :: "nat \<Rightarrow> ('d, 'c) tag_callback \<Rightarrow> 'd lfs \<Rightarrow> 'c \<Rightarrow> bool \<Rightarrow> lfs_dir_traverse_frame \<Rightarrow> lfs_dir_traverse_frame list \<Rightarrow> bool result \<times> 'c \<times> 'd lfs" where
  "lfs_dir_traverse_run 0 user s c at_popped f stack = (Inl Out_of_fuel, c, s)"
| "lfs_dir_traverse_run (Suc fuel) user s c at_popped f stack =
     (case (if at_popped then traverse_popped user s c f stack
            else case traverse_top s f stack of (r, f, stack, s) \<Rightarrow> (r, c, f, stack, s)) of
        (Inl h, c, f, stack, s) \<Rightarrow> (Inl h, c, s)
      | (Inr next, c, f, stack, s) \<Rightarrow>
          (case next of
             T_loop \<Rightarrow> lfs_dir_traverse_run fuel user s c False f stack
           | T_popped \<Rightarrow> lfs_dir_traverse_run fuel user s c True f stack
           | T_break res \<Rightarrow>
               (case stack of
                  [] \<Rightarrow> (Inr res, c, s)
                | g # stack \<Rightarrow> lfs_dir_traverse_run fuel user s c True g stack)))"

text \<open>A log of \<open>n\<close> tags, each filtered against all the others, at up to three levels.\<close>

definition traverse_fuel :: "'d lfs \<Rightarrow> lfs_metadata_attribute list \<Rightarrow> nat" where
  "traverse_fuel s attrs = (2 * unat (l_block_size s) + 2 * length attrs + 8) ^ 3"

definition lfs_dir_traverse :: "'d lfs \<Rightarrow> lfs_metadata_dir \<Rightarrow> lfs_off_t \<Rightarrow> lfs_tag_t \<Rightarrow> lfs_metadata_attribute list \<Rightarrow> lfs_tag_t \<Rightarrow> lfs_tag_t \<Rightarrow> u16 \<Rightarrow> u16 \<Rightarrow> u16 \<Rightarrow> ('d, 'c) tag_callback \<Rightarrow> 'c \<Rightarrow> bool result \<times> 'c \<times> 'd lfs" where
  "lfs_dir_traverse s dir offset ptag attrs tmask ttag begin' end' diff cb data =
     lfs_dir_traverse_run (traverse_fuel s attrs) cb s data False
       \<lparr>dt_dir = dir, dt_offset = offset, dt_ptag = ptag, dt_attrs = attrs, dt_tmask = tmask, dt_ttag = ttag,
        dt_begin = begin', dt_end = end', dt_diff = diff, dt_cb = Cb_user, dt_tag = 0, dt_buffer = Buf_null,
        dt_disk = \<lparr>do_block = 0, do_offset = 0\<rparr>\<rparr> []"

end
