(* ===== verification/Fetch.thy ===== *)
theory Fetch
  imports Metadata
begin

text \<open>
  \<open>src/littlefs_v2/lfs_metadata.cpp\<close>, second part: fetching the newest valid state of a metadata pair
  (\<open>lfs_dir_fetchmatch\<close>), the global state and the entry information it holds, and resolving a path
  (\<open>lfs_dir_find\<close>).

  The scan of one block is a record of the local variables of the loop (\<open>dir_scan\<close>) and one step
  per tag. Each tag takes at least four bytes of the block, so the loop ends within the size of the
  block; a path is a list of bytes without the terminating 0, and a chain of tails visits at most
  every pair of blocks unless it is a cycle, in which case the code does not return.
\<close>

subsection \<open>Scanning one block of a pair\<close>

record dir_scan =
  sc_dir :: lfs_metadata_dir
  sc_besttag :: lfs_tag_t
  sc_offset :: lfs_off_t
  sc_ptag :: lfs_tag_t
  sc_crc :: u32
  sc_count :: u16
  sc_tail :: block_pair
  sc_split :: bool
  sc_tempbest :: lfs_tag_t

text \<open>What the caller compares an entry with: the callback sees the tag and where its data lies.\<close>

type_synonym 'd match_callback = "'d lfs \<Rightarrow> lfs_tag_t \<Rightarrow> lfs_disk_offset \<Rightarrow> lfs_cmp result \<times> 'd lfs"

text \<open>A step ends the loop (\<open>Inr False\<close>), goes on (\<open>Inr True\<close>) or leaves the function (\<open>Inl\<close>).\<close>

definition not_erased :: "dir_scan \<Rightarrow> dir_scan" where
  "not_erased sc = sc\<lparr>sc_dir := (sc_dir sc)\<lparr>m_erased := False\<rparr>\<rparr>"

definition scan_failed :: "halt \<Rightarrow> dir_scan \<Rightarrow> 'd lfs \<Rightarrow> bool result \<times> dir_scan \<times> 'd lfs" where
  "scan_failed h sc s = (if h = Err LFS_ERR_CORRUPT then (Inr False, not_erased sc, s) else (Inl h, sc, s))"

text \<open>
  The checksum of the data of an entry, byte by byte. A corrupt byte only leaves this inner loop, as
  the \<open>break\<close> of the code does.
\<close>

fun scan_entry_crc :: "nat \<Rightarrow> 'd lfs \<Rightarrow> lfs_off_t \<Rightarrow> dir_scan \<Rightarrow> unit result \<times> dir_scan \<times> 'd lfs" where
  "scan_entry_crc 0 s j sc = (Inr (), sc, s)"
| "scan_entry_crc (Suc n) s j sc =
     (case lfs_bd_read_own s False (l_block_size s) (fst (m_pair (sc_dir sc))) (sc_offset sc + j) [0] of
        (Inl h, _, s) \<Rightarrow> if h = Err LFS_ERR_CORRUPT then (Inr (), not_erased sc, s) else (Inl h, sc, s)
      | (Inr _, dat, s) \<Rightarrow> scan_entry_crc n s (j + 1) (sc\<lparr>sc_crc := lfs_crc (sc_crc sc) dat\<rparr>))"

text \<open>A checksum tag closes a commit: what was found so far becomes the state of the directory.\<close>

definition scan_commit :: "'d lfs \<Rightarrow> lfs_tag_t \<Rightarrow> dir_scan \<Rightarrow> bool result \<times> dir_scan \<times> 'd lfs" where
  "scan_commit s tag sc =
     (case read_local s False (l_block_size s) (fst (m_pair (sc_dir sc))) (sc_offset sc + 4) 4 of
        (Inl h, s) \<Rightarrow> scan_failed h sc s
      | (Inr bytes, s) \<Rightarrow>
          (let dcrc = lfs_fromle32 (le_word bytes)
           in if sc_crc sc \<noteq> dcrc then (Inr False, not_erased sc, s)
              else
                let ptag = sc_ptag sc XOR push_bit 31 (ucast (lfs_tag_chunk tag) AND 1);
                    s = s\<lparr>l_seed := lfs_crc (l_seed s) (le_bytes 4 (sc_crc sc))\<rparr>;
                    dir = (sc_dir sc)\<lparr>m_offset := sc_offset sc + lfs_tag_dsize tag, m_etag := ptag,
                            m_count := sc_count sc, m_tail := sc_tail sc, m_split := sc_split sc\<rparr>
                in (Inr True, sc\<lparr>sc_ptag := ptag, sc_besttag := sc_tempbest sc, sc_dir := dir, sc_crc := 0xffffffff\<rparr>, s)))"

text \<open>Tags that change the directory: names and splices count entries, tails link directories.\<close>

definition scan_entry :: "'d lfs \<Rightarrow> lfs_tag_t \<Rightarrow> dir_scan \<Rightarrow> bool result \<times> dir_scan \<times> 'd lfs" where
  "scan_entry s tag sc =
     (if lfs_tag_type1 tag = LFS_TYPE_NAME
      then (Inr True, (if ucast (sc_count sc) \<le> lfs_tag_id tag then sc\<lparr>sc_count := ucast (lfs_tag_id tag) + 1\<rparr> else sc), s)
      else if lfs_tag_type1 tag = LFS_TYPE_SPLICE
      then
        let best = sc_tempbest sc; sc = sc\<lparr>sc_count := sc_count sc + scast (lfs_tag_splice tag)\<rparr>
        in (Inr True,
            (if tag = (LFS_MKTAG LFS_TYPE_DELETE 0 0 OR (LFS_MKTAG 0 0x3ff 0 AND best))
             then sc\<lparr>sc_tempbest := best OR 0x80000000\<rparr>
             else if best \<noteq> - 1 \<and> lfs_tag_id tag \<le> lfs_tag_id best
             then sc\<lparr>sc_tempbest := best + splice_mktag tag\<rparr> else sc), s)
      else if lfs_tag_type1 tag = LFS_TYPE_TAIL
      then
        let sc = sc\<lparr>sc_split := (lfs_tag_chunk tag AND 1 \<noteq> 0)\<rparr>
        in case lfs_bd_read_own s False (l_block_size s) (fst (m_pair (sc_dir sc))) (sc_offset sc + 4)
                  (pair_to_bytes (sc_tail sc)) of
             (Inl h, bytes, s) \<Rightarrow> scan_failed h (sc\<lparr>sc_tail := pair_of_bytes bytes\<rparr>) s
           | (Inr _, bytes, s) \<Rightarrow> (Inr True, sc\<lparr>sc_tail := lfs_pair_fromle64 (pair_of_bytes bytes)\<rparr>, s)
      else (Inr True, sc, s))"

definition scan_match :: "'d match_callback \<Rightarrow> 'd lfs \<Rightarrow> lfs_tag_t \<Rightarrow> lfs_tag_t \<Rightarrow> lfs_tag_t \<Rightarrow> dir_scan \<Rightarrow> bool result \<times> dir_scan \<times> 'd lfs" where
  "scan_match cb s fmask ftag tag sc =
     (if (fmask AND tag) \<noteq> (fmask AND ftag) then (Inr True, sc, s)
      else case cb s tag \<lparr>do_block = fst (m_pair (sc_dir sc)), do_offset = sc_offset sc + 4\<rparr> of
             (Inl h, s) \<Rightarrow> scan_failed h sc s
           | (Inr res, s) \<Rightarrow>
               (Inr True,
                (if res = LFS_CMP_EQ then sc\<lparr>sc_tempbest := tag\<rparr>
                 else if (LFS_MKTAG LFS_TYPE_MOVESTATE 0x3ff 0 AND tag) = (LFS_MKTAG LFS_TYPE_MOVESTATE 0x3ff 0 AND sc_tempbest sc)
                 then sc\<lparr>sc_tempbest := - 1\<rparr>
                 else if res = LFS_CMP_GT \<and> lfs_tag_id tag \<le> lfs_tag_id (sc_tempbest sc)
                 then sc\<lparr>sc_tempbest := tag OR 0x80000000\<rparr> else sc), s))"

definition scan_step :: "'d match_callback \<Rightarrow> 'd lfs \<Rightarrow> lfs_tag_t \<Rightarrow> lfs_tag_t \<Rightarrow> dir_scan \<Rightarrow> bool result \<times> dir_scan \<times> 'd lfs" where
  "scan_step cb s fmask ftag sc =
     (let sc = sc\<lparr>sc_offset := sc_offset sc + lfs_tag_dsize (sc_ptag sc)\<rparr>
      in case read_local s False (l_block_size s) (fst (m_pair (sc_dir sc))) (sc_offset sc) 4 of
           (Inl h, s) \<Rightarrow> scan_failed h sc s
         | (Inr bytes, s) \<Rightarrow>
             (let sc = sc\<lparr>sc_crc := lfs_crc (sc_crc sc) bytes\<rparr>;
                  tag = lfs_frombe32 (le_word bytes) XOR sc_ptag sc
              in if \<not> lfs_tag_isvalid tag
                 then (Inr False,
                       sc\<lparr>sc_dir := (sc_dir sc)\<lparr>m_erased := (lfs_tag_type1 (sc_ptag sc) = LFS_TYPE_CRC \<and>
                            m_offset (sc_dir sc) mod cfg_write_size (l_cfg s) = 0)\<rparr>\<rparr>, s)
                 else if l_block_size s < sc_offset sc + lfs_tag_dsize tag then (Inr False, not_erased sc, s)
                 else
                   let sc = sc\<lparr>sc_ptag := tag\<rparr>
                   in if lfs_tag_type1 tag = LFS_TYPE_CRC then scan_commit s tag sc
                      else case scan_entry_crc (unat (lfs_tag_dsize tag) - 4) s 4 sc of
                             (Inl h, sc, s) \<Rightarrow> (Inl h, sc, s)
                           | (Inr _, sc, s) \<Rightarrow>
                               (case scan_entry s tag sc of
                                  (Inl h, sc, s) \<Rightarrow> (Inl h, sc, s)
                                | (Inr go, sc, s) \<Rightarrow> if go then scan_match cb s fmask ftag tag sc else (Inr False, sc, s))))"

fun scan_loop :: "nat \<Rightarrow> 'd match_callback \<Rightarrow> 'd lfs \<Rightarrow> lfs_tag_t \<Rightarrow> lfs_tag_t \<Rightarrow> dir_scan \<Rightarrow> unit result \<times> dir_scan \<times> 'd lfs" where
  "scan_loop 0 cb s fmask ftag sc = (Inl Out_of_fuel, sc, s)"
| "scan_loop (Suc fuel) cb s fmask ftag sc =
     (case scan_step cb s fmask ftag sc of
        (Inl h, sc, s) \<Rightarrow> (Inl h, sc, s)
      | (Inr go, sc, s) \<Rightarrow> if go then scan_loop fuel cb s fmask ftag sc else (Inr (), sc, s))"

definition scan_block :: "'d match_callback \<Rightarrow> 'd lfs \<Rightarrow> lfs_tag_t \<Rightarrow> lfs_tag_t \<Rightarrow> lfs_metadata_dir \<Rightarrow> lfs_tag_t \<Rightarrow> unit result \<times> dir_scan \<times> 'd lfs" where
  "scan_block cb s fmask ftag dir besttag =
     scan_loop (Suc (Suc (unat (l_block_size s)))) cb s fmask ftag
       \<lparr>sc_dir = dir, sc_besttag = besttag, sc_offset = 0, sc_ptag = 0xffffffff,
        sc_crc = lfs_crc 0xffffffff (le_bytes 4 (lfs_tole32 (m_revision_count dir))), sc_count = 0,
        sc_tail = (LFS_BLOCK_NULL, LFS_BLOCK_NULL), sc_split = False, sc_tempbest = besttag\<rparr>"

subsection \<open>Fetching a metadata pair\<close>

text \<open>
  The revision of one block of the pair. \<open>LFS_ERR_CORRUPT\<close> is tolerated; the first component says
  whether this block is the newer one.
\<close>

definition fetch_revision :: "'d lfs \<Rightarrow> lfs_block_t \<Rightarrow> u32 \<Rightarrow> u32 \<Rightarrow> bool result \<times> u32 \<times> 'd lfs" where
  "fetch_revision s block revn other =
     (case lfs_bd_read_own s False 4 block 0 (le_bytes 4 revn) of
        (Inl h, bytes, s) \<Rightarrow>
          (if h = Err LFS_ERR_CORRUPT then Inr False else Inl h, lfs_fromle32 (le_word bytes), s)
      | (Inr _, bytes, s) \<Rightarrow>
          (let revn = lfs_fromle32 (le_word bytes) in (Inr (0 < lfs_scmp revn other), revn, s)))"

text \<open>A pending move out of this very pair hides the entry.\<close>

definition synthetic_move :: "'d lfs \<Rightarrow> block_pair \<Rightarrow> lfs_tag_t \<Rightarrow> lfs_tag_t" where
  "synthetic_move s pair besttag =
     (if lfs_gstate_hasmovehere (l_gdisk s) pair
      then if lfs_tag_id (g_tag (l_gdisk s)) = lfs_tag_id besttag then besttag OR 0x80000000
           else if besttag \<noteq> - 1 \<and> lfs_tag_id (g_tag (l_gdisk s)) < lfs_tag_id besttag
           then besttag - LFS_MKTAG 0 1 0 else besttag
      else besttag)"

text \<open>The result with a match, an id to insert at, or the end of this part of the directory.\<close>

definition fetch_answer :: "lfs_metadata_dir \<Rightarrow> lfs_tag_t \<Rightarrow> lfs_tag_t result" where
  "fetch_answer dir besttag =
     (if lfs_tag_isvalid besttag then Inr besttag
      else if lfs_tag_id besttag < ucast (m_count dir) then Inl (Err LFS_ERR_NOENT) else Inr 0)"

text \<open>The two blocks in turn: the newer one first. The \<open>u16\<close> is what \<open>*id\<close> is set to, if it is.\<close>

fun fetch_blocks :: "nat \<Rightarrow> 'd match_callback \<Rightarrow> 'd lfs \<Rightarrow> lfs_tag_t \<Rightarrow> lfs_tag_t \<Rightarrow> u32 \<Rightarrow> lfs_metadata_dir \<Rightarrow> lfs_tag_t \<Rightarrow> lfs_tag_t result \<times> lfs_metadata_dir \<times> u16 option \<times> 'd lfs" where
  "fetch_blocks 0 cb s fmask ftag revn dir besttag = (Inl (Err LFS_ERR_CORRUPT), dir, None, s)"
| "fetch_blocks (Suc n) cb s fmask ftag revn dir besttag =
     (case scan_block cb s fmask ftag dir besttag of
        (Inl h, sc, s) \<Rightarrow> (Inl h, sc_dir sc, None, s)
      | (Inr _, sc, s) \<Rightarrow>
          (let dir = sc_dir sc
           in if 0 < m_offset dir
              then
                let besttag = synthetic_move s (m_pair dir) (sc_besttag sc)
                in (fetch_answer dir besttag, dir,
                    Some (ucast (lfs_min (ucast (lfs_tag_id besttag)) (ucast (m_count dir)))), s)
              else fetch_blocks n cb s fmask ftag revn
                     (dir\<lparr>m_pair := lfs_pair_swap (m_pair dir), m_revision_count := revn\<rparr>) (sc_besttag sc)))"

definition lfs_dir_fetchmatch :: "'d lfs \<Rightarrow> lfs_metadata_dir \<Rightarrow> block_pair \<Rightarrow> lfs_tag_t \<Rightarrow> lfs_tag_t \<Rightarrow> 'd match_callback \<Rightarrow> lfs_tag_t result \<times> lfs_metadata_dir \<times> u16 option \<times> 'd lfs" where
  "lfs_dir_fetchmatch s dir pair fmask ftag cb =
     (if l_block_count s \<le> fst pair \<or> l_block_count s \<le> snd pair
      then (Inl (Err LFS_ERR_CORRUPT), dir, None, s)
      else case fetch_revision s (fst pair) 0 0 of
             (Inl h, rev0, s) \<Rightarrow> (Inl h, dir, None, s)
           | (Inr _, rev0, s) \<Rightarrow>
               (case fetch_revision s (snd pair) 0 rev0 of
                  (Inl h, rev1, s) \<Rightarrow> (Inl h, dir, None, s)
                | (Inr newer, rev1, s) \<Rightarrow>
                    (let dir = dir\<lparr>m_pair := (if newer then lfs_pair_swap pair else pair),
                                   m_revision_count := (if newer then rev1 else rev0), m_offset := 0\<rparr>
                     in fetch_blocks 2 cb s fmask ftag (if newer then rev0 else rev1) dir (- 1))))"

text \<open>The mask and tag of \<open>lfs_dir_fetch\<close> match no valid tag, so its null callback is never called.\<close>

definition lfs_dir_fetch :: "'d lfs \<Rightarrow> lfs_metadata_dir \<Rightarrow> block_pair \<Rightarrow> lfs_tag_t result \<times> lfs_metadata_dir \<times> 'd lfs" where
  "lfs_dir_fetch s dir pair =
     (case lfs_dir_fetchmatch s dir pair (- 1) (- 1) (\<lambda>s tag disk. (Inl Undefined_behaviour, s)) of
        (r, dir, ident, s) \<Rightarrow> (r, dir, s))"

subsection \<open>Global state and entry information\<close>

definition lfs_dir_getgstate :: "'d lfs \<Rightarrow> lfs_metadata_dir \<Rightarrow> lfs_gstate \<Rightarrow> unit result \<times> lfs_gstate \<times> 'd lfs" where
  "lfs_dir_getgstate s dir gstate =
     (case lfs_dir_get s dir (LFS_MKTAG LFS_TYPE_MOVESTATE 0 0) (LFS_MKTAG LFS_TYPE_MOVESTATE 0 24) (replicate 24 0) of
        (Inl h, temp, s) \<Rightarrow> (if h = Err LFS_ERR_NOENT then Inr () else Inl h, gstate, s)
      | (Inr _, temp, s) \<Rightarrow>
          (Inr (), lfs_gstate_xor gstate (lfs_gstate_fromle64 (gstate_of_bytes temp)), s))"

definition lfs_dir_getinfo :: "'d lfs \<Rightarrow> lfs_metadata_dir \<Rightarrow> u16 \<Rightarrow> lfs_info \<Rightarrow> unit result \<times> lfs_info \<times> 'd lfs" where
  "lfs_dir_getinfo s dir ident info =
     (if ident = 0x3ff then (Inr (), info\<lparr>i_name := blit 0 [0x2f, 0] (i_name info), i_type := ucast LFS_TYPE_DIR\<rparr>, s)
      else case lfs_dir_get s dir (LFS_MKTAG 0x780 0x3ff 0)
             (LFS_MKTAG LFS_TYPE_NAME (ucast ident) (ucast (l_name_max_length s + 1))) (i_name info) of
           (Inl h, name, s) \<Rightarrow> (Inl h, info\<lparr>i_name := blit 0 name (i_name info)\<rparr>, s)
         | (Inr tag, name, s) \<Rightarrow>
             (let info = info\<lparr>i_name := blit 0 name (i_name info), i_type := ucast (lfs_tag_type3 tag)\<rparr>
              in case lfs_dir_get s dir (LFS_MKTAG LFS_TYPE_GLOBALS 0x3ff 0)
                   (LFS_MKTAG LFS_TYPE_STRUCT (ucast ident) 16) (replicate 16 0) of
                 (Inl h, bytes, s) \<Rightarrow> (Inl h, info, s)
               | (Inr tag, bytes, s) \<Rightarrow>
                   (let ctz = lfs_ctz_fromle64 (ctz_of_bytes bytes)
                    in (Inr (),
                        (if lfs_tag_type3 tag = LFS_TYPE_CTZSTRUCT then info\<lparr>i_size := z_size ctz\<rparr>
                         else if lfs_tag_type3 tag = LFS_TYPE_INLINESTRUCT then info\<lparr>i_size := lfs_tag_size tag\<rparr>
                         else info), s))))"

subsection \<open>Resolving a path\<close>

text \<open>The callback that compares an entry with a name.\<close>

definition lfs_dir_find_match :: "u8 list \<Rightarrow> 'd match_callback" where
  "lfs_dir_find_match name s tag disk =
     (let sz = of_nat (length name); diff = lfs_min sz (lfs_tag_size tag)
      in case lfs_bd_cmp_own s diff (do_block disk) (do_offset disk) name diff of
           (Inl h, s) \<Rightarrow> (Inl h, s)
         | (Inr res, s) \<Rightarrow>
             (Inr (if res \<noteq> LFS_CMP_EQ then res
                   else if sz \<noteq> lfs_tag_size tag
                   then if sz < lfs_tag_size tag then LFS_CMP_LT else LFS_CMP_GT
                   else LFS_CMP_EQ), s))"

abbreviation (input) slash :: u8 where "slash \<equiv> 0x2f"

definition skip_slashes :: "u8 list \<Rightarrow> u8 list" where
  "skip_slashes name = dropWhile (\<lambda>c. c = slash) name"

definition name_component :: "u8 list \<Rightarrow> u8 list" where
  "name_component name = takeWhile (\<lambda>c. c \<noteq> slash) name"

definition name_rest :: "u8 list \<Rightarrow> u8 list" where
  "name_rest name = dropWhile (\<lambda>c. c \<noteq> slash) name"

lemma length_skip_slashes: "length (skip_slashes name) \<le> length name"
  by (simp add: skip_slashes_def length_dropWhile_le)

lemma length_name_rest: "name_component name \<noteq> [] \<Longrightarrow> length (name_rest name) < length name"
  by (cases name) (auto simp: name_rest_def name_component_def length_dropWhile_le le_imp_less_Suc split: if_splits)

lemma length_next_component:
  "name_component (skip_slashes name) \<noteq> [] \<Longrightarrow> length (name_rest (skip_slashes name)) < length name"
  by (rule less_le_trans[OF length_name_rest length_skip_slashes])

text \<open>
  The inner loop: is the current name cancelled by a later \<open>..\<close>? Then what follows that \<open>..\<close> is
  where to go on.
\<close>

function dotdot_suffix :: "int \<Rightarrow> u8 list \<Rightarrow> u8 list option" where
  "dotdot_suffix depth suffix =
     (let suffix = skip_slashes suffix; comp = name_component suffix
      in if comp = [] then None
         else if comp = [0x2e, 0x2e]
         then if depth - 1 = 0 then Some (name_rest suffix) else dotdot_suffix (depth - 1) (name_rest suffix)
         else dotdot_suffix (depth + 1) (name_rest suffix))"
  by pat_completeness auto

termination
  by (relation "measure (\<lambda>(depth, suffix). length suffix)") (auto simp: length_next_component)

declare dotdot_suffix.simps [simp del]

lemma length_dotdot_suffix: "dotdot_suffix depth suffix = Some rest \<Longrightarrow> length rest < length suffix"
proof (induction depth suffix rule: dotdot_suffix.induct)
  case (1 depth suffix)
  define t where "t = name_rest (skip_slashes suffix)"
  from "1.prems" have ne: "name_component (skip_slashes suffix) \<noteq> []"
    by (subst (asm) dotdot_suffix.simps) (auto simp only: Let_def split: if_splits)
  have IH1: "dotdot_suffix (depth - 1) t = Some rest \<Longrightarrow> name_component (skip_slashes suffix) = [0x2e, 0x2e] \<Longrightarrow> depth - 1 \<noteq> 0 \<Longrightarrow> length rest < length t"
    using "1.IH"(1)[OF refl refl ne] by (simp add: t_def)
  have IH2: "dotdot_suffix (depth + 1) t = Some rest \<Longrightarrow> name_component (skip_slashes suffix) \<noteq> [0x2e, 0x2e] \<Longrightarrow> length rest < length t"
    using "1.IH"(2)[OF refl refl ne] by (simp add: t_def)
  have "(if name_component (skip_slashes suffix) = [0x2e, 0x2e] then if depth - 1 = 0 then Some t else dotdot_suffix (depth - 1) t else dotdot_suffix (depth + 1) t) = Some rest"
    using "1.prems" ne unfolding dotdot_suffix.simps[of depth suffix] by (simp only: Let_def t_def if_False)
  then have "rest = t \<or> length rest < length t"
    using IH1 IH2 by (simp split: if_splits)
  then show ?case using length_next_component[OF ne] by (auto simp: t_def)
qed

text \<open>From the label \<open>nextname\<close> to a name to look up, or the end of the path.\<close>

function next_name :: "u8 list \<Rightarrow> u8 list" where
  "next_name name =
     (let name = skip_slashes name; comp = name_component name
      in if comp = [0x2e] \<or> comp = [0x2e, 0x2e] then next_name (name_rest name)
         else case dotdot_suffix 1 (name_rest name) of
                Some rest \<Rightarrow> next_name rest
              | None \<Rightarrow> name)"
  by pat_completeness auto

termination
proof (relation "measure length", goal_cases)
  case 1
  then show ?case by simp
next
  case (2 name n c)
  then have "name_component (skip_slashes name) \<noteq> []" by auto
  then show ?case using 2 by (simp add: length_next_component)
next
  case (3 name n c rest)
  have "length rest < length (name_rest (skip_slashes name))"
    using 3 by (auto dest: length_dotdot_suffix)
  also have "\<dots> \<le> length name"
    using length_skip_slashes[of name] length_dropWhile_le[of _ "skip_slashes name"]
    by (auto simp: name_rest_def intro: order_trans)
  finally show ?case by simp
qed

declare next_name.simps [simp del]

text \<open>
  The search for one name along the parts of a directory. \<open>want_id\<close> says that this is the last
  name, so that \<open>id\<close> is to be set.
\<close>

fun find_entry :: "nat \<Rightarrow> 'd lfs \<Rightarrow> lfs_metadata_dir \<Rightarrow> u8 list \<Rightarrow> bool \<Rightarrow> u16 \<Rightarrow> lfs_tag_t result \<times> lfs_metadata_dir \<times> u16 \<times> 'd lfs" where
  "find_entry 0 s dir name want_id ident = (Inl Out_of_fuel, dir, ident, s)"
| "find_entry (Suc fuel) s dir name want_id ident =
     (case lfs_dir_fetchmatch s dir (m_tail dir) (LFS_MKTAG 0x780 0 0)
             (LFS_MKTAG LFS_TYPE_NAME 0 (of_nat (length name))) (lfs_dir_find_match name) of
        (r, dir, newid, s) \<Rightarrow>
          (let ident = (case newid of Some i \<Rightarrow> if want_id then i else ident | None \<Rightarrow> ident)
           in case r of
                Inl h \<Rightarrow> (Inl h, dir, ident, s)
              | Inr tag \<Rightarrow>
                  if tag \<noteq> 0 then (Inr tag, dir, ident, s)
                  else if \<not> m_split dir then (Inl (Err LFS_ERR_NOENT), dir, ident, s)
                  else find_entry fuel s dir name want_id ident))"

definition chain_fuel :: "'d lfs \<Rightarrow> nat" where
  "chain_fuel s = Suc (unat (l_block_count s) * unat (l_block_count s))"

text \<open>The outer loop, one pass per name. The result has the path from the last name looked up.\<close>

fun find_path :: "nat \<Rightarrow> 'd lfs \<Rightarrow> lfs_metadata_dir \<Rightarrow> lfs_tag_t \<Rightarrow> u8 list \<Rightarrow> u8 list \<Rightarrow> u16 \<Rightarrow> lfs_tag_t result \<times> lfs_metadata_dir \<times> u8 list \<times> u16 \<times> 'd lfs" where
  "find_path 0 s dir tag name path ident = (Inl Out_of_fuel, dir, path, ident, s)"
| "find_path (Suc fuel) s dir tag name path ident =
     (let name = next_name name; comp = name_component name
      in if name = [] then (Inr tag, dir, path, ident, s)
         else if lfs_tag_type3 tag \<noteq> LFS_TYPE_DIR then (Inl (Err LFS_ERR_NOTDIR), dir, name, ident, s)
         else case (if lfs_tag_id tag \<noteq> 0x3ff
                    then (case lfs_dir_get s dir (LFS_MKTAG LFS_TYPE_GLOBALS 0x3ff 0)
                                 (LFS_MKTAG LFS_TYPE_STRUCT (lfs_tag_id tag) 16) (pair_to_bytes (m_tail dir)) of
                            (Inl h, bytes, s) \<Rightarrow> (Inl h, dir\<lparr>m_tail := pair_of_bytes bytes\<rparr>, s)
                          | (Inr _, bytes, s) \<Rightarrow> (Inr (), dir\<lparr>m_tail := lfs_pair_fromle64 (pair_of_bytes bytes)\<rparr>, s))
                    else (Inr (), dir, s)) of
                (Inl h, dir, s) \<Rightarrow> (Inl h, dir, name, ident, s)
              | (Inr _, dir, s) \<Rightarrow>
                  (case find_entry (chain_fuel s) s dir comp (slash \<notin> set name) ident of
                     (Inl h, dir, ident, s) \<Rightarrow> (Inl h, dir, name, ident, s)
                   | (Inr tag, dir, ident, s) \<Rightarrow> find_path fuel s dir tag (name_rest name) name ident))"

definition lfs_dir_find :: "'d lfs \<Rightarrow> lfs_metadata_dir \<Rightarrow> u8 list \<Rightarrow> lfs_tag_t result \<times> lfs_metadata_dir \<times> u8 list \<times> u16 \<times> 'd lfs" where
  "lfs_dir_find s dir path =
     find_path (Suc (length path)) s (dir\<lparr>m_tail := l_root s\<rparr>) (LFS_MKTAG LFS_TYPE_DIR 0x3ff 0) path path 0x3ff"

end
