(* ===== verification/FileIndex.thy ===== *)
theory FileIndex
  imports Metadata
begin

text \<open>
  \<open>src/littlefs_v2/lfs_file_index.cpp\<close> without \<open>lfs_ctz_extend\<close>, which allocates and is in \<open>Allocator\<close>:
  the position of a byte in the skip list of the blocks of a file (\<open>lfs_ctz_index\<close>), the walk to the
  block that holds it (\<open>lfs_ctz_find\<close>) and the visit of all blocks (\<open>lfs_ctz_traverse\<close>).

  \<open>lfs_ctz_index\<close> returns an \<open>int\<close>, so the index is cut to 32 bits; its callers widen it again with its
  sign. Where the code divides by \<open>block_size - 16\<close> the model divides as HOL does, so a block of
  exactly 16 bytes, for which the code is undefined, is outside what the model speaks of.

  A walk goes down by at least one index in each step, so the index bounds it.
\<close>

definition lfs_ctz_index :: "'d lfs \<Rightarrow> lfs_off_t \<Rightarrow> u32 \<times> lfs_off_t" where
  "lfs_ctz_index s offset =
     (let sz = offset; b = l_block_size s - 2 * 8; i = sz div b
      in if i = 0 then (0, offset)
         else
           let i = (sz - 8 * (lfs_popc64 (i - 1) + 2)) div b
           in (ucast i, sz - b * i - 8 * lfs_popc64 i))"

fun lfs_ctz_find_loop :: "nat \<Rightarrow> 'd lfs \<Rightarrow> lfs_cache option \<Rightarrow> lfs_cache \<Rightarrow> lfs_block_t \<Rightarrow> lfs_off_t \<Rightarrow> lfs_off_t \<Rightarrow> lfs_block_t result \<times> lfs_cache \<times> 'd lfs" where
  "lfs_ctz_find_loop 0 s wc rc head current target = (Inl Out_of_fuel, rc, s)"
| "lfs_ctz_find_loop (Suc fuel) s wc rc head current target =
     (if \<not> target < current then (Inr head, rc, s)
      else
        let skip = lfs_min (lfs_npw2_64 (current - target + 1) - 1) (lfs_ctz64 current)
        in case lfs_bd_read s wc rc 8 head (8 * skip) (le_bytes 8 head) of
             (Inl h, bytes, rc, s) \<Rightarrow> (Inl h, rc, s)
           | (Inr _, bytes, rc, s) \<Rightarrow>
               lfs_ctz_find_loop fuel s wc rc (lfs_fromle64 (le_word bytes))
                 (current - push_bit (unat skip) 1) target)"

definition lfs_ctz_find :: "'d lfs \<Rightarrow> lfs_cache option \<Rightarrow> lfs_cache \<Rightarrow> lfs_block_t \<Rightarrow> lfs_size_t \<Rightarrow> lfs_size_t \<Rightarrow> (lfs_block_t \<times> lfs_off_t) result \<times> lfs_cache \<times> 'd lfs" where
  "lfs_ctz_find s wc rc head sz pos =
     (if sz = 0 then (Inr (LFS_BLOCK_NULL, 0), rc, s)
      else
        let current = scast (fst (lfs_ctz_index s (sz - 1))); (target, pos) = lfs_ctz_index s pos
        in case lfs_ctz_find_loop (Suc (unat current)) s wc rc head current (scast target) of
             (Inl h, rc, s) \<Rightarrow> (Inl h, rc, s)
           | (Inr head, rc, s) \<Rightarrow> (Inr (head, pos), rc, s))"

subsection \<open>Visiting the blocks of a file\<close>

text \<open>A callback on blocks: \<open>Inl\<close> stops the walk.\<close>

type_synonym ('d, 'c) block_callback = "'d lfs \<Rightarrow> 'c \<Rightarrow> lfs_block_t \<Rightarrow> unit result \<times> 'c \<times> 'd lfs"

text \<open>A read that fills the read cache of the file system, with any write cache.\<close>

definition lfs_bd_read_through :: "'d lfs \<Rightarrow> lfs_cache option \<Rightarrow> lfs_size_t \<Rightarrow> lfs_block_t \<Rightarrow> lfs_off_t \<Rightarrow> u8 list \<Rightarrow> unit result \<times> u8 list \<times> 'd lfs" where
  "lfs_bd_read_through s wc hint block offset buffer =
     (case lfs_bd_read s wc (l_read_cache s) hint block offset buffer of
        (r, buffer, rc, s) \<Rightarrow> (r, buffer, s\<lparr>l_read_cache := rc\<rparr>))"

text \<open>Both callers pass the read cache of the file system.\<close>

fun lfs_ctz_traverse_loop :: "nat \<Rightarrow> ('d, 'c) block_callback \<Rightarrow> 'd lfs \<Rightarrow> 'c \<Rightarrow> lfs_cache option \<Rightarrow> lfs_block_t \<Rightarrow> lfs_off_t \<Rightarrow> unit result \<times> 'c \<times> 'd lfs" where
  "lfs_ctz_traverse_loop 0 cb s c wc head index = (Inl Out_of_fuel, c, s)"
| "lfs_ctz_traverse_loop (Suc fuel) cb s c wc head index =
     (case cb s c head of
        (Inl h, c, s) \<Rightarrow> (Inl h, c, s)
      | (Inr _, c, s) \<Rightarrow>
          if index = 0 then (Inr (), c, s)
          else
            let count = 2 - (index AND 1)
            in case lfs_bd_read_through s wc (count * 8) head 0 (replicate (unat count * 8) 0) of
                 (Inl h, bytes, s) \<Rightarrow> (Inl h, c, s)
               | (Inr _, bytes, s) \<Rightarrow>
                   (let heads = lfs_pair_fromle64 (pair_of_bytes bytes)
                    in case cb s c (fst heads) of
                         (Inl h, c, s) \<Rightarrow> (Inl h, c, s)
                       | (Inr _, c, s) \<Rightarrow>
                           lfs_ctz_traverse_loop fuel cb s c wc (if count = 1 then fst heads else snd heads) (index - count)))"

definition lfs_ctz_traverse :: "('d, 'c) block_callback \<Rightarrow> 'd lfs \<Rightarrow> 'c \<Rightarrow> lfs_cache option \<Rightarrow> lfs_block_t \<Rightarrow> lfs_size_t \<Rightarrow> unit result \<times> 'c \<times> 'd lfs" where
  "lfs_ctz_traverse cb s c wc head sz =
     (if sz = 0 then (Inr (), c, s)
      else
        let index = scast (fst (lfs_ctz_index s (sz - 1)))
        in lfs_ctz_traverse_loop (Suc (unat index)) cb s c wc head index)"

end
