(* ===== verification/FsTraverse.thy ===== *)
theory FsTraverse
  imports Fetch FileIndex
begin

text \<open>
  The part of \<open>src/littlefs_v2/lfs_operations.cpp\<close> that only reads: visiting every block in use
  (\<open>lfs_fs_rawtraverse\<close>), finding the predecessor and the parent of a metadata pair, counting blocks,
  and the two functions that prepare the global state for a commit.

  The list of metadata pairs is followed for at most \<open>block_count / 2\<close> steps; the code counts them.
\<close>

text \<open>The value a new directory variable starts with.\<close>

definition mdir_zero :: lfs_metadata_dir where
  "mdir_zero = \<lparr>m_pair = (0, 0), m_revision_count = 0, m_offset = 0, m_etag = 0, m_count = 0,
                m_erased = False, m_split = False, m_tail = (0, 0)\<rparr>"

subsection \<open>Visiting every block\<close>

text \<open>The body of the loop over the entries of a directory, for one \<open>id\<close>.\<close>

definition rawtraverse_entry :: "('d, 'c) block_callback \<Rightarrow> 'd lfs \<Rightarrow> 'c \<Rightarrow> lfs_metadata_dir \<Rightarrow> bool \<Rightarrow> u16 \<Rightarrow> unit result \<times> 'c \<times> 'd lfs" where
  "rawtraverse_entry cb s c dir includeorphans ident =
     (case lfs_dir_get s dir (LFS_MKTAG LFS_TYPE_GLOBALS 0x3ff 0) (LFS_MKTAG LFS_TYPE_STRUCT (ucast ident) 16) (replicate 16 0) of
        (Inl h, bytes, s) \<Rightarrow> (if h = Err LFS_ERR_NOENT then Inr () else Inl h, c, s)
      | (Inr tag, bytes, s) \<Rightarrow>
          (let ctz = lfs_ctz_fromle64 (ctz_of_bytes bytes)
           in if lfs_tag_type3 tag = LFS_TYPE_CTZSTRUCT then lfs_ctz_traverse cb s c None (z_head ctz) (z_size ctz)
              else if includeorphans \<and> lfs_tag_type3 tag = LFS_TYPE_DIRSTRUCT
              then (case cb s c (z_head ctz) of
                      (Inl h, c, s) \<Rightarrow> (Inl h, c, s)
                    | (Inr _, c, s) \<Rightarrow> cb s c (z_size ctz))
              else (Inr (), c, s)))"

fun rawtraverse_entries :: "nat \<Rightarrow> ('d, 'c) block_callback \<Rightarrow> 'd lfs \<Rightarrow> 'c \<Rightarrow> lfs_metadata_dir \<Rightarrow> bool \<Rightarrow> u16 \<Rightarrow> unit result \<times> 'c \<times> 'd lfs" where
  "rawtraverse_entries 0 cb s c dir includeorphans ident = (Inr (), c, s)"
| "rawtraverse_entries (Suc n) cb s c dir includeorphans ident =
     (case rawtraverse_entry cb s c dir includeorphans ident of
        (Inl h, c, s) \<Rightarrow> (Inl h, c, s)
      | (Inr _, c, s) \<Rightarrow> rawtraverse_entries n cb s c dir includeorphans (ident + 1))"

fun rawtraverse_dirs :: "nat \<Rightarrow> ('d, 'c) block_callback \<Rightarrow> 'd lfs \<Rightarrow> 'c \<Rightarrow> lfs_metadata_dir \<Rightarrow> bool \<Rightarrow> unit result \<times> 'c \<times> 'd lfs" where
  "rawtraverse_dirs n cb s c dir includeorphans =
     (if lfs_pair_isnull (m_tail dir) then (Inr (), c, s)
      else case n of
        0 \<Rightarrow> (Inl (Err LFS_ERR_CORRUPT), c, s)
      | Suc n \<Rightarrow>
          (case cb s c (fst (m_tail dir)) of
             (Inl h, c, s) \<Rightarrow> (Inl h, c, s)
           | (Inr _, c, s) \<Rightarrow>
               (case cb s c (snd (m_tail dir)) of
                  (Inl h, c, s) \<Rightarrow> (Inl h, c, s)
                | (Inr _, c, s) \<Rightarrow>
                    (case lfs_dir_fetch s dir (m_tail dir) of
                       (Inl h, dir, s) \<Rightarrow> (Inl h, c, s)
                     | (Inr _, dir, s) \<Rightarrow>
                         (case rawtraverse_entries (unat (m_count dir)) cb s c dir includeorphans 0 of
                            (Inl h, c, s) \<Rightarrow> (Inl h, c, s)
                          | (Inr _, c, s) \<Rightarrow> rawtraverse_dirs n cb s c dir includeorphans)))))"

text \<open>The blocks of an open file that the disk does not know of yet.\<close>

definition rawtraverse_file :: "('d, 'c) block_callback \<Rightarrow> 'd lfs \<Rightarrow> 'c \<Rightarrow> lfs_file \<Rightarrow> unit result \<times> 'c \<times> 'd lfs" where
  "rawtraverse_file cb s c f =
     (case (if f_flags f AND LFS_F_DIRTY \<noteq> 0 \<and> \<not> f_flags f AND LFS_F_INLINE \<noteq> 0
            then lfs_ctz_traverse cb s c (Some (f_cache f)) (z_head (f_ctz f)) (z_size (f_ctz f))
            else (Inr (), c, s)) of
        (Inl h, c, s) \<Rightarrow> (Inl h, c, s)
      | (Inr _, c, s) \<Rightarrow>
          (if f_flags f AND LFS_F_WRITING \<noteq> 0 \<and> \<not> f_flags f AND LFS_F_INLINE \<noteq> 0
           then lfs_ctz_traverse cb s c (Some (f_cache f)) (f_block f) (f_pos f)
           else (Inr (), c, s)))"

fun rawtraverse_open :: "('d, 'c) block_callback \<Rightarrow> 'd lfs \<Rightarrow> 'c \<Rightarrow> (nat \<times> open_node) list \<Rightarrow> unit result \<times> 'c \<times> 'd lfs" where
  "rawtraverse_open cb s c [] = (Inr (), c, s)"
| "rawtraverse_open cb s c ((p, File f) # rest) =
     (if ml_type f \<noteq> ucast LFS_TYPE_REG then rawtraverse_open cb s c rest
      else case rawtraverse_file cb s c f of
        (Inl h, c, s) \<Rightarrow> (Inl h, c, s)
      | (Inr _, c, s) \<Rightarrow> rawtraverse_open cb s c rest)"
| "rawtraverse_open cb s c ((p, e) # rest) = rawtraverse_open cb s c rest"

definition lfs_fs_rawtraverse :: "('d, 'c) block_callback \<Rightarrow> 'd lfs \<Rightarrow> 'c \<Rightarrow> bool \<Rightarrow> unit result \<times> 'c \<times> 'd lfs" where
  "lfs_fs_rawtraverse cb s c includeorphans =
     (case rawtraverse_dirs (unat (l_block_count s div 2)) cb s c (mdir_zero\<lparr>m_tail := (0, 1)\<rparr>) includeorphans of
        (Inl h, c, s) \<Rightarrow> (Inl h, c, s)
      | (Inr _, c, s) \<Rightarrow> rawtraverse_open cb s c (l_metadata_list s))"

subsection \<open>Counting the blocks in use\<close>

definition lfs_fs_size_count :: "('d, lfs_size_t) block_callback" where
  "lfs_fs_size_count s sz block = (Inr (), sz + 1, s)"

definition lfs_fs_rawsize :: "'d lfs \<Rightarrow> lfs_size_t result \<times> 'd lfs" where
  "lfs_fs_rawsize s =
     (case lfs_fs_rawtraverse lfs_fs_size_count s 0 False of
        (Inl h, sz, s) \<Rightarrow> (Inl h, s)
      | (Inr _, sz, s) \<Rightarrow> (Inr sz, s))"

definition lfs_fs_rawstat :: "'d lfs \<Rightarrow> lfs_fsinfo \<Rightarrow> unit result \<times> lfs_fsinfo \<times> 'd lfs" where
  "lfs_fs_rawstat s fsinfo =
     (case lfs_fs_rawsize s of
        (Inl h, s) \<Rightarrow> (Inl h, fsinfo, s)
      | (Inr usage, s) \<Rightarrow>
          (Inr (), \<lparr>fsi_block_size = l_block_size s, fsi_block_count = l_block_count s, fsi_block_usage = usage,
                    fsi_name_max = l_name_max_length s, fsi_file_max = l_file_max_size s,
                    fsi_attr_max = l_attr_max_size s\<rparr>, s))"

subsection \<open>Predecessor and parent of a metadata pair\<close>

fun fs_pred_loop :: "nat \<Rightarrow> 'd lfs \<Rightarrow> block_pair \<Rightarrow> lfs_metadata_dir \<Rightarrow> unit result \<times> lfs_metadata_dir \<times> 'd lfs" where
  "fs_pred_loop n s pair pdir =
     (if lfs_pair_isnull (m_tail pdir) then (Inl (Err LFS_ERR_NOENT), pdir, s)
      else case n of
        0 \<Rightarrow> (Inl (Err LFS_ERR_CORRUPT), pdir, s)
      | Suc n \<Rightarrow>
          if \<not> lfs_pair_cmp (m_tail pdir) pair then (Inr (), pdir, s)
          else case lfs_dir_fetch s pdir (m_tail pdir) of
                 (Inl h, pdir, s) \<Rightarrow> (Inl h, pdir, s)
               | (Inr _, pdir, s) \<Rightarrow> fs_pred_loop n s pair pdir)"

definition lfs_fs_pred :: "'d lfs \<Rightarrow> block_pair \<Rightarrow> lfs_metadata_dir \<Rightarrow> unit result \<times> lfs_metadata_dir \<times> 'd lfs" where
  "lfs_fs_pred s pair pdir = fs_pred_loop (unat (l_block_count s div 2)) s pair (pdir\<lparr>m_tail := (0, 1)\<rparr>)"

definition lfs_fs_parent_match :: "block_pair \<Rightarrow> 'd match_callback" where
  "lfs_fs_parent_match pair s tag disk =
     (case lfs_bd_read_own s True (l_block_size s) (do_block disk) (do_offset disk) (replicate 16 0) of
        (Inl h, bytes, s) \<Rightarrow> (Inl h, s)
      | (Inr _, bytes, s) \<Rightarrow>
          (let child = lfs_pair_fromle64 (pair_of_bytes bytes)
           in (Inr (if \<not> lfs_pair_cmp child pair then LFS_CMP_EQ else LFS_CMP_LT), s)))"

fun fs_parent_loop :: "nat \<Rightarrow> 'd lfs \<Rightarrow> block_pair \<Rightarrow> lfs_metadata_dir \<Rightarrow> lfs_tag_t result \<times> lfs_metadata_dir \<times> 'd lfs" where
  "fs_parent_loop n s pair parent =
     (if lfs_pair_isnull (m_tail parent) then (Inl (Err LFS_ERR_NOENT), parent, s)
      else case n of
        0 \<Rightarrow> (Inl (Err LFS_ERR_CORRUPT), parent, s)
      | Suc n \<Rightarrow>
          (case lfs_dir_fetchmatch s parent (m_tail parent) (LFS_MKTAG LFS_TYPE_MOVESTATE 0 0x3ff)
                  (LFS_MKTAG LFS_TYPE_DIRSTRUCT 0 16) (lfs_fs_parent_match pair) of
             (r, parent, _, s) \<Rightarrow>
               if r = Inr 0 \<or> r = Inl (Err LFS_ERR_NOENT) then fs_parent_loop n s pair parent
               else (r, parent, s)))"

definition lfs_fs_parent :: "'d lfs \<Rightarrow> block_pair \<Rightarrow> lfs_metadata_dir \<Rightarrow> lfs_tag_t result \<times> lfs_metadata_dir \<times> 'd lfs" where
  "lfs_fs_parent s pair parent = fs_parent_loop (unat (l_block_count s div 2)) s pair (parent\<lparr>m_tail := (0, 1)\<rparr>)"

declare rawtraverse_dirs.simps [simp del] fs_pred_loop.simps [simp del] fs_parent_loop.simps [simp del]

subsection \<open>Preparing the global state\<close>

definition lfs_fs_preporphans :: "'d lfs \<Rightarrow> u8 \<Rightarrow> unit result \<times> 'd lfs" where
  "lfs_fs_preporphans s orphans =
     (if \<not> (0 < lfs_tag_size (g_tag (l_gstate s)) \<or> 0 \<le> sint orphans) then (Inl Assertion_failed, s)
      else
        let g = (l_gstate s)\<lparr>g_tag := g_tag (l_gstate s) + scast orphans\<rparr>;
            g = g\<lparr>g_tag := (g_tag g AND NOT (LFS_MKTAG LFS_TYPE_HAS_ORPHANS 0 0)) OR
                            push_bit 31 (of_bool (lfs_gstate_hasorphans g))\<rparr>
        in (Inr (), s\<lparr>l_gstate := g\<rparr>))"

definition lfs_fs_prepmove :: "'d lfs \<Rightarrow> u16 \<Rightarrow> block_pair \<Rightarrow> 'd lfs" where
  "lfs_fs_prepmove s ident pair =
     s\<lparr>l_gstate :=
         \<lparr>g_tag = (g_tag (l_gstate s) AND NOT (LFS_MKTAG LFS_TYPE_MOVESTATE 0x3ff 0)) OR
                   (if ident \<noteq> 0x3ff then LFS_MKTAG LFS_TYPE_DELETE (ucast ident) 0 else 0),
          g_pair = (if ident \<noteq> 0x3ff then fst pair else 0, if ident \<noteq> 0x3ff then snd pair else 0)\<rparr>\<rparr>"

end
