(* ===== verification/Allocator.thy ===== *)
theory Allocator
  imports FsTraverse
begin

text \<open>
  \<open>src/littlefs_v2/lfs_allocator.cpp\<close>, and \<open>lfs_ctz_extend\<close> of \<open>lfs_file_index.cpp\<close>, which allocates: a
  window of \<open>free.size\<close> blocks behind \<open>free.offset\<close> is scanned for blocks in use, and its clear bits are
  handed out until \<open>free.ack\<close> says that every block has been looked at.

  The callback \<open>cfg->allocate_block\<close>, which may call back into littlefs to grow it, is the argument
  \<open>grow\<close>. The code asks it again for as long as it claims success without a block becoming free; the
  model stops with \<open>Out_of_fuel\<close> after as many attempts as there are blocks. An access to the bitmap
  outside its buffer is undefined behaviour here as it is in the code.

  Files that are open stand in the list of the file system, where the allocator sees them. A function
  that works on an open file therefore takes its address and changes it in that list.
\<close>

type_synonym 'd grow = "('d lfs \<Rightarrow> unit result \<times> 'd lfs) option"

subsection \<open>Open files in the list of nodes\<close>

fun find_file :: "(nat \<times> open_node) list \<Rightarrow> nat \<Rightarrow> lfs_file result" where
  "find_file [] p = Inl Undefined_behaviour"
| "find_file ((q, e) # rest) p =
     (if q = p then (case e of File f \<Rightarrow> Inr f | _ \<Rightarrow> Inl Undefined_behaviour) else find_file rest p)"

definition file_at :: "'d lfs \<Rightarrow> nat \<Rightarrow> lfs_file result" where
  "file_at s p = find_file (l_metadata_list s) p"

fun replace_node :: "(nat \<times> open_node) list \<Rightarrow> nat \<Rightarrow> open_node \<Rightarrow> (nat \<times> open_node) list" where
  "replace_node [] p e = []"
| "replace_node ((q, e') # rest) p e = (if q = p then (q, e) # rest else (q, e') # replace_node rest p e)"

definition set_file :: "nat \<Rightarrow> lfs_file \<Rightarrow> 'd lfs \<Rightarrow> 'd lfs" where
  "set_file p f s = s\<lparr>l_metadata_list := replace_node (l_metadata_list s) p (File f)\<rparr>"

subsection \<open>The block allocator\<close>

definition lfs_alloc_lookahead :: "('d, unit) block_callback" where
  "lfs_alloc_lookahead s u block =
     (let fr = l_free s; offset = ((block - fr_offset fr) + l_block_count s) mod l_block_count s; k = unat (offset div 64)
      in if offset < fr_size fr
         then if k < length (fr_buffer fr)
              then (Inr (), (), s\<lparr>l_free := fr\<lparr>fr_buffer := (fr_buffer fr)[k := fr_buffer fr ! k OR push_bit (unat (offset mod 64)) 1]\<rparr>\<rparr>)
              else (Inl Undefined_behaviour, (), s)
         else (Inr (), (), s))"

definition lfs_alloc_ack :: "'d lfs \<Rightarrow> 'd lfs" where
  "lfs_alloc_ack s = s\<lparr>l_free := (l_free s)\<lparr>fr_ack := l_block_count s\<rparr>\<rparr>"

definition lfs_alloc_drop :: "'d lfs \<Rightarrow> 'd lfs" where
  "lfs_alloc_drop s = lfs_alloc_ack (s\<lparr>l_free := (l_free s)\<lparr>fr_size := 0, fr_i := 0\<rparr>\<rparr>)"

definition lookahead_bit :: "lfs_free \<Rightarrow> lfs_block_t \<Rightarrow> bool result" where
  "lookahead_bit fr i =
     (let k = unat (i div 64)
      in if k < length (fr_buffer fr) then Inr (fr_buffer fr ! k AND push_bit (unat (i mod 64)) 1 \<noteq> 0)
         else Inl Undefined_behaviour)"

definition lookahead_next :: "lfs_free \<Rightarrow> lfs_free" where
  "lookahead_next fr = fr\<lparr>fr_i := fr_i fr + 1, fr_ack := fr_ack fr - 1\<rparr>"

text \<open>The loop that skips blocks in use after one was found. The number is \<open>free.size - free.i\<close>.\<close>

fun alloc_skip :: "nat \<Rightarrow> lfs_free \<Rightarrow> unit result \<times> lfs_free" where
  "alloc_skip 0 fr = (Inr (), fr)"
| "alloc_skip (Suc n) fr =
     (case lookahead_bit fr (fr_i fr) of
        Inl h \<Rightarrow> (Inl h, fr)
      | Inr used \<Rightarrow> if used then alloc_skip n (lookahead_next fr) else (Inr (), fr))"

text \<open>The search of the window: the offset of the first free block in it, if there is one.\<close>

fun alloc_scan :: "nat \<Rightarrow> lfs_free \<Rightarrow> lfs_block_t option result \<times> lfs_free" where
  "alloc_scan 0 fr = (Inr None, fr)"
| "alloc_scan (Suc n) fr =
     (let offset = fr_i fr; fr = lookahead_next fr
      in case lookahead_bit fr offset of
           Inl h \<Rightarrow> (Inl h, fr)
         | Inr used \<Rightarrow>
             if \<not> used
             then (case alloc_skip n fr of (Inl h, fr) \<Rightarrow> (Inl h, fr) | (Inr _, fr) \<Rightarrow> (Inr (Some offset), fr))
             else alloc_scan n fr)"

text \<open>The next window: everything in use is marked in it.\<close>

definition alloc_rescan :: "'d lfs \<Rightarrow> unit result \<times> 'd lfs" where
  "alloc_rescan s =
     (let fr = l_free s;
          fr = fr\<lparr>fr_offset := (fr_offset fr + fr_size fr) mod l_block_count s\<rparr>;
          fr = fr\<lparr>fr_size := lfs_min (16 * cfg_lookahead_size (l_cfg s)) (fr_ack fr), fr_i := 0\<rparr>
      in case mem_put (fr_buffer fr) 0 (replicate (unat (cfg_lookahead_size (l_cfg s)) div 8) 0) of
           Inl h \<Rightarrow> (Inl h, s\<lparr>l_free := fr\<rparr>)
         | Inr b \<Rightarrow>
             (case lfs_fs_rawtraverse lfs_alloc_lookahead (s\<lparr>l_free := fr\<lparr>fr_buffer := b\<rparr>\<rparr>) () True of
                (Inl h, _, s) \<Rightarrow> (Inl h, lfs_alloc_drop s)
              | (Inr _, _, s) \<Rightarrow> (Inr (), s)))"

text \<open>The outer loop up to the point where every block has been looked at (\<open>Inr None\<close>).\<close>

fun alloc_windows :: "nat \<Rightarrow> 'd lfs \<Rightarrow> lfs_block_t option result \<times> 'd lfs" where
  "alloc_windows 0 s = (Inl Out_of_fuel, s)"
| "alloc_windows (Suc fuel) s =
     (case alloc_scan (unat (fr_size (l_free s) - fr_i (l_free s))) (l_free s) of
        (Inl h, fr) \<Rightarrow> (Inl h, s\<lparr>l_free := fr\<rparr>)
      | (Inr (Some offset), fr) \<Rightarrow>
          (Inr (Some ((fr_offset fr + offset) mod l_block_count s)), s\<lparr>l_free := fr\<rparr>)
      | (Inr None, fr) \<Rightarrow>
          if fr_ack fr = 0 then (Inr None, s\<lparr>l_free := fr\<rparr>)
          else (case alloc_rescan (s\<lparr>l_free := fr\<rparr>) of
                  (Inl h, s) \<Rightarrow> (Inl h, s)
                | (Inr _, s) \<Rightarrow> alloc_windows fuel s))"

definition windows_fuel :: "'d lfs \<Rightarrow> nat" where
  "windows_fuel s = Suc (Suc (unat (fr_ack (l_free s))))"

text \<open>A halt of the callback that is no error code ends the program; any code but \<open>NOSPC\<close> is taken as success.\<close>

fun grow_outcome :: "unit result \<Rightarrow> unit result" where
  "grow_outcome (Inl (Err e)) = (if e = LFS_ERR_NOSPC then Inl (Err LFS_ERR_NOSPC) else Inr ())"
| "grow_outcome r = r"

fun alloc_attempts :: "nat \<Rightarrow> 'd grow \<Rightarrow> 'd lfs \<Rightarrow> lfs_block_t result \<times> 'd lfs" where
  "alloc_attempts 0 grow s = (Inl Out_of_fuel, s)"
| "alloc_attempts (Suc n) grow s =
     (case alloc_windows (windows_fuel s) s of
        (Inl h, s) \<Rightarrow> (Inl h, s)
      | (Inr (Some block), s) \<Rightarrow> (Inr block, s)
      | (Inr None, s) \<Rightarrow>
          (case grow of
             None \<Rightarrow> (Inl (Err LFS_ERR_NOSPC), s)
           | Some g \<Rightarrow>
               (case g s of (r, s) \<Rightarrow>
                  (case grow_outcome r of
                     Inl h \<Rightarrow> (Inl h, s)
                   | Inr _ \<Rightarrow> alloc_attempts n grow (lfs_alloc_ack s)))))"

definition lfs_alloc :: "'d grow \<Rightarrow> 'd lfs \<Rightarrow> lfs_block_t result \<times> 'd lfs" where
  "lfs_alloc grow s = alloc_attempts (Suc (unat (l_block_count s))) grow s"

subsection \<open>Extending a file by a block\<close>

text \<open>The write cache is the cache of the open file \<open>p\<close>, as in the only call.\<close>

definition file_write :: "'d lfs \<Rightarrow> nat \<Rightarrow> lfs_block_t \<Rightarrow> lfs_off_t \<Rightarrow> u8 list \<Rightarrow> unit result \<times> 'd lfs" where
  "file_write s p block offset data =
     (case file_at s p of
        Inl h \<Rightarrow> (Inl h, s)
      | Inr f \<Rightarrow>
          (case lfs_bd_write s (f_cache f) (l_read_cache s) True block offset data of
             (r, wc, rc, s) \<Rightarrow> (r, set_file p (f\<lparr>f_cache := wc\<rparr>) (s\<lparr>l_read_cache := rc\<rparr>))))"

text \<open>A step of an attempt that may have met a bad block: \<open>Inr None\<close> asks for another block.\<close>

definition or_relocate :: "unit result \<times> 's \<Rightarrow> ('s \<Rightarrow> 'a option result \<times> 's) \<Rightarrow> 'a option result \<times> 's" where
  "or_relocate m k =
     (case m of
        (Inl h, s) \<Rightarrow> (if h = Err LFS_ERR_CORRUPT then Inr None else Inl h, s)
      | (Inr _, s) \<Rightarrow> k s)"

fun ctz_copy :: "nat \<Rightarrow> 'd lfs \<Rightarrow> nat \<Rightarrow> lfs_block_t \<Rightarrow> lfs_block_t \<Rightarrow> lfs_off_t \<Rightarrow> lfs_off_t \<Rightarrow> (lfs_block_t \<times> lfs_off_t) option result \<times> 'd lfs" where
  "ctz_copy 0 s p nblock head noff idx = (Inr (Some (nblock, noff)), s)"
| "ctz_copy (Suc n) s p nblock head noff idx =
     (case lfs_bd_read_own s False (noff - idx) head idx [0] of
        (Inl h, data, s) \<Rightarrow> (Inl h, s)
      | (Inr _, data, s) \<Rightarrow>
          or_relocate (file_write s p nblock idx data) (\<lambda>s. ctz_copy n s p nblock head noff (idx + 1)))"

fun ctz_link :: "nat \<Rightarrow> 'd lfs \<Rightarrow> nat \<Rightarrow> lfs_block_t \<Rightarrow> lfs_block_t \<Rightarrow> lfs_size_t \<Rightarrow> lfs_off_t \<Rightarrow> (lfs_block_t \<times> lfs_off_t) option result \<times> 'd lfs" where
  "ctz_link 0 s p nblock nhead skips idx = (Inr (Some (nblock, 8 * skips)), s)"
| "ctz_link (Suc n) s p nblock nhead skips idx =
     or_relocate (file_write s p nblock (8 * idx) (le_bytes 8 (lfs_tole64 nhead)))
       (\<lambda>s. if idx \<noteq> skips - 1
            then (case lfs_bd_read_own s False 8 nhead (8 * idx) (le_bytes 8 nhead) of
                    (Inl h, bytes, s) \<Rightarrow> (Inl h, s)
                  | (Inr _, bytes, s) \<Rightarrow> ctz_link n s p nblock (lfs_fromle64 (le_word bytes)) skips (idx + 1))
            else ctz_link n s p nblock nhead skips (idx + 1))"

definition ctz_extend_attempt :: "'d lfs \<Rightarrow> nat \<Rightarrow> lfs_block_t \<Rightarrow> lfs_block_t \<Rightarrow> lfs_size_t \<Rightarrow> (lfs_block_t \<times> lfs_off_t) option result \<times> 'd lfs" where
  "ctz_extend_attempt s p nblock head sz =
     or_relocate (lfs_bd_erase s nblock)
       (\<lambda>s. if sz = 0 then (Inr (Some (nblock, 0)), s)
            else
              let (ix, noff) = lfs_ctz_index s (sz - 1); index = scast ix; noff = noff + 1
              in if noff \<noteq> l_block_size s then ctz_copy (unat noff) s p nblock head noff 0
                 else
                   let index = index + 1; skips = lfs_ctz64 index + 1
                   in ctz_link (unat skips) s p nblock head skips 0)"

text \<open>The label \<open>relocate\<close>: forget what is in the cache of the file.\<close>

definition drop_file_cache :: "nat \<Rightarrow> 'd lfs \<Rightarrow> unit result \<times> 'd lfs" where
  "drop_file_cache p s =
     (case file_at s p of
        Inl h \<Rightarrow> (Inl h, s)
      | Inr f \<Rightarrow> (Inr (), set_file p (f\<lparr>f_cache := lfs_cache_drop (f_cache f)\<rparr>) s))"

text \<open>Each attempt takes a new block, so there are at most as many as blocks left.\<close>

fun ctz_extend_loop :: "nat \<Rightarrow> 'd grow \<Rightarrow> 'd lfs \<Rightarrow> nat \<Rightarrow> lfs_block_t \<Rightarrow> lfs_size_t \<Rightarrow> (lfs_block_t \<times> lfs_off_t) result \<times> 'd lfs" where
  "ctz_extend_loop 0 grow s p head sz = (Inl Out_of_fuel, s)"
| "ctz_extend_loop (Suc fuel) grow s p head sz =
     (case lfs_alloc grow s of
        (Inl h, s) \<Rightarrow> (Inl h, s)
      | (Inr nblock, s) \<Rightarrow>
          (case ctz_extend_attempt s p nblock head sz of
             (Inl h, s) \<Rightarrow> (Inl h, s)
           | (Inr (Some res), s) \<Rightarrow> (Inr res, s)
           | (Inr None, s) \<Rightarrow>
               (case drop_file_cache p s of
                  (Inl h, s) \<Rightarrow> (Inl h, s)
                | (Inr _, s) \<Rightarrow> ctz_extend_loop fuel grow s p head sz)))"

definition relocation_fuel :: "'d lfs \<Rightarrow> nat" where
  "relocation_fuel s = 2 * unat (l_block_count s) + 4"

definition lfs_ctz_extend :: "'d grow \<Rightarrow> 'd lfs \<Rightarrow> nat \<Rightarrow> lfs_block_t \<Rightarrow> lfs_size_t \<Rightarrow> (lfs_block_t \<times> lfs_off_t) result \<times> 'd lfs" where
  "lfs_ctz_extend grow s p head sz = ctz_extend_loop (relocation_fuel s) grow s p head sz"

end
