(* ===== verification/FileCore.thy ===== *)
theory FileCore
  imports Allocator
begin

text \<open>
  The part of \<open>src/littlefs_v2/lfs_file.cpp\<close> that does not commit metadata: moving the data of an open
  file to another block, turning an inline file into one with blocks of its own, reading and writing at
  the position of the file, and flushing.

  An open file is in the list of nodes under its address \<open>p\<close> and is changed there, because the
  allocator looks at it meanwhile. The exception is \<open>lfs_file_flushedread\<close>, which looks at no list and is
  also used on a local copy (\<open>orig\<close> in \<open>lfs_file_flush\<close>): it takes and returns a file. That copy shares
  its buffer with the read cache of the file system; the code drops both as soon as the read cache holds
  anything, so the two are never valid together, and the model gives each a buffer of its own.
\<close>

definition get_file :: "nat \<Rightarrow> 'd lfs \<Rightarrow> lfs_file result \<times> 'd lfs" where
  "get_file p s = (file_at s p, s)"

definition modify_file :: "nat \<Rightarrow> (lfs_file \<Rightarrow> lfs_file) \<Rightarrow> 'd lfs \<Rightarrow> unit result \<times> 'd lfs" where
  "modify_file p g s = (case file_at s p of Inl h \<Rightarrow> (Inl h, s) | Inr f \<Rightarrow> (Inr (), set_file p (g f) s))"

definition has_flag :: "u32 \<Rightarrow> lfs_file \<Rightarrow> bool" where
  "has_flag flag f = (f_flags f AND flag \<noteq> 0)"

definition raise_flag :: "u32 \<Rightarrow> lfs_file \<Rightarrow> lfs_file" where
  "raise_flag flag f = f\<lparr>f_flags := f_flags f OR flag\<rparr>"

definition clear_flag :: "u32 \<Rightarrow> lfs_file \<Rightarrow> lfs_file" where
  "clear_flag flag f = f\<lparr>f_flags := f_flags f AND NOT flag\<rparr>"

text \<open>\<open>file->flags |= LFS_F_ERRED; return err;\<close>\<close>

definition mark_erred :: "nat \<Rightarrow> 'a result \<times> 'd lfs \<Rightarrow> 'a result \<times> 'd lfs" where
  "mark_erred p m = (case m of
     (Inl h, s) \<Rightarrow> (Inl h, snd (modify_file p (raise_flag LFS_F_ERRED) s)) | (Inr x, s) \<Rightarrow> (Inr x, s))"

text \<open>A write through the caches of the file system.\<close>

definition lfs_bd_write_own :: "'d lfs \<Rightarrow> bool \<Rightarrow> lfs_block_t \<Rightarrow> lfs_off_t \<Rightarrow> u8 list \<Rightarrow> unit result \<times> 'd lfs" where
  "lfs_bd_write_own s validate block offset data =
     (case lfs_bd_write s (l_write_cache s) (l_read_cache s) validate block offset data of
        (r, wc, rc, s) \<Rightarrow> (r, s\<lparr>l_write_cache := wc, l_read_cache := rc\<rparr>))"

definition drop_write_cache :: "'d lfs \<Rightarrow> 'd lfs" where
  "drop_write_cache s = s\<lparr>l_write_cache := lfs_cache_drop (l_write_cache s)\<rparr>"

subsection \<open>Moving the current block of a file\<close>

definition relocate_read :: "'d lfs \<Rightarrow> nat \<Rightarrow> lfs_off_t \<Rightarrow> u8 list result \<times> 'd lfs" where
  "relocate_read s p i =
     andthen (get_file p s) (\<lambda>f s.
       if has_flag LFS_F_INLINE f
       then (case lfs_dir_getread s (ml_metadata f) None (f_cache f) (f_offset f - i) (LFS_MKTAG 0xfff 0x1ff 0)
                   (LFS_MKTAG LFS_TYPE_INLINESTRUCT (ucast (ml_id f)) 0) i [0] of
               (r, data, rc, s) \<Rightarrow>
                 (case r of Inl h \<Rightarrow> Inl h | Inr _ \<Rightarrow> Inr data, set_file p (f\<lparr>f_cache := rc\<rparr>) s))
       else (case lfs_bd_read_through s (Some (f_cache f)) (f_offset f - i) (f_block f) i [0] of
               (Inl h, data, s) \<Rightarrow> (Inl h, s)
             | (Inr _, data, s) \<Rightarrow> (Inr data, s)))"

fun relocate_copy :: "nat \<Rightarrow> 'd lfs \<Rightarrow> nat \<Rightarrow> lfs_block_t \<Rightarrow> lfs_off_t \<Rightarrow> unit option result \<times> 'd lfs" where
  "relocate_copy 0 s p nblock i = (Inr (Some ()), s)"
| "relocate_copy (Suc n) s p nblock i =
     andthen (relocate_read s p i) (\<lambda>data s.
       or_relocate (lfs_bd_write_own s True nblock i data) (\<lambda>s. relocate_copy n s p nblock (i + 1)))"

text \<open>The new state of the file: the write cache becomes the cache of the file.\<close>

definition relocate_finish :: "'d lfs \<Rightarrow> nat \<Rightarrow> lfs_block_t \<Rightarrow> unit result \<times> 'd lfs" where
  "relocate_finish s p nblock =
     andthen (get_file p s) (\<lambda>f s.
       case mem_get (c_buffer (l_write_cache s)) 0 (unat (cfg_cache_size (l_cfg s))) of
         Inl h \<Rightarrow> (Inl h, s)
       | Inr b \<Rightarrow>
           (case mem_put (c_buffer (f_cache f)) 0 b of
              Inl h \<Rightarrow> (Inl h, s)
            | Inr b \<Rightarrow>
                (let wc = l_write_cache s;
                     c = \<lparr>c_block = c_block wc, c_offset = c_offset wc, c_size = c_size wc, c_buffer = b\<rparr>;
                     s = s\<lparr>l_write_cache := lfs_cache_zero wc\<rparr>
                 in (Inr (), set_file p (raise_flag LFS_F_WRITING (f\<lparr>f_cache := c, f_block := nblock\<rparr>)) s))))"

fun file_relocate_loop :: "nat \<Rightarrow> 'd grow \<Rightarrow> 'd lfs \<Rightarrow> nat \<Rightarrow> unit result \<times> 'd lfs" where
  "file_relocate_loop 0 grow s p = (Inl Out_of_fuel, s)"
| "file_relocate_loop (Suc fuel) grow s p =
     andthen (lfs_alloc grow s) (\<lambda>nblock s.
       andthen (or_relocate (lfs_bd_erase s nblock) (\<lambda>s.
           andthen (get_file p s) (\<lambda>f s. relocate_copy (unat (f_offset f)) s p nblock 0))) (\<lambda>copied s.
         case copied of
           Some _ \<Rightarrow> relocate_finish s p nblock
         | None \<Rightarrow> file_relocate_loop fuel grow (drop_write_cache s) p))"

definition lfs_file_relocate :: "'d grow \<Rightarrow> 'd lfs \<Rightarrow> nat \<Rightarrow> unit result \<times> 'd lfs" where
  "lfs_file_relocate grow s p = file_relocate_loop (relocation_fuel s) grow s p"

definition lfs_file_outline :: "'d grow \<Rightarrow> 'd lfs \<Rightarrow> nat \<Rightarrow> unit result \<times> 'd lfs" where
  "lfs_file_outline grow s p =
     andthen (modify_file p (\<lambda>f. f\<lparr>f_offset := f_pos f\<rparr>) s) (\<lambda>_ s.
       andthen (lfs_file_relocate grow (lfs_alloc_ack s) p) (\<lambda>_ s.
         modify_file p (clear_flag LFS_F_INLINE) s))"

subsection \<open>Reading at the position of a file\<close>

text \<open>Find the block and offset of the position where that is not known.\<close>

definition flushedread_locate :: "'d lfs \<Rightarrow> lfs_file \<Rightarrow> unit result \<times> lfs_file \<times> 'd lfs" where
  "flushedread_locate s f =
     (if \<not> has_flag LFS_F_READING f \<or> f_offset f = l_block_size s
      then
        if \<not> has_flag LFS_F_INLINE f
        then (case lfs_ctz_find s None (f_cache f) (z_head (f_ctz f)) (z_size (f_ctz f)) (f_pos f) of
                (Inl h, rc, s) \<Rightarrow> (Inl h, f\<lparr>f_cache := rc\<rparr>, s)
              | (Inr (block, offset), rc, s) \<Rightarrow>
                  (Inr (), raise_flag LFS_F_READING (f\<lparr>f_cache := rc, f_block := block, f_offset := offset\<rparr>), s))
        else (Inr (), raise_flag LFS_F_READING (f\<lparr>f_block := LFS_BLOCK_INLINE, f_offset := f_pos f\<rparr>), s)
      else (Inr (), f, s))"

definition flushedread_chunk :: "'d lfs \<Rightarrow> lfs_file \<Rightarrow> u8 list \<Rightarrow> unit result \<times> u8 list \<times> lfs_file \<times> 'd lfs" where
  "flushedread_chunk s f chunk =
     (case (if has_flag LFS_F_INLINE f
            then lfs_dir_getread s (ml_metadata f) None (f_cache f) (l_block_size s) (LFS_MKTAG 0xfff 0x1ff 0)
                   (LFS_MKTAG LFS_TYPE_INLINESTRUCT (ucast (ml_id f)) 0) (f_offset f) chunk
            else lfs_bd_read s None (f_cache f) (l_block_size s) (f_block f) (f_offset f) chunk) of
        (r, chunk, rc, s) \<Rightarrow> (r, chunk, f\<lparr>f_cache := rc\<rparr>, s))"

fun flushedread_loop :: "nat \<Rightarrow> 'd lfs \<Rightarrow> lfs_file \<Rightarrow> u8 list \<Rightarrow> nat \<Rightarrow> lfs_size_t \<Rightarrow> unit result \<times> u8 list \<times> lfs_file \<times> 'd lfs" where
  "flushedread_loop 0 s f buffer data nsize = (Inl Out_of_fuel, buffer, f, s)"
| "flushedread_loop (Suc fuel) s f buffer data nsize =
     (if \<not> 0 < nsize then (Inr (), buffer, f, s)
      else case flushedread_locate s f of
        (Inl h, f, s) \<Rightarrow> (Inl h, buffer, f, s)
      | (Inr _, f, s) \<Rightarrow>
          (let diff = lfs_min nsize (l_block_size s - f_offset f)
           in case flushedread_chunk s f (take (unat diff) (drop data buffer)) of
                (Inl h, chunk, f, s) \<Rightarrow> (Inl h, blit data chunk buffer, f, s)
              | (Inr _, chunk, f, s) \<Rightarrow>
                  flushedread_loop fuel s (f\<lparr>f_pos := f_pos f + diff, f_offset := f_offset f + diff\<rparr>)
                    (blit data chunk buffer) (data + unat diff) (nsize - diff)))"

definition lfs_file_flushedread :: "'d lfs \<Rightarrow> lfs_file \<Rightarrow> u8 list \<Rightarrow> lfs_size_t result \<times> u8 list \<times> lfs_file \<times> 'd lfs" where
  "lfs_file_flushedread s f buffer =
     (if z_size (f_ctz f) \<le> f_pos f then (Inr 0, buffer, f, s)
      else
        let sz = lfs_min (of_nat (length buffer)) (z_size (f_ctz f) - f_pos f)
        in case flushedread_loop (Suc (unat sz)) s f buffer 0 sz of
             (Inl h, buffer, f, s) \<Rightarrow> (Inl h, buffer, f, s)
           | (Inr _, buffer, f, s) \<Rightarrow> (Inr sz, buffer, f, s))"

subsection \<open>Writing at the position of a file\<close>

text \<open>The most bytes that are kept inline.\<close>

definition inline_max :: "'d lfs \<Rightarrow> lfs_size_t" where
  "inline_max s =
     lfs_min 0x3fe (lfs_min (cfg_cache_size (l_cfg s))
       ((if cfg_metadata_max (l_cfg s) \<noteq> 0 then cfg_metadata_max (l_cfg s) else l_block_size s) div 16))"

definition flushedwrite_extend :: "'d grow \<Rightarrow> 'd lfs \<Rightarrow> nat \<Rightarrow> unit result \<times> 'd lfs" where
  "flushedwrite_extend grow s p =
     andthen (get_file p s) (\<lambda>f s.
       andthen
         (if \<not> has_flag LFS_F_WRITING f \<and> 0 < f_pos f
          then (case lfs_ctz_find s None (f_cache f) (z_head (f_ctz f)) (z_size (f_ctz f)) (f_pos f - 1) of
                  (Inl h, rc, s) \<Rightarrow> mark_erred p (Inl h, set_file p (f\<lparr>f_cache := rc\<rparr>) s)
                | (Inr (block, _), rc, s) \<Rightarrow>
                    (Inr (), set_file p (f\<lparr>f_cache := lfs_cache_zero rc, f_block := block\<rparr>) s))
          else (Inr (), s)) (\<lambda>_ s.
       andthen (get_file p s) (\<lambda>f s.
       andthen (mark_erred p (lfs_ctz_extend grow (lfs_alloc_ack s) p (f_block f) (f_pos f))) (\<lambda>(block, offset) s.
         modify_file p (\<lambda>f. f\<lparr>f_block := block, f_offset := offset\<rparr>) s))))"

definition flushedwrite_locate :: "'d grow \<Rightarrow> 'd lfs \<Rightarrow> nat \<Rightarrow> unit result \<times> 'd lfs" where
  "flushedwrite_locate grow s p =
     andthen (get_file p s) (\<lambda>f s.
       if \<not> has_flag LFS_F_WRITING f \<or> f_offset f = l_block_size s
       then
         andthen
           (if \<not> has_flag LFS_F_INLINE f then flushedwrite_extend grow s p
            else modify_file p (\<lambda>f. f\<lparr>f_block := LFS_BLOCK_INLINE, f_offset := f_pos f\<rparr>) s) (\<lambda>_ s.
           modify_file p (raise_flag LFS_F_WRITING) s)
       else (Inr (), s))"

text \<open>One chunk, moved to another block for as long as the device reports the current one as bad.\<close>

fun flushedwrite_program :: "nat \<Rightarrow> 'd grow \<Rightarrow> 'd lfs \<Rightarrow> nat \<Rightarrow> u8 list \<Rightarrow> unit result \<times> 'd lfs" where
  "flushedwrite_program 0 grow s p chunk = (Inl Out_of_fuel, s)"
| "flushedwrite_program (Suc fuel) grow s p chunk =
     andthen (get_file p s) (\<lambda>f s.
       case file_write s p (f_block f) (f_offset f) chunk of
         (Inl h, s) \<Rightarrow>
           if h = Err LFS_ERR_CORRUPT
           then andthen (mark_erred p (lfs_file_relocate grow s p)) (\<lambda>_ s. flushedwrite_program fuel grow s p chunk)
           else mark_erred p (Inl h, s)
       | (Inr _, s) \<Rightarrow> (Inr (), s))"

fun flushedwrite_loop :: "nat \<Rightarrow> 'd grow \<Rightarrow> 'd lfs \<Rightarrow> nat \<Rightarrow> u8 list \<Rightarrow> unit result \<times> 'd lfs" where
  "flushedwrite_loop 0 grow s p data = (Inl Out_of_fuel, s)"
| "flushedwrite_loop (Suc fuel) grow s p data =
     (if data = [] then (Inr (), s)
      else
        andthen (flushedwrite_locate grow s p) (\<lambda>_ s.
        andthen (get_file p s) (\<lambda>f s.
          let diff = lfs_min (of_nat (length data)) (l_block_size s - f_offset f)
          in andthen (flushedwrite_program (relocation_fuel s) grow s p (take (unat diff) data)) (\<lambda>_ s.
             andthen (modify_file p (\<lambda>f. f\<lparr>f_pos := f_pos f + diff, f_offset := f_offset f + diff\<rparr>) s) (\<lambda>_ s.
               flushedwrite_loop fuel grow (lfs_alloc_ack s) p (drop (unat diff) data))))))"

definition lfs_file_flushedwrite :: "'d grow \<Rightarrow> 'd lfs \<Rightarrow> nat \<Rightarrow> u8 list \<Rightarrow> lfs_size_t result \<times> 'd lfs" where
  "lfs_file_flushedwrite grow s p data =
     andthen (get_file p s) (\<lambda>f s.
       andthen
         (if has_flag LFS_F_INLINE f \<and> inline_max s < lfs_max (f_pos f + of_nat (length data)) (z_size (f_ctz f))
          then mark_erred p (lfs_file_outline grow s p) else (Inr (), s)) (\<lambda>_ s.
       andthen (flushedwrite_loop (Suc (length data)) grow s p data) (\<lambda>_ s.
         (Inr (of_nat (length data)), s))))"

subsection \<open>Flushing\<close>

text \<open>Copy what lies behind the position from the old blocks to the new ones.\<close>

fun flush_copy :: "nat \<Rightarrow> 'd grow \<Rightarrow> 'd lfs \<Rightarrow> nat \<Rightarrow> lfs_file \<Rightarrow> unit result \<times> 'd lfs" where
  "flush_copy 0 grow s p orig = (Inl Out_of_fuel, s)"
| "flush_copy (Suc fuel) grow s p orig =
     andthen (get_file p s) (\<lambda>f s.
       if \<not> f_pos f < z_size (f_ctz f) then (Inr (), s)
       else case lfs_file_flushedread s orig [0] of
              (Inl h, data, orig, s) \<Rightarrow> (Inl h, s)
            | (Inr _, data, orig, s) \<Rightarrow>
                andthen (lfs_file_flushedwrite grow s p data) (\<lambda>_ s.
                  if c_block (l_read_cache s) \<noteq> LFS_BLOCK_NULL
                  then flush_copy fuel grow (s\<lparr>l_read_cache := lfs_cache_drop (l_read_cache s)\<rparr>) p
                         (orig\<lparr>f_cache := lfs_cache_drop (f_cache orig)\<rparr>)
                  else flush_copy fuel grow s p orig))"

fun flush_program :: "nat \<Rightarrow> 'd grow \<Rightarrow> 'd lfs \<Rightarrow> nat \<Rightarrow> unit result \<times> 'd lfs" where
  "flush_program 0 grow s p = (Inl Out_of_fuel, s)"
| "flush_program (Suc fuel) grow s p =
     andthen (get_file p s) (\<lambda>f s.
       case lfs_bd_flush s (f_cache f) (l_read_cache s) True of
         (r, wc, rc, s) \<Rightarrow>
           (let s = set_file p (f\<lparr>f_cache := wc\<rparr>) (s\<lparr>l_read_cache := rc\<rparr>)
            in case r of
                 Inl h \<Rightarrow>
                   if h = Err LFS_ERR_CORRUPT
                   then andthen (lfs_file_relocate grow s p) (\<lambda>_ s. flush_program fuel grow s p)
                   else (Inl h, s)
               | Inr _ \<Rightarrow> (Inr (), s)))"

text \<open>The local variable \<open>orig\<close>: the file as it was, read only, on the read cache of the file system.\<close>

definition flush_orig :: "'d lfs \<Rightarrow> lfs_file \<Rightarrow> lfs_file" where
  "flush_orig s f =
     \<lparr>ml_id = 0, ml_type = 0, ml_metadata = mdir_zero, f_ctz = f_ctz f, f_flags = LFS_O_RDONLY, f_pos = f_pos f,
      f_block = 0, f_offset = 0, f_cache = l_read_cache s, f_cfg = \<lparr>fc_buffer = None, fc_attrs = []\<rparr>\<rparr>"

definition lfs_file_flush :: "'d grow \<Rightarrow> 'd lfs \<Rightarrow> nat \<Rightarrow> unit result \<times> 'd lfs" where
  "lfs_file_flush grow s p =
     andthen (get_file p s) (\<lambda>f s.
     andthen
       (if has_flag LFS_F_READING f
        then modify_file p (\<lambda>f. clear_flag LFS_F_READING
               (if \<not> has_flag LFS_F_INLINE f then f\<lparr>f_cache := lfs_cache_drop (f_cache f)\<rparr> else f)) s
        else (Inr (), s)) (\<lambda>_ s.
     andthen (get_file p s) (\<lambda>f s.
       if \<not> has_flag LFS_F_WRITING f then (Inr (), s)
       else
         let pos = f_pos f
         in andthen
              (if \<not> has_flag LFS_F_INLINE f
               then
                 andthen (flush_copy (Suc (unat (z_size (f_ctz f) - f_pos f))) grow
                            (s\<lparr>l_read_cache := lfs_cache_drop (l_read_cache s)\<rparr>) p (flush_orig s f)) (\<lambda>_ s.
                   flush_program (relocation_fuel s) grow s p)
               else modify_file p (\<lambda>f. f\<lparr>f_pos := lfs_max (f_pos f) (z_size (f_ctz f))\<rparr>) s) (\<lambda>_ s.
              modify_file p (\<lambda>f. (raise_flag LFS_F_DIRTY (clear_flag LFS_F_WRITING
                  (f\<lparr>f_ctz := \<lparr>z_head = f_block f, z_size = f_pos f\<rparr>\<rparr>)))\<lparr>f_pos := pos\<rparr>) s))))"

end
