(* ===== verification/Commit.thy ===== *)
theory Commit
  imports FileCore
begin

text \<open>
  \<open>src/littlefs_v2/lfs_commit.cpp\<close> up to \<open>lfs_dir_splittingcompact\<close>: appending tags and their data to the
  log of a metadata pair, closing a commit with its checksum and verifying it on the disk, and writing
  a pair anew (compacting it), possibly to other blocks or split in two.

  A commit in progress is passed along with the state of the file system. A step that fails with
  \<open>LFS_ERR_CORRUPT\<close> sends \<open>lfs_dir_compact\<close> to its label \<open>relocate\<close> (\<open>or_relocate\<close>).
\<close>

definition tag_data :: "lfs_tag_t \<Rightarrow> lfs_size_t" where
  "tag_data tag = lfs_tag_dsize tag - 4"

subsection \<open>Appending to the log\<close>

definition lfs_dir_commit_write :: "'d lfs \<Rightarrow> lfs_commit \<Rightarrow> u8 list \<Rightarrow> unit result \<times> lfs_commit \<times> 'd lfs" where
  "lfs_dir_commit_write s commit buffer =
     (case lfs_bd_write_own s False (co_block commit) (co_offset commit) buffer of
        (Inl h, s) \<Rightarrow> (Inl h, commit, s)
      | (Inr _, s) \<Rightarrow>
          (Inr (), commit\<lparr>co_crc := lfs_crc (co_crc commit) buffer, co_offset := co_offset commit + of_nat (length buffer)\<rparr>, s))"

text \<open>The data of an attribute in memory: its first \<open>n\<close> bytes.\<close>

definition attribute_bytes :: "tag_buffer \<Rightarrow> nat \<Rightarrow> u8 list result" where
  "attribute_bytes buffer n =
     (if n = 0 then Inr []
      else case buffer of Buf_mem bs \<Rightarrow> mem_get bs 0 n | _ \<Rightarrow> Inl Undefined_behaviour)"

fun commit_from_disk :: "nat \<Rightarrow> 'd lfs \<Rightarrow> lfs_commit \<Rightarrow> lfs_disk_offset \<Rightarrow> lfs_size_t \<Rightarrow> lfs_off_t \<Rightarrow> unit result \<times> lfs_commit \<times> 'd lfs" where
  "commit_from_disk 0 s commit disk sz i = (Inr (), commit, s)"
| "commit_from_disk (Suc n) s commit disk sz i =
     (case lfs_bd_read_own s False (sz - i) (do_block disk) (do_offset disk + i) [0] of
        (Inl h, dat, s) \<Rightarrow> (Inl h, commit, s)
      | (Inr _, dat, s) \<Rightarrow>
          (case lfs_dir_commit_write s commit dat of
             (Inl h, commit, s) \<Rightarrow> (Inl h, commit, s)
           | (Inr _, commit, s) \<Rightarrow> commit_from_disk n s commit disk sz (i + 1)))"

definition lfs_dir_commit_attribute :: "'d lfs \<Rightarrow> lfs_commit \<Rightarrow> lfs_tag_t \<Rightarrow> tag_buffer \<Rightarrow> unit result \<times> lfs_commit \<times> 'd lfs" where
  "lfs_dir_commit_attribute s commit tag buffer =
     (if co_end commit < co_offset commit + lfs_tag_dsize tag then (Inl (Err LFS_ERR_NOSPC), commit, s)
      else case lfs_dir_commit_write s commit (le_bytes 4 (lfs_tobe32 ((tag AND 0x7fffffff) XOR co_ptag commit))) of
        (Inl h, commit, s) \<Rightarrow> (Inl h, commit, s)
      | (Inr _, commit, s) \<Rightarrow>
          (case (if tag AND 0x80000000 = 0
                 then (case attribute_bytes buffer (unat (tag_data tag)) of
                         Inl h \<Rightarrow> (Inl h, commit, s)
                       | Inr bs \<Rightarrow> lfs_dir_commit_write s commit bs)
                 else (case buffer of
                         Buf_disk disk \<Rightarrow> commit_from_disk (unat (tag_data tag)) s commit disk (tag_data tag) 0
                       | _ \<Rightarrow> (Inl Undefined_behaviour, commit, s))) of
             (Inl h, commit, s) \<Rightarrow> (Inl h, commit, s)
           | (Inr _, commit, s) \<Rightarrow> (Inr (), commit\<lparr>co_ptag := tag AND 0x7fffffff\<rparr>, s)))"

subsection \<open>Closing a commit\<close>

text \<open>The end of the next run of padding behind \<open>offset\<close>.\<close>

definition crc_padding_end :: "lfs_off_t \<Rightarrow> lfs_off_t \<Rightarrow> lfs_off_t" where
  "crc_padding_end end' offset =
     (let noff = lfs_min (end' - offset) 0x3fe + offset in if noff < end' then lfs_min noff (end' - 16) else noff)"

text \<open>\<open>err && err != LFS_ERR_CORRUPT\<close>: a bad block is as good as an erased one here.\<close>

definition tolerate_corrupt :: "'a result \<Rightarrow> unit result" where
  "tolerate_corrupt r = (case r of Inl h \<Rightarrow> if h = Err LFS_ERR_CORRUPT then Inr () else Inl h | Inr _ \<Rightarrow> Inr ())"

text \<open>One checksum tag. The pair is the position and value of the first checksum, once it is written.\<close>

definition commit_crc_footer :: "'d lfs \<Rightarrow> lfs_commit \<Rightarrow> lfs_off_t \<Rightarrow> lfs_off_t \<Rightarrow> u32 \<Rightarrow> lfs_off_t \<times> u32 \<Rightarrow> (lfs_off_t \<times> u32) result \<times> lfs_commit \<times> 'd lfs" where
  "commit_crc_footer s commit offset noff next first =
     (let reset = drop_bit 31 (NOT (lfs_frombe32 next));
          tag = LFS_MKTAG (LFS_TYPE_CRC + reset) 0x3ff (ucast (noff - offset));
          footer0 = lfs_tobe32 (tag XOR co_ptag commit);
          crc = lfs_crc (co_crc commit) (le_bytes 4 footer0);
          footer1 = lfs_tole32 crc
      in case lfs_bd_write_own s False (co_block commit) (co_offset commit) (le_bytes 4 footer0 @ le_bytes 4 footer1) of
           (Inl h, s) \<Rightarrow> (Inl h, commit\<lparr>co_crc := crc\<rparr>, s)
         | (Inr _, s) \<Rightarrow>
             (Inr (if fst first = 0 then (co_offset commit + 4, crc) else first),
              commit\<lparr>co_offset := co_offset commit + 4 + lfs_tag_size tag, co_ptag := tag XOR push_bit 31 reset,
                     co_crc := 0xffffffff\<rparr>, s))"

definition commit_crc_tag :: "'d lfs \<Rightarrow> lfs_commit \<Rightarrow> lfs_off_t \<Rightarrow> lfs_off_t \<times> u32 \<Rightarrow> (lfs_off_t \<times> u32) result \<times> lfs_commit \<times> 'd lfs" where
  "commit_crc_tag s commit end' first =
     (let offset = co_offset commit + 4; noff = crc_padding_end end' offset
      in case lfs_bd_read_own s False 4 (co_block commit) noff (le_bytes 4 (0xffffffff :: u32)) of
           (r, bytes, s) \<Rightarrow>
             (case tolerate_corrupt r of
                Inl h \<Rightarrow> (Inl h, commit, s)
              | Inr _ \<Rightarrow> commit_crc_footer s commit offset noff (le_word bytes) first))"

text \<open>Each tag takes at least four bytes of what is to be filled.\<close>

fun commit_crc_tags :: "nat \<Rightarrow> 'd lfs \<Rightarrow> lfs_commit \<Rightarrow> lfs_off_t \<Rightarrow> lfs_off_t \<times> u32 \<Rightarrow> (lfs_off_t \<times> u32) result \<times> lfs_commit \<times> 'd lfs" where
  "commit_crc_tags 0 s commit end' first = (Inl Out_of_fuel, commit, s)"
| "commit_crc_tags (Suc fuel) s commit end' first =
     (if \<not> co_offset commit < end' then (Inr first, commit, s)
      else case commit_crc_tag s commit end' first of
             (Inl h, commit, s) \<Rightarrow> (Inl h, commit, s)
           | (Inr first, commit, s) \<Rightarrow> commit_crc_tags fuel s commit end' first)"

text \<open>Read back what was written, \<open>n\<close> bytes from \<open>i\<close>, up to and with the checksum.\<close>

fun commit_check_bytes :: "nat \<Rightarrow> 'd lfs \<Rightarrow> lfs_block_t \<Rightarrow> lfs_off_t \<Rightarrow> lfs_off_t \<Rightarrow> lfs_off_t \<times> u32 \<Rightarrow> u32 \<Rightarrow> unit result \<times> 'd lfs" where
  "commit_check_bytes 0 s block i stop first crc = (if crc \<noteq> 0 then Inl (Err LFS_ERR_CORRUPT) else Inr (), s)"
| "commit_check_bytes (Suc n) s block i stop first crc =
     (if i = fst first \<and> crc \<noteq> snd first then (Inl (Err LFS_ERR_CORRUPT), s)
      else case lfs_bd_read_own s False (stop - i) block i [0] of
             (Inl h, dat, s) \<Rightarrow> (Inl h, s)
           | (Inr _, dat, s) \<Rightarrow> commit_check_bytes n s block (i + 1) stop first (lfs_crc crc dat))"

fun commit_check :: "nat \<Rightarrow> 'd lfs \<Rightarrow> lfs_block_t \<Rightarrow> lfs_off_t \<Rightarrow> lfs_off_t \<Rightarrow> lfs_off_t \<Rightarrow> lfs_off_t \<times> u32 \<Rightarrow> unit result \<times> 'd lfs" where
  "commit_check 0 s block end' offset noff first = (Inl Out_of_fuel, s)"
| "commit_check (Suc fuel) s block end' offset noff first =
     (if \<not> offset < end' then (Inr (), s)
      else case commit_check_bytes (if offset < noff + 4 then unat (noff + 4 - offset) else 0) s block offset (noff + 4) first 0xffffffff of
             (Inl h, s) \<Rightarrow> (Inl h, s)
           | (Inr _, s) \<Rightarrow>
               (let offset = crc_padding_end end' noff in commit_check fuel s block end' offset (offset + 4) first))"

definition lfs_bd_sync_own :: "'d lfs \<Rightarrow> bool \<Rightarrow> unit result \<times> 'd lfs" where
  "lfs_bd_sync_own s validate =
     (case lfs_bd_sync s (l_write_cache s) (l_read_cache s) validate of
        (r, wc, rc, s) \<Rightarrow> (r, s\<lparr>l_write_cache := wc, l_read_cache := rc\<rparr>))"

definition lfs_dir_commit_crc :: "'d lfs \<Rightarrow> lfs_commit \<Rightarrow> unit result \<times> lfs_commit \<times> 'd lfs" where
  "lfs_dir_commit_crc s commit =
     (let end' = lfs_alignup (co_offset commit + 2 * 8) (cfg_write_size (l_cfg s))
      in case commit_crc_tags (Suc (unat (end' - co_offset commit))) s commit end' (0, 0) of
           (Inl h, commit, s) \<Rightarrow> (Inl h, commit, s)
         | (Inr first, commit, s) \<Rightarrow>
             (case lfs_bd_sync_own s False of
                (Inl h, s) \<Rightarrow> (Inl h, commit, s)
              | (Inr _, s) \<Rightarrow>
                  (case commit_check (Suc (unat end')) s (co_block commit) end' (co_begin commit) (fst first) first of
                     (r, s) \<Rightarrow> (r, commit, s))))"

subsection \<open>Allocating a metadata pair\<close>

text \<open>\<open>(block_cycles + 1) | 1\<close> as an unsigned 64-bit number.\<close>

definition block_cycles_modulus :: "'d lfs \<Rightarrow> u64" where
  "block_cycles_modulus s = (scast (cfg_block_cycles (l_cfg s) + 1) OR 1)"

definition lfs_dir_alloc :: "'d grow \<Rightarrow> 'd lfs \<Rightarrow> lfs_metadata_dir \<Rightarrow> unit result \<times> lfs_metadata_dir \<times> 'd lfs" where
  "lfs_dir_alloc grow s dir =
     (case lfs_alloc grow s of
        (Inl h, s) \<Rightarrow> (Inl h, dir, s)
      | (Inr block1, s) \<Rightarrow>
          (let dir = dir\<lparr>m_pair := (fst (m_pair dir), block1)\<rparr>
           in case lfs_alloc grow s of
                (Inl h, s) \<Rightarrow> (Inl h, dir, s)
              | (Inr block0, s) \<Rightarrow>
                  (case lfs_bd_read_own s False 4 block0 0 (le_bytes 4 (0 :: u32)) of
                     (r, bytes, s) \<Rightarrow>
                       (let dir = dir\<lparr>m_pair := (block0, block1), m_revision_count := lfs_fromle32 (le_word bytes)\<rparr>
                        in case tolerate_corrupt r of
                             Inl h \<Rightarrow> (Inl h, dir, s)
                           | Inr _ \<Rightarrow>
                               (Inr (),
                                dir\<lparr>m_revision_count :=
                                      (if 0 < sint (cfg_block_cycles (l_cfg s))
                                       then ucast (lfs_alignup (ucast (m_revision_count dir)) (block_cycles_modulus s))
                                       else m_revision_count dir),
                                    m_offset := 4, m_etag := 0xffffffff, m_count := 0,
                                    m_tail := (LFS_BLOCK_NULL, LFS_BLOCK_NULL), m_erased := False, m_split := False\<rparr>, s)))))"

subsection \<open>Compacting a metadata pair\<close>

definition lfs_dir_needs_relocation :: "'d lfs \<Rightarrow> lfs_metadata_dir \<Rightarrow> bool" where
  "lfs_dir_needs_relocation s dir =
     (0 < sint (cfg_block_cycles (l_cfg s)) \<and>
      (m_revision_count dir + 1) mod (cfg_block_cycles (l_cfg s) + 1 OR 1) = 0)"

definition lfs_dir_commit_size :: "('d, lfs_size_t) tag_callback" where
  "lfs_dir_commit_size s sz tag buffer = (Inr False, sz + lfs_tag_dsize tag, s)"

definition lfs_dir_commit_commit :: "('d, lfs_commit) tag_callback" where
  "lfs_dir_commit_commit s commit tag buffer =
     (case lfs_dir_commit_attribute s commit tag buffer of
        (Inl h, commit, s) \<Rightarrow> (Inl h, commit, s)
      | (Inr _, commit, s) \<Rightarrow> (Inr False, commit, s))"

definition metadata_limit :: "'d lfs \<Rightarrow> lfs_size_t" where
  "metadata_limit s = (if cfg_metadata_max (l_cfg s) \<noteq> 0 then cfg_metadata_max (l_cfg s) else l_block_size s)"

definition tail_attribute :: "u32 \<Rightarrow> block_pair \<Rightarrow> lfs_metadata_attribute" where
  "tail_attribute type pair = \<lparr>ma_tag = LFS_MKTAG type 0x3ff 16, ma_buffer = Buf_mem (pair_to_bytes (lfs_pair_tole64 pair))\<rparr>"

definition commit_gdelta :: "'d lfs \<Rightarrow> lfs_commit \<Rightarrow> lfs_gstate \<Rightarrow> unit result \<times> lfs_commit \<times> 'd lfs" where
  "commit_gdelta s commit delta =
     lfs_dir_commit_attribute s commit (LFS_MKTAG LFS_TYPE_MOVESTATE 0x3ff 24)
       (Buf_mem (gstate_to_bytes (lfs_gstate_tole64 delta)))"

definition clear_orphan_count :: "lfs_gstate \<Rightarrow> lfs_gstate" where
  "clear_orphan_count g = g\<lparr>g_tag := g_tag g AND NOT (LFS_MKTAG 0 0 0x3ff)\<rparr>"

text \<open>The global state that a compaction writes, before what the pair holds of it already.\<close>

definition compact_delta :: "'d lfs \<Rightarrow> bool \<Rightarrow> lfs_gstate" where
  "compact_delta s relocated =
     clear_orphan_count
       (lfs_gstate_xor (if \<not> relocated then lfs_gstate_xor (lfs_gstate_xor gstate_zero (l_gdisk s)) (l_gstate s) else gstate_zero)
          (l_gdelta s))"

definition compact_traverse :: "'d lfs \<Rightarrow> lfs_commit \<Rightarrow> lfs_metadata_dir \<Rightarrow> lfs_metadata_attribute list \<Rightarrow> u16 \<Rightarrow> u16 \<Rightarrow> unit result \<times> lfs_commit \<times> 'd lfs" where
  "compact_traverse s commit source attrs begin' end' =
     (case lfs_dir_traverse s source 0 0xffffffff attrs (LFS_MKTAG LFS_TYPE_SPLICE 0x3ff 0) (LFS_MKTAG LFS_TYPE_NAME 0 0)
             begin' end' (- begin') lfs_dir_commit_commit commit of
        (Inl h, commit, s) \<Rightarrow> (Inl h, commit, s)
      | (Inr _, commit, s) \<Rightarrow> (Inr (), commit, s))"

text \<open>One attempt to write the pair to its second block; \<open>Inr None\<close> leads to the label \<open>relocate\<close>.\<close>

definition compact_attempt :: "'d lfs \<Rightarrow> lfs_metadata_dir \<Rightarrow> lfs_metadata_attribute list \<Rightarrow> lfs_metadata_dir \<Rightarrow> u16 \<Rightarrow> u16 \<Rightarrow> bool \<Rightarrow> lfs_commit option result \<times> lfs_commit \<times> 'd lfs" where
  "compact_attempt s dir attrs source begin' end' relocated =
     (let commit = \<lparr>co_block = snd (m_pair dir), co_offset = 0, co_ptag = 0xffffffff, co_crc = 0xffffffff,
                    co_begin = 0, co_end = metadata_limit s - 16\<rparr>
      in or_relocate (case lfs_bd_erase s (snd (m_pair dir)) of (r, s) \<Rightarrow> (r, commit, s)) (\<lambda>(commit, s).
         or_relocate (lfs_dir_commit_write s commit (le_bytes 4 (lfs_tole32 (m_revision_count dir)))) (\<lambda>(commit, s).
         or_relocate (compact_traverse s commit source attrs begin' end') (\<lambda>(commit, s).
         or_relocate (if \<not> lfs_pair_isnull (m_tail dir)
                      then lfs_dir_commit_attribute s commit
                             (LFS_MKTAG (LFS_TYPE_TAIL + of_bool (m_split dir)) 0x3ff 16)
                             (Buf_mem (pair_to_bytes (lfs_pair_tole64 (m_tail dir))))
                      else (Inr (), commit, s)) (\<lambda>(commit, s).
         case lfs_dir_getgstate s dir (compact_delta s relocated) of
           (Inl h, delta, s) \<Rightarrow> (Inl h, commit, s)
         | (Inr _, delta, s) \<Rightarrow>
             or_relocate (if \<not> lfs_gstate_iszero delta then commit_gdelta s commit delta else (Inr (), commit, s)) (\<lambda>(commit, s).
             or_relocate (lfs_dir_commit_crc s commit) (\<lambda>(commit, s). (Inr (Some commit), commit, s))))))))"

text \<open>The label \<open>relocate\<close>: take another block for the second half, unless this is the superblock.\<close>

definition compact_relocate :: "'d grow \<Rightarrow> 'd lfs \<Rightarrow> lfs_metadata_dir \<Rightarrow> bool \<Rightarrow> unit result \<times> lfs_metadata_dir \<times> 'd lfs" where
  "compact_relocate grow s dir tired =
     (let s = drop_write_cache s
      in if \<not> lfs_pair_cmp (m_pair dir) (0, 1) then (Inl (Err LFS_ERR_NOSPC), dir, s)
         else case lfs_alloc grow s of
                (Inl h, s) \<Rightarrow> (if h = Err LFS_ERR_NOSPC \<and> tired then Inr () else Inl h, dir, s)
              | (Inr block, s) \<Rightarrow> (Inr (), dir\<lparr>m_pair := (fst (m_pair dir), block)\<rparr>, s))"

definition compact_finish :: "'d lfs \<Rightarrow> lfs_metadata_dir \<Rightarrow> lfs_commit \<Rightarrow> u16 \<Rightarrow> u16 \<Rightarrow> bool \<Rightarrow> lfs_ok result \<times> lfs_metadata_dir \<times> 'd lfs" where
  "compact_finish s dir commit begin' end' relocated =
     (if co_offset commit mod cfg_write_size (l_cfg s) \<noteq> 0 then (Inl Assertion_failed, dir, s)
      else
        (Inr (if relocated then LFS_OK_RELOCATED else LFS_OK),
         dir\<lparr>m_pair := lfs_pair_swap (m_pair dir), m_count := end' - begin', m_offset := co_offset commit, m_etag := co_ptag commit\<rparr>,
         s\<lparr>l_gdelta := gstate_zero, l_gdisk := (if \<not> relocated then l_gstate s else l_gdisk s)\<rparr>))"

text \<open>\<open>at_relocate\<close> says that the control is at the label \<open>relocate\<close>.\<close>

fun compact_loop :: "nat \<Rightarrow> 'd grow \<Rightarrow> 'd lfs \<Rightarrow> lfs_metadata_dir \<Rightarrow> lfs_metadata_attribute list \<Rightarrow> lfs_metadata_dir \<Rightarrow> u16 \<Rightarrow> u16 \<Rightarrow> bool \<Rightarrow> bool \<Rightarrow> bool \<Rightarrow> lfs_ok result \<times> lfs_metadata_dir \<times> 'd lfs" where
  "compact_loop 0 grow s dir attrs source begin' end' relocated tired at_relocate = (Inl Out_of_fuel, dir, s)"
| "compact_loop (Suc fuel) grow s dir attrs source begin' end' relocated tired at_relocate =
     (if at_relocate
      then (case compact_relocate grow s dir tired of
              (Inl h, dir, s) \<Rightarrow> (Inl h, dir, s)
            | (Inr _, dir, s) \<Rightarrow> compact_loop fuel grow s dir attrs source begin' end' True False False)
      else (case compact_attempt s dir attrs source begin' end' relocated of
              (Inl h, commit, s) \<Rightarrow> (Inl h, dir, s)
            | (Inr (Some commit), _, s) \<Rightarrow> compact_finish s dir commit begin' end' relocated
            | (Inr None, _, s) \<Rightarrow> compact_loop fuel grow s dir attrs source begin' end' relocated tired True))"

definition lfs_dir_compact :: "'d grow \<Rightarrow> 'd lfs \<Rightarrow> lfs_metadata_dir \<Rightarrow> lfs_metadata_attribute list \<Rightarrow> lfs_metadata_dir \<Rightarrow> u16 \<Rightarrow> u16 \<Rightarrow> lfs_ok result \<times> lfs_metadata_dir \<times> 'd lfs" where
  "lfs_dir_compact grow s dir attrs source begin' end' =
     (let tired = lfs_dir_needs_relocation s dir; dir = dir\<lparr>m_revision_count := m_revision_count dir + 1\<rparr>
      in compact_loop (2 * relocation_fuel s) grow s dir attrs source begin' end' False tired
           (tired \<and> lfs_pair_cmp (m_pair dir) (0, 1)))"

subsection \<open>Splitting a metadata pair\<close>

definition lfs_dir_split :: "'d grow \<Rightarrow> 'd lfs \<Rightarrow> lfs_metadata_dir \<Rightarrow> lfs_metadata_attribute list \<Rightarrow> lfs_metadata_dir \<Rightarrow> u16 \<Rightarrow> u16 \<Rightarrow> unit result \<times> lfs_metadata_dir \<times> 'd lfs" where
  "lfs_dir_split grow s dir attrs source split end' =
     (case lfs_dir_alloc grow s mdir_zero of
        (Inl h, tail, s) \<Rightarrow> (Inl h, dir, s)
      | (Inr _, tail, s) \<Rightarrow>
          (case lfs_dir_compact grow s (tail\<lparr>m_split := m_split dir, m_tail := m_tail dir\<rparr>) attrs source split end' of
             (Inl h, tail, s) \<Rightarrow> (Inl h, dir, s)
           | (Inr _, tail, s) \<Rightarrow>
               (Inr (), dir\<lparr>m_tail := m_pair tail, m_split := True\<rparr>,
                if \<not> lfs_pair_cmp (m_pair dir) (l_root s) \<and> split = 0 then s\<lparr>l_root := m_pair tail\<rparr> else s)))"

text \<open>The size a split must have: room for what a commit adds, and half a block at most.\<close>

definition split_limit :: "'d lfs \<Rightarrow> lfs_size_t" where
  "split_limit s = lfs_min (l_block_size s - 72) (lfs_alignup (metadata_limit s div 2) (cfg_write_size (l_cfg s)))"

text \<open>Halving the range until its first part fits.\<close>

fun find_split :: "nat \<Rightarrow> 'd lfs \<Rightarrow> lfs_metadata_attribute list \<Rightarrow> lfs_metadata_dir \<Rightarrow> u16 \<Rightarrow> u16 \<Rightarrow> u16 result \<times> 'd lfs" where
  "find_split 0 s attrs source split end' = (Inl Out_of_fuel, s)"
| "find_split (Suc fuel) s attrs source split end' =
     (if \<not> 1 < uint end' - uint split then (Inr split, s)
      else case lfs_dir_traverse s source 0 0xffffffff attrs (LFS_MKTAG LFS_TYPE_SPLICE 0x3ff 0) (LFS_MKTAG LFS_TYPE_NAME 0 0)
                  split end' (0 - split) lfs_dir_commit_size 0 of
             (Inl h, sz, s) \<Rightarrow> (Inl h, s)
           | (Inr _, sz, s) \<Rightarrow>
               if uint end' - uint split < 0xff \<and> sz \<le> split_limit s then (Inr split, s)
               else find_split fuel s attrs source (split + (end' - split) div 2) end')"

text \<open>The loop that splits off tails. It ends with what is left for this pair.\<close>

fun split_loop :: "nat \<Rightarrow> 'd grow \<Rightarrow> 'd lfs \<Rightarrow> lfs_metadata_dir \<Rightarrow> lfs_metadata_attribute list \<Rightarrow> lfs_metadata_dir \<Rightarrow> u16 \<Rightarrow> u16 \<Rightarrow> u16 result \<times> lfs_metadata_dir \<times> 'd lfs" where
  "split_loop 0 grow s dir attrs source begin' end' = (Inl Out_of_fuel, dir, s)"
| "split_loop (Suc fuel) grow s dir attrs source begin' end' =
     (case find_split (Suc (unat (end' - begin'))) s attrs source begin' end' of
        (Inl h, s) \<Rightarrow> (Inl h, dir, s)
      | (Inr split, s) \<Rightarrow>
          if split = begin' then (Inr end', dir, s)
          else case lfs_dir_split grow s dir attrs source split end' of
                 (Inl h, dir, s) \<Rightarrow> (if h = Err LFS_ERR_NOSPC then Inr end' else Inl h, dir, s)
               | (Inr _, dir, s) \<Rightarrow> split_loop fuel grow s dir attrs source begin' split)"

text \<open>The superblock is worn: move the root out of it if there is room.\<close>

definition expand_superblock :: "'d grow \<Rightarrow> 'd lfs \<Rightarrow> lfs_metadata_dir \<Rightarrow> lfs_metadata_attribute list \<Rightarrow> lfs_metadata_dir \<Rightarrow> u16 \<Rightarrow> u16 \<Rightarrow> u16 result \<times> lfs_metadata_dir \<times> 'd lfs" where
  "expand_superblock grow s dir attrs source begin' end' =
     (if lfs_dir_needs_relocation s dir \<and> \<not> lfs_pair_cmp (m_pair dir) (0, 1)
      then (case lfs_fs_rawsize s of
              (Inl h, s) \<Rightarrow> (Inl h, dir, s)
            | (Inr sz, s) \<Rightarrow>
                if sz < l_block_count s div 2
                then (case lfs_dir_split grow s dir attrs source begin' end' of
                        (Inl h, dir, s) \<Rightarrow> (if h = Err LFS_ERR_NOSPC then Inr end' else Inl h, dir, s)
                      | (Inr _, dir, s) \<Rightarrow> (Inr begin', dir, s))
                else (Inr end', dir, s))
      else (Inr end', dir, s))"

definition lfs_dir_splittingcompact :: "'d grow \<Rightarrow> 'd lfs \<Rightarrow> lfs_metadata_dir \<Rightarrow> lfs_metadata_attribute list \<Rightarrow> lfs_metadata_dir \<Rightarrow> u16 \<Rightarrow> u16 \<Rightarrow> lfs_ok result \<times> lfs_metadata_dir \<times> 'd lfs" where
  "lfs_dir_splittingcompact grow s dir attrs source begin' end' =
     (case split_loop (Suc (unat end')) grow s dir attrs source begin' end' of
        (Inl h, dir, s) \<Rightarrow> (Inl h, dir, s)
      | (Inr end', dir, s) \<Rightarrow>
          (case expand_superblock grow s dir attrs source begin' end' of
             (Inl h, dir, s) \<Rightarrow> (Inl h, dir, s)
           | (Inr end', dir, s) \<Rightarrow> lfs_dir_compact grow s dir attrs source begin' end'))"

end
