(* ===== verification/DirCommit.thy ===== *)
theory DirCommit
  imports Commit
begin

text \<open>
  The rest of \<open>src/littlefs_v2/lfs_commit.cpp\<close> and of \<open>lfs_operations.cpp\<close>: committing attributes to a
  directory with everything that may follow from it (dropping an emptied pair, moving a worn or bad
  one and telling its parent and predecessor, fixing the open nodes), and restoring consistency after a
  power loss (\<open>lfs_fs_demove\<close>, \<open>lfs_fs_deorphan\<close>).

  A directory passed by pointer is taken and returned. Where that pointer is the metadata of an open
  node, \<open>ref\<close> is \<open>Some\<close> address of the node: the code compares such pointers, and a commit changes
  the node in the list. Otherwise it is \<open>None\<close>.
\<close>

subsection \<open>Open nodes\<close>

fun node_metadata :: "open_node \<Rightarrow> lfs_metadata_dir" where
  "node_metadata (Node m) = ml_metadata m"
| "node_metadata (Dir d) = ml_metadata d"
| "node_metadata (File f) = ml_metadata f"

fun set_node_metadata :: "lfs_metadata_dir \<Rightarrow> open_node \<Rightarrow> open_node" where
  "set_node_metadata d (Node m) = Node (m\<lparr>ml_metadata := d\<rparr>)"
| "set_node_metadata d (Dir m) = Dir (m\<lparr>ml_metadata := d\<rparr>)"
| "set_node_metadata d (File m) = File (m\<lparr>ml_metadata := d\<rparr>)"

fun node_id :: "open_node \<Rightarrow> u16" where
  "node_id (Node m) = ml_id m"
| "node_id (Dir d) = ml_id d"
| "node_id (File f) = ml_id f"

fun set_node_id :: "u16 \<Rightarrow> open_node \<Rightarrow> open_node" where
  "set_node_id i (Node m) = Node (m\<lparr>ml_id := i\<rparr>)"
| "set_node_id i (Dir m) = Dir (m\<lparr>ml_id := i\<rparr>)"
| "set_node_id i (File m) = File (m\<lparr>ml_id := i\<rparr>)"

text \<open>\<open>((lfs_dir_t*)entry)->pos += by\<close>, if the entry is a directory.\<close>

fun move_dir_pos :: "lfs_off_t \<Rightarrow> open_node \<Rightarrow> open_node" where
  "move_dir_pos step (Dir d) = (if ml_type d = ucast LFS_TYPE_DIR then Dir (d\<lparr>d_pos := d_pos d + step\<rparr>) else Dir d)"
| "move_dir_pos step e = e"

definition ref_metadata :: "'d lfs \<Rightarrow> nat option \<Rightarrow> lfs_metadata_dir \<Rightarrow> lfs_metadata_dir" where
  "ref_metadata s ref dir =
     (case ref of None \<Rightarrow> dir
      | Some p \<Rightarrow> (case map_of (l_metadata_list s) p of None \<Rightarrow> dir | Some e \<Rightarrow> node_metadata e))"

definition set_ref_metadata :: "nat option \<Rightarrow> lfs_metadata_dir \<Rightarrow> 'd lfs \<Rightarrow> 'd lfs" where
  "set_ref_metadata ref dir s =
     (case ref of None \<Rightarrow> s
      | Some p \<Rightarrow> (case map_of (l_metadata_list s) p of None \<Rightarrow> s
        | Some e \<Rightarrow> s\<lparr>l_metadata_list := replace_node (l_metadata_list s) p (set_node_metadata dir e)\<rparr>))"

subsection \<open>What the attributes do to the directory\<close>

text \<open>The first loop of \<open>lfs_dir_relocating_commit\<close>: the count, the tail, and whether an entry goes.\<close>

definition pair_attribute :: "tag_buffer \<Rightarrow> block_pair result" where
  "pair_attribute buffer =
     (case attribute_bytes buffer 16 of Inl h \<Rightarrow> Inl h | Inr bs \<Rightarrow> Inr (lfs_pair_fromle64 (pair_of_bytes bs)))"

fun count_changes :: "lfs_metadata_attribute list \<Rightarrow> lfs_metadata_dir \<Rightarrow> bool \<Rightarrow> bool result \<times> lfs_metadata_dir" where
  "count_changes [] dir hasdelete = (Inr hasdelete, dir)"
| "count_changes (a # as) dir hasdelete =
     (if lfs_tag_type3 (ma_tag a) = LFS_TYPE_CREATE then count_changes as (dir\<lparr>m_count := m_count dir + 1\<rparr>) hasdelete
      else if lfs_tag_type3 (ma_tag a) = LFS_TYPE_DELETE
      then if \<not> 0 < m_count dir then (Inl Assertion_failed, dir)
           else count_changes as (dir\<lparr>m_count := m_count dir - 1\<rparr>) True
      else if lfs_tag_type1 (ma_tag a) = LFS_TYPE_TAIL
      then (case pair_attribute (ma_buffer a) of
              Inl h \<Rightarrow> (Inl h, dir)
            | Inr pair \<Rightarrow>
                count_changes as (dir\<lparr>m_tail := pair, m_split := (lfs_tag_chunk (ma_tag a) AND 1 \<noteq> 0)\<rparr>) hasdelete)
      else count_changes as dir hasdelete)"

text \<open>What the attributes do to the position of an open node in the same directory.\<close>

definition shift_node :: "lfs_metadata_attribute \<Rightarrow> open_node \<Rightarrow> open_node" where
  "shift_node a e =
     (let type = lfs_tag_type3 (ma_tag a); ident = lfs_tag_id (ma_tag a); i = ucast (node_id e)
      in if type = LFS_TYPE_DELETE \<and> i = ident
         then set_node_metadata ((node_metadata e)\<lparr>m_pair := (LFS_BLOCK_NULL, LFS_BLOCK_NULL)\<rparr>) e
         else if type = LFS_TYPE_DELETE \<and> ident < i then move_dir_pos (- 1) (set_node_id (node_id e - 1) e)
         else if type = LFS_TYPE_CREATE \<and> ident \<le> i then move_dir_pos 1 (set_node_id (node_id e + 1) e)
         else e)"

text \<open>The directory was split and the node is on a tail now.\<close>

fun follow_split :: "nat \<Rightarrow> 'd lfs \<Rightarrow> open_node \<Rightarrow> unit result \<times> open_node \<times> 'd lfs" where
  "follow_split 0 s e = (Inl Out_of_fuel, e, s)"
| "follow_split (Suc fuel) s e =
     (let m = node_metadata e
      in if m_count m \<le> node_id e \<and> m_split m
         then
           let e = set_node_id (node_id e - m_count m) e
           in case lfs_dir_fetch s m (m_tail m) of
                (Inl h, m, s) \<Rightarrow> (Inl h, set_node_metadata m e, s)
              | (Inr _, m, s) \<Rightarrow> follow_split fuel s (set_node_metadata m e)
         else (Inr (), e, s))"

text \<open>One node, and all of them in their order. The nodes already passed are in \<open>seen\<close>, in reverse.\<close>

definition fix_node :: "'d lfs \<Rightarrow> nat option \<Rightarrow> block_pair \<Rightarrow> lfs_metadata_dir \<Rightarrow> lfs_metadata_attribute list \<Rightarrow> nat \<Rightarrow> open_node \<Rightarrow> unit result \<times> open_node \<times> 'd lfs" where
  "fix_node s ref oldpair dir attrs p e =
     (if lfs_pair_cmp (m_pair (node_metadata e)) oldpair then (Inr (), e, s)
      else
        let e = set_node_metadata dir e; e = (if ref \<noteq> Some p then fold shift_node attrs e else e)
        in follow_split (Suc (unat (node_id e)) * chain_fuel s) s e)"

fun fix_nodes :: "'d lfs \<Rightarrow> nat option \<Rightarrow> block_pair \<Rightarrow> lfs_metadata_dir \<Rightarrow> lfs_metadata_attribute list \<Rightarrow> (nat \<times> open_node) list \<Rightarrow> (nat \<times> open_node) list \<Rightarrow> unit result \<times> 'd lfs" where
  "fix_nodes s ref oldpair dir attrs seen [] = (Inr (), s\<lparr>l_metadata_list := rev seen\<rparr>)"
| "fix_nodes s ref oldpair dir attrs seen ((p, e) # rest) =
     (case fix_node s ref oldpair dir attrs p e of
        (Inl h, e, s) \<Rightarrow> (Inl h, s\<lparr>l_metadata_list := rev seen @ (p, e) # rest\<rparr>)
      | (Inr _, e, s) \<Rightarrow> fix_nodes s ref oldpair dir attrs ((p, e) # seen) rest)"

subsection \<open>A commit that may move the pair\<close>

text \<open>The global state that a commit adds to, before what the pair holds of it.\<close>

definition commit_delta :: "'d lfs \<Rightarrow> lfs_gstate" where
  "commit_delta s =
     clear_orphan_count
       (lfs_gstate_xor (lfs_gstate_xor (lfs_gstate_xor gstate_zero (l_gstate s)) (l_gdisk s)) (l_gdelta s))"

text \<open>Like \<open>or_relocate\<close>, for the steps that fall back to a compaction: \<open>Inr None\<close> is the label \<open>compact\<close>.\<close>

definition or_compact :: "unit result \<times> 's \<Rightarrow> ('s \<Rightarrow> 'a option result \<times> 's) \<Rightarrow> 'a option result \<times> 's" where
  "or_compact m k =
     (case m of
        (Inl h, s) \<Rightarrow> (if h = Err LFS_ERR_NOSPC \<or> h = Err LFS_ERR_CORRUPT then Inr None else Inl h, s)
      | (Inr _, s) \<Rightarrow> k s)"

definition append_traverse :: "'d lfs \<Rightarrow> lfs_commit \<Rightarrow> lfs_metadata_dir \<Rightarrow> lfs_metadata_attribute list \<Rightarrow> unit result \<times> lfs_commit \<times> 'd lfs" where
  "append_traverse s commit dir attrs =
     (case lfs_dir_traverse s dir (m_offset dir) (m_etag dir) attrs 0 0 0 0 0 lfs_dir_commit_commit commit of
        (Inl h, commit, s) \<Rightarrow> (Inl h, commit, s)
      | (Inr _, commit, s) \<Rightarrow> (Inr (), commit, s))"

text \<open>Appending to the log of the pair. The commit is the result, if it could be made.\<close>

definition append_commit :: "'d lfs \<Rightarrow> lfs_metadata_dir \<Rightarrow> lfs_metadata_attribute list \<Rightarrow> lfs_commit option result \<times> lfs_commit \<times> 'd lfs" where
  "append_commit s dir attrs =
     (let commit = \<lparr>co_block = fst (m_pair dir), co_offset = m_offset dir, co_ptag = m_etag dir, co_crc = 0xffffffff,
                    co_begin = m_offset dir, co_end = metadata_limit s - 16\<rparr>
      in or_compact (append_traverse s commit dir attrs) (\<lambda>(commit, s).
         let delta = commit_delta s
         in case (if lfs_gstate_iszero delta then (Inr None, s)
                  else (case lfs_dir_getgstate s dir delta of
                          (Inl h, delta, s) \<Rightarrow> (Inl h, s)
                        | (Inr _, delta, s) \<Rightarrow> (Inr (Some delta), s))) of
              (Inl h, s) \<Rightarrow> (Inl h, commit, s)
            | (Inr delta, s) \<Rightarrow>
                or_compact (case delta of None \<Rightarrow> (Inr (), commit, s) | Some delta \<Rightarrow> commit_gdelta s commit delta) (\<lambda>(commit, s).
                or_compact (lfs_dir_commit_crc s commit) (\<lambda>(commit, s). (Inr (Some commit), commit, s)))))"

text \<open>Should the directory be dropped, because its last entry goes and a predecessor can link past it?\<close>

definition should_drop :: "'d lfs \<Rightarrow> lfs_metadata_dir \<Rightarrow> bool \<Rightarrow> lfs_metadata_dir option \<Rightarrow> bool result \<times> lfs_metadata_dir option \<times> 'd lfs" where
  "should_drop s dir hasdelete pdir =
     (if hasdelete \<and> m_count dir = 0
      then (case pdir of
              None \<Rightarrow> (Inl Assertion_failed, pdir, s)
            | Some pd \<Rightarrow>
                (case lfs_fs_pred s (m_pair dir) pd of
                   (Inl h, pd, s) \<Rightarrow> (if h = Err LFS_ERR_NOENT then Inr False else Inl h, Some pd, s)
                 | (Inr _, pd, s) \<Rightarrow> (Inr (m_split pd), Some pd, s)))
      else (Inr False, pdir, s))"

text \<open>The commit itself, up to the label \<open>fixmlist\<close>.\<close>

definition commit_or_compact :: "'d grow \<Rightarrow> 'd lfs \<Rightarrow> lfs_metadata_dir \<Rightarrow> lfs_metadata_attribute list \<Rightarrow> lfs_ok result \<times> lfs_metadata_dir \<times> 'd lfs" where
  "commit_or_compact grow s dir attrs =
     (case (if m_erased dir then (case append_commit s dir attrs of (r, _, s) \<Rightarrow> (r, s)) else (Inr None, s)) of
        (Inl h, s) \<Rightarrow> (Inl h, dir, s)
      | (Inr (Some commit), s) \<Rightarrow>
          if co_offset commit mod cfg_write_size (l_cfg s) \<noteq> 0 then (Inl Assertion_failed, dir, s)
          else (Inr LFS_OK, dir\<lparr>m_offset := co_offset commit, m_etag := co_ptag commit\<rparr>,
                s\<lparr>l_gdisk := l_gstate s, l_gdelta := gstate_zero\<rparr>)
      | (Inr None, s) \<Rightarrow> lfs_dir_splittingcompact grow (drop_write_cache s) dir attrs dir 0 (m_count dir))"

definition lfs_dir_relocating_commit :: "'d grow \<Rightarrow> 'd lfs \<Rightarrow> lfs_metadata_dir \<Rightarrow> nat option \<Rightarrow> block_pair \<Rightarrow> lfs_metadata_attribute list \<Rightarrow> lfs_metadata_dir option \<Rightarrow> lfs_ok result \<times> lfs_metadata_dir \<times> lfs_metadata_dir option \<times> 'd lfs" where
  "lfs_dir_relocating_commit grow s dir ref pair attrs pdir =
     (case count_changes attrs dir False of
        (Inl h, dir) \<Rightarrow> (Inl h, dir, pdir, s)
      | (Inr hasdelete, dir) \<Rightarrow>
          (case should_drop s dir hasdelete pdir of
             (Inl h, pdir, s) \<Rightarrow> (Inl h, dir, pdir, s)
           | (Inr dropped, pdir, s) \<Rightarrow>
               (case (if dropped then (Inr LFS_OK_DROPPED, dir, s) else commit_or_compact grow s dir attrs) of
                  (Inl h, dir, s) \<Rightarrow> (Inl h, dir, pdir, s)
                | (Inr state, dir, s) \<Rightarrow>
                    (case fix_nodes s ref pair dir attrs [] (l_metadata_list s) of
                       (Inl h, s) \<Rightarrow> (Inl h, dir, pdir, s)
                     | (Inr _, s) \<Rightarrow> (Inr state, dir, pdir, s)))))"

subsection \<open>A commit with all that follows from it\<close>

text \<open>
  Inline files of the same directory whose data is not in memory only are evicted first. The list of
  addresses does not change meanwhile.
\<close>

definition must_evict :: "'d lfs \<Rightarrow> nat option \<Rightarrow> lfs_metadata_dir \<Rightarrow> nat \<Rightarrow> open_node \<Rightarrow> bool" where
  "must_evict s ref dir p e =
     (case e of
        File f \<Rightarrow> ref \<noteq> Some p \<and> \<not> lfs_pair_cmp (m_pair (ml_metadata f)) (m_pair dir) \<and> ml_type f = ucast LFS_TYPE_REG \<and>
          has_flag LFS_F_INLINE f \<and> cfg_cache_size (l_cfg s) < z_size (f_ctz f)
      | _ \<Rightarrow> False)"

fun evict_inline :: "'d grow \<Rightarrow> 'd lfs \<Rightarrow> nat option \<Rightarrow> lfs_metadata_dir \<Rightarrow> nat list \<Rightarrow> unit result \<times> 'd lfs" where
  "evict_inline grow s ref dir [] = (Inr (), s)"
| "evict_inline grow s ref dir (p # ps) =
     (case map_of (l_metadata_list s) p of
        None \<Rightarrow> evict_inline grow s ref dir ps
      | Some e \<Rightarrow>
          if must_evict s ref dir p e
          then andthen (lfs_file_outline grow s p) (\<lambda>_ s.
                 andthen (lfs_file_flush grow s p) (\<lambda>_ s. evict_inline grow s ref dir ps))
          else evict_inline grow s ref dir ps)"

text \<open>The pair \<open>old\<close> has moved to \<open>new\<close>: the root and the open nodes follow.\<close>

fun retarget_node :: "block_pair \<Rightarrow> block_pair \<Rightarrow> open_node \<Rightarrow> open_node" where
  "retarget_node old new e =
     (let e = (if \<not> lfs_pair_cmp old (m_pair (node_metadata e))
               then set_node_metadata ((node_metadata e)\<lparr>m_pair := new\<rparr>) e else e)
      in case e of
           Dir d \<Rightarrow> if ml_type d = ucast LFS_TYPE_DIR \<and> \<not> lfs_pair_cmp old (d_head d) then Dir (d\<lparr>d_head := new\<rparr>) else Dir d
         | _ \<Rightarrow> e)"

definition retarget :: "'d lfs \<Rightarrow> block_pair \<Rightarrow> block_pair \<Rightarrow> 'd lfs" where
  "retarget s old new =
     s\<lparr>l_root := (if \<not> lfs_pair_cmp old (l_root s) then new else l_root s),
       l_metadata_list := map (\<lambda>(p, e). (p, retarget_node old new e)) (l_metadata_list s)\<rparr>"

text \<open>A pending move in the pair that is about to change has to be fixed with it. The id is 0x3ff for none.\<close>

definition take_pending_move :: "'d lfs \<Rightarrow> block_pair \<Rightarrow> u16 \<times> 'd lfs" where
  "take_pending_move s pair =
     (if lfs_gstate_hasmovehere (l_gstate s) pair
      then (ucast (lfs_tag_id (g_tag (l_gstate s))), lfs_fs_prepmove s 0x3ff (0, 0))
      else (0x3ff, s))"

definition delete_attribute_if :: "u16 \<Rightarrow> lfs_metadata_attribute" where
  "delete_attribute_if moveid =
     \<lparr>ma_tag = LFS_MKTAG_IF (moveid \<noteq> 0x3ff) LFS_TYPE_DELETE (ucast moveid) 0, ma_buffer = Buf_null\<rparr>"

text \<open>
  Where a pass of the relocation loop is left: with the pair that moved next (\<open>continue\<close>), or at the
  search for the predecessor.
\<close>

datatype relocated_parent = Parent_moved block_pair lfs_metadata_dir | Parent_done bool

definition relocate_parent :: "'d grow \<Rightarrow> 'd lfs \<Rightarrow> block_pair \<Rightarrow> lfs_metadata_dir \<Rightarrow> lfs_metadata_dir \<Rightarrow> relocated_parent result \<times> lfs_metadata_dir \<times> 'd lfs" where
  "relocate_parent grow s lpair ldir pdir =
     (case lfs_fs_parent s lpair pdir of
        (Inl h, pdir, s) \<Rightarrow> (if h = Err LFS_ERR_NOENT then Inr (Parent_done False) else Inl h, pdir, s)
      | (Inr tag, pdir, s) \<Rightarrow>
          (case lfs_fs_preporphans s 1 of
             (Inl h, s) \<Rightarrow> (Inl h, pdir, s)
           | (Inr _, s) \<Rightarrow>
               (let (moveid, s) = take_pending_move s (m_pair pdir);
                    tag = (if moveid \<noteq> 0x3ff \<and> ucast moveid < lfs_tag_id tag then tag - LFS_MKTAG 0 1 0 else tag);
                    ppair = m_pair pdir
                in case lfs_dir_relocating_commit grow s pdir None ppair
                          [delete_attribute_if moveid,
                           \<lparr>ma_tag = tag, ma_buffer = Buf_mem (pair_to_bytes (lfs_pair_tole64 (m_pair ldir)))\<rparr>] None of
                     (Inl h, pdir, _, s) \<Rightarrow> (Inl h, pdir, s)
                   | (Inr state, pdir, _, s) \<Rightarrow>
                       (Inr (if state = LFS_OK_RELOCATED then Parent_moved ppair pdir else Parent_done True), pdir, s))))"

definition relocate_pred :: "'d grow \<Rightarrow> 'd lfs \<Rightarrow> block_pair \<Rightarrow> lfs_metadata_dir \<Rightarrow> lfs_metadata_dir \<Rightarrow> bool \<Rightarrow> (lfs_ok \<times> block_pair \<times> lfs_metadata_dir) result \<times> lfs_metadata_dir \<times> 'd lfs" where
  "relocate_pred grow s lpair ldir pdir hasparent =
     (case lfs_fs_pred s lpair pdir of
        (Inl h, pdir, s) \<Rightarrow>
          (if h = Err LFS_ERR_NOENT
           then if hasparent then Inl Assertion_failed else Inr (LFS_OK, lpair, ldir)
           else Inl h, pdir, s)
      | (Inr _, pdir, s) \<Rightarrow>
          (case (if lfs_gstate_hasorphans (l_gstate s) then lfs_fs_preporphans s (0 - of_bool hasparent) else (Inr (), s)) of
             (Inl h, s) \<Rightarrow> (Inl h, pdir, s)
           | (Inr _, s) \<Rightarrow>
               (let (moveid, s) = take_pending_move s (m_pair pdir); lpair = m_pair pdir
                in case lfs_dir_relocating_commit grow s pdir None lpair
                          [delete_attribute_if moveid, tail_attribute LFS_TYPE_SOFTTAIL (m_pair ldir)] None of
                     (Inl h, pdir, _, s) \<Rightarrow> (Inl h, pdir, s)
                   | (Inr state, pdir, _, s) \<Rightarrow> (Inr (state, lpair, pdir), pdir, s))))"

text \<open>Each pass means that a block went bad or was worn out, so the supply of blocks bounds the loop.\<close>

fun relocating_loop :: "nat \<Rightarrow> 'd grow \<Rightarrow> 'd lfs \<Rightarrow> lfs_ok \<Rightarrow> block_pair \<Rightarrow> lfs_metadata_dir \<Rightarrow> lfs_metadata_dir \<Rightarrow> bool \<Rightarrow> lfs_ok result \<times> 'd lfs" where
  "relocating_loop 0 grow s state lpair ldir pdir orphans = (Inl Out_of_fuel, s)"
| "relocating_loop (Suc fuel) grow s state lpair ldir pdir orphans =
     (if state \<noteq> LFS_OK_RELOCATED then (Inr (if orphans then LFS_OK_ORPHANED else LFS_OK), s)
      else case relocate_parent grow (retarget s lpair (m_pair ldir)) lpair ldir pdir of
             (Inl h, pdir, s) \<Rightarrow> (Inl h, s)
           | (Inr (Parent_moved ppair ldir), pdir, s) \<Rightarrow>
               relocating_loop fuel grow s LFS_OK_RELOCATED ppair ldir pdir True
           | (Inr (Parent_done hasparent), pdir, s) \<Rightarrow>
               (case relocate_pred grow s lpair ldir pdir hasparent of
                  (Inl h, pdir, s) \<Rightarrow> (Inl h, s)
                | (Inr (state, lpair, ldir), pdir, s) \<Rightarrow> relocating_loop fuel grow s state lpair ldir pdir orphans))"

text \<open>The emptied directory \<open>dir\<close> is dropped: its predecessor takes over its global state and its tail.\<close>

definition drop_directory :: "'d grow \<Rightarrow> 'd lfs \<Rightarrow> lfs_metadata_dir \<Rightarrow> lfs_metadata_dir \<Rightarrow> lfs_ok result \<times> lfs_metadata_dir \<times> 'd lfs" where
  "drop_directory grow s dir pdir =
     (case lfs_dir_getgstate s dir (l_gdelta s) of
        (Inl h, delta, s) \<Rightarrow> (Inl h, pdir, s\<lparr>l_gdelta := delta\<rparr>)
      | (Inr _, delta, s) \<Rightarrow>
          (case lfs_dir_relocating_commit grow (s\<lparr>l_gdelta := delta\<rparr>) pdir None (m_pair pdir)
                  [tail_attribute (LFS_TYPE_TAIL + of_bool (m_split dir)) (m_tail dir)] None of
             (r, pdir, _, s) \<Rightarrow> (r, pdir, s)))"

definition lfs_dir_orphaning_commit :: "'d grow \<Rightarrow> 'd lfs \<Rightarrow> lfs_metadata_dir \<Rightarrow> nat option \<Rightarrow> lfs_metadata_attribute list \<Rightarrow> lfs_ok result \<times> lfs_metadata_dir \<times> 'd lfs" where
  "lfs_dir_orphaning_commit grow s dir ref attrs =
     (case evict_inline grow s ref dir (map fst (l_metadata_list s)) of
        (Inl h, s) \<Rightarrow> (Inl h, ref_metadata s ref dir, s)
      | (Inr _, s) \<Rightarrow>
          (let lpair = m_pair dir
           in case lfs_dir_relocating_commit grow s dir ref lpair attrs (Some mdir_zero) of
                (Inl h, ldir, pdir, s) \<Rightarrow> (Inl h, ref_metadata s ref dir, s)
              | (Inr state, ldir, pdir, s) \<Rightarrow>
                  (let dir = ref_metadata s ref dir;
                       (dir, s) = (if \<not> lfs_pair_cmp (m_pair dir) lpair then (ldir, set_ref_metadata ref ldir s) else (dir, s));
                       pdir = (case pdir of None \<Rightarrow> mdir_zero | Some pd \<Rightarrow> pd)
                   in case (if state = LFS_OK_DROPPED
                            then (case drop_directory grow s dir pdir of
                                    (Inl h, pd, s) \<Rightarrow> (Inl h, s)
                                  | (Inr state, pd, s) \<Rightarrow> (Inr (state, m_pair pdir, pd, pd), s))
                            else (Inr (state, lpair, ldir, pdir), s)) of
                        (Inl h, s) \<Rightarrow> (Inl h, ref_metadata s ref dir, s)
                      | (Inr (state, lpair, ldir, pdir), s) \<Rightarrow>
                          (case relocating_loop (relocation_fuel s) grow s state lpair ldir pdir False of
                             (r, s) \<Rightarrow> (r, ref_metadata s ref dir, s)))))"

end
