(* ===== verification/Consistency.thy ===== *)
theory Consistency
  imports DirCommit
begin

text \<open>
  Restoring consistency (\<open>lfs_fs_demove\<close>, \<open>lfs_fs_deorphan\<close>, \<open>lfs_fs_forceconsistency\<close> of
  \<open>lfs_operations.cpp\<close>), \<open>lfs_dir_commit\<close> and \<open>lfs_dir_drop\<close> of \<open>lfs_commit.cpp\<close>, which use it, and
  \<open>lfs_fs_rawgrow\<close>.

  The search for orphans starts over when a repair has created new ones. Each repair uses up blocks or
  removes a pair; the model allows as many passes over all pairs as there are blocks.
\<close>

subsection \<open>Orphans\<close>

text \<open>How the body of the loop over the pairs is left: at its end, by \<open>continue\<close>, or to \<open>restart\<close>.\<close>

datatype deorphan_next = De_end | De_continue | De_restart

definition deorphan_commit :: "'d grow \<Rightarrow> 'd lfs \<Rightarrow> lfs_metadata_dir \<Rightarrow> lfs_metadata_attribute list \<Rightarrow> deorphan_next result \<times> lfs_metadata_dir \<times> 'd lfs" where
  "deorphan_commit grow s pdir attrs =
     (case lfs_dir_orphaning_commit grow s pdir None attrs of
        (Inl h, pdir, s) \<Rightarrow> (Inl h, pdir, s)
      | (Inr state, pdir, s) \<Rightarrow> (Inr (if state = LFS_OK_ORPHANED then De_restart else De_continue), pdir, s))"

text \<open>First pass: the parent refers to the pair by outdated addresses.\<close>

definition fix_half_orphan :: "'d grow \<Rightarrow> 'd lfs \<Rightarrow> lfs_metadata_dir \<Rightarrow> lfs_metadata_dir \<Rightarrow> lfs_tag_t \<Rightarrow> deorphan_next result \<times> lfs_metadata_dir \<times> 'd lfs" where
  "fix_half_orphan grow s pdir parent tag =
     (case lfs_dir_get s parent (LFS_MKTAG LFS_TYPE_MOVESTATE 0x3ff 0) tag (replicate 16 0) of
        (Inl h, bytes, s) \<Rightarrow> (Inl h, pdir, s)
      | (Inr _, bytes, s) \<Rightarrow>
          (let pair = lfs_pair_fromle64 (pair_of_bytes bytes)
           in if lfs_pair_sync pair (m_tail pdir) then (Inr De_end, pdir, s)
              else
                let (moveid, s) = take_pending_move s (m_pair pdir)
                in deorphan_commit grow s pdir [delete_attribute_if moveid, tail_attribute LFS_TYPE_SOFTTAIL pair]))"

text \<open>
  Second pass: no parent refers to the pair. The code also reads a tail of eight bytes there; only an
  error of that read has an effect.
\<close>

definition fix_full_orphan :: "'d grow \<Rightarrow> 'd lfs \<Rightarrow> lfs_metadata_dir \<Rightarrow> lfs_metadata_dir \<Rightarrow> deorphan_next result \<times> lfs_metadata_dir \<times> 'd lfs" where
  "fix_full_orphan grow s pdir dir =
     (case lfs_dir_getgstate s dir (l_gdelta s) of
        (Inl h, delta, s) \<Rightarrow> (Inl h, pdir, s\<lparr>l_gdelta := delta\<rparr>)
      | (Inr _, delta, s) \<Rightarrow>
          (case lfs_dir_get (s\<lparr>l_gdelta := delta\<rparr>) dir (LFS_MKTAG 0x7ff 0x3ff 0) (LFS_MKTAG LFS_TYPE_SOFTTAIL 0x3ff 8) (replicate 16 0) of
             (r, bytes, s) \<Rightarrow>
               (let attrs = [\<lparr>ma_tag = LFS_MKTAG (LFS_TYPE_TAIL + of_bool (m_split dir)) 0x3ff 16,
                              ma_buffer = Buf_mem (pair_to_bytes (m_tail dir))\<rparr>]
                in case r of
                     Inl h \<Rightarrow> if h = Err LFS_ERR_NOENT then deorphan_commit grow s pdir attrs else (Inl h, pdir, s)
                   | Inr _ \<Rightarrow> deorphan_commit grow s pdir attrs)))"

definition deorphan_check :: "'d grow \<Rightarrow> 'd lfs \<Rightarrow> bool \<Rightarrow> bool \<Rightarrow> lfs_metadata_dir \<Rightarrow> lfs_metadata_dir \<Rightarrow> deorphan_next result \<times> lfs_metadata_dir \<times> 'd lfs" where
  "deorphan_check grow s powerloss second pdir dir =
     (case lfs_fs_parent s (m_tail pdir) mdir_zero of
        (Inl h, parent, s) \<Rightarrow>
          if h \<noteq> Err LFS_ERR_NOENT then (Inl h, pdir, s)
          else if second \<and> powerloss then fix_full_orphan grow s pdir dir else (Inr De_end, pdir, s)
      | (Inr tag, parent, s) \<Rightarrow> if second then (Inr De_end, pdir, s) else fix_half_orphan grow s pdir parent tag)"

definition deorphan_start :: lfs_metadata_dir where
  "deorphan_start = mdir_zero\<lparr>m_split := True, m_tail := (0, 1)\<rparr>"

text \<open>The result is the number of orphans found, an \<open>int8_t\<close>.\<close>

fun deorphan_run :: "nat \<Rightarrow> 'd grow \<Rightarrow> 'd lfs \<Rightarrow> bool \<Rightarrow> bool \<Rightarrow> lfs_metadata_dir \<Rightarrow> u8 \<Rightarrow> u8 result \<times> 'd lfs" where
  "deorphan_run 0 grow s powerloss second pdir found = (Inl Out_of_fuel, s)"
| "deorphan_run (Suc fuel) grow s powerloss second pdir found =
     (if lfs_pair_isnull (m_tail pdir)
      then if second then (Inr found, s) else deorphan_run fuel grow s powerloss True deorphan_start found
      else case lfs_dir_fetch s mdir_zero (m_tail pdir) of
        (Inl h, dir, s) \<Rightarrow> (Inl h, s)
      | (Inr _, dir, s) \<Rightarrow>
          (case (if \<not> m_split pdir then deorphan_check grow s powerloss second pdir dir else (Inr De_end, pdir, s)) of
             (Inl h, pdir, s) \<Rightarrow> (Inl h, s)
           | (Inr De_end, pdir, s) \<Rightarrow> deorphan_run fuel grow s powerloss second dir found
           | (Inr De_continue, pdir, s) \<Rightarrow> deorphan_run fuel grow s powerloss second pdir (found + 1)
           | (Inr De_restart, pdir, s) \<Rightarrow> deorphan_run fuel grow s powerloss False deorphan_start (found + 1)))"

definition deorphan_fuel :: "'d lfs \<Rightarrow> nat" where
  "deorphan_fuel s = Suc (unat (l_block_count s)) * (2 * unat (l_block_count s) + 4)"

definition lfs_fs_deorphan :: "'d grow \<Rightarrow> 'd lfs \<Rightarrow> bool \<Rightarrow> unit result \<times> 'd lfs" where
  "lfs_fs_deorphan grow s powerloss =
     (if \<not> lfs_gstate_hasorphans (l_gstate s) then (Inr (), s)
      else andthen (deorphan_run (deorphan_fuel s) grow s powerloss False deorphan_start 0) (\<lambda>found s.
             lfs_fs_preporphans s (ucast (0 - lfs_min (ucast (lfs_gstate_getorphans (l_gstate s))) (scast found)))))"

subsection \<open>Committing to a directory\<close>

definition lfs_dir_commit :: "'d grow \<Rightarrow> 'd lfs \<Rightarrow> lfs_metadata_dir \<Rightarrow> nat option \<Rightarrow> lfs_metadata_attribute list \<Rightarrow> unit result \<times> lfs_metadata_dir \<times> 'd lfs" where
  "lfs_dir_commit grow s dir ref attrs =
     (case lfs_dir_orphaning_commit grow s dir ref attrs of
        (Inl h, dir, s) \<Rightarrow> (Inl h, dir, s)
      | (Inr orphans, dir, s) \<Rightarrow>
          if orphans \<noteq> LFS_OK
          then (case lfs_fs_deorphan grow s False of (r, s) \<Rightarrow> (r, ref_metadata s ref dir, s))
          else (Inr (), dir, s))"

definition lfs_dir_drop :: "'d grow \<Rightarrow> 'd lfs \<Rightarrow> lfs_metadata_dir \<Rightarrow> lfs_metadata_dir \<Rightarrow> unit result \<times> lfs_metadata_dir \<times> 'd lfs" where
  "lfs_dir_drop grow s dir tail =
     (case lfs_dir_getgstate s tail (l_gdelta s) of
        (Inl h, delta, s) \<Rightarrow> (Inl h, dir, s\<lparr>l_gdelta := delta\<rparr>)
      | (Inr _, delta, s) \<Rightarrow>
          lfs_dir_commit grow (s\<lparr>l_gdelta := delta\<rparr>) dir None
            [tail_attribute (LFS_TYPE_TAIL + of_bool (m_split tail)) (m_tail tail)])"

subsection \<open>Moves\<close>

definition delete_attribute :: "u16 \<Rightarrow> lfs_metadata_attribute" where
  "delete_attribute ident = \<lparr>ma_tag = LFS_MKTAG LFS_TYPE_DELETE (ucast ident) 0, ma_buffer = Buf_null\<rparr>"

definition lfs_fs_demove :: "'d grow \<Rightarrow> 'd lfs \<Rightarrow> unit result \<times> 'd lfs" where
  "lfs_fs_demove grow s =
     (if \<not> lfs_gstate_hasmove (l_gdisk s) then (Inr (), s)
      else case lfs_dir_fetch s mdir_zero (g_pair (l_gdisk s)) of
        (Inl h, movedir, s) \<Rightarrow> (Inl h, s)
      | (Inr _, movedir, s) \<Rightarrow>
          (let moveid = ucast (lfs_tag_id (g_tag (l_gdisk s)))
           in case lfs_dir_commit grow (lfs_fs_prepmove s 0x3ff (0, 0)) movedir None [delete_attribute moveid] of
                (r, movedir, s) \<Rightarrow> (r, s)))"

definition lfs_fs_forceconsistency :: "'d grow \<Rightarrow> 'd lfs \<Rightarrow> unit result \<times> 'd lfs" where
  "lfs_fs_forceconsistency grow s = andthen (lfs_fs_demove grow s) (\<lambda>_ s. lfs_fs_deorphan grow s True)"

subsection \<open>Growing the file system\<close>

text \<open>A superblock as it lies in memory, with four bytes of padding after the version.\<close>

definition superblock_of_bytes :: "u8 list \<Rightarrow> lfs_superblock" where
  "superblock_of_bytes bs =
     \<lparr>sb_version = le_word (take 4 bs), sb_block_size = le_word (take 8 (drop 8 bs)),
      sb_block_count = le_word (take 8 (drop 16 bs)), sb_name_max_length = le_word (take 8 (drop 24 bs)),
      sb_file_max_size = le_word (take 8 (drop 32 bs)), sb_attr_max_size = le_word (take 8 (drop 40 bs))\<rparr>"

definition superblock_to_bytes :: "lfs_superblock \<Rightarrow> u8 list" where
  "superblock_to_bytes b =
     le_bytes 4 (sb_version b) @ replicate 4 0 @ le_bytes 8 (sb_block_size b) @ le_bytes 8 (sb_block_count b) @
     le_bytes 8 (sb_name_max_length b) @ le_bytes 8 (sb_file_max_size b) @ le_bytes 8 (sb_attr_max_size b)"

definition lfs_fs_rawgrow :: "'d grow \<Rightarrow> 'd lfs \<Rightarrow> lfs_size_t \<Rightarrow> unit result \<times> 'd lfs" where
  "lfs_fs_rawgrow grow s block_count =
     (if \<not> l_block_count s \<le> block_count then (Inl Assertion_failed, s)
      else if \<not> l_block_count s < block_count then (Inr (), s)
      else
        let s = s\<lparr>l_block_count := block_count, l_cfg := (l_cfg s)\<lparr>cfg_block_count := block_count\<rparr>\<rparr>
        in case lfs_dir_fetch s mdir_zero (l_root s) of
             (Inl h, root, s) \<Rightarrow> (Inl h, s)
           | (Inr _, root, s) \<Rightarrow>
               (case lfs_dir_get s root (LFS_MKTAG 0x7ff 0x3ff 0) (LFS_MKTAG LFS_TYPE_SUPERBLOCK 0 48) (replicate 48 0) of
                  (Inl h, bytes, s) \<Rightarrow> (Inl h, s)
                | (Inr tag, bytes, s) \<Rightarrow>
                    (let superblock = (lfs_superblock_fromle64 (superblock_of_bytes bytes))\<lparr>sb_block_count := l_block_count s\<rparr>
                     in case lfs_dir_commit grow s root None
                               [\<lparr>ma_tag = tag, ma_buffer = Buf_mem (superblock_to_bytes (lfs_superblock_tole64 superblock))\<rparr>] of
                          (r, root, s) \<Rightarrow> (r, s))))"

end
