(* ===== verification/File.thy ===== *)
theory File
  imports Consistency
begin

text \<open>
  The rest of \<open>src/littlefs_v2/lfs_file.cpp\<close>: opening and closing a file, synchronising it with its
  directory entry, reading, writing, seeking and truncating.

  A file is given by its address \<open>p\<close> and lives in the list of open nodes; \<open>lfs_file_rawopencfg\<close> puts it
  there. \<open>malloc\<close> is taken to succeed, with a buffer of zeros. A path is the list of its bytes.
\<close>

subsection \<open>Synchronising\<close>

text \<open>The attributes that a synchronisation commits: the data or the block list, and the user's.\<close>

definition sync_attributes :: "lfs_file \<Rightarrow> lfs_metadata_attribute list" where
  "sync_attributes f =
     (let (type, buffer, sz) =
            (if has_flag LFS_F_INLINE f
             then (LFS_TYPE_INLINESTRUCT, c_buffer (f_cache f), z_size (f_ctz f))
             else (LFS_TYPE_CTZSTRUCT, ctz_to_bytes (lfs_ctz_tole64 (f_ctz f)), 16))
      in [\<lparr>ma_tag = LFS_MKTAG type (ucast (ml_id f)) (ucast sz), ma_buffer = Buf_mem buffer\<rparr>,
          \<lparr>ma_tag = LFS_MKTAG LFS_FROM_USERATTRS (ucast (ml_id f)) (of_nat (length (fc_attrs (f_cfg f)))),
           ma_buffer = Buf_attrs (fc_attrs (f_cfg f))\<rparr>])"

definition lfs_file_rawsync :: "'d grow \<Rightarrow> 'd lfs \<Rightarrow> nat \<Rightarrow> unit result \<times> 'd lfs" where
  "lfs_file_rawsync grow s p =
     andthen (get_file p s) (\<lambda>f s.
       if has_flag LFS_F_ERRED f then (Inr (), s)
       else andthen (mark_erred p (lfs_file_flush grow s p)) (\<lambda>_ s.
         andthen (get_file p s) (\<lambda>f s.
           if has_flag LFS_F_DIRTY f \<and> \<not> lfs_pair_isnull (m_pair (ml_metadata f))
           then (case lfs_dir_commit grow s (ml_metadata f) (Some p) (sync_attributes f) of
                   (r, _, s) \<Rightarrow> andthen (mark_erred p (r, s)) (\<lambda>_ s. modify_file p (clear_flag LFS_F_DIRTY) s))
           else (Inr (), s))))"

definition lfs_file_rawclose :: "'d grow \<Rightarrow> 'd lfs \<Rightarrow> nat \<Rightarrow> unit result \<times> 'd lfs" where
  "lfs_file_rawclose grow s p = (case lfs_file_rawsync grow s p of (r, s) \<Rightarrow> (r, lfs_mlist_remove s p))"

subsection \<open>Opening\<close>

text \<open>
  After the label \<open>cleanup\<close> the file is marked as failed and closed; a failed file is not
  synchronised, so that only takes it off the list.
\<close>

definition open_cleanup :: "nat \<Rightarrow> 'a result \<times> 'd lfs \<Rightarrow> 'a result \<times> 'd lfs" where
  "open_cleanup p m = (case m of (Inl h, s) \<Rightarrow> (Inl h, lfs_mlist_remove s p) | (Inr x, s) \<Rightarrow> (Inr x, s))"

text \<open>A new entry with its name and no content.\<close>

definition open_create :: "'d grow \<Rightarrow> 'd lfs \<Rightarrow> nat \<Rightarrow> u8 list \<Rightarrow> u32 \<Rightarrow> lfs_tag_t result \<times> 'd lfs" where
  "open_create grow s p path flags =
     (if flags AND LFS_O_CREAT = 0 then (Inl (Err LFS_ERR_NOENT), s)
      else if l_name_max_length s < of_nat (length path) then (Inl (Err LFS_ERR_NAMETOOLONG), s)
      else andthen (get_file p s) (\<lambda>f s.
        case lfs_dir_commit grow s (ml_metadata f) (Some p)
               [\<lparr>ma_tag = LFS_MKTAG LFS_TYPE_CREATE (ucast (ml_id f)) 0, ma_buffer = Buf_null\<rparr>,
                \<lparr>ma_tag = LFS_MKTAG LFS_TYPE_REG (ucast (ml_id f)) (of_nat (length path)), ma_buffer = Buf_mem path\<rparr>,
                \<lparr>ma_tag = LFS_MKTAG LFS_TYPE_INLINESTRUCT (ucast (ml_id f)) 0, ma_buffer = Buf_null\<rparr>] of
          (Inl h, _, s) \<Rightarrow> (Inl (if h = Err LFS_ERR_NOSPC then Err LFS_ERR_NAMETOOLONG else h), s)
        | (Inr _, _, s) \<Rightarrow> (Inr (LFS_MKTAG LFS_TYPE_INLINESTRUCT 0 0), s)))"

definition open_existing :: "'d lfs \<Rightarrow> nat \<Rightarrow> lfs_tag_t \<Rightarrow> u32 \<Rightarrow> lfs_tag_t result \<times> 'd lfs" where
  "open_existing s p tag flags =
     andthen (get_file p s) (\<lambda>f s.
       if flags AND LFS_O_EXCL \<noteq> 0 then (Inl (Err LFS_ERR_EXIST), s)
       else if lfs_tag_type3 tag \<noteq> LFS_TYPE_REG then (Inl (Err LFS_ERR_ISDIR), s)
       else if flags AND LFS_O_TRUNC \<noteq> 0
       then (Inr (LFS_MKTAG LFS_TYPE_INLINESTRUCT (ucast (ml_id f)) 0), set_file p (raise_flag LFS_F_DIRTY f) s)
       else case lfs_dir_get s (ml_metadata f) (LFS_MKTAG LFS_TYPE_GLOBALS 0x3ff 0)
                   (LFS_MKTAG LFS_TYPE_STRUCT (ucast (ml_id f)) 16) (ctz_to_bytes (f_ctz f)) of
              (Inl h, bytes, s) \<Rightarrow> (Inl h, set_file p (f\<lparr>f_ctz := ctz_of_bytes bytes\<rparr>) s)
            | (Inr tag, bytes, s) \<Rightarrow> (Inr tag, set_file p (f\<lparr>f_ctz := lfs_ctz_fromle64 (ctz_of_bytes bytes)\<rparr>) s))"

text \<open>The user's attributes, read if the file can be read; the ones before are in \<open>seen\<close>.\<close>

fun open_attributes :: "'d lfs \<Rightarrow> nat \<Rightarrow> lfs_user_attribute list \<Rightarrow> lfs_user_attribute list \<Rightarrow> unit result \<times> 'd lfs" where
  "open_attributes s p seen [] = (Inr (), s)"
| "open_attributes s p seen (a # as) =
     andthen (get_file p s) (\<lambda>f s.
       case (if f_flags f AND LFS_O_RDONLY = LFS_O_RDONLY
             then (case lfs_dir_get s (ml_metadata f) (LFS_MKTAG LFS_TYPE_MOVESTATE 0x3ff 0)
                          (LFS_MKTAG (LFS_TYPE_USERATTR + ucast (ua_type a)) (ucast (ml_id f)) (of_nat (length (ua_buffer a)))) (ua_buffer a) of
                     (r, bytes, s) \<Rightarrow>
                       (case r of Inl h \<Rightarrow> if h = Err LFS_ERR_NOENT then Inr () else Inl h | Inr _ \<Rightarrow> Inr (),
                        a\<lparr>ua_buffer := blit 0 bytes (ua_buffer a)\<rparr>, s))
             else (Inr (), a, s)) of
         (Inl h, a, s) \<Rightarrow> (Inl h, s)
       | (Inr _, a, s) \<Rightarrow>
           (let s = set_file p (f\<lparr>f_cfg := (f_cfg f)\<lparr>fc_attrs := rev seen @ a # as\<rparr>\<rparr>) s
            in if f_flags f AND LFS_O_WRONLY = LFS_O_WRONLY
               then if l_attr_max_size s < of_nat (length (ua_buffer a)) then (Inl (Err LFS_ERR_NOSPC), s)
                    else andthen (modify_file p (raise_flag LFS_F_DIRTY) s) (\<lambda>_ s. open_attributes s p (a # seen) as)
               else open_attributes s p (a # seen) as))"

text \<open>The buffer of the file, and the content of an inline file.\<close>

definition open_inline :: "'d lfs \<Rightarrow> nat \<Rightarrow> lfs_tag_t \<Rightarrow> unit result \<times> 'd lfs" where
  "open_inline s p tag =
     andthen (modify_file p (\<lambda>f. raise_flag LFS_F_INLINE
       (f\<lparr>f_ctz := \<lparr>z_head = LFS_BLOCK_INLINE, z_size = lfs_tag_size tag\<rparr>,
          f_cache := (f_cache f)\<lparr>c_block := LFS_BLOCK_INLINE, c_offset := 0, c_size := cfg_cache_size (l_cfg s)\<rparr>\<rparr>)) s) (\<lambda>_ s.
     andthen (get_file p s) (\<lambda>f s.
       if 0 < z_size (f_ctz f)
       then (case lfs_dir_get s (ml_metadata f) (LFS_MKTAG LFS_TYPE_GLOBALS 0x3ff 0)
                    (LFS_MKTAG LFS_TYPE_STRUCT (ucast (ml_id f)) (ucast (lfs_min (c_size (f_cache f)) 0x3fe))) (c_buffer (f_cache f)) of
               (r, bytes, s) \<Rightarrow>
                 (case r of Inl h \<Rightarrow> Inl h | Inr _ \<Rightarrow> Inr (),
                  set_file p (f\<lparr>f_cache := (f_cache f)\<lparr>c_buffer := blit 0 bytes (c_buffer (f_cache f))\<rparr>\<rparr>) s))
       else (Inr (), s)))"

definition open_buffer :: "'d lfs \<Rightarrow> nat \<Rightarrow> lfs_tag_t \<Rightarrow> unit result \<times> 'd lfs" where
  "open_buffer s p tag =
     andthen (modify_file p (\<lambda>f. f\<lparr>f_cache := lfs_cache_zero ((f_cache f)\<lparr>c_buffer :=
         (case fc_buffer (f_cfg f) of Some b \<Rightarrow> b | None \<Rightarrow> replicate (unat (cfg_cache_size (l_cfg s))) 0)\<rparr>)\<rparr>) s) (\<lambda>_ s.
       if lfs_tag_type3 tag = LFS_TYPE_INLINESTRUCT then open_inline s p tag else (Inr (), s))"

definition lfs_file_rawopencfg :: "'d grow \<Rightarrow> 'd lfs \<Rightarrow> nat \<Rightarrow> lfs_file \<Rightarrow> u8 list \<Rightarrow> u32 \<Rightarrow> lfs_file_config \<Rightarrow> unit result \<times> 'd lfs" where
  "lfs_file_rawopencfg grow s p file path flags cfg =
     andthen (if flags AND LFS_O_WRONLY = LFS_O_WRONLY then lfs_fs_forceconsistency grow s else (Inr (), s)) (\<lambda>_ s.
       let file = file\<lparr>f_cfg := cfg, f_flags := flags, f_pos := 0, f_offset := 0, f_cache := (f_cache file)\<lparr>c_buffer := []\<rparr>\<rparr>
       in case lfs_dir_find s (ml_metadata file) path of
            (r, dir, path, ident, s) \<Rightarrow>
              (let file = file\<lparr>ml_metadata := dir, ml_id := ident, ml_type := ucast LFS_TYPE_REG\<rparr>
               in open_cleanup p
                    (case r of
                       Inl h \<Rightarrow>
                         if h = Err LFS_ERR_NOENT \<and> ident \<noteq> 0x3ff
                         then andthen (open_create grow (lfs_mlist_append s p (File file)) p path flags) (\<lambda>tag s.
                                andthen (open_attributes s p [] (fc_attrs cfg)) (\<lambda>_ s. open_buffer s p tag))
                         else (Inl h, s)
                     | Inr tag \<Rightarrow>
                         andthen (open_existing (lfs_mlist_append s p (File file)) p tag flags) (\<lambda>tag s.
                           andthen (open_attributes s p [] (fc_attrs cfg)) (\<lambda>_ s. open_buffer s p tag)))))"

definition lfs_file_rawopen :: "'d grow \<Rightarrow> 'd lfs \<Rightarrow> nat \<Rightarrow> lfs_file \<Rightarrow> u8 list \<Rightarrow> u32 \<Rightarrow> unit result \<times> 'd lfs" where
  "lfs_file_rawopen grow s p file path flags =
     lfs_file_rawopencfg grow s p file path flags \<lparr>fc_buffer = None, fc_attrs = []\<rparr>"

subsection \<open>Reading and writing\<close>

definition lfs_file_rawread :: "'d grow \<Rightarrow> 'd lfs \<Rightarrow> nat \<Rightarrow> u8 list \<Rightarrow> lfs_size_t result \<times> u8 list \<times> 'd lfs" where
  "lfs_file_rawread grow s p buffer =
     (case get_file p s of
        (Inl h, s) \<Rightarrow> (Inl h, buffer, s)
      | (Inr f, s) \<Rightarrow>
          if \<not> f_flags f AND LFS_O_RDONLY = LFS_O_RDONLY then (Inl Assertion_failed, buffer, s)
          else case andthen (if has_flag LFS_F_WRITING f then lfs_file_flush grow s p else (Inr (), s)) (\<lambda>_ s. get_file p s) of
            (Inl h, s) \<Rightarrow> (Inl h, buffer, s)
          | (Inr f, s) \<Rightarrow>
              (case lfs_file_flushedread s f buffer of (r, buffer, f, s) \<Rightarrow> (r, buffer, set_file p f s)))"

text \<open>Fill with zeros up to \<open>pos\<close>.\<close>

fun write_zeros :: "nat \<Rightarrow> 'd grow \<Rightarrow> 'd lfs \<Rightarrow> nat \<Rightarrow> lfs_off_t \<Rightarrow> unit result \<times> 'd lfs" where
  "write_zeros 0 grow s p pos = (Inl Out_of_fuel, s)"
| "write_zeros (Suc fuel) grow s p pos =
     andthen (get_file p s) (\<lambda>f s.
       if \<not> f_pos f < pos then (Inr (), s)
       else andthen (lfs_file_flushedwrite grow s p [0]) (\<lambda>_ s. write_zeros fuel grow s p pos))"

definition lfs_file_rawwrite :: "'d grow \<Rightarrow> 'd lfs \<Rightarrow> nat \<Rightarrow> u8 list \<Rightarrow> lfs_size_t result \<times> 'd lfs" where
  "lfs_file_rawwrite grow s p data =
     andthen (get_file p s) (\<lambda>f s.
       if \<not> f_flags f AND LFS_O_WRONLY = LFS_O_WRONLY then (Inl Assertion_failed, s)
       else andthen (if has_flag LFS_F_READING f then lfs_file_flush grow s p else (Inr (), s)) (\<lambda>_ s.
       andthen (modify_file p (\<lambda>f. if has_flag LFS_O_APPEND f \<and> f_pos f < z_size (f_ctz f) then f\<lparr>f_pos := z_size (f_ctz f)\<rparr> else f) s) (\<lambda>_ s.
       andthen (get_file p s) (\<lambda>f s.
         if l_file_max_size s < f_pos f + of_nat (length data) then (Inl (Err LFS_ERR_FBIG), s)
         else
           andthen (if \<not> has_flag LFS_F_WRITING f \<and> z_size (f_ctz f) < f_pos f
                    then write_zeros (Suc (unat (f_pos f - z_size (f_ctz f)))) grow
                           (set_file p (f\<lparr>f_pos := z_size (f_ctz f)\<rparr>) s) p (f_pos f)
                    else (Inr (), s)) (\<lambda>_ s.
           andthen (lfs_file_flushedwrite grow s p data) (\<lambda>nsize s.
           andthen (modify_file p (clear_flag LFS_F_ERRED) s) (\<lambda>_ s. (Inr nsize, s))))))))"

subsection \<open>Position and size\<close>

definition lfs_file_rawsize :: "lfs_file \<Rightarrow> lfs_off_t" where
  "lfs_file_rawsize f = (if has_flag LFS_F_WRITING f then lfs_max (f_pos f) (z_size (f_ctz f)) else z_size (f_ctz f))"

definition lfs_file_rawtell :: "lfs_file \<Rightarrow> lfs_off_t" where
  "lfs_file_rawtell f = f_pos f"

text \<open>The new position; the offset is a signed number.\<close>

definition seek_target :: "lfs_file \<Rightarrow> u64 \<Rightarrow> lfs_whence \<Rightarrow> lfs_off_t result" where
  "seek_target f offset whence =
     (case whence of
        LFS_SEEK_SET \<Rightarrow> Inr offset
      | LFS_SEEK_CUR \<Rightarrow> if sint (f_pos f + offset) < 0 then Inl (Err LFS_ERR_INVAL) else Inr (f_pos f + offset)
      | LFS_SEEK_END \<Rightarrow>
          (let res = lfs_file_rawsize f + offset in if sint res < 0 then Inl (Err LFS_ERR_INVAL) else Inr res))"

definition lfs_file_rawseek :: "'d grow \<Rightarrow> 'd lfs \<Rightarrow> nat \<Rightarrow> u64 \<Rightarrow> lfs_whence \<Rightarrow> lfs_off_t result \<times> 'd lfs" where
  "lfs_file_rawseek grow s p offset whence =
     andthen (get_file p s) (\<lambda>f s.
       case seek_target f offset whence of
         Inl h \<Rightarrow> (Inl h, s)
       | Inr npos \<Rightarrow>
           if l_file_max_size s < npos then (Inl (Err LFS_ERR_INVAL), s)
           else if f_pos f = npos then (Inr npos, s)
           else
             let (oindex, _) = lfs_ctz_index s (f_pos f); (nindex, noff) = lfs_ctz_index s npos
             in if \<not> has_flag LFS_F_WRITING f \<and> oindex = nindex \<and> c_offset (f_cache f) \<le> noff \<and>
                   noff < c_offset (f_cache f) + c_size (f_cache f)
                then (Inr npos, set_file p (f\<lparr>f_pos := npos, f_offset := noff\<rparr>) s)
                else andthen (lfs_file_flush grow s p) (\<lambda>_ s.
                       andthen (modify_file p (\<lambda>f. f\<lparr>f_pos := npos\<rparr>) s) (\<lambda>_ s. (Inr npos, s))))"

definition lfs_file_rawrewind :: "'d grow \<Rightarrow> 'd lfs \<Rightarrow> nat \<Rightarrow> unit result \<times> 'd lfs" where
  "lfs_file_rawrewind grow s p = andthen (lfs_file_rawseek grow s p 0 LFS_SEEK_SET) (\<lambda>_ s. (Inr (), s))"

subsection \<open>Truncating\<close>

text \<open>
  The file becomes inline. Its data passes through the buffer of the read cache. An inline file has its
  data in its own cache, so reading it does not use that buffer meanwhile.
\<close>

definition truncate_inline :: "'d grow \<Rightarrow> 'd lfs \<Rightarrow> nat \<Rightarrow> lfs_off_t \<Rightarrow> unit result \<times> 'd lfs" where
  "truncate_inline grow s p sz =
     andthen (lfs_file_rawseek grow s p 0 LFS_SEEK_SET) (\<lambda>_ s.
       let s = s\<lparr>l_read_cache := lfs_cache_drop (l_read_cache s)\<rparr>
       in andthen (get_file p s) (\<lambda>f s.
         case mem_get (c_buffer (l_read_cache s)) 0 (unat sz) of
           Inl h \<Rightarrow> (Inl h, s)
         | Inr b \<Rightarrow>
             (case lfs_file_flushedread s f b of
                (Inl h, b, f, s) \<Rightarrow>
                  (Inl h, set_file p f (s\<lparr>l_read_cache := (l_read_cache s)\<lparr>c_buffer := blit 0 b (c_buffer (l_read_cache s))\<rparr>\<rparr>))
              | (Inr _, b, f, s) \<Rightarrow>
                  (let s = s\<lparr>l_read_cache := (l_read_cache s)\<lparr>c_buffer := blit 0 b (c_buffer (l_read_cache s))\<rparr>\<rparr>
                   in case mem_put (c_buffer (f_cache f)) 0 b of
                        Inl h \<Rightarrow> (Inl h, set_file p f s)
                      | Inr b \<Rightarrow>
                          (Inr (),
                           set_file p (raise_flag (LFS_F_DIRTY OR LFS_F_READING OR LFS_F_INLINE)
                             (f\<lparr>f_ctz := \<lparr>z_head = LFS_BLOCK_INLINE, z_size = sz\<rparr>,
                                f_cache := \<lparr>c_block = LFS_BLOCK_INLINE, c_offset = 0, c_size = cfg_cache_size (l_cfg s), c_buffer = b\<rparr>\<rparr>)) s)))))"

definition truncate_blocks :: "'d grow \<Rightarrow> 'd lfs \<Rightarrow> nat \<Rightarrow> lfs_off_t \<Rightarrow> unit result \<times> 'd lfs" where
  "truncate_blocks grow s p sz =
     andthen (lfs_file_flush grow s p) (\<lambda>_ s.
       andthen (get_file p s) (\<lambda>f s.
         case lfs_ctz_find s None (f_cache f) (z_head (f_ctz f)) (z_size (f_ctz f)) (sz - 1) of
           (Inl h, rc, s) \<Rightarrow> (Inl h, set_file p (f\<lparr>f_cache := rc\<rparr>) s)
         | (Inr (block, _), rc, s) \<Rightarrow>
             (Inr (), set_file p (raise_flag (LFS_F_DIRTY OR LFS_F_READING)
               (f\<lparr>f_cache := rc, f_block := block, f_pos := sz, f_ctz := \<lparr>z_head = block, z_size = sz\<rparr>\<rparr>)) s)))"

fun truncate_zeros :: "nat \<Rightarrow> 'd grow \<Rightarrow> 'd lfs \<Rightarrow> nat \<Rightarrow> lfs_off_t \<Rightarrow> unit result \<times> 'd lfs" where
  "truncate_zeros 0 grow s p sz = (Inl Out_of_fuel, s)"
| "truncate_zeros (Suc fuel) grow s p sz =
     andthen (get_file p s) (\<lambda>f s.
       if \<not> f_pos f < sz then (Inr (), s)
       else andthen (lfs_file_rawwrite grow s p [0]) (\<lambda>_ s. truncate_zeros fuel grow s p sz))"

text \<open>The largest size that \<open>lfs_file_rawtruncate\<close> makes inline; it differs from \<open>inline_max\<close>.\<close>

definition truncate_inline_max :: "'d lfs \<Rightarrow> lfs_size_t" where
  "truncate_inline_max s =
     lfs_min 0x3fe (lfs_min (cfg_cache_size (l_cfg s))
       ((if cfg_metadata_max (l_cfg s) \<noteq> 0 then cfg_metadata_max (l_cfg s) else cfg_block_size (l_cfg s)) div 8))"

definition lfs_file_rawtruncate :: "'d grow \<Rightarrow> 'd lfs \<Rightarrow> nat \<Rightarrow> lfs_off_t \<Rightarrow> unit result \<times> 'd lfs" where
  "lfs_file_rawtruncate grow s p sz =
     andthen (get_file p s) (\<lambda>f s.
       if \<not> f_flags f AND LFS_O_WRONLY = LFS_O_WRONLY then (Inl Assertion_failed, s)
       else if LFS_FILE_MAX < sz then (Inl (Err LFS_ERR_INVAL), s)
       else
         let pos = f_pos f; oldsize = lfs_file_rawsize f
         in andthen
              (if sz < oldsize
               then if sz \<le> truncate_inline_max s then truncate_inline grow s p sz else truncate_blocks grow s p sz
               else if oldsize < sz
               then andthen (lfs_file_rawseek grow s p 0 LFS_SEEK_END) (\<lambda>_ s.
                      truncate_zeros (Suc (unat (sz - oldsize))) grow s p sz)
               else (Inr (), s)) (\<lambda>_ s.
              andthen (lfs_file_rawseek grow s p pos LFS_SEEK_SET) (\<lambda>_ s. (Inr (), s))))"

end
