(* ===== verification/Directory.thy ===== *)
theory Directory
  imports File
begin

text \<open>
  \<open>src/littlefs_v2/lfs_directory.cpp\<close>: creating directories and reading them entry by entry.

  A directory handle is taken and returned; \<open>lfs_dir_rawopen\<close> puts it into the list of open nodes under
  its address and \<open>lfs_dir_rawclose\<close> takes it off. A local node that the code hooks into that list for
  the time of a commit gets an address that no other node has.
\<close>

subsection \<open>Nodes hooked into the list for one commit\<close>

definition fresh_address :: "'d lfs \<Rightarrow> nat" where
  "fresh_address s = Suc (foldr max (map fst (l_metadata_list s)) 0)"

definition push_node :: "lfs_metadata_dir \<Rightarrow> 'd lfs \<Rightarrow> 'd lfs" where
  "push_node dir s = lfs_mlist_append s (fresh_address s) (Node \<lparr>ml_id = 0, ml_type = 0, ml_metadata = dir\<rparr>)"

text \<open>Taking the first node off again gives the directory as the commit has left it.\<close>

definition pop_node :: "lfs_metadata_dir \<Rightarrow> 'd lfs \<Rightarrow> lfs_metadata_dir \<times> 'd lfs" where
  "pop_node dir s =
     (case l_metadata_list s of
        [] \<Rightarrow> (dir, s)
      | (p, e) # rest \<Rightarrow> (node_metadata e, s\<lparr>l_metadata_list := rest\<rparr>))"

subsection \<open>Creating a directory\<close>

fun last_part :: "nat \<Rightarrow> 'd lfs \<Rightarrow> lfs_metadata_dir \<Rightarrow> lfs_metadata_dir result \<times> 'd lfs" where
  "last_part 0 s pred = (Inl Out_of_fuel, s)"
| "last_part (Suc fuel) s pred =
     (if \<not> m_split pred then (Inr pred, s)
      else case lfs_dir_fetch s pred (m_tail pred) of
             (Inl h, pred, s) \<Rightarrow> (Inl h, s)
           | (Inr _, pred, s) \<Rightarrow> last_part fuel s pred)"

text \<open>The parent is not the last part of its directory: the last part has to link to the new directory.\<close>

definition link_last_part :: "'d grow \<Rightarrow> 'd lfs \<Rightarrow> lfs_metadata_dir \<Rightarrow> lfs_metadata_dir \<Rightarrow> block_pair \<Rightarrow> lfs_metadata_dir result \<times> 'd lfs" where
  "link_last_part grow s cwd pred pair =
     andthen (lfs_fs_preporphans s 1) (\<lambda>_ s.
       case lfs_dir_commit grow (push_node cwd s) pred None [tail_attribute LFS_TYPE_SOFTTAIL pair] of
         (r, pred, s) \<Rightarrow>
           (case pop_node cwd s of
              (cwd, s) \<Rightarrow>
                (case r of
                   Inl h \<Rightarrow> (Inl h, s)
                 | Inr _ \<Rightarrow> andthen (lfs_fs_preporphans s (- 1)) (\<lambda>_ s. (Inr cwd, s)))))"

definition create_in_parent :: "'d grow \<Rightarrow> 'd lfs \<Rightarrow> lfs_metadata_dir \<Rightarrow> u16 \<Rightarrow> u8 list \<Rightarrow> block_pair \<Rightarrow> unit result \<times> 'd lfs" where
  "create_in_parent grow s cwd ident path pair =
     (let pair_buffer = Buf_mem (pair_to_bytes (lfs_pair_tole64 pair))
      in case lfs_dir_commit grow s cwd None
                [\<lparr>ma_tag = LFS_MKTAG LFS_TYPE_CREATE (ucast ident) 0, ma_buffer = Buf_null\<rparr>,
                 \<lparr>ma_tag = LFS_MKTAG LFS_TYPE_DIR (ucast ident) (of_nat (length path)), ma_buffer = Buf_mem path\<rparr>,
                 \<lparr>ma_tag = LFS_MKTAG LFS_TYPE_DIRSTRUCT (ucast ident) 16, ma_buffer = pair_buffer\<rparr>,
                 \<lparr>ma_tag = LFS_MKTAG_IF (\<not> m_split cwd) LFS_TYPE_SOFTTAIL 0x3ff 16, ma_buffer = pair_buffer\<rparr>] of
           (r, cwd, s) \<Rightarrow> (r, s))"

definition create_directory :: "'d grow \<Rightarrow> 'd lfs \<Rightarrow> lfs_metadata_dir \<Rightarrow> u16 \<Rightarrow> u8 list \<Rightarrow> unit result \<times> 'd lfs" where
  "create_directory grow s cwd ident path =
     (case lfs_dir_alloc grow (lfs_alloc_ack s) mdir_zero of
        (Inl h, dir, s) \<Rightarrow> (Inl h, s)
      | (Inr _, dir, s) \<Rightarrow>
          andthen (last_part (chain_fuel s) s cwd) (\<lambda>pred s.
            case lfs_dir_commit grow s dir None [tail_attribute LFS_TYPE_SOFTTAIL (m_tail pred)] of
              (Inl h, dir, s) \<Rightarrow> (Inl h, s)
            | (Inr _, dir, s) \<Rightarrow>
                andthen (if m_split cwd then link_last_part grow s cwd pred (m_pair dir) else (Inr cwd, s)) (\<lambda>cwd s.
                  create_in_parent grow s cwd ident path (m_pair dir))))"

definition lfs_dir_rawcreate :: "'d grow \<Rightarrow> 'd lfs \<Rightarrow> u8 list \<Rightarrow> unit result \<times> 'd lfs" where
  "lfs_dir_rawcreate grow s path =
     andthen (lfs_fs_forceconsistency grow s) (\<lambda>_ s.
       case lfs_dir_find s mdir_zero path of
         (r, cwd, path, ident, s) \<Rightarrow>
           (case r of
              Inr _ \<Rightarrow> (Inl (Err LFS_ERR_EXIST), s)
            | Inl h \<Rightarrow>
                if \<not> (h = Err LFS_ERR_NOENT \<and> ident \<noteq> 0x3ff) then (Inl h, s)
                else if l_name_max_length s < of_nat (length path) then (Inl (Err LFS_ERR_NAMETOOLONG), s)
                else create_directory grow s cwd ident path))"

subsection \<open>Opening and closing\<close>

definition lfs_dir_rawopen :: "'d lfs \<Rightarrow> nat \<Rightarrow> lfs_dir \<Rightarrow> u8 list \<Rightarrow> unit result \<times> 'd lfs" where
  "lfs_dir_rawopen s p dir path =
     (case lfs_dir_find s (ml_metadata dir) path of
        (Inl h, m, _, _, s) \<Rightarrow> (Inl h, s)
      | (Inr tag, m, _, _, s) \<Rightarrow>
          if lfs_tag_type3 tag \<noteq> LFS_TYPE_DIR then (Inl (Err LFS_ERR_NOTDIR), s)
          else
            andthen
              (if lfs_tag_id tag = 0x3ff then (Inr (l_root s), s)
               else case lfs_dir_get s m (LFS_MKTAG LFS_TYPE_GLOBALS 0x3ff 0) (LFS_MKTAG LFS_TYPE_STRUCT (lfs_tag_id tag) 16) (replicate 16 0) of
                      (Inl h, bytes, s) \<Rightarrow> (Inl h, s)
                    | (Inr _, bytes, s) \<Rightarrow> (Inr (lfs_pair_fromle64 (pair_of_bytes bytes)), s)) (\<lambda>pair s.
              case lfs_dir_fetch s m pair of
                (Inl h, m, s) \<Rightarrow> (Inl h, s)
              | (Inr _, m, s) \<Rightarrow>
                  (Inr (), lfs_mlist_append s p
                     (Dir (dir\<lparr>ml_metadata := m, d_head := m_pair m, ml_id := 0, d_pos := 0, ml_type := ucast LFS_TYPE_DIR\<rparr>)))))"

definition lfs_dir_rawclose :: "'d lfs \<Rightarrow> nat \<Rightarrow> unit result \<times> 'd lfs" where
  "lfs_dir_rawclose s p = (Inr (), lfs_mlist_remove s p)"

subsection \<open>Reading entries\<close>

definition info_zero :: lfs_info where
  "info_zero = \<lparr>i_type = 0, i_size = 0, i_name = replicate 256 0\<rparr>"

text \<open>Entries of one part, from the current one; \<open>Inr False\<close> is its end.\<close>

fun read_entries :: "nat \<Rightarrow> 'd lfs \<Rightarrow> lfs_dir \<Rightarrow> lfs_info \<Rightarrow> bool result \<times> lfs_dir \<times> lfs_info \<times> 'd lfs" where
  "read_entries 0 s dir info = (Inr False, dir, info, s)"
| "read_entries (Suc n) s dir info =
     (case lfs_dir_getinfo s (ml_metadata dir) (ml_id dir) info of
        (Inl h, info, s) \<Rightarrow>
          if h \<noteq> Err LFS_ERR_NOENT then (Inl h, dir, info, s)
          else read_entries n s (dir\<lparr>ml_id := ml_id dir + 1\<rparr>) info
      | (Inr _, info, s) \<Rightarrow> (Inr True, dir\<lparr>ml_id := ml_id dir + 1\<rparr>, info, s))"

text \<open>
  The loop reads at least one entry after it has moved to the next part, and goes on until the id
  meets the count again; the numbers of steps are computed with the wrap-around of the id.
\<close>

fun rawread_loop :: "nat \<Rightarrow> 'd lfs \<Rightarrow> lfs_dir \<Rightarrow> lfs_info \<Rightarrow> unit result \<times> lfs_dir \<times> lfs_info \<times> 'd lfs" where
  "rawread_loop 0 s dir info = (Inl Out_of_fuel, dir, info, s)"
| "rawread_loop (Suc fuel) s dir info =
     (case (if ml_id dir = m_count (ml_metadata dir)
            then if \<not> m_split (ml_metadata dir) then (Inl (Err LFS_ERR_NOENT), dir, s)
                 else (case lfs_dir_fetch s (ml_metadata dir) (m_tail (ml_metadata dir)) of
                         (Inl h, m, s) \<Rightarrow> (Inl h, dir\<lparr>ml_metadata := m\<rparr>, s)
                       | (Inr _, m, s) \<Rightarrow> (Inr (), dir\<lparr>ml_metadata := m, ml_id := 0\<rparr>, s))
            else (Inr (), dir, s)) of
        (Inl h, dir, s) \<Rightarrow> (Inl h, dir, info, s)
      | (Inr _, dir, s) \<Rightarrow>
          (case read_entries (Suc (unat (m_count (ml_metadata dir) - ml_id dir - 1))) s dir info of
             (Inl h, dir, info, s) \<Rightarrow> (Inl h, dir, info, s)
           | (Inr found, dir, info, s) \<Rightarrow>
               if found then (Inr (), dir\<lparr>d_pos := d_pos dir + 1\<rparr>, info, s) else rawread_loop fuel s dir info))"

definition lfs_dir_rawread :: "'d lfs \<Rightarrow> lfs_dir \<Rightarrow> unit result \<times> lfs_dir \<times> lfs_info \<times> 'd lfs" where
  "lfs_dir_rawread s dir =
     (let info = info_zero
      in if d_pos dir = 0
         then (Inr (), dir\<lparr>d_pos := d_pos dir + 1\<rparr>, info\<lparr>i_type := ucast LFS_TYPE_DIR, i_name := blit 0 [0x2e, 0] (i_name info)\<rparr>, s)
         else if d_pos dir = 1
         then (Inr (), dir\<lparr>d_pos := d_pos dir + 1\<rparr>, info\<lparr>i_type := ucast LFS_TYPE_DIR, i_name := blit 0 [0x2e, 0x2e, 0] (i_name info)\<rparr>, s)
         else rawread_loop (chain_fuel s) s dir info)"

subsection \<open>Position\<close>

definition lfs_dir_rawrewind :: "'d lfs \<Rightarrow> lfs_dir \<Rightarrow> unit result \<times> lfs_dir \<times> 'd lfs" where
  "lfs_dir_rawrewind s dir =
     (case lfs_dir_fetch s (ml_metadata dir) (d_head dir) of
        (Inl h, m, s) \<Rightarrow> (Inl h, dir\<lparr>ml_metadata := m\<rparr>, s)
      | (Inr _, m, s) \<Rightarrow> (Inr (), dir\<lparr>ml_metadata := m, ml_id := 0, d_pos := 0\<rparr>, s))"

fun rawseek_loop :: "nat \<Rightarrow> 'd lfs \<Rightarrow> lfs_dir \<Rightarrow> lfs_off_t \<Rightarrow> unit result \<times> lfs_dir \<times> 'd lfs" where
  "rawseek_loop 0 s dir offset = (Inl Out_of_fuel, dir, s)"
| "rawseek_loop (Suc fuel) s dir offset =
     (if \<not> 0 < offset then (Inr (), dir, s)
      else case (if ml_id dir = m_count (ml_metadata dir)
                 then if \<not> m_split (ml_metadata dir) then (Inl (Err LFS_ERR_INVAL), dir, s)
                      else (case lfs_dir_fetch s (ml_metadata dir) (m_tail (ml_metadata dir)) of
                              (Inl h, m, s) \<Rightarrow> (Inl h, dir\<lparr>ml_metadata := m\<rparr>, s)
                            | (Inr _, m, s) \<Rightarrow> (Inr (), dir\<lparr>ml_metadata := m, ml_id := 0\<rparr>, s))
                 else (Inr (), dir, s)) of
             (Inl h, dir, s) \<Rightarrow> (Inl h, dir, s)
           | (Inr _, dir, s) \<Rightarrow>
               (let diff = lfs_min (ucast (m_count (ml_metadata dir)) - ucast (ml_id dir)) offset
                in rawseek_loop fuel s (dir\<lparr>ml_id := ml_id dir + ucast diff, d_pos := d_pos dir + diff\<rparr>) (offset - diff)))"

definition lfs_dir_rawseek :: "'d lfs \<Rightarrow> lfs_dir \<Rightarrow> lfs_off_t \<Rightarrow> unit result \<times> lfs_dir \<times> 'd lfs" where
  "lfs_dir_rawseek s dir offset =
     (case lfs_dir_rawrewind s dir of
        (Inl h, dir, s) \<Rightarrow> (Inl h, dir, s)
      | (Inr _, dir, s) \<Rightarrow>
          (let dir = dir\<lparr>d_pos := lfs_min 2 offset\<rparr>; offset = offset - d_pos dir;
               dir = dir\<lparr>ml_id := of_bool (0 < offset \<and> \<not> lfs_pair_cmp (d_head dir) (l_root s))\<rparr>
           in rawseek_loop (Suc (chain_fuel s)) s dir offset))"

definition lfs_dir_rawtell :: "lfs_dir \<Rightarrow> lfs_off_t" where
  "lfs_dir_rawtell dir = d_pos dir"

end
