(* ===== verification/General.thy ===== *)
theory General
  imports Directory
begin

text \<open>
  \<open>src/littlefs_v2/lfs_general.cpp\<close>: setting up and tearing down the state, formatting and mounting,
  and the operations on paths (stat, remove, rename, attributes).

  \<open>malloc\<close> is taken to succeed and to give zeros; \<open>lfs_deinit\<close> gives the buffers back, which leaves the
  caches without one. The search for the block size of \<open>lfs_raw_mount\<close> goes up by an erase unit in each
  step, so that its limit bounds it.
\<close>

subsection \<open>Initialisation\<close>

definition cfg_sane :: "'d lfs_config \<Rightarrow> bool" where
  "cfg_sane cfg =
     (let erase_size = (if cfg_erase_size cfg \<noteq> 0 then cfg_erase_size cfg else cfg_block_size cfg)
      in cfg_read_size cfg \<noteq> 0 \<and> cfg_write_size cfg \<noteq> 0 \<and> cfg_cache_size cfg \<noteq> 0 \<and>
         (cfg_erase_size cfg \<noteq> 0 \<or> cfg_block_size cfg \<noteq> 0) \<and>
         cfg_cache_size cfg mod cfg_read_size cfg = 0 \<and> cfg_cache_size cfg mod cfg_write_size cfg = 0 \<and>
         erase_size mod cfg_cache_size cfg = 0 \<and>
         (cfg_block_size cfg \<noteq> 0 \<longrightarrow> cfg_block_size cfg mod erase_size = 0) \<and>
         cfg_block_cycles cfg \<noteq> 0 \<and>
         0 < cfg_lookahead_size cfg \<and> cfg_lookahead_size cfg mod 8 = 0 \<and>
         cfg_name_max_length cfg \<le> ucast LFS_NAME_MAX \<and> cfg_file_max_size cfg \<le> LFS_FILE_MAX \<and>
         cfg_attr_max_size cfg \<le> LFS_ATTR_MAX \<and> cfg_metadata_max cfg \<le> cfg_block_size cfg)"

definition or_default :: "u64 \<Rightarrow> u64 \<Rightarrow> u64" where
  "or_default x d = (if x \<noteq> 0 then x else d)"

definition init_cache :: "'d lfs_config \<Rightarrow> u8 list option \<Rightarrow> lfs_cache" where
  "init_cache cfg buffer =
     \<lparr>c_block = LFS_BLOCK_NULL, c_offset = 0, c_size = 0,
      c_buffer = (case buffer of Some b \<Rightarrow> b | None \<Rightarrow> replicate (unat (cfg_cache_size cfg)) 0)\<rparr>"

definition lfs_init :: "'d lfs \<Rightarrow> 'd lfs_config \<Rightarrow> unit result \<times> 'd lfs" where
  "lfs_init s cfg =
     (if \<not> cfg_sane cfg then (Inl Assertion_failed, s)
      else
        (Inr (),
         s\<lparr>l_cfg := cfg,
           l_erase_size := or_default (cfg_erase_size cfg) (cfg_block_size cfg),
           l_read_cache := init_cache cfg (cfg_read_buffer cfg),
           l_write_cache := init_cache cfg (cfg_write_buffer cfg),
           l_free := (l_free s)\<lparr>fr_buffer := (case cfg_lookahead_buffer cfg of Some b \<Rightarrow> b
                        | None \<Rightarrow> replicate (unat (cfg_lookahead_size cfg) div 8) 0)\<rparr>,
           l_name_max_length := or_default (cfg_name_max_length cfg) (ucast LFS_NAME_MAX),
           l_file_max_size := or_default (cfg_file_max_size cfg) LFS_FILE_MAX,
           l_attr_max_size := or_default (cfg_attr_max_size cfg) LFS_ATTR_MAX,
           l_root := (LFS_BLOCK_NULL, LFS_BLOCK_NULL), l_metadata_list := [], l_seed := 0,
           l_gdisk := gstate_zero, l_gstate := gstate_zero, l_gdelta := gstate_zero\<rparr>))"

definition lfs_deinit :: "'d lfs \<Rightarrow> unit result \<times> 'd lfs" where
  "lfs_deinit s =
     (let cfg = l_cfg s
      in (Inr (),
          s\<lparr>l_read_cache := (if cfg_read_buffer cfg = None then (l_read_cache s)\<lparr>c_buffer := []\<rparr> else l_read_cache s),
            l_write_cache := (if cfg_write_buffer cfg = None then (l_write_cache s)\<lparr>c_buffer := []\<rparr> else l_write_cache s),
            l_free := (if cfg_lookahead_buffer cfg = None then (l_free s)\<lparr>fr_buffer := []\<rparr> else l_free s)\<rparr>))"

definition lfs_raw_unmount :: "'d lfs \<Rightarrow> unit result \<times> 'd lfs" where
  "lfs_raw_unmount s = lfs_deinit s"

subsection \<open>Paths\<close>

definition lfs_raw_stat :: "'d lfs \<Rightarrow> u8 list \<Rightarrow> lfs_info \<Rightarrow> unit result \<times> lfs_info \<times> 'd lfs" where
  "lfs_raw_stat s path info =
     (case lfs_dir_find s mdir_zero path of
        (Inl h, cwd, _, _, s) \<Rightarrow> (Inl h, info, s)
      | (Inr tag, cwd, _, _, s) \<Rightarrow> lfs_dir_getinfo s cwd (ucast (lfs_tag_id tag)) info)"

text \<open>
  A directory that is to go must be empty; its handle is hooked into the list of open nodes for the
  commit that removes its entry, and the file system is marked as having an orphan.
\<close>

definition prepare_removal :: "'d lfs \<Rightarrow> lfs_metadata_dir \<Rightarrow> u32 \<Rightarrow> lfs_metadata_dir result \<times> 'd lfs" where
  "prepare_removal s cwd ident =
     (case lfs_dir_get s cwd (LFS_MKTAG LFS_TYPE_GLOBALS 0x3ff 0) (LFS_MKTAG LFS_TYPE_STRUCT ident 16) (replicate 16 0) of
        (Inl h, bytes, s) \<Rightarrow> (Inl h, s)
      | (Inr _, bytes, s) \<Rightarrow>
          (case lfs_dir_fetch s mdir_zero (lfs_pair_fromle64 (pair_of_bytes bytes)) of
             (Inl h, m, s) \<Rightarrow> (Inl h, s)
           | (Inr _, m, s) \<Rightarrow>
               if 0 < m_count m \<or> m_split m then (Inl (Err LFS_ERR_NOTEMPTY), s)
               else andthen (lfs_fs_preporphans s 1) (\<lambda>_ s. (Inr m, push_node m s))))"

text \<open>After the entry is gone: the directory itself is taken out of the list of all directories.\<close>

definition finish_removal :: "'d grow \<Rightarrow> 'd lfs \<Rightarrow> lfs_metadata_dir \<Rightarrow> lfs_metadata_dir \<Rightarrow> unit result \<times> 'd lfs" where
  "finish_removal grow s cwd dir =
     andthen (lfs_fs_preporphans s (- 1)) (\<lambda>_ s.
       case lfs_fs_pred s (m_pair dir) cwd of
         (Inl h, cwd, s) \<Rightarrow> (Inl h, s)
       | (Inr _, cwd, s) \<Rightarrow> (case lfs_dir_drop grow s cwd dir of (r, _, s) \<Rightarrow> (r, s)))"

definition lfs_raw_remove :: "'d grow \<Rightarrow> 'd lfs \<Rightarrow> u8 list \<Rightarrow> unit result \<times> 'd lfs" where
  "lfs_raw_remove grow s path =
     andthen (lfs_fs_forceconsistency grow s) (\<lambda>_ s.
       case lfs_dir_find s mdir_zero path of
         (Inl h, cwd, _, _, s) \<Rightarrow> (Inl h, s)
       | (Inr tag, cwd, _, _, s) \<Rightarrow>
           if lfs_tag_id tag = 0x3ff then (Inl (Err LFS_ERR_INVAL), s)
           else
             let isdir = (lfs_tag_type3 tag = LFS_TYPE_DIR)
             in andthen (if isdir then prepare_removal s cwd (lfs_tag_id tag) else (Inr mdir_zero, s)) (\<lambda>dir s.
                  case lfs_dir_commit grow s cwd None [delete_attribute (ucast (lfs_tag_id tag))] of
                    (r, cwd, s) \<Rightarrow>
                      (case (if isdir then pop_node dir s else (dir, s)) of
                         (dir, s) \<Rightarrow>
                           (case r of
                              Inl h \<Rightarrow> (Inl h, s)
                            | Inr _ \<Rightarrow> if isdir then finish_removal grow s cwd dir else (Inr (), s)))))"

text \<open>The commit of a rename: the new entry with everything of the old one.\<close>

definition rename_attributes :: "bool \<Rightarrow> bool \<Rightarrow> u16 \<Rightarrow> u16 \<Rightarrow> lfs_tag_t \<Rightarrow> lfs_metadata_dir \<Rightarrow> u8 list \<Rightarrow> lfs_metadata_attribute list" where
  "rename_attributes replaces samepair newid newoldid oldtag oldcwd newpath =
     [\<lparr>ma_tag = LFS_MKTAG_IF replaces LFS_TYPE_DELETE (ucast newid) 0, ma_buffer = Buf_null\<rparr>,
      \<lparr>ma_tag = LFS_MKTAG LFS_TYPE_CREATE (ucast newid) 0, ma_buffer = Buf_null\<rparr>,
      \<lparr>ma_tag = LFS_MKTAG (lfs_tag_type3 oldtag) (ucast newid) (of_nat (length newpath)), ma_buffer = Buf_mem newpath\<rparr>,
      \<lparr>ma_tag = LFS_MKTAG LFS_FROM_MOVE (ucast newid) (lfs_tag_id oldtag), ma_buffer = Buf_dir oldcwd\<rparr>,
      \<lparr>ma_tag = LFS_MKTAG_IF samepair LFS_TYPE_DELETE (ucast newoldid) 0, ma_buffer = Buf_null\<rparr>]"

text \<open>
  From the point where the target is known: \<open>prevdir\<close> is the directory that is replaced, if one is,
  and is then hooked into the list of open nodes.
\<close>

definition rename_commit :: "'d grow \<Rightarrow> 'd lfs \<Rightarrow> lfs_metadata_dir \<Rightarrow> lfs_tag_t \<Rightarrow> lfs_metadata_dir \<Rightarrow> u16 \<Rightarrow> u16 \<Rightarrow> u8 list \<Rightarrow> bool \<Rightarrow> bool \<Rightarrow> lfs_metadata_dir option \<Rightarrow> unit result \<times> 'd lfs" where
  "rename_commit grow s oldcwd oldtag newcwd newid newoldid newpath replaces samepair prevdir =
     (let s = (if \<not> samepair then lfs_fs_prepmove s newoldid (m_pair oldcwd) else s);
          pop = (\<lambda>s. case prevdir of None \<Rightarrow> (mdir_zero, s) | Some d \<Rightarrow> pop_node d s)
      in case lfs_dir_commit grow s newcwd None (rename_attributes replaces samepair newid newoldid oldtag oldcwd newpath) of
           (Inl h, newcwd, s) \<Rightarrow> (Inl h, snd (pop s))
         | (Inr _, newcwd, s) \<Rightarrow>
             (case (if \<not> samepair \<and> lfs_gstate_hasmove (l_gstate s)
                    then (case lfs_dir_commit grow (lfs_fs_prepmove s 0x3ff (0, 0)) oldcwd None
                                 [delete_attribute (ucast (lfs_tag_id oldtag))] of (r, _, s) \<Rightarrow> (r, s))
                    else (Inr (), s)) of
                (Inl h, s) \<Rightarrow> (Inl h, snd (pop s))
              | (Inr _, s) \<Rightarrow>
                  (case pop s of
                     (d, s) \<Rightarrow> if prevdir = None then (Inr (), s) else finish_removal grow s newcwd d)))"

definition lfs_raw_rename :: "'d grow \<Rightarrow> 'd lfs \<Rightarrow> u8 list \<Rightarrow> u8 list \<Rightarrow> unit result \<times> 'd lfs" where
  "lfs_raw_rename grow s oldpath newpath =
     andthen (lfs_fs_forceconsistency grow s) (\<lambda>_ s.
       case lfs_dir_find s mdir_zero oldpath of
         (Inl h, oldcwd, _, _, s) \<Rightarrow> (Inl h, s)
       | (Inr oldtag, oldcwd, _, _, s) \<Rightarrow>
           if lfs_tag_id oldtag = 0x3ff then (Inl (Err LFS_ERR_INVAL), s)
           else
             (case lfs_dir_find s mdir_zero newpath of
                (prev, newcwd, newpath, newid, s) \<Rightarrow>
                  (let samepair = (\<not> lfs_pair_cmp (m_pair oldcwd) (m_pair newcwd));
                       newoldid = ucast (lfs_tag_id oldtag)
                   in case prev of
                        Inl h \<Rightarrow>
                          if \<not> (h = Err LFS_ERR_NOENT \<and> newid \<noteq> 0x3ff) then (Inl h, s)
                          else if l_name_max_length s < of_nat (length newpath) then (Inl (Err LFS_ERR_NAMETOOLONG), s)
                          else rename_commit grow s oldcwd oldtag newcwd newid
                                 (if samepair \<and> newid \<le> newoldid then newoldid + 1 else newoldid) newpath False samepair None
                      | Inr prevtag \<Rightarrow>
                          if lfs_tag_id prevtag = 0x3ff then (Inl (Err LFS_ERR_INVAL), s)
                          else if lfs_tag_type3 prevtag \<noteq> lfs_tag_type3 oldtag then (Inl (Err LFS_ERR_ISDIR), s)
                          else if samepair \<and> newid = newoldid then (Inr (), s)
                          else if lfs_tag_type3 prevtag = LFS_TYPE_DIR
                          then andthen (prepare_removal s newcwd (ucast newid)) (\<lambda>d s.
                                 rename_commit grow s oldcwd oldtag newcwd newid newoldid newpath True samepair (Some d))
                          else rename_commit grow s oldcwd oldtag newcwd newid newoldid newpath True samepair None)))"

subsection \<open>Attributes\<close>

text \<open>The attributes of the root directory are those of entry 0 of its first pair.\<close>

definition find_attribute_owner :: "'d lfs \<Rightarrow> u8 list \<Rightarrow> (u16 \<times> lfs_metadata_dir) result \<times> 'd lfs" where
  "find_attribute_owner s path =
     (case lfs_dir_find s mdir_zero path of
        (Inl h, cwd, _, _, s) \<Rightarrow> (Inl h, s)
      | (Inr tag, cwd, _, _, s) \<Rightarrow>
          if lfs_tag_id tag = 0x3ff
          then (case lfs_dir_fetch s cwd (l_root s) of
                  (Inl h, cwd, s) \<Rightarrow> (Inl h, s)
                | (Inr _, cwd, s) \<Rightarrow> (Inr (0, cwd), s))
          else (Inr (ucast (lfs_tag_id tag), cwd), s))"

definition lfs_raw_get_attribute :: "'d lfs \<Rightarrow> u8 list \<Rightarrow> u8 \<Rightarrow> u8 list \<Rightarrow> lfs_size_t result \<times> u8 list \<times> 'd lfs" where
  "lfs_raw_get_attribute s path type buffer =
     (case find_attribute_owner s path of
        (Inl h, s) \<Rightarrow> (Inl h, buffer, s)
      | (Inr (ident, cwd), s) \<Rightarrow>
          (case lfs_dir_get s cwd (LFS_MKTAG LFS_TYPE_MOVESTATE 0x3ff 0)
                  (LFS_MKTAG (LFS_TYPE_USERATTR + ucast type) (ucast ident)
                     (ucast (lfs_min (of_nat (length buffer)) (l_attr_max_size s)))) buffer of
             (Inl h, bytes, s) \<Rightarrow> (Inl (if h = Err LFS_ERR_NOENT then Err LFS_ERR_NOATTR else h), blit 0 bytes buffer, s)
           | (Inr tag, bytes, s) \<Rightarrow> (Inr (lfs_tag_size tag), blit 0 bytes buffer, s)))"

definition lfs_commit_attribute :: "'d grow \<Rightarrow> 'd lfs \<Rightarrow> u8 list \<Rightarrow> u8 \<Rightarrow> tag_buffer \<Rightarrow> lfs_size_t \<Rightarrow> unit result \<times> 'd lfs" where
  "lfs_commit_attribute grow s path type buffer sz =
     andthen (find_attribute_owner s path) (\<lambda>(ident, cwd) s.
       case lfs_dir_commit grow s cwd None
              [\<lparr>ma_tag = LFS_MKTAG (LFS_TYPE_USERATTR + ucast type) (ucast ident) (ucast sz), ma_buffer = buffer\<rparr>] of
         (r, _, s) \<Rightarrow> (r, s))"

definition lfs_raw_set_attribute :: "'d grow \<Rightarrow> 'd lfs \<Rightarrow> u8 list \<Rightarrow> u8 \<Rightarrow> u8 list \<Rightarrow> unit result \<times> 'd lfs" where
  "lfs_raw_set_attribute grow s path type buffer =
     (if l_attr_max_size s < of_nat (length buffer) then (Inl (Err LFS_ERR_NOSPC), s)
      else lfs_commit_attribute grow s path type (Buf_mem buffer) (of_nat (length buffer)))"

definition lfs_raw_remove_attribute :: "'d grow \<Rightarrow> 'd lfs \<Rightarrow> u8 list \<Rightarrow> u8 \<Rightarrow> unit result \<times> 'd lfs" where
  "lfs_raw_remove_attribute grow s path type = lfs_commit_attribute grow s path type Buf_null 0x3ff"

end
