(* ===== verification/Mount.thy ===== *)
theory Mount
  imports General
begin

text \<open>
  \<open>lfs_raw_format\<close> and \<open>lfs_raw_mount\<close> of \<open>src/littlefs_v2/lfs_general.cpp\<close>.

  Mounting tries block sizes in turn; the superblock found names the right one. Each round but the last
  makes the block size larger by at least one erase unit.
\<close>

subsection \<open>Formatting\<close>

definition magic :: "u8 list" where
  "magic = [0x6c, 0x69, 0x74, 0x74, 0x6c, 0x65, 0x66, 0x73]"

definition format_superblock :: "'d lfs \<Rightarrow> lfs_superblock" where
  "format_superblock s =
     \<lparr>sb_version = LFS_DISK_VERSION, sb_block_size = l_block_size s, sb_block_count = l_block_count s,
      sb_name_max_length = l_name_max_length s, sb_file_max_size = l_file_max_size s,
      sb_attr_max_size = l_attr_max_size s\<rparr>"

definition format_attributes :: "'d lfs \<Rightarrow> lfs_metadata_attribute list" where
  "format_attributes s =
     [\<lparr>ma_tag = LFS_MKTAG LFS_TYPE_CREATE 0 0, ma_buffer = Buf_null\<rparr>,
      \<lparr>ma_tag = LFS_MKTAG LFS_TYPE_SUPERBLOCK 0 8, ma_buffer = Buf_mem magic\<rparr>,
      \<lparr>ma_tag = LFS_MKTAG LFS_TYPE_INLINESTRUCT 0 48,
       ma_buffer = Buf_mem (superblock_to_bytes (lfs_superblock_tole64 (format_superblock s)))\<rparr>]"

text \<open>The state before the root directory is written.\<close>

definition format_prepare :: "'d lfs \<Rightarrow> unit result \<times> 'd lfs" where
  "format_prepare s =
     (let cfg = l_cfg s; s = s\<lparr>l_block_size := or_default (cfg_block_size cfg) (l_erase_size s)\<rparr>
      in if cfg_block_count cfg = 0 then (Inl Assertion_failed, s)
         else
           let s = s\<lparr>l_block_count := cfg_block_count cfg\<rparr>
           in if \<not> 8 * lfs_npw2_64 (0xffffffff div (l_block_size s - 2 * 8)) \<le> l_block_size s then (Inl Assertion_failed, s)
              else case mem_put (fr_buffer (l_free s)) 0 (replicate (unat (cfg_lookahead_size cfg) div 8) 0) of
                     Inl h \<Rightarrow> (Inl h, s)
                   | Inr b \<Rightarrow>
                       (Inr (), lfs_alloc_ack (s\<lparr>l_free := (l_free s)\<lparr>fr_buffer := b, fr_offset := 0,
                          fr_size := lfs_min (16 * cfg_lookahead_size cfg) (l_block_count s), fr_i := 0\<rparr>\<rparr>)))"

definition format_root :: "'d grow \<Rightarrow> 'd lfs \<Rightarrow> unit result \<times> 'd lfs" where
  "format_root grow s =
     (case lfs_dir_alloc grow s mdir_zero of
        (Inl h, root, s) \<Rightarrow> (Inl h, s)
      | (Inr _, root, s) \<Rightarrow>
          (case lfs_dir_commit grow s root None (format_attributes s) of
             (Inl h, root, s) \<Rightarrow> (Inl h, s)
           | (Inr _, root, s) \<Rightarrow>
               (case lfs_dir_commit grow s (root\<lparr>m_erased := False\<rparr>) None [] of
                  (Inl h, root, s) \<Rightarrow> (Inl h, s)
                | (Inr _, root, s) \<Rightarrow> (case lfs_dir_fetch s root (0, 1) of (Inl h, root, s) \<Rightarrow> (Inl h, s) | (Inr _, root, s) \<Rightarrow> (Inr (), s)))))"

definition lfs_raw_format :: "'d grow \<Rightarrow> 'd lfs \<Rightarrow> 'd lfs_config \<Rightarrow> unit result \<times> 'd lfs" where
  "lfs_raw_format grow s cfg =
     (case lfs_init s cfg of
        (Inl h, s) \<Rightarrow> (Inl h, s)
      | (Inr _, s) \<Rightarrow>
          (case andthen (format_prepare s) (\<lambda>_ s. format_root grow s) of
             (r, s) \<Rightarrow> (r, snd (lfs_deinit s))))"

subsection \<open>Mounting\<close>

text \<open>What a superblock says against what the configuration allows: the limits come from the disk.\<close>

definition check_limit :: "lfs_size_t \<Rightarrow> lfs_size_t \<Rightarrow> lfs_size_t result" where
  "check_limit stored limit =
     (if stored = 0 then Inr limit else if limit < stored then Inl (Err LFS_ERR_INVAL) else Inr stored)"

definition check_version :: "u32 \<Rightarrow> bool" where
  "check_version version =
     (0xffff AND drop_bit 16 version = LFS_DISK_VERSION_MAJOR \<and> 0xffff AND drop_bit 0 version \<le> LFS_DISK_VERSION_MINOR)"

text \<open>How the visit of one pair ends: go on, try another block size, or mount again with this one.\<close>

datatype mount_next = M_next | M_block_size | M_mount

definition mount_superblock :: "'d lfs \<Rightarrow> lfs_metadata_dir \<Rightarrow> lfs_superblock \<Rightarrow> mount_next result \<times> 'd lfs" where
  "mount_superblock s dir sb =
     (if sb_block_size sb \<noteq> l_block_size s
      then
        if cfg_block_size (l_cfg s) \<noteq> 0 \<or> sb_block_size sb mod l_erase_size s \<noteq> 0 \<or> sb_block_size sb < l_block_size s
        then (Inl (Err LFS_ERR_INVAL), s)
        else (Inr M_mount, s\<lparr>l_block_size := sb_block_size sb\<rparr>)
      else if sb_block_count sb \<noteq> l_block_count s \<and> (cfg_block_count (l_cfg s) \<noteq> 0 \<or> l_block_count s < sb_block_count sb)
      then (Inl (Err LFS_ERR_INVAL), s)
      else
        let s = s\<lparr>l_block_count := sb_block_count sb\<rparr>
        in if \<not> check_version (sb_version sb) then (Inl (Err LFS_ERR_INVAL), s)
           else case check_limit (sb_name_max_length sb) (l_name_max_length s) of
             Inl h \<Rightarrow> (Inl h, s)
           | Inr n \<Rightarrow>
               (let s = s\<lparr>l_name_max_length := n\<rparr>
                in case check_limit (sb_file_max_size sb) (l_file_max_size s) of
                     Inl h \<Rightarrow> (Inl h, s)
                   | Inr n \<Rightarrow>
                       (let s = s\<lparr>l_file_max_size := n\<rparr>
                        in case check_limit (sb_attr_max_size sb) (l_attr_max_size s) of
                             Inl h \<Rightarrow> (Inl h, s)
                           | Inr n \<Rightarrow> (Inr M_next, s\<lparr>l_attr_max_size := n, l_root := m_pair dir\<rparr>))))"

text \<open>\<open>LFS_ERR_CORRUPT\<close> may mean that the block size is wrong.\<close>

definition mount_pair :: "'d lfs \<Rightarrow> lfs_metadata_dir \<Rightarrow> mount_next result \<times> lfs_metadata_dir \<times> 'd lfs" where
  "mount_pair s dir =
     (case lfs_dir_fetchmatch s dir (m_tail dir) (LFS_MKTAG LFS_TYPE_MOVESTATE 0x3ff 0) (LFS_MKTAG LFS_TYPE_SUPERBLOCK 0 8)
             (lfs_dir_find_match magic) of
        (Inl h, dir, _, s) \<Rightarrow> (if h = Err LFS_ERR_CORRUPT then Inr M_block_size else Inl h, dir, s)
      | (Inr tag, dir, _, s) \<Rightarrow>
          (case (if tag \<noteq> 0 \<and> \<not> lfs_tag_isdelete tag
                 then (case lfs_dir_get s dir (LFS_MKTAG LFS_TYPE_MOVESTATE 0x3ff 0) (LFS_MKTAG LFS_TYPE_INLINESTRUCT 0 48) (replicate 48 0) of
                         (Inl h, bytes, s) \<Rightarrow> (if h = Err LFS_ERR_CORRUPT then Inr M_block_size else Inl h, s)
                       | (Inr _, bytes, s) \<Rightarrow> mount_superblock s dir (lfs_superblock_fromle64 (superblock_of_bytes bytes)))
                 else (Inr M_next, s)) of
             (Inl h, s) \<Rightarrow> (Inl h, dir, s)
           | (Inr next, s) \<Rightarrow>
               if next \<noteq> M_next then (Inr next, dir, s)
               else (case lfs_dir_getgstate s dir (l_gstate s) of
                       (r, g, s) \<Rightarrow> (case r of Inl h \<Rightarrow> Inl h | Inr _ \<Rightarrow> Inr M_next, dir, s\<lparr>l_gstate := g\<rparr>))))"

text \<open>All pairs. The limit of the block size is fixed once a pair could be read.\<close>

fun mount_pairs :: "nat \<Rightarrow> 'd lfs \<Rightarrow> lfs_metadata_dir \<Rightarrow> lfs_size_t \<Rightarrow> mount_next result \<times> lfs_size_t \<times> 'd lfs" where
  "mount_pairs n s dir limit =
     (if lfs_pair_isnull (m_tail dir) then (Inr M_next, limit, s)
      else case n of
        0 \<Rightarrow> (Inl (Err LFS_ERR_CORRUPT), limit, s)
      | Suc n \<Rightarrow>
          (case mount_pair s dir of
             (Inl h, dir, s) \<Rightarrow> (Inl h, limit, s)
           | (Inr next, dir, s) \<Rightarrow>
               if next \<noteq> M_next then (Inr next, limit, s) else mount_pairs n s dir (l_block_size s)))"

declare mount_pairs.simps [simp del]

text \<open>The label \<open>next_block_size\<close>.\<close>

fun next_block_size :: "nat \<Rightarrow> 'd lfs \<Rightarrow> lfs_size_t \<Rightarrow> unit result \<times> 'd lfs" where
  "next_block_size 0 s limit = (Inl Out_of_fuel, s)"
| "next_block_size (Suc fuel) s limit =
     (let s = s\<lparr>l_block_size := l_block_size s + l_erase_size s\<rparr>
      in if limit < l_block_size s then (Inl (Err LFS_ERR_INVAL), s)
         else if cfg_block_count (l_cfg s) \<noteq> 0 \<and> cfg_block_count (l_cfg s) mod (l_block_size s div l_erase_size s) \<noteq> 0
         then next_block_size fuel s limit
         else (Inr (), s))"

definition block_size_fuel :: "'d lfs \<Rightarrow> lfs_size_t \<Rightarrow> nat" where
  "block_size_fuel s limit = Suc (Suc (unat (limit div l_erase_size s)))"

definition mount_geometry :: "'d lfs \<Rightarrow> 'd lfs" where
  "mount_geometry s =
     (let cfg = l_cfg s
      in s\<lparr>l_block_count := (if cfg_block_count cfg = 0 then - 1
                             else if cfg_block_size cfg = 0 then cfg_block_count cfg div (l_block_size s div l_erase_size s)
                             else cfg_block_count cfg),
           l_read_cache := lfs_cache_drop (l_read_cache s)\<rparr>)"

fun mount_search :: "nat \<Rightarrow> 'd lfs \<Rightarrow> lfs_size_t \<Rightarrow> unit result \<times> 'd lfs" where
  "mount_search 0 s limit = (Inl Out_of_fuel, s)"
| "mount_search (Suc fuel) s limit =
     (let s = mount_geometry s
      in case mount_pairs (unat (l_block_count s div 2)) s (mdir_zero\<lparr>m_tail := (0, 1)\<rparr>) limit of
           (Inl h, limit, s) \<Rightarrow> (Inl h, s)
         | (Inr M_next, limit, s) \<Rightarrow> (Inr (), s)
         | (Inr M_mount, limit, s) \<Rightarrow> mount_search fuel s limit
         | (Inr M_block_size, limit, s) \<Rightarrow>
             andthen (next_block_size (block_size_fuel s limit) s limit) (\<lambda>_ s. mount_search fuel s limit))"

definition mount_limit :: "'d lfs \<Rightarrow> lfs_size_t" where
  "mount_limit s =
     (let cfg = l_cfg s
      in if cfg_block_size cfg \<noteq> 0 then cfg_block_size cfg
         else if cfg_block_count cfg = 0 \<or> (- 1) div l_erase_size s < cfg_block_count cfg div 2 then - 1
         else (cfg_block_count cfg div 2) * l_erase_size s)"

definition mount_finish :: "'d lfs \<Rightarrow> unit result \<times> 'd lfs" where
  "mount_finish s =
     (if lfs_pair_isnull (l_root s) then (Inl (Err LFS_ERR_INVAL), s)
      else
        let g = (l_gstate s)\<lparr>g_tag := g_tag (l_gstate s) + of_bool (\<not> lfs_tag_isvalid (g_tag (l_gstate s)))\<rparr>
        in (Inr (), lfs_alloc_drop (s\<lparr>l_gstate := g, l_gdisk := g,
              l_free := (l_free s)\<lparr>fr_offset := ucast (l_seed s) mod l_block_count s\<rparr>\<rparr>)))"

definition lfs_raw_mount :: "'d lfs \<Rightarrow> 'd lfs_config \<Rightarrow> unit result \<times> 'd lfs" where
  "lfs_raw_mount s cfg =
     (case lfs_init s cfg of
        (Inl h, s) \<Rightarrow> (Inl h, s)
      | (Inr _, s) \<Rightarrow>
          (let s = s\<lparr>l_block_size := or_default (cfg_block_size cfg) (l_erase_size s)\<rparr>; limit = mount_limit s
           in case andthen (mount_search (block_size_fuel s limit) s limit) (\<lambda>_ s. mount_finish s) of
                (Inl h, s) \<Rightarrow> (Inl h, snd (lfs_raw_unmount s))
              | (Inr _, s) \<Rightarrow> (Inr (), s)))"

end
