(* ===== verification/Toplevel.thy ===== *)
theory Toplevel
  imports Mount
begin

text \<open>
  \<open>src/littlefs_v2/lfs_toplevel.cpp\<close>: the functions of the public interface. Each takes the lock of the
  configuration, checks that the handle it is given is open, and calls the function that does the work.
  The build turns \<open>LFS_THREADSAFE\<close> on; without it the lock always succeeds and does nothing. Tracing has
  no effect on the state.

  A file or directory handle is its address in the list of open nodes.
\<close>

definition locked_by :: "'d lfs_config \<Rightarrow> ('d lfs \<Rightarrow> 'a result \<times> 'd lfs) \<Rightarrow> 'd lfs \<Rightarrow> 'a result \<times> 'd lfs" where
  "locked_by cfg body s =
     (case cfg_lock cfg (l_dev s) of
        (Inl h, d) \<Rightarrow> (Inl h, s\<lparr>l_dev := d\<rparr>)
      | (Inr _, d) \<Rightarrow> (case body (s\<lparr>l_dev := d\<rparr>) of (r, s) \<Rightarrow> (r, s\<lparr>l_dev := snd (cfg_unlock cfg (l_dev s))\<rparr>)))"

definition locked :: "('d lfs \<Rightarrow> 'a result \<times> 'd lfs) \<Rightarrow> 'd lfs \<Rightarrow> 'a result \<times> 'd lfs" where
  "locked body s = locked_by (l_cfg s) body s"

definition asserting_open :: "nat \<Rightarrow> bool \<Rightarrow> ('d lfs \<Rightarrow> 'a result \<times> 'd lfs) \<Rightarrow> 'd lfs \<Rightarrow> 'a result \<times> 'd lfs" where
  "asserting_open p isopen body s =
     (if lfs_mlist_isopen (l_metadata_list s) p = isopen then body s else (Inl Assertion_failed, s))"

subsection \<open>Directory handles\<close>

fun find_dir :: "(nat \<times> open_node) list \<Rightarrow> nat \<Rightarrow> lfs_dir result" where
  "find_dir [] p = Inl Undefined_behaviour"
| "find_dir ((q, e) # rest) p =
     (if q = p then (case e of Dir d \<Rightarrow> Inr d | _ \<Rightarrow> Inl Undefined_behaviour) else find_dir rest p)"

definition get_dir :: "nat \<Rightarrow> 'd lfs \<Rightarrow> lfs_dir result \<times> 'd lfs" where
  "get_dir p s = (find_dir (l_metadata_list s) p, s)"

definition set_dir :: "nat \<Rightarrow> lfs_dir \<Rightarrow> 'd lfs \<Rightarrow> 'd lfs" where
  "set_dir p d s = s\<lparr>l_metadata_list := replace_node (l_metadata_list s) p (Dir d)\<rparr>"

subsection \<open>File system\<close>

definition lfs_format :: "'d grow \<Rightarrow> 'd lfs \<Rightarrow> 'd lfs_config \<Rightarrow> unit result \<times> 'd lfs" where
  "lfs_format grow s cfg = locked_by cfg (\<lambda>s. lfs_raw_format grow s cfg) s"

definition lfs_mount :: "'d lfs \<Rightarrow> 'd lfs_config \<Rightarrow> unit result \<times> 'd lfs" where
  "lfs_mount s cfg = locked_by cfg (\<lambda>s. lfs_raw_mount s cfg) s"

definition lfs_unmount :: "'d lfs \<Rightarrow> unit result \<times> 'd lfs" where
  "lfs_unmount s = locked lfs_raw_unmount s"

definition lfs_remove :: "'d grow \<Rightarrow> 'd lfs \<Rightarrow> u8 list \<Rightarrow> unit result \<times> 'd lfs" where
  "lfs_remove grow s path = locked (\<lambda>s. lfs_raw_remove grow s path) s"

definition lfs_rename :: "'d grow \<Rightarrow> 'd lfs \<Rightarrow> u8 list \<Rightarrow> u8 list \<Rightarrow> unit result \<times> 'd lfs" where
  "lfs_rename grow s oldpath newpath = locked (\<lambda>s. lfs_raw_rename grow s oldpath newpath) s"

definition lfs_stat :: "'d lfs \<Rightarrow> u8 list \<Rightarrow> lfs_info \<Rightarrow> lfs_info result \<times> 'd lfs" where
  "lfs_stat s path info =
     locked (\<lambda>s. case lfs_raw_stat s path info of (Inl h, info, s) \<Rightarrow> (Inl h, s) | (Inr _, info, s) \<Rightarrow> (Inr info, s)) s"

definition lfs_get_attribute :: "'d lfs \<Rightarrow> u8 list \<Rightarrow> u8 \<Rightarrow> u8 list \<Rightarrow> (lfs_size_t \<times> u8 list) result \<times> 'd lfs" where
  "lfs_get_attribute s path type buffer =
     locked (\<lambda>s. case lfs_raw_get_attribute s path type buffer of
       (Inl h, buffer, s) \<Rightarrow> (Inl h, s) | (Inr n, buffer, s) \<Rightarrow> (Inr (n, buffer), s)) s"

definition lfs_set_attribute :: "'d grow \<Rightarrow> 'd lfs \<Rightarrow> u8 list \<Rightarrow> u8 \<Rightarrow> u8 list \<Rightarrow> unit result \<times> 'd lfs" where
  "lfs_set_attribute grow s path type buffer = locked (\<lambda>s. lfs_raw_set_attribute grow s path type buffer) s"

definition lfs_remove_attribute :: "'d grow \<Rightarrow> 'd lfs \<Rightarrow> u8 list \<Rightarrow> u8 \<Rightarrow> unit result \<times> 'd lfs" where
  "lfs_remove_attribute grow s path type = locked (\<lambda>s. lfs_raw_remove_attribute grow s path type) s"

subsection \<open>Files\<close>

definition lfs_file_open :: "'d grow \<Rightarrow> 'd lfs \<Rightarrow> nat \<Rightarrow> lfs_file \<Rightarrow> u8 list \<Rightarrow> u32 \<Rightarrow> unit result \<times> 'd lfs" where
  "lfs_file_open grow s p file path flags =
     locked (asserting_open p False (\<lambda>s. lfs_file_rawopen grow s p file path flags)) s"

definition lfs_file_opencfg :: "'d grow \<Rightarrow> 'd lfs \<Rightarrow> nat \<Rightarrow> lfs_file \<Rightarrow> u8 list \<Rightarrow> u32 \<Rightarrow> lfs_file_config \<Rightarrow> unit result \<times> 'd lfs" where
  "lfs_file_opencfg grow s p file path flags cfg =
     locked (asserting_open p False (\<lambda>s. lfs_file_rawopencfg grow s p file path flags cfg)) s"

definition lfs_file_close :: "'d grow \<Rightarrow> 'd lfs \<Rightarrow> nat \<Rightarrow> unit result \<times> 'd lfs" where
  "lfs_file_close grow s p = locked (asserting_open p True (\<lambda>s. lfs_file_rawclose grow s p)) s"

definition lfs_file_sync :: "'d grow \<Rightarrow> 'd lfs \<Rightarrow> nat \<Rightarrow> unit result \<times> 'd lfs" where
  "lfs_file_sync grow s p = locked (asserting_open p True (\<lambda>s. lfs_file_rawsync grow s p)) s"

definition lfs_file_read :: "'d grow \<Rightarrow> 'd lfs \<Rightarrow> nat \<Rightarrow> u8 list \<Rightarrow> lfs_size_t result \<times> u8 list \<times> 'd lfs" where
  "lfs_file_read grow s p buffer =
     (case locked (asserting_open p True (\<lambda>s. case lfs_file_rawread grow s p buffer of (r, buffer, s) \<Rightarrow> (Inr (r, buffer), s))) s of
        (Inl h, s) \<Rightarrow> (Inl h, buffer, s)
      | (Inr (r, buffer), s) \<Rightarrow> (r, buffer, s))"

definition lfs_file_write :: "'d grow \<Rightarrow> 'd lfs \<Rightarrow> nat \<Rightarrow> u8 list \<Rightarrow> lfs_size_t result \<times> 'd lfs" where
  "lfs_file_write grow s p data = locked (asserting_open p True (\<lambda>s. lfs_file_rawwrite grow s p data)) s"

definition lfs_file_seek :: "'d grow \<Rightarrow> 'd lfs \<Rightarrow> nat \<Rightarrow> u64 \<Rightarrow> lfs_whence \<Rightarrow> lfs_off_t result \<times> 'd lfs" where
  "lfs_file_seek grow s p offset whence = locked (asserting_open p True (\<lambda>s. lfs_file_rawseek grow s p offset whence)) s"

definition lfs_file_truncate :: "'d grow \<Rightarrow> 'd lfs \<Rightarrow> nat \<Rightarrow> lfs_off_t \<Rightarrow> unit result \<times> 'd lfs" where
  "lfs_file_truncate grow s p sz = locked (asserting_open p True (\<lambda>s. lfs_file_rawtruncate grow s p sz)) s"

definition lfs_file_tell :: "'d lfs \<Rightarrow> nat \<Rightarrow> lfs_off_t result \<times> 'd lfs" where
  "lfs_file_tell s p =
     locked (asserting_open p True (\<lambda>s. andthen (get_file p s) (\<lambda>f s. (Inr (lfs_file_rawtell f), s)))) s"

definition lfs_file_rewind :: "'d grow \<Rightarrow> 'd lfs \<Rightarrow> nat \<Rightarrow> unit result \<times> 'd lfs" where
  "lfs_file_rewind grow s p = locked (\<lambda>s. lfs_file_rawrewind grow s p) s"

definition lfs_file_size :: "'d lfs \<Rightarrow> nat \<Rightarrow> lfs_off_t result \<times> 'd lfs" where
  "lfs_file_size s p =
     locked (asserting_open p True (\<lambda>s. andthen (get_file p s) (\<lambda>f s. (Inr (lfs_file_rawsize f), s)))) s"

subsection \<open>Directories\<close>

definition lfs_mkdir :: "'d grow \<Rightarrow> 'd lfs \<Rightarrow> u8 list \<Rightarrow> unit result \<times> 'd lfs" where
  "lfs_mkdir grow s path = locked (\<lambda>s. lfs_dir_rawcreate grow s path) s"

definition lfs_dir_open :: "'d lfs \<Rightarrow> nat \<Rightarrow> lfs_dir \<Rightarrow> u8 list \<Rightarrow> unit result \<times> 'd lfs" where
  "lfs_dir_open s p dir path = locked (asserting_open p False (\<lambda>s. lfs_dir_rawopen s p dir path)) s"

definition lfs_dir_close :: "'d lfs \<Rightarrow> nat \<Rightarrow> unit result \<times> 'd lfs" where
  "lfs_dir_close s p = locked (\<lambda>s. lfs_dir_rawclose s p) s"

definition lfs_dir_read :: "'d lfs \<Rightarrow> nat \<Rightarrow> lfs_info result \<times> 'd lfs" where
  "lfs_dir_read s p =
     locked (\<lambda>s. andthen (get_dir p s) (\<lambda>d s. case lfs_dir_rawread s d of
       (Inl h, d, info, s) \<Rightarrow> (Inl h, set_dir p d s) | (Inr _, d, info, s) \<Rightarrow> (Inr info, set_dir p d s))) s"

definition lfs_dir_seek :: "'d lfs \<Rightarrow> nat \<Rightarrow> lfs_off_t \<Rightarrow> unit result \<times> 'd lfs" where
  "lfs_dir_seek s p offset =
     locked (\<lambda>s. andthen (get_dir p s) (\<lambda>d s. case lfs_dir_rawseek s d offset of (r, d, s) \<Rightarrow> (r, set_dir p d s))) s"

definition lfs_dir_tell :: "'d lfs \<Rightarrow> nat \<Rightarrow> lfs_off_t result \<times> 'd lfs" where
  "lfs_dir_tell s p = locked (\<lambda>s. andthen (get_dir p s) (\<lambda>d s. (Inr (lfs_dir_rawtell d), s))) s"

definition lfs_dir_rewind :: "'d lfs \<Rightarrow> nat \<Rightarrow> unit result \<times> 'd lfs" where
  "lfs_dir_rewind s p =
     locked (\<lambda>s. andthen (get_dir p s) (\<lambda>d s. case lfs_dir_rawrewind s d of (r, d, s) \<Rightarrow> (r, set_dir p d s))) s"

subsection \<open>The file system as a whole\<close>

definition lfs_fs_stat :: "'d lfs \<Rightarrow> lfs_fsinfo \<Rightarrow> lfs_fsinfo result \<times> 'd lfs" where
  "lfs_fs_stat s fsinfo =
     locked (\<lambda>s. case lfs_fs_rawstat s fsinfo of (Inl h, _, s) \<Rightarrow> (Inl h, s) | (Inr _, fsinfo, s) \<Rightarrow> (Inr fsinfo, s)) s"

definition lfs_fs_size :: "'d lfs \<Rightarrow> lfs_size_t result \<times> 'd lfs" where
  "lfs_fs_size s = locked lfs_fs_rawsize s"

text \<open>The caller's callback sees only the block.\<close>

definition lfs_fs_traverse :: "'d lfs \<Rightarrow> ('c \<Rightarrow> lfs_block_t \<Rightarrow> unit result \<times> 'c) \<Rightarrow> 'c \<Rightarrow> 'c result \<times> 'd lfs" where
  "lfs_fs_traverse s cb data =
     locked (\<lambda>s. case lfs_fs_rawtraverse (\<lambda>s c block. case cb c block of (r, c) \<Rightarrow> (r, c, s)) s data True of
       (Inl h, c, s) \<Rightarrow> (Inl h, s) | (Inr _, c, s) \<Rightarrow> (Inr c, s)) s"

definition lfs_fs_grow :: "'d grow \<Rightarrow> 'd lfs \<Rightarrow> lfs_size_t \<Rightarrow> unit result \<times> 'd lfs" where
  "lfs_fs_grow grow s block_count = locked (\<lambda>s. lfs_fs_rawgrow grow s block_count) s"

end
