(* ===== verification/Vfs.thy ===== *)
theory Vfs
  imports Toplevel BlockDevice "HOL-Library.AList"
begin

text \<open>
  The file system as C++ programs use it: \<open>example/lfs_interface.h\<close>, \<open>example/lfs_interface.cpp\<close> and
  \<open>include/lfs_result.h\<close>. It puts a block device of \<open>include/lfs_block_device.h\<close> below littlefs, keeps
  the pages of an open file in a cache, and turns error numbers into the codes of its own interface.

  The functions of littlefs report an error as a number that this layer often ignores. \<open>attempt\<close> hands
  such a number to the code that follows the call; a failed assertion or undefined behaviour ends the
  program here as everywhere. A \<open>std::string\<close> is the list of its bytes.
\<close>

section \<open>Results and error codes\<close>

datatype ErrorCode =
    kSuccess | kFileNotFound | kFileExists | kNotDirectory | kIsDirectory | kDirectoryNotEmpty
  | kBadFileDescriptor | kFileTooLarge | kInvalidParameter | kNoSpaceOnDevice | kNoMemory
  | kNoAttribute | kNameTooLong | kCorrupted | kIoError | kUnknownError

text \<open>\<open>static_cast<int>\<close>: the constants are numbered in their order.\<close>

fun ErrorCode_int :: "ErrorCode \<Rightarrow> int" where
  "ErrorCode_int kSuccess = 0"
| "ErrorCode_int kFileNotFound = 1"
| "ErrorCode_int kFileExists = 2"
| "ErrorCode_int kNotDirectory = 3"
| "ErrorCode_int kIsDirectory = 4"
| "ErrorCode_int kDirectoryNotEmpty = 5"
| "ErrorCode_int kBadFileDescriptor = 6"
| "ErrorCode_int kFileTooLarge = 7"
| "ErrorCode_int kInvalidParameter = 8"
| "ErrorCode_int kNoSpaceOnDevice = 9"
| "ErrorCode_int kNoMemory = 10"
| "ErrorCode_int kNoAttribute = 11"
| "ErrorCode_int kNameTooLong = 12"
| "ErrorCode_int kCorrupted = 13"
| "ErrorCode_int kIoError = 14"
| "ErrorCode_int kUnknownError = 15"

definition kErrorStrings :: "string list" where
  "kErrorStrings =
     [''Success'', ''File not found'', ''File exists'', ''Not a directory'', ''Is a directory'',
      ''Directory not empty'', ''Bad file descriptor'', ''File too large'', ''Invalid parameter'',
      ''No space on device'', ''Out of memory'', ''No attribute'', ''File name too long'',
      ''Corrupted filesystem'', ''I/O error'', ''Unknown error'']"

definition errorToString :: "ErrorCode \<Rightarrow> string" where
  "errorToString err =
     (let idx = nat (ErrorCode_int err)
      in if idx < length kErrorStrings then kErrorStrings ! idx else ''Unknown error'')"

text \<open>
  The class \<open>Result\<close>: a value or an error code behind a flag. Taking the value of an error, or the
  code of a value, reads the union through the wrong member. A \<open>Result<void>\<close> has no value and keeps
  the code 0 for success.
\<close>

datatype 'a Result = Value 'a | Error ErrorCode

fun has_value :: "'a Result \<Rightarrow> bool" where
  "has_value (Value x) = True"
| "has_value (Error e) = False"

fun Result_value :: "'a Result \<Rightarrow> 'a result" where
  "Result_value (Value x) = Inr x"
| "Result_value (Error e) = Inl Undefined_behaviour"

fun Result_error :: "'a Result \<Rightarrow> ErrorCode result" where
  "Result_error (Value x) = Inl Undefined_behaviour"
| "Result_error (Error e) = Inr e"

fun Result_void_error :: "unit Result \<Rightarrow> ErrorCode" where
  "Result_void_error (Value _) = kSuccess"
| "Result_void_error (Error e) = e"

datatype LegacyErrorCode =
    kCodeOK | kCodeFileNotFound | kCodeObjectNotCompatible | kCodeBadDevice | kCodeNoDeviceSpace | kCodeUnknownError

subsection \<open>The table of error codes\<close>

record ErrorMapEntry =
  lfs_err :: int
  modern_err :: ErrorCode
  legacy_err :: LegacyErrorCode

abbreviation (input) LFS_ERR_OK :: int where "LFS_ERR_OK \<equiv> 0"

definition kErrorMap :: "ErrorMapEntry list" where
  "kErrorMap =
     [\<lparr>lfs_err = LFS_ERR_OK, modern_err = kSuccess, legacy_err = kCodeOK\<rparr>,
      \<lparr>lfs_err = lfs_error_code LFS_ERR_NOENT, modern_err = kFileNotFound, legacy_err = kCodeFileNotFound\<rparr>,
      \<lparr>lfs_err = lfs_error_code LFS_ERR_EXIST, modern_err = kFileExists, legacy_err = kCodeUnknownError\<rparr>,
      \<lparr>lfs_err = lfs_error_code LFS_ERR_NOTDIR, modern_err = kNotDirectory, legacy_err = kCodeObjectNotCompatible\<rparr>,
      \<lparr>lfs_err = lfs_error_code LFS_ERR_ISDIR, modern_err = kIsDirectory, legacy_err = kCodeObjectNotCompatible\<rparr>,
      \<lparr>lfs_err = lfs_error_code LFS_ERR_NOTEMPTY, modern_err = kDirectoryNotEmpty, legacy_err = kCodeUnknownError\<rparr>,
      \<lparr>lfs_err = lfs_error_code LFS_ERR_BADF, modern_err = kBadFileDescriptor, legacy_err = kCodeBadDevice\<rparr>,
      \<lparr>lfs_err = lfs_error_code LFS_ERR_FBIG, modern_err = kFileTooLarge, legacy_err = kCodeNoDeviceSpace\<rparr>,
      \<lparr>lfs_err = lfs_error_code LFS_ERR_INVAL, modern_err = kInvalidParameter, legacy_err = kCodeObjectNotCompatible\<rparr>,
      \<lparr>lfs_err = lfs_error_code LFS_ERR_NOSPC, modern_err = kNoSpaceOnDevice, legacy_err = kCodeNoDeviceSpace\<rparr>,
      \<lparr>lfs_err = lfs_error_code LFS_ERR_NOMEM, modern_err = kNoMemory, legacy_err = kCodeUnknownError\<rparr>,
      \<lparr>lfs_err = lfs_error_code LFS_ERR_NOATTR, modern_err = kNoAttribute, legacy_err = kCodeUnknownError\<rparr>,
      \<lparr>lfs_err = lfs_error_code LFS_ERR_NAMETOOLONG, modern_err = kNameTooLong, legacy_err = kCodeUnknownError\<rparr>,
      \<lparr>lfs_err = lfs_error_code LFS_ERR_CORRUPT, modern_err = kCorrupted, legacy_err = kCodeBadDevice\<rparr>,
      \<lparr>lfs_err = lfs_error_code LFS_ERR_IO, modern_err = kIoError, legacy_err = kCodeBadDevice\<rparr>]"

definition lfsToErrorCode :: "int \<Rightarrow> ErrorCode" where
  "lfsToErrorCode err =
     (case find (\<lambda>entry. lfs_err entry = err) kErrorMap of Some entry \<Rightarrow> modern_err entry | None \<Rightarrow> kUnknownError)"

definition lfsToLegacyErrorCode :: "int \<Rightarrow> LegacyErrorCode" where
  "lfsToLegacyErrorCode err =
     (case find (\<lambda>entry. lfs_err entry = err) kErrorMap of Some entry \<Rightarrow> legacy_err entry | None \<Rightarrow> kCodeUnknownError)"

subsection \<open>Calls whose error is looked at, or not\<close>

definition attempt :: "'a result \<times> 's \<Rightarrow> (lfs_error + 'a \<Rightarrow> 's \<Rightarrow> 'b result \<times> 's) \<Rightarrow> 'b result \<times> 's" where
  "attempt m f =
     (case m of
        (Inr x, s) \<Rightarrow> f (Inr x) s
      | (Inl h, s) \<Rightarrow> (case h of Err e \<Rightarrow> f (Inl e) s | _ \<Rightarrow> (Inl h, s)))"

text \<open>The error number a call gave, 0 when it succeeded, and the \<open>Result\<close> made of it.\<close>

definition err_of :: "lfs_error + 'a \<Rightarrow> int" where
  "err_of r = (case r of Inl e \<Rightarrow> lfs_error_code e | Inr _ \<Rightarrow> LFS_ERR_OK)"

definition to_Result :: "lfs_error + 'a \<Rightarrow> 'a Result" where
  "to_Result r = (case r of Inl e \<Rightarrow> Error (lfsToErrorCode (lfs_error_code e)) | Inr x \<Rightarrow> Value x)"

section \<open>The context: device and mutex\<close>

text \<open>
  \<open>VFSContext\<close>: the device below the file system, how often the recursive mutex is held, and the mark
  that the device is being extended. It is what \<open>cfg->context\<close> points to.
\<close>

record 'd VFSContext =
  vc_block_device :: 'd
  vc_mutex :: nat
  vc_on_grow :: bool

type_synonym 'd vfs = "'d VFSContext lfs"

definition lfs_bd_cb_read :: "'d IBlockDevice \<Rightarrow> 'd VFSContext \<Rightarrow> lfs_block_t \<Rightarrow> lfs_off_t \<Rightarrow> u8 list \<Rightarrow> unit result \<times> u8 list \<times> 'd VFSContext" where
  "lfs_bd_cb_read ops ctx block off buffer =
     (case bd_read ops (vc_block_device ctx) block off buffer of (r, buffer, d) \<Rightarrow> (r, buffer, ctx\<lparr>vc_block_device := d\<rparr>))"

definition lfs_bd_cb_prog :: "'d IBlockDevice \<Rightarrow> 'd VFSContext \<Rightarrow> lfs_block_t \<Rightarrow> lfs_off_t \<Rightarrow> u8 list \<Rightarrow> unit result \<times> 'd VFSContext" where
  "lfs_bd_cb_prog ops ctx block off buffer =
     (case bd_write ops (vc_block_device ctx) block off buffer of (r, d) \<Rightarrow> (r, ctx\<lparr>vc_block_device := d\<rparr>))"

definition lfs_bd_cb_erase :: "'d IBlockDevice \<Rightarrow> 'd VFSContext \<Rightarrow> lfs_block_t \<Rightarrow> unit result \<times> 'd VFSContext" where
  "lfs_bd_cb_erase ops ctx block =
     (case bd_erase ops (vc_block_device ctx) block of (r, d) \<Rightarrow> (r, ctx\<lparr>vc_block_device := d\<rparr>))"

definition lfs_bd_cb_sync :: "'d IBlockDevice \<Rightarrow> 'd VFSContext \<Rightarrow> unit result \<times> 'd VFSContext" where
  "lfs_bd_cb_sync ops ctx =
     (case bd_sync ops (vc_block_device ctx) of (r, d) \<Rightarrow> (r, ctx\<lparr>vc_block_device := d\<rparr>))"

definition lfs_bd_cb_lock :: "'d VFSContext \<Rightarrow> unit result \<times> 'd VFSContext" where
  "lfs_bd_cb_lock ctx = (Inr (), ctx\<lparr>vc_mutex := vc_mutex ctx + 1\<rparr>)"

definition lfs_bd_cb_unlock :: "'d VFSContext \<Rightarrow> unit result \<times> 'd VFSContext" where
  "lfs_bd_cb_unlock ctx = (Inr (), ctx\<lparr>vc_mutex := vc_mutex ctx - 1\<rparr>)"

text \<open>
  \<open>lfs_bd_cb_alloc\<close> extends the device and the file system on it. Extending the file system can come
  back here; the mark \<open>on_grow\<close> turns that call away, so that a depth of two is enough.
\<close>

primrec lfs_bd_cb_alloc :: "nat \<Rightarrow> 'd IBlockDevice \<Rightarrow> 'd vfs \<Rightarrow> unit result \<times> 'd vfs" where
  "lfs_bd_cb_alloc 0 ops s = (Inl Out_of_fuel, s)"
| "lfs_bd_cb_alloc (Suc depth) ops s =
     (if vc_on_grow (l_dev s) then (Inl (Err LFS_ERR_NOSPC), s)
      else
        let s = s\<lparr>l_dev := (l_dev s)\<lparr>vc_on_grow := True\<rparr>\<rparr>
        in case bd_allocate_block ops (vc_block_device (l_dev s)) of
             (r, d) \<Rightarrow>
               (let s = s\<lparr>l_dev := (l_dev s)\<lparr>vc_block_device := d\<rparr>\<rparr>
                in andthen
                     (if r = Inr ()
                      then attempt (lfs_fs_grow (Some (lfs_bd_cb_alloc depth ops)) s (bd_get_block_count ops d)) (\<lambda>_ s. (Inr (), s))
                      else (Inr (), s)) (\<lambda>_ s.
                   (r, s\<lparr>l_dev := (l_dev s)\<lparr>vc_on_grow := False\<rparr>\<rparr>))))"

definition vfs_grow :: "'d IBlockDevice \<Rightarrow> 'd VFSContext grow" where
  "vfs_grow ops = Some (lfs_bd_cb_alloc 2 ops)"

text \<open>\<open>std::lock_guard\<close> on the mutex of the context, for the rest of a function.\<close>

definition mutex_lock :: "'d vfs \<Rightarrow> 'd vfs" where
  "mutex_lock s = s\<lparr>l_dev := snd (lfs_bd_cb_lock (l_dev s))\<rparr>"

definition mutex_unlock :: "'d vfs \<Rightarrow> 'd vfs" where
  "mutex_unlock s = s\<lparr>l_dev := snd (lfs_bd_cb_unlock (l_dev s))\<rparr>"

definition lock_guard :: "('d vfs \<Rightarrow> 'a \<times> 'd vfs) \<Rightarrow> 'd vfs \<Rightarrow> 'a \<times> 'd vfs" where
  "lock_guard body s = (case body (mutex_lock s) of (r, s) \<Rightarrow> (r, mutex_unlock s))"

end
