(* ===== verification/VfsFile.thy ===== *)
theory VfsFile
  imports Vfs
begin

text \<open>
  Open files of \<open>example/lfs_interface.cpp\<close> (\<open>VFSFileObject\<close>) and the stream buffer over them
  (\<open>VFSStreamBuf\<close> of \<open>example/lfs_interface.h\<close>).

  A file object keeps pages of 4096 bytes in a table. A page is brought in when it is first written to
  and goes back to the file system when the object is flushed; reading takes a page from the table if it
  is there, and from the file system otherwise. The table is an association list with one entry per key;
  the code walks over its hash table only to collect keys that it then sorts, and to drop entries.

  An operation acts on the object and the file system together.
\<close>

abbreviation (input) PAGE_SIZE :: u64 where "PAGE_SIZE \<equiv> 4096"

record Page =
  pg_data :: "u8 list"
  pg_dirty :: bool

record VFSFileObject =
  vf_file_handle :: nat
  vf_path :: "u8 list"
  vf_pos :: u64
  vf_file_size :: u64
  vf_is_open :: bool
  vf_pages :: "(u64 \<times> Page) list"

definition VFSFileObject_new :: "nat \<Rightarrow> VFSFileObject" where
  "VFSFileObject_new p =
     \<lparr>vf_file_handle = p, vf_path = [], vf_pos = 0, vf_file_size = 0, vf_is_open = False, vf_pages = []\<rparr>"

text \<open>\<open>_pages[i]\<close> makes an empty page if there is none.\<close>

definition page_at :: "VFSFileObject \<Rightarrow> u64 \<Rightarrow> Page" where
  "page_at f i = (case map_of (vf_pages f) i of Some page \<Rightarrow> page | None \<Rightarrow> \<lparr>pg_data = [], pg_dirty = False\<rparr>)"

definition set_page :: "u64 \<Rightarrow> Page \<Rightarrow> VFSFileObject \<Rightarrow> VFSFileObject" where
  "set_page i page f = f\<lparr>vf_pages := AList.update i page (vf_pages f)\<rparr>"

text \<open>A call of littlefs beside the object.\<close>

definition beside :: "VFSFileObject \<Rightarrow> 'a result \<times> 'd vfs \<Rightarrow> 'a result \<times> VFSFileObject \<times> 'd vfs" where
  "beside f m = (case m of (r, s) \<Rightarrow> (r, f, s))"

definition file_guard :: "(VFSFileObject \<times> 'd vfs \<Rightarrow> 'a result \<times> VFSFileObject \<times> 'd vfs) \<Rightarrow> VFSFileObject \<times> 'd vfs \<Rightarrow> 'a result \<times> VFSFileObject \<times> 'd vfs" where
  "file_guard body = (\<lambda>(f, s). case body (f, mutex_lock s) of (r, f, s) \<Rightarrow> (r, f, mutex_unlock s))"

text \<open>A size as the signed number \<open>lfs_soff_t\<close> that \<open>lfs_file_size\<close> returns, 0 unless positive.\<close>

definition positive_size :: "lfs_error + lfs_off_t \<Rightarrow> u64" where
  "positive_size r = (case r of Inl e \<Rightarrow> 0 | Inr sz \<Rightarrow> if 0 \<le> sint sz then sz else 0)"

definition init_file_state :: "VFSFileObject \<times> 'd vfs \<Rightarrow> unit result \<times> VFSFileObject \<times> 'd vfs" where
  "init_file_state = (\<lambda>(f, s).
     attempt (beside (f\<lparr>vf_pos := 0\<rparr>) (lfs_file_size s (vf_file_handle f))) (\<lambda>sz (f, s).
       (Inr (), f\<lparr>vf_file_size := positive_size sz, vf_is_open := True\<rparr>, s)))"

subsection \<open>Pages\<close>

definition seek_and_read :: "'d IBlockDevice \<Rightarrow> VFSFileObject \<Rightarrow> 'd vfs \<Rightarrow> u64 \<Rightarrow> u8 list \<Rightarrow> lfs_size_t result \<times> u8 list \<times> 'd vfs" where
  "seek_and_read ops f s pos buffer =
     (case attempt (lfs_file_seek (vfs_grow ops) s (vf_file_handle f) pos LFS_SEEK_SET) (\<lambda>_ s. (Inr (), s)) of
        (Inl h, s) \<Rightarrow> (Inl h, buffer, s)
      | (Inr _, s) \<Rightarrow> lfs_file_read (vfs_grow ops) s (vf_file_handle f) buffer)"

text \<open>The content of a page that is brought in: what the file has of it, then zeros.\<close>

definition load_page :: "'d IBlockDevice \<Rightarrow> u64 \<Rightarrow> VFSFileObject \<times> 'd vfs \<Rightarrow> u8 list result \<times> VFSFileObject \<times> 'd vfs" where
  "load_page ops page_idx = (\<lambda>(f, s).
     let data = vector_resize (unat PAGE_SIZE) 0 []; page_start = page_idx * PAGE_SIZE
     in attempt (beside f (lfs_file_size s (vf_file_handle f))) (\<lambda>sz (f, s).
          let disk_sz = positive_size sz
          in if page_start < disk_sz
             then let to_read = min PAGE_SIZE (disk_sz - page_start)
                  in case seek_and_read ops f s page_start (take (unat to_read) data) of
                       (r, bytes, s) \<Rightarrow> attempt (r, f, s) (\<lambda>_ (f, s). (mem_put data 0 bytes, f, s))
             else (Inr data, f, s)))"

definition load_page_if_needed :: "'d IBlockDevice \<Rightarrow> u64 \<Rightarrow> VFSFileObject \<times> 'd vfs \<Rightarrow> unit result \<times> VFSFileObject \<times> 'd vfs" where
  "load_page_if_needed ops page_idx = (\<lambda>(f, s).
     let f = set_page page_idx (page_at f page_idx) f
     in if pg_data (page_at f page_idx) = []
        then andthen (load_page ops page_idx (f, s)) (\<lambda>data (f, s).
               (Inr (), set_page page_idx ((page_at f page_idx)\<lparr>pg_data := data\<rparr>) f, s))
        else (Inr (), f, s))"

definition dirty_pages :: "VFSFileObject \<Rightarrow> u64 list" where
  "dirty_pages f = sort (map fst (filter (\<lambda>kv. pg_dirty (snd kv)) (vf_pages f)))"

definition flush_page :: "'d IBlockDevice \<Rightarrow> u64 \<Rightarrow> VFSFileObject \<times> 'd vfs \<Rightarrow> unit result \<times> VFSFileObject \<times> 'd vfs" where
  "flush_page ops p_idx = (\<lambda>(f, s).
     let page_start = p_idx * PAGE_SIZE; p = vf_file_handle f
     in andthen
          (if page_start < vf_file_size f
           then let to_write = min PAGE_SIZE (vf_file_size f - page_start)
                in attempt (beside f (lfs_file_seek (vfs_grow ops) s p page_start LFS_SEEK_SET)) (\<lambda>_ (f, s).
                     case mem_get (pg_data (page_at f p_idx)) 0 (unat to_write) of
                       Inl h \<Rightarrow> (Inl h, f, s)
                     | Inr bytes \<Rightarrow> attempt (beside f (lfs_file_write (vfs_grow ops) s p bytes)) (\<lambda>_ (f, s). (Inr (), f, s)))
           else (Inr (), f, s)) (\<lambda>_ (f, s).
        (Inr (), set_page p_idx ((page_at f p_idx)\<lparr>pg_dirty := False\<rparr>) f, s)))"

fun flush_pages :: "'d IBlockDevice \<Rightarrow> u64 list \<Rightarrow> VFSFileObject \<times> 'd vfs \<Rightarrow> unit result \<times> VFSFileObject \<times> 'd vfs" where
  "flush_pages ops [] fs = (Inr (), fs)"
| "flush_pages ops (i # is) fs = andthen (flush_page ops i fs) (\<lambda>_. flush_pages ops is)"

definition flush_internal :: "'d IBlockDevice \<Rightarrow> VFSFileObject \<times> 'd vfs \<Rightarrow> unit result \<times> VFSFileObject \<times> 'd vfs" where
  "flush_internal ops = (\<lambda>(f, s).
     if \<not> vf_is_open f then (Inr (), f, s)
     else andthen (flush_pages ops (dirty_pages f) (f, s)) (\<lambda>_ (f, s).
            attempt (beside f (lfs_file_sync (vfs_grow ops) s (vf_file_handle f))) (\<lambda>_ (f, s). (Inr (), f, s))))"

subsection \<open>The operations\<close>

definition VFSFileObject_close :: "'d IBlockDevice \<Rightarrow> VFSFileObject \<times> 'd vfs \<Rightarrow> unit result \<times> VFSFileObject \<times> 'd vfs" where
  "VFSFileObject_close ops = (\<lambda>(f, s).
     if vf_is_open f
     then file_guard (\<lambda>fs. andthen (flush_internal ops fs) (\<lambda>_ (f, s).
            attempt (beside f (lfs_file_close (vfs_grow ops) s (vf_file_handle f))) (\<lambda>_ (f, s).
              (Inr (), f\<lparr>vf_is_open := False\<rparr>, s)))) (f, s)
     else (Inr (), f, s))"

text \<open>
  One round of the loop of \<open>read\<close>: from a page, or from littlefs, where an error ends the loop but the
  number of bytes that were read does not matter. \<open>None\<close> stands for the \<open>break\<close>.
\<close>

definition read_chunk :: "'d IBlockDevice \<Rightarrow> VFSFileObject \<Rightarrow> 'd vfs \<Rightarrow> u64 \<Rightarrow> u8 list \<Rightarrow> (lfs_error + unit) result \<times> u8 list \<times> 'd vfs" where
  "read_chunk ops f s curr_pos dst =
     (let page = page_at f (curr_pos div PAGE_SIZE)
      in if pg_data page \<noteq> []
         then case mem_get (pg_data page) (unat (curr_pos mod PAGE_SIZE)) (length dst) of
                Inl h \<Rightarrow> (Inl h, dst, s)
              | Inr bytes \<Rightarrow> (Inr (Inr ()), bytes, s)
         else case seek_and_read ops f s curr_pos dst of
                (Inl (Err e), dst, s) \<Rightarrow> (Inr (Inl e), dst, s)
              | (Inl h, dst, s) \<Rightarrow> (Inl h, dst, s)
              | (Inr _, dst, s) \<Rightarrow> (Inr (Inr ()), dst, s))"

fun read_loop :: "nat \<Rightarrow> 'd IBlockDevice \<Rightarrow> VFSFileObject \<Rightarrow> 'd vfs \<Rightarrow> u64 \<Rightarrow> u64 \<Rightarrow> u8 list \<Rightarrow> (lfs_error + u64) result \<times> u8 list \<times> 'd vfs" where
  "read_loop 0 ops f s bytes_to_read bytes_read dst = (Inl Out_of_fuel, dst, s)"
| "read_loop (Suc fuel) ops f s bytes_to_read bytes_read dst =
     (if \<not> bytes_read < bytes_to_read then (Inr (Inr bytes_read), dst, s)
      else
        let curr_pos = vf_pos f + bytes_read;
            chunk = min (bytes_to_read - bytes_read) (PAGE_SIZE - curr_pos mod PAGE_SIZE)
        in case mem_get dst (unat bytes_read) (unat chunk) of
             Inl h \<Rightarrow> (Inl h, dst, s)
           | Inr part \<Rightarrow>
               (case read_chunk ops f s curr_pos part of
                  (Inl h, part, s) \<Rightarrow> (Inl h, blit (unat bytes_read) part dst, s)
                | (Inr (Inl e), part, s) \<Rightarrow>
                    (Inr (if 0 < bytes_read then Inr bytes_read else Inl e), blit (unat bytes_read) part dst, s)
                | (Inr (Inr _), part, s) \<Rightarrow>
                    read_loop fuel ops f s bytes_to_read (bytes_read + chunk) (blit (unat bytes_read) part dst)))"

definition VFSFileObject_read :: "'d IBlockDevice \<Rightarrow> u8 list \<Rightarrow> VFSFileObject \<times> 'd vfs \<Rightarrow> ((lfs_error + u64) \<times> u8 list) result \<times> VFSFileObject \<times> 'd vfs" where
  "VFSFileObject_read ops data = (\<lambda>(f, s).
     if \<not> vf_is_open f \<or> data = [] then (Inr (Inr 0, data), f, s)
     else file_guard (\<lambda>(f, s).
            if vf_file_size f \<le> vf_pos f then (Inr (Inr 0, data), f, s)
            else let bytes_to_read = min (of_nat (length data)) (vf_file_size f - vf_pos f)
                 in case read_loop (Suc (unat bytes_to_read)) ops f s bytes_to_read 0 data of
                      (Inl h, data, s) \<Rightarrow> (Inl h, f, s)
                    | (Inr (Inl e), data, s) \<Rightarrow> (Inr (Inl e, data), f, s)
                    | (Inr (Inr bytes_read), data, s) \<Rightarrow>
                        (Inr (Inr bytes_read, data), f\<lparr>vf_pos := vf_pos f + bytes_read\<rparr>, s)) (f, s))"

fun write_loop :: "nat \<Rightarrow> 'd IBlockDevice \<Rightarrow> u8 list \<Rightarrow> u64 \<Rightarrow> VFSFileObject \<times> 'd vfs \<Rightarrow> u64 result \<times> VFSFileObject \<times> 'd vfs" where
  "write_loop 0 ops src bytes_written fs = (Inl Out_of_fuel, fs)"
| "write_loop (Suc fuel) ops src bytes_written (f, s) =
     (if \<not> bytes_written < of_nat (length src) then (Inr bytes_written, f, s)
      else
        let curr_pos = vf_pos f + bytes_written;
            page_idx = curr_pos div PAGE_SIZE; page_off = curr_pos mod PAGE_SIZE;
            chunk = min (of_nat (length src) - bytes_written) (PAGE_SIZE - page_off)
        in andthen (load_page_if_needed ops page_idx (f, s)) (\<lambda>_ (f, s).
             case mem_put (pg_data (page_at f page_idx)) (unat page_off) (take (unat chunk) (drop (unat bytes_written) src)) of
               Inl h \<Rightarrow> (Inl h, f, s)
             | Inr data \<Rightarrow>
                 (let f = set_page page_idx \<lparr>pg_data = data, pg_dirty = True\<rparr> f;
                      f = (if vf_file_size f < curr_pos + chunk then f\<lparr>vf_file_size := curr_pos + chunk\<rparr> else f)
                  in write_loop fuel ops src (bytes_written + chunk) (f, s))))"

definition VFSFileObject_write :: "'d IBlockDevice \<Rightarrow> u8 list \<Rightarrow> VFSFileObject \<times> 'd vfs \<Rightarrow> u64 result \<times> VFSFileObject \<times> 'd vfs" where
  "VFSFileObject_write ops data = (\<lambda>(f, s).
     if \<not> vf_is_open f \<or> data = [] then (Inr 0, f, s)
     else file_guard (\<lambda>fs. andthen (write_loop (Suc (length data)) ops data 0 fs) (\<lambda>bytes_written (f, s).
            (Inr bytes_written, f\<lparr>vf_pos := vf_pos f + bytes_written\<rparr>, s))) (f, s))"

definition VFSFileObject_truncate :: "'d IBlockDevice \<Rightarrow> u64 \<Rightarrow> VFSFileObject \<times> 'd vfs \<Rightarrow> unit result \<times> VFSFileObject \<times> 'd vfs" where
  "VFSFileObject_truncate ops sz = (\<lambda>(f, s).
     if \<not> vf_is_open f then (Inl (Err LFS_ERR_BADF), f, s)
     else file_guard (\<lambda>fs. andthen (flush_internal ops fs) (\<lambda>_ (f, s).
            andthen (beside f (lfs_file_truncate (vfs_grow ops) s (vf_file_handle f) sz)) (\<lambda>_ (f, s).
              let max_page = (sz + PAGE_SIZE - 1) div PAGE_SIZE
              in (Inr (), f\<lparr>vf_file_size := sz, vf_pos := min (vf_pos f) sz,
                           vf_pages := filter (\<lambda>kv. \<not> max_page \<le> fst kv) (vf_pages f)\<rparr>, s)))) (f, s))"

datatype SeekType = kSeekSet | kSeekCur | kSeekEnd

text \<open>The positions are added as signed numbers; a sum outside their range is undefined.\<close>

definition signed_add :: "u64 \<Rightarrow> u64 \<Rightarrow> int result" where
  "signed_add x y =
     (let sum = sint x + sint y
      in if - (2 ^ 63) \<le> sum \<and> sum < 2 ^ 63 then Inr sum else Inl Undefined_behaviour)"

definition VFSFileObject_seek :: "u64 \<Rightarrow> SeekType \<Rightarrow> VFSFileObject \<times> 'd vfs \<Rightarrow> u64 result \<times> VFSFileObject \<times> 'd vfs" where
  "VFSFileObject_seek offset type = (\<lambda>(f, s).
     if \<not> vf_is_open f then (Inl (Err LFS_ERR_BADF), f, s)
     else file_guard (\<lambda>(f, s).
            case (case type of kSeekSet \<Rightarrow> Inr (sint offset)
                  | kSeekCur \<Rightarrow> signed_add (vf_pos f) offset
                  | kSeekEnd \<Rightarrow> signed_add (vf_file_size f) offset) of
              Inl h \<Rightarrow> (Inl h, f, s)
            | Inr new_pos \<Rightarrow>
                (if new_pos < 0 then (Inl (Err LFS_ERR_INVAL), f, s)
                 else (Inr (word_of_int new_pos), f\<lparr>vf_pos := word_of_int new_pos\<rparr>, s))) (f, s))"

definition VFSFileObject_tell :: "VFSFileObject \<times> 'd vfs \<Rightarrow> u64 result \<times> VFSFileObject \<times> 'd vfs" where
  "VFSFileObject_tell = (\<lambda>(f, s).
     if \<not> vf_is_open f then (Inl (Err LFS_ERR_BADF), f, s) else file_guard (\<lambda>(f, s). (Inr (vf_pos f), f, s)) (f, s))"

definition VFSFileObject_size :: "VFSFileObject \<times> 'd vfs \<Rightarrow> u64 result \<times> VFSFileObject \<times> 'd vfs" where
  "VFSFileObject_size = (\<lambda>(f, s).
     if \<not> vf_is_open f then (Inl (Err LFS_ERR_BADF), f, s) else file_guard (\<lambda>(f, s). (Inr (vf_file_size f), f, s)) (f, s))"

definition VFSFileObject_flush :: "'d IBlockDevice \<Rightarrow> VFSFileObject \<times> 'd vfs \<Rightarrow> unit result \<times> VFSFileObject \<times> 'd vfs" where
  "VFSFileObject_flush ops = (\<lambda>(f, s).
     if vf_is_open f then file_guard (flush_internal ops) (f, s) else (Inr (), f, s))"

section \<open>Streams\<close>

text \<open>
  \<open>VFSStreamBuf\<close> over a file object, none if its pointer is null. The read and the write area share one
  buffer, both begin at its first byte, and the write area ends at its last: \<open>sb_gptr\<close>, \<open>sb_egptr\<close> and
  \<open>sb_pptr\<close> are the distances of the pointers from there. \<open>sputc\<close> and \<open>sbumpc\<close> are those of
  \<open>std::streambuf\<close>; end of file is the number -1.
\<close>

record VFSStreamBuf =
  sb_file :: "VFSFileObject option"
  sb_buffer :: "u8 list"
  sb_gptr :: nat
  sb_egptr :: nat
  sb_pptr :: nat

abbreviation (input) stream_eof :: int where "stream_eof \<equiv> - 1"

definition VFSStreamBuf_new :: "VFSFileObject option \<Rightarrow> nat \<Rightarrow> VFSStreamBuf" where
  "VFSStreamBuf_new file buffer_size =
     \<lparr>sb_file = file, sb_buffer = replicate buffer_size 0, sb_gptr = 0, sb_egptr = 0, sb_pptr = 0\<rparr>"

text \<open>A call on the file object of a stream that has one.\<close>

definition on_file :: "VFSStreamBuf \<Rightarrow> 'd vfs \<Rightarrow> VFSFileObject \<Rightarrow> (VFSFileObject \<times> 'd vfs \<Rightarrow> 'a result \<times> VFSFileObject \<times> 'd vfs) \<Rightarrow> 'a result \<times> VFSStreamBuf \<times> 'd vfs" where
  "on_file sb s f call = (case call (f, s) of (r, f, s) \<Rightarrow> (r, sb\<lparr>sb_file := Some f\<rparr>, s))"

definition VFSStreamBuf_underflow :: "'d IBlockDevice \<Rightarrow> VFSStreamBuf \<times> 'd vfs \<Rightarrow> int result \<times> VFSStreamBuf \<times> 'd vfs" where
  "VFSStreamBuf_underflow ops = (\<lambda>(sb, s).
     case sb_file sb of
       None \<Rightarrow> (Inr stream_eof, sb, s)
     | Some f \<Rightarrow>
         andthen (on_file sb s f (VFSFileObject_read ops (sb_buffer sb))) (\<lambda>(r, buffer) (sb, s).
           let sb = sb\<lparr>sb_buffer := buffer\<rparr>
           in case r of
                Inl e \<Rightarrow> (Inr stream_eof, sb, s)
              | Inr bytes_read \<Rightarrow>
                  if sint bytes_read \<le> 0 then (Inr stream_eof, sb, s)
                  else (Inr (uint (sb_buffer sb ! 0)), sb\<lparr>sb_gptr := 0, sb_egptr := unat bytes_read\<rparr>, s)))"

definition VFSStreamBuf_sync :: "'d IBlockDevice \<Rightarrow> VFSStreamBuf \<times> 'd vfs \<Rightarrow> int result \<times> VFSStreamBuf \<times> 'd vfs" where
  "VFSStreamBuf_sync ops = (\<lambda>(sb, s).
     case sb_file sb of
       None \<Rightarrow> (Inr 0, sb, s)
     | Some f \<Rightarrow>
         andthen
           (if 0 < sb_pptr sb
            then attempt (on_file sb s f (VFSFileObject_write ops (take (sb_pptr sb) (sb_buffer sb)))) (\<lambda>r (sb, s).
                   if r = Inr (of_nat (sb_pptr sb)) then (Inr 0, sb\<lparr>sb_pptr := 0\<rparr>, s) else (Inr (- 1), sb, s))
            else (Inr 0, sb, s)) (\<lambda>r (sb, s).
         if r \<noteq> 0 then (Inr r, sb, s)
         else case sb_file sb of
                None \<Rightarrow> (Inr 0, sb, s)
              | Some f \<Rightarrow> andthen (on_file sb s f (VFSFileObject_flush ops)) (\<lambda>_ (sb, s). (Inr 0, sb, s))))"

definition VFSStreamBuf_overflow :: "'d IBlockDevice \<Rightarrow> int \<Rightarrow> VFSStreamBuf \<times> 'd vfs \<Rightarrow> int result \<times> VFSStreamBuf \<times> 'd vfs" where
  "VFSStreamBuf_overflow ops ch = (\<lambda>(sb, s).
     case sb_file sb of
       None \<Rightarrow> (Inr stream_eof, sb, s)
     | Some _ \<Rightarrow>
         andthen (VFSStreamBuf_sync ops (sb, s)) (\<lambda>r (sb, s).
           if r \<noteq> 0 then (Inr stream_eof, sb, s)
           else if ch = stream_eof then (Inr ch, sb, s)
           else case sb_file sb of
             None \<Rightarrow> (Inr stream_eof, sb, s)
           | Some f \<Rightarrow>
               attempt (on_file sb s f (VFSFileObject_write ops [word_of_int ch])) (\<lambda>r (sb, s).
                 (Inr (if r = Inr 1 then ch else stream_eof), sb, s))))"

definition VFSStreamBuf_sputc :: "'d IBlockDevice \<Rightarrow> u8 \<Rightarrow> VFSStreamBuf \<times> 'd vfs \<Rightarrow> int result \<times> VFSStreamBuf \<times> 'd vfs" where
  "VFSStreamBuf_sputc ops c = (\<lambda>(sb, s).
     if sb_pptr sb < length (sb_buffer sb)
     then (Inr (uint c), sb\<lparr>sb_buffer := (sb_buffer sb)[sb_pptr sb := c], sb_pptr := sb_pptr sb + 1\<rparr>, s)
     else VFSStreamBuf_overflow ops (uint c) (sb, s))"

definition VFSStreamBuf_sbumpc :: "'d IBlockDevice \<Rightarrow> VFSStreamBuf \<times> 'd vfs \<Rightarrow> int result \<times> VFSStreamBuf \<times> 'd vfs" where
  "VFSStreamBuf_sbumpc ops = (\<lambda>(sb, s).
     if sb_gptr sb < sb_egptr sb
     then (Inr (uint (sb_buffer sb ! sb_gptr sb)), sb\<lparr>sb_gptr := sb_gptr sb + 1\<rparr>, s)
     else andthen (VFSStreamBuf_underflow ops (sb, s)) (\<lambda>r (sb, s).
            (Inr r, if r = stream_eof then sb else sb\<lparr>sb_gptr := sb_gptr sb + 1\<rparr>, s)))"

text \<open>\<open>sputn\<close>, which output streams call, puts characters until one is refused and gives their number.\<close>

fun VFSStreamBuf_sputn :: "'d IBlockDevice \<Rightarrow> u8 list \<Rightarrow> VFSStreamBuf \<times> 'd vfs \<Rightarrow> nat result \<times> VFSStreamBuf \<times> 'd vfs" where
  "VFSStreamBuf_sputn ops [] fs = (Inr 0, fs)"
| "VFSStreamBuf_sputn ops (c # cs) fs =
     andthen (VFSStreamBuf_sputc ops c fs) (\<lambda>r fs.
       if r = stream_eof then (Inr 0, fs)
       else andthen (VFSStreamBuf_sputn ops cs fs) (\<lambda>n fs. (Inr (Suc n), fs)))"

definition VFSStreamBuf_destroy :: "'d IBlockDevice \<Rightarrow> VFSStreamBuf \<times> 'd vfs \<Rightarrow> unit result \<times> VFSStreamBuf \<times> 'd vfs" where
  "VFSStreamBuf_destroy ops fs = andthen (VFSStreamBuf_sync ops fs) (\<lambda>_ fs. (Inr (), fs))"

text \<open>\<open>FileHandle\<close> closes the file it owns when it goes away.\<close>

definition FileHandle_destroy :: "'d IBlockDevice \<Rightarrow> VFSFileObject option \<Rightarrow> 'd vfs \<Rightarrow> unit result \<times> VFSFileObject option \<times> 'd vfs" where
  "FileHandle_destroy ops file s =
     (case file of
        None \<Rightarrow> (Inr (), None, s)
      | Some f \<Rightarrow> (case VFSFileObject_close ops (f, s) of (r, f, s) \<Rightarrow> (r, Some f, s)))"

end
