(* ===== verification/VfsSystem.thy ===== *)
theory VfsSystem
  imports VfsFile
begin

text \<open>
  The file system object \<open>lfsVFS\<close> of \<open>example/lfs_interface.cpp\<close>, the functions that make one, and the
  builder of \<open>example/lfs_interface.h\<close>. Where the code has a local or a new object whose address littlefs
  keeps (a directory handle, the handle inside a file object), the address is an argument.

  The walk over a directory in \<open>listDir\<close> has a bound: a pair of blocks holds fewer than 1024 entries, so a
  walk that is longer has come back to a pair, and the code never leaves the loop.
\<close>

datatype Entry = FileEntry "u8 list" u64 | DirectoryEntry "u8 list" u64

text \<open>\<open>std::string(const char*)\<close>, and the string a C function sees of a \<open>std::string\<close>.\<close>

definition c_str :: "u8 list \<Rightarrow> u8 list" where
  "c_str bs = takeWhile (\<lambda>b. b \<noteq> 0) bs"

definition lfsVFS_destroy :: "'d vfs \<Rightarrow> unit result \<times> 'd vfs" where
  "lfsVFS_destroy s = lock_guard (\<lambda>s. attempt (lfs_unmount s) (\<lambda>_ s. (Inr (), s))) s"

subsection \<open>Directories\<close>

definition listed :: "lfs_info \<Rightarrow> Entry list" where
  "listed info =
     (let name = c_str (i_name info)
      in if name = [46] \<or> name = [46, 46] then []
         else if ucast (i_type info) = LFS_TYPE_REG then [FileEntry name (i_size info)]
         else if ucast (i_type info) = LFS_TYPE_DIR then [DirectoryEntry name (i_size info)]
         else [])"

fun listDir_loop :: "nat \<Rightarrow> nat \<Rightarrow> Entry list \<Rightarrow> 'd vfs \<Rightarrow> Entry list result \<times> 'd vfs" where
  "listDir_loop 0 p entries s = (Inl Out_of_fuel, s)"
| "listDir_loop (Suc fuel) p entries s =
     attempt (lfs_dir_read s p) (\<lambda>r s.
       case r of
         Inl e \<Rightarrow> (Inr entries, s)
       | Inr info \<Rightarrow> listDir_loop fuel p (entries @ listed info) s)"

definition lfsVFS_listDir :: "nat \<Rightarrow> lfs_dir \<Rightarrow> u8 list \<Rightarrow> 'd vfs \<Rightarrow> Entry list Result result \<times> 'd vfs" where
  "lfsVFS_listDir p dir_handle path = lock_guard (\<lambda>s.
     attempt (lfs_dir_open s p dir_handle (c_str path)) (\<lambda>r s.
       case r of
         Inl e \<Rightarrow> (Inr (Error (lfsToErrorCode (lfs_error_code e))), s)
       | Inr _ \<Rightarrow>
           andthen (listDir_loop (unat (l_block_count s) * 1024 + 1027) p [] s) (\<lambda>entries s.
             attempt (lfs_dir_close s p) (\<lambda>_ s. (Inr (Value entries), s)))))"

definition lfsVFS_dir :: "nat \<Rightarrow> lfs_dir \<Rightarrow> u8 list \<Rightarrow> 'd vfs \<Rightarrow> Entry list result \<times> 'd vfs" where
  "lfsVFS_dir p dir_handle path s =
     andthen (lfsVFS_listDir p dir_handle path s) (\<lambda>res s. (if has_value res then Result_value res else Inr [], s))"

subsection \<open>Opening files\<close>

abbreviation (input) kFileRead :: u32 where "kFileRead \<equiv> 1"
abbreviation (input) kFileWrite :: u32 where "kFileWrite \<equiv> 2"
abbreviation (input) kFileCreateIfNotExists :: u32 where "kFileCreateIfNotExists \<equiv> 0x0100"
abbreviation (input) kFileCreateFailIfExists :: u32 where "kFileCreateFailIfExists \<equiv> 0x0200"
abbreviation (input) kFileTruncate :: u32 where "kFileTruncate \<equiv> 0x0400"
abbreviation (input) kFileAppend :: u32 where "kFileAppend \<equiv> 0x0800"

definition flag_if :: "u32 \<Rightarrow> u32 \<Rightarrow> u32 \<Rightarrow> u32" where
  "flag_if flags flag lfs_flag = (if flags AND flag \<noteq> 0 then lfs_flag else 0)"

definition open_flags :: "u32 \<Rightarrow> u32" where
  "open_flags flags =
     flag_if flags kFileRead LFS_O_RDONLY OR flag_if flags kFileWrite LFS_O_WRONLY OR
     flag_if flags kFileCreateIfNotExists LFS_O_CREAT OR flag_if flags kFileCreateFailIfExists LFS_O_EXCL OR
     flag_if flags kFileTruncate LFS_O_TRUNC OR flag_if flags kFileAppend LFS_O_APPEND"

text \<open>The directories above a path: what stands before each slash but one at the very beginning.\<close>

definition parent_paths :: "u8 list \<Rightarrow> u8 list list" where
  "parent_paths path =
     filter (\<lambda>parent. parent \<noteq> [] \<and> parent \<noteq> [46] \<and> parent \<noteq> [47])
       (map (\<lambda>slash_pos. take slash_pos path) (filter (\<lambda>i. path ! i = 47) [1..<length path]))"

fun create_parents :: "'d IBlockDevice \<Rightarrow> u8 list list \<Rightarrow> 'd vfs \<Rightarrow> unit result \<times> 'd vfs" where
  "create_parents ops [] s = (Inr (), s)"
| "create_parents ops (parent # rest) s =
     attempt (lfs_mkdir (vfs_grow ops) s (c_str parent)) (\<lambda>_ s. create_parents ops rest s)"

text \<open>\<open>_file_handle({})\<close>.\<close>

definition lfs_file_zero :: lfs_file where
  "lfs_file_zero =
     \<lparr>ml_id = 0, ml_type = 0, ml_metadata = mdir_zero, f_ctz = \<lparr>z_head = 0, z_size = 0\<rparr>, f_flags = 0, f_pos = 0,
      f_block = 0, f_offset = 0, f_cache = \<lparr>c_block = 0, c_offset = 0, c_size = 0, c_buffer = []\<rparr>,
      f_cfg = \<lparr>fc_buffer = None, fc_attrs = []\<rparr>\<rparr>"

definition lfsVFS_open :: "'d IBlockDevice \<Rightarrow> nat \<Rightarrow> u8 list \<Rightarrow> u32 \<Rightarrow> 'd vfs \<Rightarrow> VFSFileObject Result result \<times> 'd vfs" where
  "lfsVFS_open ops p path flags = lock_guard (\<lambda>s.
     let lfs_flags = open_flags flags;
         open_file = (\<lambda>s. lfs_file_open (vfs_grow ops) s p lfs_file_zero (c_str path) lfs_flags)
     in attempt
          (attempt (open_file s) (\<lambda>r s.
             if r = Inl LFS_ERR_NOENT \<and> flags AND kFileCreateIfNotExists \<noteq> 0
             then andthen (create_parents ops (parent_paths path) s) (\<lambda>_ s. open_file s)
             else (case r of Inl e \<Rightarrow> Inl (Err e) | Inr _ \<Rightarrow> Inr (), s))) (\<lambda>r s.
          case r of
            Inl e \<Rightarrow> (Inr (Error (lfsToErrorCode (lfs_error_code e))), s)
          | Inr _ \<Rightarrow>
              (case init_file_state (VFSFileObject_new p, s) of
                 (Inl h, file_obj, s) \<Rightarrow> (Inl h, s)
               | (Inr _, file_obj, s) \<Rightarrow> (Inr (Value (file_obj\<lparr>vf_path := path\<rparr>)), s))))"

text \<open>
  The functions with the old error codes put the number of an \<open>ErrorCode\<close> where \<open>lfsToLegacyErrorCode\<close>
  expects one of \<open>enum lfs_error\<close>.
\<close>

definition lfsVFS_openFile :: "'d IBlockDevice \<Rightarrow> nat \<Rightarrow> VFSFileObject option \<Rightarrow> u8 list \<Rightarrow> u32 \<Rightarrow> 'd vfs \<Rightarrow> (LegacyErrorCode \<times> VFSFileObject option) result \<times> 'd vfs" where
  "lfsVFS_openFile ops p handle path flags s =
     andthen (lfsVFS_open ops p path flags s) (\<lambda>res s.
       case res of
         Value file_obj \<Rightarrow> (Inr (kCodeOK, Some file_obj), s)
       | Error e \<Rightarrow> (Inr (lfsToLegacyErrorCode (ErrorCode_int e), handle), s))"

subsection \<open>Paths\<close>

definition lfsVFS_existsFile :: "u8 list \<Rightarrow> lfs_info \<Rightarrow> 'd vfs \<Rightarrow> LegacyErrorCode result \<times> 'd vfs" where
  "lfsVFS_existsFile path info = lock_guard (\<lambda>s.
     attempt (lfs_stat s (c_str path) info) (\<lambda>r s. (Inr (if err_of r = LFS_ERR_OK then kCodeOK else kCodeFileNotFound), s)))"

definition lfsVFS_remove :: "'d IBlockDevice \<Rightarrow> u8 list \<Rightarrow> 'd vfs \<Rightarrow> unit Result result \<times> 'd vfs" where
  "lfsVFS_remove ops path = lock_guard (\<lambda>s.
     attempt (lfs_remove (vfs_grow ops) s (c_str path)) (\<lambda>r s. (Inr (to_Result r), s)))"

definition lfsVFS_deleteFile :: "'d IBlockDevice \<Rightarrow> u8 list \<Rightarrow> 'd vfs \<Rightarrow> LegacyErrorCode result \<times> 'd vfs" where
  "lfsVFS_deleteFile ops path s =
     andthen (lfsVFS_remove ops path s) (\<lambda>res s.
       (Inr (if has_value res then kCodeOK else lfsToLegacyErrorCode (ErrorCode_int (Result_void_error res))), s))"

definition lfsVFS_deleteDirectory :: "'d IBlockDevice \<Rightarrow> u8 list \<Rightarrow> 'd vfs \<Rightarrow> LegacyErrorCode result \<times> 'd vfs" where
  "lfsVFS_deleteDirectory ops path s = lfsVFS_deleteFile ops path s"

definition lfsVFS_rename :: "'d IBlockDevice \<Rightarrow> u8 list \<Rightarrow> u8 list \<Rightarrow> 'd vfs \<Rightarrow> unit Result result \<times> 'd vfs" where
  "lfsVFS_rename ops oldpath newpath = lock_guard (\<lambda>s.
     attempt (lfs_rename (vfs_grow ops) s (c_str oldpath) (c_str newpath)) (\<lambda>r s. (Inr (to_Result r), s)))"

definition lfsVFS_statFs :: "lfs_fsinfo \<Rightarrow> 'd vfs \<Rightarrow> lfs_fsinfo Result result \<times> 'd vfs" where
  "lfsVFS_statFs info = lock_guard (\<lambda>s. attempt (lfs_fs_stat s info) (\<lambda>r s. (Inr (to_Result r), s)))"

section \<open>Making a file system\<close>

definition vfs_config :: "'d IBlockDevice \<Rightarrow> 'd \<Rightarrow> 'd VFSContext lfs_config" where
  "vfs_config ops device =
     \<lparr>cfg_on_grow = False, cfg_read = lfs_bd_cb_read ops, cfg_write = lfs_bd_cb_prog ops,
      cfg_erase = lfs_bd_cb_erase ops, cfg_sync = lfs_bd_cb_sync ops, cfg_lock = lfs_bd_cb_lock,
      cfg_unlock = lfs_bd_cb_unlock, cfg_read_size = 1, cfg_write_size = 1, cfg_erase_size = 0,
      cfg_block_size = bd_get_block_size ops device, cfg_block_count = bd_get_block_count ops device,
      cfg_block_cycles = - 1, cfg_cache_size = bd_get_block_size ops device,
      cfg_lookahead_size = bd_get_block_size ops device, cfg_read_buffer = None, cfg_write_buffer = None,
      cfg_lookahead_buffer = None, cfg_name_max_length = 0, cfg_file_max_size = 0x7FFFFFFFFFFFFFFF,
      cfg_attr_max_size = 0, cfg_metadata_max = 0\<rparr>"

text \<open>\<open>lfs_t\<close> filled with zeros.\<close>

definition vfs_handle :: "'d IBlockDevice \<Rightarrow> 'd \<Rightarrow> 'd vfs" where
  "vfs_handle ops device =
     (let cache = \<lparr>c_block = 0, c_offset = 0, c_size = 0, c_buffer = []\<rparr>
      in \<lparr>l_read_cache = cache, l_write_cache = cache, l_root = (0, 0), l_metadata_list = [], l_seed = 0,
          l_gstate = gstate_zero, l_gdisk = gstate_zero, l_gdelta = gstate_zero,
          l_free = \<lparr>fr_offset = 0, fr_size = 0, fr_i = 0, fr_ack = 0, fr_buffer = []\<rparr>,
          l_cfg = vfs_config ops device,
          l_dev = \<lparr>vc_block_device = device, vc_mutex = 0, vc_on_grow = False\<rparr>,
          l_erase_size = 0, l_block_size = 0, l_block_count = 0, l_name_max_length = 0, l_file_max_size = 0,
          l_attr_max_size = 0\<rparr>)"

definition initVFSInternal :: "'d IBlockDevice \<Rightarrow> 'd \<Rightarrow> bool \<Rightarrow> unit Result result \<times> 'd vfs" where
  "initVFSInternal ops device format =
     (let s = vfs_handle ops device; cfg = vfs_config ops device
      in attempt
           (andthen (if format then lfs_format (vfs_grow ops) s cfg else (Inr (), s)) (\<lambda>_ s. lfs_mount s cfg))
           (\<lambda>r s. (Inr (to_Result r), s)))"

definition createVFSWithDevice :: "'d IBlockDevice \<Rightarrow> 'd \<Rightarrow> unit Result result \<times> 'd vfs" where
  "createVFSWithDevice ops device = initVFSInternal ops device True"

definition openVFSWithDevice :: "'d IBlockDevice \<Rightarrow> 'd \<Rightarrow> unit Result result \<times> 'd vfs" where
  "openVFSWithDevice ops device = initVFSInternal ops device False"

text \<open>A \<open>shared_ptr<IBlockDevice>\<close> to one of the two devices of the old factory functions, with its virtual calls.\<close>

datatype Backend = kMemoryBackend | kFileBackend

type_synonym backend_device = "memory_device + file_device"

definition virtual_call :: "(memory_device \<Rightarrow> 'a \<times> memory_device) \<Rightarrow> (file_device \<Rightarrow> 'a \<times> file_device) \<Rightarrow> backend_device \<Rightarrow> 'a \<times> backend_device" where
  "virtual_call m f d =
     (case d of Inl d \<Rightarrow> (case m d of (r, d) \<Rightarrow> (r, Inl d)) | Inr d \<Rightarrow> (case f d of (r, d) \<Rightarrow> (r, Inr d)))"

definition backend_ops :: "backend_device IBlockDevice" where
  "backend_ops =
     \<lparr>bd_read = (\<lambda>d block off buffer.
        case virtual_call (\<lambda>d. case memory_read d block off buffer of (r, buffer, d) \<Rightarrow> ((r, buffer), d))
                          (\<lambda>d. case file_read d block off buffer of (r, buffer, d) \<Rightarrow> ((r, buffer), d)) d of
          ((r, buffer), d) \<Rightarrow> (r, buffer, d)),
      bd_write = (\<lambda>d block off buffer. virtual_call (\<lambda>d. memory_write d block off buffer) (\<lambda>d. BlockDevice.file_write d block off buffer) d),
      bd_erase = (\<lambda>d block. virtual_call (\<lambda>d. memory_erase d block) (\<lambda>d. file_erase d block) d),
      bd_sync = virtual_call memory_sync file_sync,
      bd_allocate_block = virtual_call memory_allocate_block file_allocate_block,
      bd_get_block_size = case_sum md_block_size fd_block_size,
      bd_get_block_count = case_sum md_block_count fd_block_count,
      bd_set_block_count = (\<lambda>d count. map_sum (\<lambda>d. memory_set_block_count d count) (\<lambda>d. file_set_block_count d count) d)\<rparr>"

text \<open>\<open>opened\<close> is what opening the file at the path gives.\<close>

definition backend_device :: "Backend \<Rightarrow> host_file option \<Rightarrow> bool \<Rightarrow> backend_device" where
  "backend_device backend opened truncate_new =
     (case backend of
        kFileBackend \<Rightarrow> Inr (FileBlockDevice opened (64 * 1024) 8 truncate_new)
      | kMemoryBackend \<Rightarrow> Inl (MemoryBlockDevice (64 * 1024) 8))"

definition legacy_of :: "unit Result result \<times> 'd vfs \<Rightarrow> LegacyErrorCode result \<times> 'd vfs" where
  "legacy_of m =
     andthen m (\<lambda>res s. (Inr (case res of Value _ \<Rightarrow> kCodeOK | Error e \<Rightarrow> lfsToLegacyErrorCode (ErrorCode_int e)), s))"

definition createVFS :: "host_file option \<Rightarrow> Backend \<Rightarrow> LegacyErrorCode result \<times> backend_device vfs" where
  "createVFS opened backend = legacy_of (createVFSWithDevice backend_ops (backend_device backend opened True))"

definition openVFS :: "host_file option \<Rightarrow> Backend \<Rightarrow> LegacyErrorCode result \<times> backend_device vfs" where
  "openVFS opened backend = legacy_of (openVFSWithDevice backend_ops (backend_device backend opened False))"

text \<open>Wide strings lose all but their low bytes.\<close>

definition wstringToString :: "u32 list \<Rightarrow> u8 list" where
  "wstringToString wstr = map ucast wstr"

subsection \<open>The builder\<close>

text \<open>The device chosen so far, none at first: the operations of its class and its state.\<close>

type_synonym 'd VFSBuilder = "('d IBlockDevice \<times> 'd) option"

definition withMemoryBackend :: "lfs_size_t \<Rightarrow> lfs_size_t \<Rightarrow> memory_device VFSBuilder" where
  "withMemoryBackend block_size block_count = Some (memory_ops, MemoryBlockDevice block_size block_count)"

definition withFileBackend :: "host_file option \<Rightarrow> lfs_size_t \<Rightarrow> lfs_size_t \<Rightarrow> bool \<Rightarrow> file_device VFSBuilder" where
  "withFileBackend opened block_size block_count create_new =
     Some (file_ops, FileBlockDevice opened block_size block_count create_new)"

definition withCrypto :: "u64 \<Rightarrow> 'd VFSBuilder \<Rightarrow> 'd crypto_device VFSBuilder" where
  "withCrypto key = map_option (\<lambda>(ops, d). (crypto_ops ops, \<lparr>decorated = d, cr_key = key\<rparr>))"

definition withFaultInjection :: "'d VFSBuilder \<Rightarrow> 'd fault_device VFSBuilder" where
  "withFaultInjection = map_option (\<lambda>(ops, d). (fault_ops ops, FaultInjectBlockDevice d))"

definition withStatistics :: "'d VFSBuilder \<Rightarrow> 'd statistics_device VFSBuilder" where
  "withStatistics = map_option (\<lambda>(ops, d). (statistics_ops ops,
     \<lparr>decorated = d, st_reads_count = 0, st_writes_count = 0, st_erases_count = 0, st_syncs_count = 0,
      st_bytes_read = 0, st_bytes_written = 0\<rparr>))"

text \<open>The file system that was made stands beside the result.\<close>

definition build_with :: "('d IBlockDevice \<Rightarrow> 'd \<Rightarrow> unit Result result \<times> 'd vfs) \<Rightarrow> 'd VFSBuilder \<Rightarrow> unit Result result \<times> 'd vfs option" where
  "build_with init b =
     (case b of
        None \<Rightarrow> (Inr (Error kInvalidParameter), None)
      | Some (ops, device) \<Rightarrow> (case init ops device of (r, s) \<Rightarrow> (r, Some s)))"

definition buildCreate :: "'d VFSBuilder \<Rightarrow> unit Result result \<times> 'd vfs option" where
  "buildCreate b = build_with createVFSWithDevice b"

definition buildOpen :: "'d VFSBuilder \<Rightarrow> unit Result result \<times> 'd vfs option" where
  "buildOpen b = build_with openVFSWithDevice b"

end
