(* ===== verification/Scanner.thy ===== *)
theory Scanner
  imports VfsSystem "HOL-Library.Sublist"
begin

text \<open>
  The program \<open>example/dpx_scanner.cpp\<close>: it copies the files of a directory of the host into a file system in
  memory, reads them back from there and counts lines of code, comment lines and blank lines, by file, by
  extension and in all. The clock and the printing of the report are left out.

  The host is an argument: the entries that the walk over the directory meets, with the bytes that reading a
  file gives, and the function \<open>relative\<close>, the path of a file below the directory. The functions of
  \<open>std::filesystem::path\<close> that only take a path apart are modelled.
\<close>

subsection \<open>Strings and paths\<close>

definition bytes :: "string \<Rightarrow> u8 list" where
  "bytes str = map of_char str"

definition path_filename :: "u8 list \<Rightarrow> u8 list" where
  "path_filename path = rev (takeWhile (\<lambda>c. c \<noteq> 47) (rev path))"

text \<open>From the last dot on, unless it is the first character or the name is \<open>..\<close>.\<close>

definition path_extension :: "u8 list \<Rightarrow> u8 list" where
  "path_extension path =
     (let name = path_filename path; after = rev (takeWhile (\<lambda>c. c \<noteq> 46) (rev name))
      in if name = bytes ''..'' \<or> length name \<le> Suc (length after) then [] else 46 # after)"

function to_string :: "nat \<Rightarrow> u8 list" where
  "to_string n = (if n < 10 then [48 + of_nat n] else to_string (n div 10) @ [48 + of_nat (n mod 10)])"
  by pat_completeness auto
termination by (relation "measure id") auto

declare to_string.simps [simp del]

definition vfs_key :: "nat \<Rightarrow> u8 list \<Rightarrow> u8 list" where
  "vfs_key i name = bytes ''f_'' @ to_string i @ bytes ''_'' @ name"

definition is_ignored :: "u8 list \<Rightarrow> bool" where
  "is_ignored path \<longleftrightarrow>
     (\<exists>part \<in> set [''/.git'', ''/.venv'', ''/__pycache__'', ''/.mypy_cache'', ''/.pytest_cache'', ''/.ruff_cache'', ''/.DS_Store''].
        sublist (bytes part) path)"

subsection \<open>Counting lines\<close>

text \<open>The lines that \<open>std::getline\<close> gives: a line break ends a line, and there is no empty line behind the last one.\<close>

function getline_all :: "u8 list \<Rightarrow> u8 list list" where
  "getline_all [] = []"
| "getline_all (c # cs) =
     takeWhile (\<lambda>c. c \<noteq> 10) (c # cs) # getline_all (drop 1 (dropWhile (\<lambda>c. c \<noteq> 10) (c # cs)))"
  by pat_completeness auto
termination
proof (relation "measure length")
  fix c :: u8 and cs :: "u8 list"
  have "length (dropWhile (\<lambda>c. c \<noteq> 10) cs) \<le> length cs" by (rule length_dropWhile_le)
  then show "(drop 1 (dropWhile (\<lambda>c. c \<noteq> 10) (c # cs)), c # cs) \<in> measure length" by auto
qed simp

definition trim :: "u8 list \<Rightarrow> u8 list" where
  "trim line =
     (let blank = (\<lambda>c. c \<in> set [32, 9, 13, 10])
      in rev (dropWhile blank (rev (dropWhile blank line))))"

record line_counts =
  lc_total :: u64
  lc_code :: u64
  lc_blank :: u64
  lc_comment :: u64

definition count_code :: "line_counts \<Rightarrow> line_counts" where
  "count_code n = n\<lparr>lc_code := lc_code n + 1\<rparr>"

definition count_comment :: "line_counts \<Rightarrow> line_counts" where
  "count_comment n = n\<lparr>lc_comment := lc_comment n + 1\<rparr>"

definition analyze_line :: "u8 list \<Rightarrow> u8 list \<Rightarrow> line_counts \<times> bool \<Rightarrow> line_counts \<times> bool" where
  "analyze_line ext line = (\<lambda>(n, in_block_comment).
     let n = n\<lparr>lc_total := lc_total n + 1\<rparr>; trimmed = trim line;
         closing = sublist (bytes ''*/'') trimmed
     in if trimmed = [] then (n\<lparr>lc_blank := lc_blank n + 1\<rparr>, in_block_comment)
        else if ext = bytes ''.py'' then
          (if hd trimmed = 35 then (count_comment n, in_block_comment)
           else if prefix [34, 34, 34] trimmed \<or> prefix [39, 39, 39] trimmed then (count_comment n, in_block_comment)
           else (count_code n, in_block_comment))
        else if ext = bytes ''.cpp'' \<or> ext = bytes ''.c'' \<or> ext = bytes ''.h'' \<or> ext = bytes ''.hpp'' then
          (if prefix (bytes ''//'') trimmed then (count_comment n, in_block_comment)
           else if prefix (bytes ''/*'') trimmed then (count_comment n, \<not> closing)
           else if in_block_comment then (count_comment n, \<not> closing)
           else (count_code n, in_block_comment))
        else (count_code n, in_block_comment))"

definition analyze_lines :: "u8 list \<Rightarrow> u8 list \<Rightarrow> line_counts \<Rightarrow> line_counts" where
  "analyze_lines content ext n = fst (fold (analyze_line ext) (getline_all content) (n, False))"

subsection \<open>Statistics\<close>

record FileStats =
  fs_rel_path :: "u8 list"
  fs_ext :: "u8 list"
  fs_size_bytes :: u64
  fs_lines :: line_counts
  fs_verified :: bool

record LangStats =
  ls_file_count :: u64
  ls_total_bytes :: u64
  ls_lines :: line_counts

definition no_lines :: line_counts where
  "no_lines = \<lparr>lc_total = 0, lc_code = 0, lc_blank = 0, lc_comment = 0\<rparr>"

definition add_lines :: "line_counts \<Rightarrow> line_counts \<Rightarrow> line_counts" where
  "add_lines a b =
     \<lparr>lc_total = lc_total a + lc_total b, lc_code = lc_code a + lc_code b, lc_blank = lc_blank a + lc_blank b,
      lc_comment = lc_comment a + lc_comment b\<rparr>"

text \<open>What the report is printed from. The map from extensions to their numbers has one entry per extension.\<close>

record scan_report =
  sr_stats_list :: "FileStats list"
  sr_lang_map :: "(u8 list \<times> LangStats) list"
  sr_totals :: line_counts
  sr_verified_count :: u64
  sr_total_bytes_ingested :: u64

definition lang_at :: "(u8 list \<times> LangStats) list \<Rightarrow> u8 list \<Rightarrow> LangStats" where
  "lang_at langs key =
     (case map_of langs key of Some l \<Rightarrow> l | None \<Rightarrow> \<lparr>ls_file_count = 0, ls_total_bytes = 0, ls_lines = no_lines\<rparr>)"

definition count_file :: "FileStats \<Rightarrow> (u8 list \<times> LangStats) list \<Rightarrow> (u8 list \<times> LangStats) list" where
  "count_file f langs =
     (let key = (if fs_ext f = [] then bytes ''(no ext)'' else fs_ext f); l = lang_at langs key
      in AList.update key
           \<lparr>ls_file_count = ls_file_count l + 1, ls_total_bytes = ls_total_bytes l + fs_size_bytes f,
            ls_lines = add_lines (ls_lines l) (fs_lines f)\<rparr> langs)"

subsection \<open>Copying the files\<close>

record host_entry =
  he_path :: "u8 list"
  he_regular :: bool
  he_content :: "u8 list"

definition discover :: "host_entry list \<Rightarrow> host_entry list" where
  "discover entries = filter (\<lambda>entry. he_regular entry \<and> \<not> is_ignored (he_path entry)) entries"

text \<open>A file that cannot be opened is skipped: it has no entry in the list of statistics.\<close>

definition ingest_file :: "'d IBlockDevice \<Rightarrow> nat \<Rightarrow> (u8 list \<Rightarrow> u8 list) \<Rightarrow> nat \<Rightarrow> host_entry \<Rightarrow> 'd vfs \<Rightarrow> FileStats list result \<times> 'd vfs" where
  "ingest_file ops p relative i entry s =
     (let path = he_path entry; buffer = he_content entry
      in andthen (lfsVFS_open ops p (vfs_key i (path_filename path)) (kFileRead OR kFileWrite OR kFileCreateIfNotExists) s) (\<lambda>res s.
           case res of
             Error e \<Rightarrow> (Inr [], s)
           | Value f \<Rightarrow>
               (case
                  andthen (if buffer \<noteq> [] then attempt (VFSFileObject_write ops buffer (f, s)) (\<lambda>_ fs. (Inr (), fs)) else (Inr (), f, s)) (\<lambda>_ fs.
                    andthen (attempt (VFSFileObject_flush ops fs) (\<lambda>_ fs. (Inr (), fs))) (\<lambda>_ (f, s).
                      case FileHandle_destroy ops (Some f) s of (r, _, s) \<Rightarrow> (r, f, s))) of
                  (Inl h, f, s) \<Rightarrow> (Inl h, s)
                | (Inr _, f, s) \<Rightarrow>
                    (Inr [\<lparr>fs_rel_path = relative path, fs_ext = path_extension path, fs_size_bytes = of_nat (length buffer),
                           fs_lines = no_lines, fs_verified = False\<rparr>], s))))"

fun ingest_files :: "'d IBlockDevice \<Rightarrow> nat \<Rightarrow> (u8 list \<Rightarrow> u8 list) \<Rightarrow> nat \<Rightarrow> host_entry list \<Rightarrow> 'd vfs \<Rightarrow> FileStats list result \<times> 'd vfs" where
  "ingest_files ops p relative i [] s = (Inr [], s)"
| "ingest_files ops p relative i (entry # entries) s =
     andthen (ingest_file ops p relative i entry s) (\<lambda>stats s.
       andthen (ingest_files ops p relative (Suc i) entries s) (\<lambda>rest s. (Inr (stats @ rest), s)))"

subsection \<open>Reading them back\<close>

text \<open>The content of a file of the file system; the number that \<open>read\<close> returns is ignored.\<close>

definition read_back :: "'d IBlockDevice \<Rightarrow> VFSFileObject \<Rightarrow> 'd vfs \<Rightarrow> u8 list result \<times> 'd vfs" where
  "read_back ops f s =
     (case attempt (VFSFileObject_size (f, s)) (\<lambda>r (f, s).
            let sz = (case r of Inl e \<Rightarrow> word_of_int (lfs_error_code e) | Inr n \<Rightarrow> n); buf = replicate (unat sz) 0
            in andthen
                 (if 0 < sz then andthen (VFSFileObject_read ops buf (f, s)) (\<lambda>(_, buf) fs. (Inr buf, fs)) else (Inr buf, f, s)) (\<lambda>content (f, s).
               case FileHandle_destroy ops (Some f) s of (r, _, s) \<Rightarrow> (map_sum id (\<lambda>_. content) r, f, s))) of
        (r, f, s) \<Rightarrow> (r, s))"

definition verify_file :: "'d IBlockDevice \<Rightarrow> nat \<Rightarrow> nat \<Rightarrow> scan_report \<Rightarrow> 'd vfs \<Rightarrow> scan_report result \<times> 'd vfs" where
  "verify_file ops p i rep s =
     (let f = sr_stats_list rep ! i
      in andthen (lfsVFS_open ops p (vfs_key i (path_filename (fs_rel_path f))) kFileRead s) (\<lambda>res s.
           case res of
             Error e \<Rightarrow> (Inr rep, s)
           | Value file_obj \<Rightarrow>
               andthen (read_back ops file_obj s) (\<lambda>content s.
                 let f = f\<lparr>fs_lines := analyze_lines content (fs_ext f) (fs_lines f)\<rparr>
                 in (Inr (rep\<lparr>sr_stats_list := (sr_stats_list rep)[i := f\<lparr>fs_verified := True\<rparr>],
                             sr_lang_map := count_file f (sr_lang_map rep),
                             sr_totals := add_lines (sr_totals rep) (fs_lines f),
                             sr_verified_count := sr_verified_count rep + 1\<rparr>), s))))"

fun verify_files :: "'d IBlockDevice \<Rightarrow> nat \<Rightarrow> nat list \<Rightarrow> scan_report \<Rightarrow> 'd vfs \<Rightarrow> scan_report result \<times> 'd vfs" where
  "verify_files ops p [] rep s = (Inr rep, s)"
| "verify_files ops p (i # is) rep s = andthen (verify_file ops p i rep s) (\<lambda>rep s. verify_files ops p is rep s)"

definition scan_files :: "'d IBlockDevice \<Rightarrow> nat \<Rightarrow> (u8 list \<Rightarrow> u8 list) \<Rightarrow> host_entry list \<Rightarrow> 'd vfs \<Rightarrow> scan_report result \<times> 'd vfs" where
  "scan_files ops p relative entries s =
     andthen (ingest_files ops p relative 0 (discover entries) s) (\<lambda>stats s.
       verify_files ops p [0..<length stats]
         \<lparr>sr_stats_list = stats, sr_lang_map = [], sr_totals = no_lines, sr_verified_count = 0,
          sr_total_bytes_ingested = of_nat (\<Sum>entry\<leftarrow>discover entries. length (he_content entry))\<rparr> s)"

text \<open>\<open>main\<close>: no report when the directory does not exist or the file system cannot be made, with exit status 1.\<close>

definition scanner_main :: "nat \<Rightarrow> bool \<Rightarrow> (u8 list \<Rightarrow> u8 list) \<Rightarrow> host_entry list \<Rightarrow> (int \<times> scan_report option) result" where
  "scanner_main p target_exists relative entries =
     (if \<not> target_exists then Inr (1, None)
      else fst (andthen (createVFSWithDevice memory_ops (MemoryBlockDevice (64 * 1024) 1024)) (\<lambda>res s.
             if \<not> has_value res then (Inr (1, None), s)
             else andthen (scan_files memory_ops p relative entries s) (\<lambda>rep s. (Inr (0, Some rep), s)))))"

end
