(* ===== verification/ScannerProperties.thy ===== *)
theory ScannerProperties
  imports Scanner
begin

text \<open>
  What the report of the scanner adds up to, and the names under which it keeps the files.
\<close>

subsection \<open>Counts\<close>

definition balanced :: "line_counts \<Rightarrow> bool" where
  "balanced n \<longleftrightarrow> lc_total n = lc_code n + lc_blank n + lc_comment n"

lemma no_lines_balanced: "balanced no_lines"
  by (simp add: balanced_def no_lines_def)

lemma add_lines_balanced: "balanced a \<Longrightarrow> balanced b \<Longrightarrow> balanced (add_lines a b)"
  by (simp add: balanced_def add_lines_def)

lemma analyze_line_balanced: "balanced n \<Longrightarrow> balanced (fst (analyze_line ext line (n, b)))"
  by (auto simp: analyze_line_def Let_def balanced_def count_code_def count_comment_def)

lemma analyze_line_total: "lc_total (fst (analyze_line ext line (n, b))) = lc_total n + 1"
  by (auto simp: analyze_line_def Let_def count_code_def count_comment_def)

lemma fold_analyze:
  "balanced n \<longrightarrow> balanced (fst (fold (analyze_line ext) lines (n, b)))"
  "lc_total (fst (fold (analyze_line ext) lines (n, b))) = lc_total n + of_nat (length lines)"
proof (induction lines arbitrary: n b)
  case (Cons line lines)
  have e: "fold (analyze_line ext) (line # lines) (n, b) =
      fold (analyze_line ext) lines (fst (analyze_line ext line (n, b)), snd (analyze_line ext line (n, b)))" for n b by simp
  { case 1
    show ?case unfolding e using Cons.IH(1) analyze_line_balanced by blast
  next
    case 2
    show ?case unfolding e Cons.IH(2) analyze_line_total by simp }
qed simp_all

lemma analyze_lines_counts:
  "balanced n \<Longrightarrow> balanced (analyze_lines content ext n)"
  "lc_total (analyze_lines content ext n) = lc_total n + of_nat (length (getline_all content))"
  by (simp_all add: analyze_lines_def fold_analyze)

text \<open>The lines of a text are as many as its line breaks, and one more if something stands behind the last one.\<close>

lemma length_getline_all:
  "length (getline_all content) = count_list content 10 + (if content = [] \<or> last content = 10 then 0 else 1)"
proof (induction content rule: getline_all.induct)
  case (2 c cs)
  define rest where "rest = dropWhile (\<lambda>c. c \<noteq> 10) (c # cs)"
  have split: "c # cs = takeWhile (\<lambda>c. c \<noteq> 10) (c # cs) @ rest" unfolding rest_def by (simp only: takeWhile_dropWhile_id)
  have before: "10 \<notin> set (takeWhile (\<lambda>c. c \<noteq> 10) (c # cs))" using set_takeWhileD[of 10 "\<lambda>c. c \<noteq> 10" "c # cs"] by blast
  have IH: "length (getline_all (drop 1 rest)) = count_list (drop 1 rest) 10 + (if drop 1 rest = [] \<or> last (drop 1 rest) = 10 then 0 else 1)"
    using 2 unfolding rest_def .
  have l: "length (getline_all (c # cs)) = Suc (length (getline_all (drop 1 rest)))" by (simp add: rest_def)
  show ?case
  proof (cases rest)
    case Nil
    then have "takeWhile (\<lambda>c. c \<noteq> 10) (c # cs) = c # cs" using split by (metis append_Nil2)
    then have "10 \<notin> set (c # cs)" using before by metis
    then have "count_list (c # cs) 10 = 0" "last (c # cs) \<noteq> 10" using last_in_set[of "c # cs"] by (auto simp: count_list_0_iff)
    then show ?thesis using l IH Nil by simp
  next
    case (Cons d ds)
    then have d: "d = 10" using hd_dropWhile[of "\<lambda>c. c \<noteq> 10" "c # cs"] unfolding rest_def by simp
    have "count_list (c # cs) 10 = count_list (takeWhile (\<lambda>c. c \<noteq> 10) (c # cs)) 10 + count_list rest 10"
      by (subst split) (rule count_list_append)
    then have "count_list (c # cs) 10 = Suc (count_list ds 10)" using before Cons d by (simp add: count_notin)
    moreover have "last (c # cs) = (if ds = [] then 10 else last ds)" by (subst split) (simp add: Cons d)
    ultimately show ?thesis using l IH Cons by simp
  qed
qed simp

subsection \<open>Sums\<close>

definition sum_lines :: "line_counts list \<Rightarrow> line_counts" where
  "sum_lines ns = foldr add_lines ns no_lines"

lemma sum_lines_fields:
  "lc_total (sum_lines ns) = (\<Sum>n\<leftarrow>ns. lc_total n)" "lc_code (sum_lines ns) = (\<Sum>n\<leftarrow>ns. lc_code n)"
  "lc_blank (sum_lines ns) = (\<Sum>n\<leftarrow>ns. lc_blank n)" "lc_comment (sum_lines ns) = (\<Sum>n\<leftarrow>ns. lc_comment n)"
  by (induction ns) (simp_all add: sum_lines_def add_lines_def no_lines_def)

lemma sum_lines_eq_iff:
  "n = sum_lines ns \<longleftrightarrow> lc_total n = (\<Sum>n\<leftarrow>ns. lc_total n) \<and> lc_code n = (\<Sum>n\<leftarrow>ns. lc_code n) \<and>
     lc_blank n = (\<Sum>n\<leftarrow>ns. lc_blank n) \<and> lc_comment n = (\<Sum>n\<leftarrow>ns. lc_comment n)"
  by (auto simp: sum_lines_fields intro: line_counts.equality)

lemma sum_update:
  fixes g :: "'b \<Rightarrow> 'c :: ab_group_add"
  shows "(\<Sum>kv\<leftarrow>AList.update k v al. g (snd kv)) = (\<Sum>kv\<leftarrow>al. g (snd kv)) - (case map_of al k of Some w \<Rightarrow> g w | None \<Rightarrow> 0) + g v"
  by (induction al) (auto split: option.split)

lemma sum_list_update:
  fixes g :: "'b \<Rightarrow> 'c :: ab_group_add"
  shows "i < length xs \<Longrightarrow> (\<Sum>x\<leftarrow>xs[i := y]. g x) = (\<Sum>x\<leftarrow>xs. g x) - g (xs ! i) + g y"
proof (induction xs arbitrary: i)
  case (Cons x xs)
  then show ?case by (cases i) simp_all
qed simp

lemma lang_at_zero:
  assumes "g \<lparr>ls_file_count = 0, ls_total_bytes = 0, ls_lines = no_lines\<rparr> = 0"
  shows "(case map_of langs key of Some w \<Rightarrow> g w | None \<Rightarrow> 0) = g (lang_at langs key)"
  using assms by (simp add: lang_at_def split: option.split)

lemma count_file_sums:
  "(\<Sum>kl\<leftarrow>count_file f langs. ls_file_count (snd kl)) = (\<Sum>kl\<leftarrow>langs. ls_file_count (snd kl)) + 1"
  "(\<Sum>kl\<leftarrow>count_file f langs. lc_total (ls_lines (snd kl))) = (\<Sum>kl\<leftarrow>langs. lc_total (ls_lines (snd kl))) + lc_total (fs_lines f)"
  "(\<Sum>kl\<leftarrow>count_file f langs. lc_code (ls_lines (snd kl))) = (\<Sum>kl\<leftarrow>langs. lc_code (ls_lines (snd kl))) + lc_code (fs_lines f)"
  "(\<Sum>kl\<leftarrow>count_file f langs. lc_blank (ls_lines (snd kl))) = (\<Sum>kl\<leftarrow>langs. lc_blank (ls_lines (snd kl))) + lc_blank (fs_lines f)"
  "(\<Sum>kl\<leftarrow>count_file f langs. lc_comment (ls_lines (snd kl))) = (\<Sum>kl\<leftarrow>langs. lc_comment (ls_lines (snd kl))) + lc_comment (fs_lines f)"
  unfolding count_file_def Let_def
    sum_update[where g = ls_file_count] sum_update[where g = "\<lambda>l. lc_total (ls_lines l)"] sum_update[where g = "\<lambda>l. lc_code (ls_lines l)"]
    sum_update[where g = "\<lambda>l. lc_blank (ls_lines l)"] sum_update[where g = "\<lambda>l. lc_comment (ls_lines l)"]
  by (simp_all add: lang_at_zero[where g = ls_file_count] lang_at_zero[where g = "\<lambda>l. lc_total (ls_lines l)"]
      lang_at_zero[where g = "\<lambda>l. lc_code (ls_lines l)"] lang_at_zero[where g = "\<lambda>l. lc_blank (ls_lines l)"]
      lang_at_zero[where g = "\<lambda>l. lc_comment (ls_lines l)"] no_lines_def add_lines_def)

subsection \<open>The report\<close>

definition adds_up :: "scan_report \<Rightarrow> bool" where
  "adds_up rep \<longleftrightarrow> balanced (sr_totals rep) \<and>
     sr_totals rep = sum_lines (map fs_lines (sr_stats_list rep)) \<and>
     sr_totals rep = sum_lines (map (\<lambda>kl. ls_lines (snd kl)) (sr_lang_map rep)) \<and>
     sr_verified_count rep = (\<Sum>kl\<leftarrow>sr_lang_map rep. ls_file_count (snd kl)) \<and>
     sr_verified_count rep = (\<Sum>f\<leftarrow>sr_stats_list rep. of_bool (fs_verified f))"

definition fresh :: "FileStats \<Rightarrow> bool" where
  "fresh f \<longleftrightarrow> fs_lines f = no_lines \<and> \<not> fs_verified f"

lemma count_verified_file:
  assumes "adds_up rep" "i < length (sr_stats_list rep)" "fresh (sr_stats_list rep ! i)"
    "f = (sr_stats_list rep ! i)\<lparr>fs_lines := analyze_lines content (fs_ext (sr_stats_list rep ! i)) (fs_lines (sr_stats_list rep ! i))\<rparr>"
  shows "adds_up (rep\<lparr>sr_stats_list := (sr_stats_list rep)[i := f\<lparr>fs_verified := True\<rparr>], sr_lang_map := count_file f (sr_lang_map rep),
    sr_totals := add_lines (sr_totals rep) (fs_lines f), sr_verified_count := sr_verified_count rep + 1\<rparr>)"
proof -
  let ?stats = "sr_stats_list rep"
  have "balanced (fs_lines f)" using assms(3,4) by (simp add: fresh_def analyze_lines_counts no_lines_balanced)
  note bal = add_lines_balanced[OF _ this]
  have old: "lc_total (fs_lines (?stats ! i)) = 0" "lc_code (fs_lines (?stats ! i)) = 0" "lc_blank (fs_lines (?stats ! i)) = 0"
    "lc_comment (fs_lines (?stats ! i)) = 0" "\<not> fs_verified (?stats ! i)"
    using assms(3) by (simp_all add: fresh_def no_lines_def)
  have upd: "(\<Sum>x\<leftarrow>?stats[i := f\<lparr>fs_verified := True\<rparr>]. g x) = (\<Sum>x\<leftarrow>?stats. g x) - g (?stats ! i) + g (f\<lparr>fs_verified := True\<rparr>)"
    for g :: "FileStats \<Rightarrow> u64" by (rule sum_list_update[OF assms(2)])
  show ?thesis using assms(1) unfolding adds_up_def sum_lines_eq_iff map_map comp_def
    by (simp add: bal upd old count_file_sums) (auto simp: add_lines_def)
qed

lemma verify_file_adds_up:
  assumes "verify_file ops p i rep s = (Inr rep', s')" "adds_up rep" "i < length (sr_stats_list rep)" "fresh (sr_stats_list rep ! i)"
  shows "adds_up rep'" "\<exists>f. sr_stats_list rep' = (sr_stats_list rep)[i := f]"
proof -
  have "adds_up rep' \<and> (\<exists>f. sr_stats_list rep' = (sr_stats_list rep)[i := f])"
  proof (cases "rep' = rep")
    case True
    then show ?thesis using assms(2) list_update_id by metis
  next
    case False
    then obtain content where "rep' = (let f = (sr_stats_list rep ! i)\<lparr>fs_lines := analyze_lines content (fs_ext (sr_stats_list rep ! i)) (fs_lines (sr_stats_list rep ! i))\<rparr>
       in rep\<lparr>sr_stats_list := (sr_stats_list rep)[i := f\<lparr>fs_verified := True\<rparr>], sr_lang_map := count_file f (sr_lang_map rep),
            sr_totals := add_lines (sr_totals rep) (fs_lines f), sr_verified_count := sr_verified_count rep + 1\<rparr>)"
      using assms(1) by (auto simp: verify_file_def Let_def elim!: andthen_InrE split: Result.splits)
    then show ?thesis using count_verified_file[OF assms(2-4) refl] by (auto simp: Let_def)
  qed
  then show "adds_up rep'" "\<exists>f. sr_stats_list rep' = (sr_stats_list rep)[i := f]" by simp_all
qed

lemma verify_files_adds_up:
  "verify_files ops p is rep s = (Inr rep', s') \<Longrightarrow> adds_up rep \<Longrightarrow> distinct is \<Longrightarrow>
     \<forall>i \<in> set is. i < length (sr_stats_list rep) \<and> fresh (sr_stats_list rep ! i) \<Longrightarrow> adds_up rep'"
proof (induction "is" arbitrary: rep s)
  case (Cons i "is")
  obtain r t where v: "verify_file ops p i rep s = (Inr r, t)" "verify_files ops p is r t = (Inr rep', s')"
    using Cons.prems(1) by (auto elim!: andthen_InrE)
  have i: "i < length (sr_stats_list rep)" "fresh (sr_stats_list rep ! i)" using Cons.prems(4) by simp_all
  note step = verify_file_adds_up[OF v(1) Cons.prems(2) i]
  from step(2) obtain f where "sr_stats_list r = (sr_stats_list rep)[i := f]" by blast
  then have "k < length (sr_stats_list r) \<and> fresh (sr_stats_list r ! k)" if "k \<in> set is" for k
    using that Cons.prems(3,4) by (cases "k = i") simp_all
  then show ?case using Cons.IH[OF v(2) step(1)] Cons.prems(3) by simp
qed simp

lemma ingest_files_fresh:
  "ingest_files ops p relative i entries s = (Inr stats, s') \<Longrightarrow> list_all fresh stats"
proof (induction entries arbitrary: i s stats)
  case (Cons entry entries)
  obtain xs ys t where "ingest_file ops p relative i entry s = (Inr xs, t)" "ingest_files ops p relative (Suc i) entries t = (Inr ys, s')"
    "stats = xs @ ys"
    using Cons.prems by (auto elim!: andthen_InrE)
  moreover from this(1) have "list_all fresh xs"
    by (auto simp: ingest_file_def Let_def fresh_def elim!: andthen_InrE split: Result.splits prod.splits sum.splits)
  ultimately show ?case using Cons.IH by simp
qed simp

subsection \<open>Keys\<close>

lemma to_string_digits: "c \<in> set (to_string n) \<Longrightarrow> c \<noteq> 95"
proof (induction n rule: to_string.induct)
  case (1 n)
  have "(48 :: u8) + of_nat k \<noteq> 95" if "k < 10" for k
    using that by (simp add: numeral_eq_Suc less_Suc_eq) auto
  then show ?case using 1 by (cases "n < 10") (auto simp: to_string.simps[of n])
qed

definition digits_value :: "u8 list \<Rightarrow> nat" where
  "digits_value = foldl (\<lambda>n c. 10 * n + (unat c - 48)) 0"

lemma digits_value_to_string: "digits_value (to_string n) = n"
proof (induction n rule: to_string.induct)
  case (1 n)
  have digit: "unat ((48 :: u8) + of_nat k) - 48 = k" if "k < 10" for k
    using that by (simp add: numeral_eq_Suc less_Suc_eq) auto
  show ?case
  proof (cases "n < 10")
    case True
    then show ?thesis using digit[of n] by (simp add: to_string.simps[of n] digits_value_def)
  next
    case False
    then have "digits_value (to_string n) = 10 * digits_value (to_string (n div 10)) + n mod 10"
      using digit[of "n mod 10"] by (simp add: to_string.simps[of n] digits_value_def)
    then show ?thesis using 1 False by simp
  qed
qed

section \<open>Properties\<close>

text \<open>C36: the numbers of the scanner's report are consistent, whatever the host and the file system answer: all lines are
  code, comment or blank lines, in each file that was read and in all; the totals are the sums over the files and
  over the extensions; and the files counted as verified are those marked so and those counted by extension.\<close>

theorem scan_files_adds_up:
  assumes "scan_files ops p relative entries s = (Inr rep, s')"
  shows "lc_total (sr_totals rep) = lc_code (sr_totals rep) + lc_blank (sr_totals rep) + lc_comment (sr_totals rep) \<and>
    sr_totals rep = sum_lines (map fs_lines (sr_stats_list rep)) \<and>
    sr_totals rep = sum_lines (map (\<lambda>kl. ls_lines (snd kl)) (sr_lang_map rep)) \<and>
    sr_verified_count rep = (\<Sum>kl\<leftarrow>sr_lang_map rep. ls_file_count (snd kl)) \<and>
    sr_verified_count rep = (\<Sum>f\<leftarrow>sr_stats_list rep. of_bool (fs_verified f))"
proof -
  obtain stats t rep0 where i: "ingest_files ops p relative 0 (discover entries) s = (Inr stats, t)"
    and v: "verify_files ops p [0..<length stats] rep0 t = (Inr rep, s')"
    and r: "sr_stats_list rep0 = stats" "sr_lang_map rep0 = []" "sr_totals rep0 = no_lines" "sr_verified_count rep0 = 0"
    using assms unfolding scan_files_def by (auto elim!: andthen_InrE)
  have f: "\<forall>k < length stats. fresh (stats ! k)" using ingest_files_fresh[OF i] by (simp add: list_all_length)
  have "list_all fresh fs \<Longrightarrow> sum_lines (map fs_lines fs) = no_lines \<and> (\<Sum>f\<leftarrow>fs. of_bool (fs_verified f)) = (0 :: u64)" for fs
    by (induction fs) (simp_all add: sum_lines_def fresh_def add_lines_def no_lines_def)
  from this[OF ingest_files_fresh[OF i]] have "adds_up rep0"
    by (simp add: adds_up_def r no_lines_balanced) (simp add: sum_lines_def)
  then have "adds_up rep" by (rule verify_files_adds_up[OF v]) (use f r(1) in simp_all)
  then show ?thesis unfolding adds_up_def balanced_def .
qed

text \<open>A disk with the file \<open>f_0_a\<close>, which has one line, in a file system whose files hold two bytes at most. The
  file \<open>a\<close> of the host has three bytes. They are not stored, and the file on the disk is read in their place.\<close>

definition scan_memory :: memory_device where
  "scan_memory =
     \<lparr>md_block_size = 32, md_block_count = 2,
      md_storage = [1, 0, 0, 0, 255, 239, 255, 250, 102, 95, 48, 95, 97, 32, 0, 0, 7, 120, 10, 112, 31, 252, 6, 39, 236, 162, 164,
        255, 255, 255, 255, 255] @ replicate 32 0\<rparr>"

definition scan_state :: "memory_device vfs" where
  "scan_state =
     (let cache = \<lparr>c_block = LFS_BLOCK_NULL, c_offset = 0, c_size = 0, c_buffer = replicate 32 0\<rparr>
      in (vfs_handle memory_ops scan_memory)
           \<lparr>l_read_cache := cache, l_write_cache := cache, l_root := (0, 1), l_erase_size := 32, l_block_size := 32,
            l_block_count := 2, l_name_max_length := 255, l_file_max_size := 2, l_attr_max_size := 1022\<rparr>)"

definition scan_host :: "host_entry list" where
  "scan_host = [\<lparr>he_path = bytes ''/h/a'', he_regular = True, he_content = [120, 10, 120]\<rparr>, \<lparr>he_path = bytes ''/h/.git/x'', he_regular = True, he_content = [120]\<rparr>]"

definition scan_sample_report :: scan_report where
  "scan_sample_report =
     (let n = \<lparr>lc_total = 1, lc_code = 1, lc_blank = 0, lc_comment = 0\<rparr>
      in \<lparr>sr_stats_list = [\<lparr>fs_rel_path = bytes ''a'', fs_ext = [], fs_size_bytes = 3, fs_lines = n, fs_verified = True\<rparr>],
          sr_lang_map = [(bytes ''(no ext)'', \<lparr>ls_file_count = 1, ls_total_bytes = 3, ls_lines = n\<rparr>)],
          sr_totals = n, sr_verified_count = 1, sr_total_bytes_ingested = 3\<rparr>)"

lemma sample_scan: "fst (scan_files memory_ops 1 path_filename scan_host scan_state) = Inr scan_sample_report"
  by code_simp

theorem scan_files_adds_up_witness:
  "\<exists>s'. scan_files memory_ops 1 path_filename scan_host scan_state = (Inr scan_sample_report, s') \<and>
     sr_totals scan_sample_report = sum_lines (map fs_lines (sr_stats_list scan_sample_report)) \<and> sr_verified_count scan_sample_report = 1"
proof -
  obtain s' where s': "scan_files memory_ops 1 path_filename scan_host scan_state = (Inr scan_sample_report, s')"
    using sample_scan by (metis prod.collapse)
  from scan_files_adds_up[OF s'] s' show ?thesis by (simp add: scan_sample_report_def Let_def)
qed


end
