(* ===== verification/Fuse.thy ===== *)
theory Fuse
  imports VfsSystem "HOL-Library.Signed_Division"
begin

text \<open>
  The handlers of \<open>example/lfs_fuse.cpp\<close>, which show a file system of the VFS layer to the operating system.
  A handler opens the file of its path, acts on it, and closes it again when the pointer goes out of scope.
  It returns 0, a number of bytes, or the negative of an error number of \<open>errno.h\<close>.

  libfuse calls the handlers one at a time or from several threads; each holds \<open>g_vfs_mutex\<close> from its first
  access to the file system to its end, so that a handler is one step. What a handler writes through a
  pointer of libfuse is part of its result: the \<open>struct stat\<close>, the buffer, and the names it hands to
  \<open>filler\<close>, whose answer the code ignores. The addresses of the file object and of the directory handle that
  littlefs keeps are arguments.
\<close>

abbreviation (input) ENOENT :: int where "ENOENT \<equiv> 2"
abbreviation (input) EIO :: int where "EIO \<equiv> 5"
abbreviation (input) O_ACCMODE :: u32 where "O_ACCMODE \<equiv> 3"
abbreviation (input) O_RDONLY :: u32 where "O_RDONLY \<equiv> 0"

text \<open>The path of libfuse, a null pointer or the bytes before its terminator.\<close>

fun normalize_path :: "u8 list option \<Rightarrow> u8 list" where
  "normalize_path None = []"
| "normalize_path (Some path) = (case path of c # rest \<Rightarrow> if c = 47 then rest else path | [] \<Rightarrow> [])"

text \<open>The numbers \<open>int64_t\<close> that the operations of a file object return, and their conversion to \<open>int\<close>.\<close>

definition i64_of :: "lfs_error + u64 \<Rightarrow> int" where
  "i64_of r = (case r of Inl e \<Rightarrow> lfs_error_code e | Inr n \<Rightarrow> sint n)"

definition bytes_or_EIO :: "lfs_error + u64 \<Rightarrow> int" where
  "bytes_or_EIO r = (let n = i64_of r in if n < 0 then - EIO else sint (word_of_int n :: 32 word))"

text \<open>
  \<open>openFile\<close> and what follows it. The code looks at the number that \<open>openFile\<close> returns; the pointer is set
  exactly when that is \<open>kCodeOK\<close>. The destructor of the object closes the file.
\<close>

definition fuse_with_file :: "'d IBlockDevice \<Rightarrow> nat \<Rightarrow> u8 list \<Rightarrow> u32 \<Rightarrow> ('d vfs \<Rightarrow> 'a result \<times> 'd vfs) \<Rightarrow>
    (VFSFileObject \<times> 'd vfs \<Rightarrow> 'a result \<times> VFSFileObject \<times> 'd vfs) \<Rightarrow> 'd vfs \<Rightarrow> 'a result \<times> 'd vfs" where
  "fuse_with_file ops p path flags failed body s =
     andthen (lfsVFS_openFile ops p None path flags s) (\<lambda>(code, file) s.
       if code \<noteq> kCodeOK then failed s
       else case file of
         None \<Rightarrow> (Inl Undefined_behaviour, s)
       | Some f \<Rightarrow>
           (case andthen (body (f, s)) (\<lambda>r fs. andthen (VFSFileObject_close ops fs) (\<lambda>_ fs. (Inr r, fs))) of
              (r, f, s) \<Rightarrow> (r, s)))"

subsection \<open>Attributes and directories\<close>

record fuse_stat =
  st_mode :: u32
  st_nlink :: nat
  st_size :: int
  st_blocks :: int

abbreviation (input) S_IFDIR :: u32 where "S_IFDIR \<equiv> 0x4000"
abbreviation (input) S_IFREG :: u32 where "S_IFREG \<equiv> 0x8000"

definition stat_zero :: fuse_stat where
  "stat_zero = \<lparr>st_mode = 0, st_nlink = 0, st_size = 0, st_blocks = 0\<rparr>"

definition stat_dir :: fuse_stat where
  "stat_dir = stat_zero\<lparr>st_mode := S_IFDIR OR 0x1ED, st_nlink := 2\<rparr>"

text \<open>A file of a size: the blocks of 512 bytes are counted in \<open>off_t\<close>, where an overflow is undefined.\<close>

definition stat_reg :: "int \<Rightarrow> (int \<times> fuse_stat) result" where
  "stat_reg sz =
     (if sz + 512 < 2 ^ 63
      then Inr (0, stat_zero\<lparr>st_mode := S_IFREG OR 0x1A4, st_nlink := 1, st_size := sz, st_blocks := (sz + 512 - 1) sdiv 512\<rparr>)
      else Inl Undefined_behaviour)"

fun Entry_getPath :: "Entry \<Rightarrow> u8 list" where
  "Entry_getPath (FileEntry path sz) = path"
| "Entry_getPath (DirectoryEntry path sz) = path"

fun stat_entry :: "Entry \<Rightarrow> (int \<times> fuse_stat) result" where
  "stat_entry (DirectoryEntry path sz) = Inr (0, stat_dir)"
| "stat_entry (FileEntry path sz) = stat_reg (sint sz)"

definition lfs_fuse_getattr :: "'d IBlockDevice \<Rightarrow> nat \<Rightarrow> nat \<Rightarrow> lfs_dir \<Rightarrow> u8 list option \<Rightarrow> 'd vfs \<Rightarrow> (int \<times> fuse_stat) result \<times> 'd vfs" where
  "lfs_fuse_getattr ops p pd dir_handle path s =
     (let rel_path = normalize_path path
      in if rel_path = [] \<or> rel_path = [46] then (Inr (0, stat_dir), s)
         else fuse_with_file ops p rel_path kFileRead
                (\<lambda>s. andthen (lfsVFS_dir pd dir_handle [47] s) (\<lambda>entries s.
                   case find (\<lambda>entry. Entry_getPath entry = rel_path \<or> Entry_getPath entry = 47 # rel_path) entries of
                     Some entry \<Rightarrow> (stat_entry entry, s)
                   | None \<Rightarrow> (Inr (- ENOENT, stat_zero), s)))
                (\<lambda>fs. attempt (VFSFileObject_size fs) (\<lambda>sz fs. (stat_reg (i64_of sz), fs))) s)"

definition lfs_fuse_readdir :: "nat \<Rightarrow> lfs_dir \<Rightarrow> u8 list option \<Rightarrow> 'd vfs \<Rightarrow> (int \<times> u8 list list) result \<times> 'd vfs" where
  "lfs_fuse_readdir pd dir_handle path s =
     (let rel_path = normalize_path path
      in andthen (lfsVFS_dir pd dir_handle (if rel_path = [] then [47] else rel_path) s) (\<lambda>entries s.
           (Inr (0, [46] # [46, 46] # map (\<lambda>entry. c_str (Entry_getPath entry)) entries), s)))"

subsection \<open>Files\<close>

definition lfs_fuse_open :: "'d IBlockDevice \<Rightarrow> nat \<Rightarrow> u8 list option \<Rightarrow> u32 \<Rightarrow> 'd vfs \<Rightarrow> int result \<times> 'd vfs" where
  "lfs_fuse_open ops p path fi_flags s =
     (let flags = kFileRead OR (if fi_flags AND O_ACCMODE \<noteq> O_RDONLY then kFileWrite else 0)
      in fuse_with_file ops p (normalize_path path) flags (\<lambda>s. (Inr (- ENOENT), s)) (\<lambda>fs. (Inr 0, fs)) s)"

definition lfs_fuse_create :: "'d IBlockDevice \<Rightarrow> nat \<Rightarrow> u8 list option \<Rightarrow> 'd vfs \<Rightarrow> int result \<times> 'd vfs" where
  "lfs_fuse_create ops p path s =
     fuse_with_file ops p (normalize_path path) (kFileRead OR kFileWrite OR kFileCreateIfNotExists)
       (\<lambda>s. (Inr (- EIO), s)) (\<lambda>fs. (Inr 0, fs)) s"

definition lfs_fuse_read :: "'d IBlockDevice \<Rightarrow> nat \<Rightarrow> u8 list option \<Rightarrow> u8 list \<Rightarrow> u64 \<Rightarrow> 'd vfs \<Rightarrow> (int \<times> u8 list) result \<times> 'd vfs" where
  "lfs_fuse_read ops p path buf offset s =
     fuse_with_file ops p (normalize_path path) kFileRead (\<lambda>s. (Inr (- ENOENT, buf), s))
       (\<lambda>fs. attempt (VFSFileObject_seek offset kSeekSet fs) (\<lambda>_ fs.
          andthen (VFSFileObject_read ops buf fs) (\<lambda>(bytes_read, buf) fs. (Inr (bytes_or_EIO bytes_read, buf), fs)))) s"

definition lfs_fuse_write :: "'d IBlockDevice \<Rightarrow> nat \<Rightarrow> u8 list option \<Rightarrow> u8 list \<Rightarrow> u64 \<Rightarrow> 'd vfs \<Rightarrow> int result \<times> 'd vfs" where
  "lfs_fuse_write ops p path buf offset s =
     fuse_with_file ops p (normalize_path path) (kFileRead OR kFileWrite OR kFileCreateIfNotExists) (\<lambda>s. (Inr (- ENOENT), s))
       (\<lambda>fs. attempt (VFSFileObject_seek offset kSeekSet fs) (\<lambda>_ fs.
          attempt (VFSFileObject_write ops buf fs) (\<lambda>bytes_written fs.
            attempt (VFSFileObject_flush ops fs) (\<lambda>_ fs. (Inr (bytes_or_EIO bytes_written), fs))))) s"

definition lfs_fuse_unlink :: "'d IBlockDevice \<Rightarrow> u8 list option \<Rightarrow> 'd vfs \<Rightarrow> int result \<times> 'd vfs" where
  "lfs_fuse_unlink ops path s =
     andthen (lfsVFS_deleteFile ops (normalize_path path) s) (\<lambda>code s. (Inr (if code \<noteq> kCodeOK then - ENOENT else 0), s))"

definition lfs_fuse_truncate :: "'d IBlockDevice \<Rightarrow> nat \<Rightarrow> u8 list option \<Rightarrow> u64 \<Rightarrow> 'd vfs \<Rightarrow> int result \<times> 'd vfs" where
  "lfs_fuse_truncate ops p path sz s =
     fuse_with_file ops p (normalize_path path) (kFileRead OR kFileWrite) (\<lambda>s. (Inr (- ENOENT), s))
       (\<lambda>fs. attempt (VFSFileObject_truncate ops sz fs) (\<lambda>r fs.
          if err_of r \<noteq> 0 then (Inr (- EIO), fs)
          else attempt (VFSFileObject_flush ops fs) (\<lambda>_ fs. (Inr 0, fs)))) s"

definition lfs_fuse_fsync :: "'d IBlockDevice \<Rightarrow> nat \<Rightarrow> u8 list option \<Rightarrow> 'd vfs \<Rightarrow> int result \<times> 'd vfs" where
  "lfs_fuse_fsync ops p path s =
     fuse_with_file ops p (normalize_path path) (kFileRead OR kFileWrite) (\<lambda>s. (Inr 0, s))
       (\<lambda>fs. attempt (VFSFileObject_flush ops fs) (\<lambda>_ fs. (Inr 0, fs))) s"

subsection \<open>The start\<close>

text \<open>
  \<open>main\<close> up to the call of libfuse: the file system in the image, or a new one. The arguments are what opening
  the image gives, once as it is and once after cutting it off. \<open>None\<close> stands for the exit with status 1.
\<close>

definition fuse_start :: "host_file option \<Rightarrow> host_file option \<Rightarrow> backend_device vfs option result" where
  "fuse_start opened created =
     (case openVFS opened kFileBackend of
        (Inl h, _) \<Rightarrow> Inl h
      | (Inr code, vfs) \<Rightarrow>
          if code = kCodeOK then Inr (Some vfs)
          else case createVFS created kFileBackend of
                 (Inl h, _) \<Rightarrow> Inl h
               | (Inr code, vfs) \<Rightarrow> Inr (if code = kCodeOK then Some vfs else None))"

end
