(* ===== verification/VfsProperties.thy ===== *)
theory VfsProperties
  imports VfsSystem
begin

text \<open>
  The VFS layer. The pages of a file object are seen through \<open>cached\<close>, which gives the byte a position has
  in them. From \<open>write_loop_ok\<close> (what \<open>write\<close> leaves in the pages, whatever littlefs and the device
  answer) and \<open>read_loop_cached\<close> (what \<open>read\<close> takes from them) follow reading back what was written,
  directly or through a stream. \<open>flush_pages_ok\<close> says what flushing does to the pages; the last part is
  about error codes.
\<close>

subsection \<open>The page table\<close>

lemma unat_min_word: "unat (min a (b::u64)) = min (unat a) (unat b)"
  by (simp add: min_def word_le_nat_alt)

text \<open>The byte of a position that the pages hold, and the part of the table that has it.\<close>

definition cached :: "VFSFileObject \<Rightarrow> nat \<Rightarrow> u8 option" where
  "cached f i =
     (let page = page_at f (of_nat (i div 4096))
      in if i < 2 ^ 64 \<and> pg_data page \<noteq> [] then Some (pg_data page ! (i mod 4096)) else None)"

definition pages_wf :: "VFSFileObject \<Rightarrow> bool" where
  "pages_wf f \<longleftrightarrow> distinct (map fst (vf_pages f)) \<and>
     (\<forall>(i, page) \<in> set (vf_pages f). (pg_data page = [] \<or> length (pg_data page) = 4096) \<and> (pg_dirty page \<longrightarrow> pg_data page \<noteq> []))"

lemma page_at_set_page [simp]: "page_at (set_page i page f) j = (if i = j then page else page_at f j)"
  by (simp add: page_at_def set_page_def update_conv')

lemma set_page_frame [simp]:
  "vf_pos (set_page i page f) = vf_pos f" "vf_file_size (set_page i page f) = vf_file_size f"
  "vf_is_open (set_page i page f) = vf_is_open f" "vf_file_handle (set_page i page f) = vf_file_handle f"
  "vf_path (set_page i page f) = vf_path f"
  by (simp_all add: set_page_def)

lemma page_at_frame [simp]:
  "page_at (f\<lparr>vf_pos := x\<rparr>) i = page_at f i" "page_at (f\<lparr>vf_file_size := x\<rparr>) i = page_at f i"
  "page_at (f\<lparr>vf_is_open := b\<rparr>) i = page_at f i"
  by (simp_all add: page_at_def)

lemma pages_wf_frame [simp]:
  "pages_wf (f\<lparr>vf_pos := x\<rparr>) = pages_wf f" "pages_wf (f\<lparr>vf_file_size := x\<rparr>) = pages_wf f"
  "pages_wf (f\<lparr>vf_is_open := b\<rparr>) = pages_wf f"
  by (simp_all add: pages_wf_def)

lemma cached_frame [simp]:
  "cached (f\<lparr>vf_pos := x\<rparr>) i = cached f i" "cached (f\<lparr>vf_file_size := x\<rparr>) i = cached f i"
  by (simp_all add: cached_def)

lemma pages_wf_page_at:
  assumes "pages_wf f"
  shows "pg_data (page_at f i) = [] \<or> length (pg_data (page_at f i)) = 4096"
    "pg_dirty (page_at f i) \<Longrightarrow> pg_data (page_at f i) \<noteq> []"
proof -
  have "(pg_data (page_at f i) = [] \<or> length (pg_data (page_at f i)) = 4096) \<and> (pg_dirty (page_at f i) \<longrightarrow> pg_data (page_at f i) \<noteq> [])"
    using assms by (cases "map_of (vf_pages f) i") (fastforce simp: pages_wf_def page_at_def dest: map_of_SomeD)+
  then show "pg_data (page_at f i) = [] \<or> length (pg_data (page_at f i)) = 4096"
    "pg_dirty (page_at f i) \<Longrightarrow> pg_data (page_at f i) \<noteq> []" by simp_all
qed

lemma set_update_subset: "set (AList.update k v al) \<subseteq> insert (k, v) (set al)"
  by (induction al) auto

lemma pages_wf_set_page:
  assumes "pages_wf f" "pg_data page = [] \<or> length (pg_data page) = 4096" "pg_dirty page \<Longrightarrow> pg_data page \<noteq> []"
  shows "pages_wf (set_page i page f)"
  using assms set_update_subset[of i page "vf_pages f"]
  by (fastforce simp: pages_wf_def set_page_def distinct_update)

text \<open>Positions, pages and chunks as natural numbers.\<close>

lemma chunk_unat:
  fixes c m k :: u64
  assumes "k \<le> m"
  shows "unat (min (m - k) (4096 - c mod 4096)) = min (unat m - unat k) (4096 - unat c mod 4096)"
proof -
  have m: "unat (c mod 4096) = unat c mod 4096" by (simp add: unat_mod)
  have "c mod 4096 \<le> 4096" by (simp add: word_le_nat_alt m)
  then show ?thesis
    using assms by (simp add: unat_min_word unat_sub word_le_nat_alt m)
qed

lemma page_of_index: "unat (of_nat (i div 4096) :: u64) = i div 4096" if "i < 2 ^ 64"
  using that by (intro unat_of_nat_u64) linarith

lemma page_index: "c div 4096 = of_nat (unat c div 4096)" for c :: u64
proof -
  have "unat c div 4096 < 2 ^ 64" using unat_u64_less(1)[of c] by linarith
  then show ?thesis by (simp only: word_eq_nat_alt unat_of_nat_u64 unat_div) simp
qed

lemma cached_set_page:
  assumes "pg_data page \<noteq> []" "k < 2 ^ 64"
  shows "cached (set_page (of_nat (k div 4096)) page f) i =
    (if i < 2 ^ 64 \<and> i div 4096 = k div 4096 then Some (pg_data page ! (i mod 4096)) else cached f i)"
proof -
  have "(of_nat (k div 4096) :: u64) = of_nat (i div 4096) \<longleftrightarrow> k div 4096 = i div 4096" if "i < 2 ^ 64"
    using page_of_index[OF that] page_of_index[OF assms(2)] by metis
  then show ?thesis using assms by (auto simp: cached_def Let_def)
qed

subsection \<open>Bringing a page in\<close>

lemma attempt_InrE:
  assumes "attempt m g = (Inr y, t)"
  obtains r s where "g r s = (Inr y, t)" "m = (case r of Inl e \<Rightarrow> Inl (Err e) | Inr x \<Rightarrow> Inr x, s)"
  using assms by (auto simp: attempt_def split: prod.splits sum.splits halt.splits)

lemma load_page_ok:
  assumes "load_page ops i (f, s) = (Inr data, f', s')"
  shows "f' = f" "length data = 4096"
proof -
  show "f' = f" "length data = 4096"
    using assms by (auto simp: load_page_def beside_def Let_def mem_put_def elim!: attempt_InrE
        split: if_splits prod.splits sum.splits)
qed

definition same_object :: "VFSFileObject \<Rightarrow> VFSFileObject \<Rightarrow> bool" where
  "same_object f f' \<longleftrightarrow> vf_pos f' = vf_pos f \<and> vf_file_handle f' = vf_file_handle f \<and>
     vf_path f' = vf_path f \<and> vf_is_open f' = vf_is_open f"

lemma load_page_if_needed_ok:
  assumes "load_page_if_needed ops (of_nat (k div 4096)) (f, s) = (Inr (), f', s')" "pages_wf f" "k < 2 ^ 64"
  shows "pages_wf f'" "length (pg_data (page_at f' (of_nat (k div 4096)))) = 4096"
    "same_object f f'" "vf_file_size f' = vf_file_size f"
    "cached f i = Some b \<Longrightarrow> cached f' i = Some b"
proof -
  let ?q = "of_nat (k div 4096) :: u64"
  let ?f = "set_page ?q (page_at f ?q) f"
  have wf: "pages_wf ?f" using pages_wf_page_at[OF assms(2), of ?q] by (intro pages_wf_set_page assms(2))
  have *: "pages_wf f' \<and> length (pg_data (page_at f' ?q)) = 4096 \<and> same_object f f' \<and> vf_file_size f' = vf_file_size f \<and>
      (cached f i = Some b \<longrightarrow> cached f' i = Some b)"
  proof (cases "pg_data (page_at f ?q) = []")
    case True
    then obtain data t where l: "load_page ops ?q (?f, s) = (Inr data, t)"
      "f' = set_page ?q ((page_at (fst t) ?q)\<lparr>pg_data := data\<rparr>) (fst t)"
      using assms(1) by (auto simp: load_page_if_needed_def elim!: andthen_InrE)
    then have t: "fst t = ?f" "length data = 4096" using load_page_ok[of ops ?q ?f s data] by (cases t; simp)+
    have d: "data \<noteq> []" using t(2) by auto
    have "cached ?f i = cached f i" by (simp add: cached_def Let_def)
    moreover have "i div 4096 = k div 4096 \<Longrightarrow> cached f i = None"
      using True by (simp add: cached_def)
    ultimately show ?thesis using wf l(2) t d assms(3)
      by (auto simp: cached_set_page same_object_def intro!: pages_wf_set_page)
  next
    case False
    then have "f' = ?f" using assms(1) by (simp add: load_page_if_needed_def)
    then show ?thesis using wf False pages_wf_page_at(1)[OF assms(2), of ?q]
      by (simp add: same_object_def cached_def Let_def)
  qed
  then show "pages_wf f'" "length (pg_data (page_at f' ?q)) = 4096" "same_object f f'" "vf_file_size f' = vf_file_size f"
    "cached f i = Some b \<Longrightarrow> cached f' i = Some b" by simp_all
qed

subsection \<open>The loops\<close>

lemma same_object_refl: "same_object f f"
  by (simp add: same_object_def)

lemma same_object_trans: "same_object f g \<Longrightarrow> same_object g h \<Longrightarrow> same_object f h"
  by (simp add: same_object_def)

lemma same_page:
  fixes c :: nat
  assumes "c \<le> i" "i < c + n" "n \<le> 4096 - c mod 4096"
  shows "i div 4096 = c div 4096"
proof -
  have "c mod 4096 < 4096" "c = c div 4096 * 4096 + c mod 4096" by simp_all
  then have "c div 4096 * 4096 \<le> i" "i < Suc (c div 4096) * 4096" using assms unfolding mult_Suc by linarith+
  then show ?thesis by (intro div_nat_eqI) (simp_all add: mult.commute)
qed

text \<open>After a round of the loop of \<open>write\<close>.\<close>

lemma write_step:
  assumes "pages_wf f" "length page = 4096" "page_at f (of_nat (c div 4096)) = \<lparr>pg_data = page, pg_dirty = d\<rparr>"
    "length bs \<le> 4096 - c mod 4096" "bs \<noteq> []" "c + length bs < 2 ^ 64"
    "f' = set_page (of_nat (c div 4096)) \<lparr>pg_data = blit (c mod 4096) bs page, pg_dirty = True\<rparr> f"
  shows "pages_wf f'" "cached f' i = (if c \<le> i \<and> i < c + length bs then Some (bs ! (i - c)) else cached f i)"
proof -
  have l: "c mod 4096 + length bs \<le> length page" using assms(2,4) by simp
  have b: "blit (c mod 4096) bs page \<noteq> []" using assms(5) by (simp add: blit_def)
  show "pages_wf f'"
    unfolding assms(7) by (intro pages_wf_set_page assms(1)) (use b l assms(2) in auto)
  have c: "c < 2 ^ 64" using assms(6) by linarith
  have n: "cached f' i = (if i < 2 ^ 64 \<and> i div 4096 = c div 4096 then Some (blit (c mod 4096) bs page ! (i mod 4096)) else cached f i)"
    unfolding assms(7) by (subst cached_set_page) (use b c in simp_all)
  have old: "cached f i = Some (page ! (i mod 4096))" if "i < 2 ^ 64" "i div 4096 = c div 4096"
    using that assms(2,3) by (auto simp: cached_def Let_def)
  show "cached f' i = (if c \<le> i \<and> i < c + length bs then Some (bs ! (i - c)) else cached f i)"
  proof (cases "i < 2 ^ 64 \<and> i div 4096 = c div 4096")
    case True
    have "i mod 4096 < length page" using assms(2) by simp
    moreover have "i = c div 4096 * 4096 + i mod 4096" "c = c div 4096 * 4096 + c mod 4096"
      using True by (metis div_mod_decomp)+
    then have "c \<le> i \<longleftrightarrow> c mod 4096 \<le> i mod 4096" "i < c + length bs \<longleftrightarrow> i mod 4096 < c mod 4096 + length bs"
      "i - c = i mod 4096 - c mod 4096" by linarith+
    ultimately show ?thesis using True old unfolding n by (simp add: nth_blit[OF l])
  next
    case False
    have "i < 2 ^ 64 \<and> i div 4096 = c div 4096" if "c \<le> i" "i < c + length bs"
      using that same_page[OF that assms(4)] assms(6) by simp
    then show ?thesis using False unfolding n by auto
  qed
qed

lemma write_loop_ok:
  assumes "write_loop fuel ops src k (f, s) = (Inr n, f', s')" "pages_wf f" "unat (vf_pos f) + length src < 2 ^ 64"
    "unat k \<le> length src"
  shows "n = of_nat (length src) \<and> pages_wf f' \<and> same_object f f' \<and>
    (\<forall>j. unat k \<le> j \<longrightarrow> j < length src \<longrightarrow> cached f' (unat (vf_pos f) + j) = Some (src ! j)) \<and>
    (\<forall>i b. \<not> (unat (vf_pos f) + unat k \<le> i \<and> i < unat (vf_pos f) + length src) \<longrightarrow> cached f i = Some b \<longrightarrow> cached f' i = Some b) \<and>
    unat (vf_file_size f') = (if unat k < length src then max (unat (vf_file_size f)) (unat (vf_pos f) + length src) else unat (vf_file_size f))"
  using assms
proof (induction fuel arbitrary: k f s)
  case 0
  then show ?case by simp
next
  case (Suc fuel)
  have len: "length src < 2 ^ 64" "unat (of_nat (length src) :: u64) = length src"
    using Suc.prems(3) unat_of_nat_u64[of "length src"] by linarith+
  show ?case
  proof (cases "unat k < length src")
    case False
    then have "unat k = length src" using Suc.prems(4) by simp
    moreover from this have "k = of_nat (length src)" using len(2) word_eq_nat_alt by metis
    ultimately show ?thesis using Suc.prems(1,2) by (simp add: same_object_refl)
  next
    case True
    define c where "c = unat (vf_pos f) + unat k"
    let ?q = "(vf_pos f + k) div 4096"
    let ?chunk = "min (of_nat (length src) - k) (4096 - (vf_pos f + k) mod 4096)"
    let ?bs = "take (unat ?chunk) (drop (unat k) src)"
    have c: "unat (vf_pos f + k) = c" "c < 2 ^ 64"
      using True Suc.prems(3) unat_add_u64[of "vf_pos f" k] unfolding c_def by linarith+
    have q: "?q = of_nat (c div 4096)" using page_index[of "vf_pos f + k"] c(1) by simp
    have ch: "unat ?chunk = min (length src - unat k) (4096 - c mod 4096)"
      using True len(2) c(1) by (subst chunk_unat) (simp_all add: word_le_nat_alt)
    have cm: "c mod 4096 < 4096" by simp
    have lb: "length ?bs = unat ?chunk" using ch by simp
    obtain f1 s1 data where l: "load_page_if_needed ops ?q (f, s) = (Inr (), f1, s1)"
      and p: "mem_put (pg_data (page_at f1 ?q)) (unat ((vf_pos f + k) mod 4096)) ?bs = Inr data"
      and r: "write_loop fuel ops src (k + ?chunk)
          (let f2 = set_page ?q \<lparr>pg_data = data, pg_dirty = True\<rparr> f1
           in if vf_file_size f2 < vf_pos f + k + ?chunk then f2\<lparr>vf_file_size := vf_pos f + k + ?chunk\<rparr> else f2, s1) = (Inr n, f', s')"
      using Suc.prems(1) True len(2)
      by (auto simp: Let_def word_less_nat_alt elim!: andthen_InrE split: sum.splits)
    define chunk bs where "chunk = ?chunk" and "bs = ?bs"
    define f2 where "f2 = set_page (of_nat (c div 4096)) \<lparr>pg_data = data, pg_dirty = True\<rparr> f1"
    define f3 where "f3 = (if vf_file_size f2 < vf_pos f + k + chunk then f2\<lparr>vf_file_size := vf_pos f + k + chunk\<rparr> else f2)"
    have pg: "pages_wf f1" "length (pg_data (page_at f1 ?q)) = 4096" "same_object f f1" "vf_file_size f1 = vf_file_size f"
      and old: "cached f i = Some b \<Longrightarrow> cached f1 i = Some b" for i b
      using load_page_if_needed_ok[OF l[unfolded q] Suc.prems(2) c(2)] unfolding q by blast+
    have lb': "length bs \<le> 4096 - c mod 4096" "bs \<noteq> []" "c + length bs < 2 ^ 64" "length bs = unat chunk"
      "unat chunk \<le> length src - unat k" "0 < unat chunk"
      using lb ch cm True Suc.prems(3) unfolding bs_def chunk_def c_def by (auto simp: min_def split: if_splits)
    have data: "data = blit (c mod 4096) bs (pg_data (page_at f1 ?q))"
      using p c(1) unfolding bs_def mem_put_def by (simp add: unat_mod split: if_splits)
    note step = write_step[OF pg(1) pg(2)[unfolded q] _ lb'(1,2,3) f2_def[unfolded data q]]
    have s2: "pages_wf f2" "cached f2 i = (if c \<le> i \<and> i < c + unat chunk then Some (bs ! (i - c)) else cached f1 i)" for i
      using step[of "pg_dirty (page_at f1 (of_nat (c div 4096)))"] lb'(4) by simp_all
    have f3: "pages_wf f3" "same_object f f3" "cached f3 i = cached f2 i" for i
      using s2(1) pg(3) by (simp_all add: f3_def f2_def same_object_def)
    have pos: "vf_pos f3 = vf_pos f" using f3(2) by (simp add: same_object_def)
    have kc: "unat (k + chunk) = unat k + unat chunk"
      using lb'(5) True len(1) by (intro unat_add_u64) linarith
    have cc: "unat (vf_pos f + k + chunk) = c + unat chunk"
      using lb'(3,4) c by (subst unat_add_u64) simp_all
    have sz: "unat (vf_file_size f3) = max (unat (vf_file_size f)) (c + unat chunk)"
      using pg(4) cc by (simp add: f3_def f2_def word_less_nat_alt max_def)
    have "write_loop fuel ops src (k + chunk) (f3, s1) = (Inr n, f', s')"
      using r unfolding f3_def f2_def chunk_def by (simp add: Let_def q)
    from Suc.IH[OF this f3(1)] have ih: "n = of_nat (length src)" "pages_wf f'" "same_object f3 f'"
      "\<And>j. unat k + unat chunk \<le> j \<Longrightarrow> j < length src \<Longrightarrow> cached f' (unat (vf_pos f) + j) = Some (src ! j)"
      "\<And>i b. \<not> (unat (vf_pos f) + (unat k + unat chunk) \<le> i \<and> i < unat (vf_pos f) + length src) \<Longrightarrow> cached f3 i = Some b \<Longrightarrow> cached f' i = Some b"
      "unat (vf_file_size f') = (if unat k + unat chunk < length src then max (unat (vf_file_size f3)) (unat (vf_pos f) + length src) else unat (vf_file_size f3))"
      using Suc.prems(3) lb'(5) True unfolding pos kc by auto
    have "cached f' (unat (vf_pos f) + j) = Some (src ! j)" if "unat k \<le> j" "j < length src" for j
    proof (cases "unat k + unat chunk \<le> j")
      case True
      then show ?thesis using ih(4) that by simp
    next
      case False
      have "bs ! (j - unat k) = src ! j"
        using False that unfolding bs_def by (simp add: chunk_def[symmetric])
      then have "cached f3 (unat (vf_pos f) + j) = Some (src ! j)"
        using False that by (simp add: f3(3) s2(2) c_def)
      then show ?thesis using ih(5) False by simp
    qed
    moreover have "cached f' i = Some b"
      if "\<not> (unat (vf_pos f) + unat k \<le> i \<and> i < unat (vf_pos f) + length src)" "cached f i = Some b" for i b
    proof -
      have "\<not> (c \<le> i \<and> i < c + unat chunk)" using that(1) lb'(5) True unfolding c_def by linarith
      then have "cached f3 i = Some b" using old[OF that(2)] by (auto simp: f3(3) s2(2))
      then show ?thesis using ih(5) that(1) by simp
    qed
    moreover have "unat (vf_file_size f') = max (unat (vf_file_size f)) (unat (vf_pos f) + length src)"
      using ih(6) sz lb'(5) True unfolding c_def by (simp split: if_splits)
    ultimately show ?thesis using ih(1,2,3) f3(2) True same_object_trans[of f f3 f'] by simp
  qed
qed

lemma read_chunk_cached:
  assumes "pages_wf f" "\<And>j. j < n \<Longrightarrow> cached f (unat c + j) = Some (D ! j)" "length dst = n" "0 < n"
    "n \<le> 4096 - unat c mod 4096" "length D = n"
  shows "read_chunk ops f s c dst = (Inr (Inr ()), D, s)"
proof -
  define page where "page = page_at f (c div 4096)"
  have q: "of_nat ((unat c + j) div 4096) = c div 4096" if "j < n" for j
    using same_page[of "unat c" "unat c + j" n] that assms(5) page_index[of c] by simp
  have ne: "pg_data page \<noteq> []"
    using assms(2)[of 0] assms(4) q[of 0] by (auto simp: cached_def Let_def page_def split: if_splits)
  then have l: "length (pg_data page) = 4096" using pages_wf_page_at(1)[OF assms(1)] unfolding page_def by blast
  have "pg_data page ! (unat c mod 4096 + j) = D ! j" if "j < n" for j
  proof -
    have "(unat c + j) mod 4096 = unat c mod 4096 + j"
      using that assms(5) by (simp add: mod_add_left_eq[symmetric, of "unat c"] del: mod_add_left_eq)
    then show ?thesis using assms(2)[OF that] q[OF that] unfolding page_def by (auto simp: cached_def Let_def split: if_splits)
  qed
  then have "take n (drop (unat c mod 4096) (pg_data page)) = D"
    using l assms(4,5,6) by (intro nth_equalityI) simp_all
  then show ?thesis using ne l assms(3,4,5)
    by (simp add: read_chunk_def Let_def page_def[symmetric] unat_mod mem_get_def)
qed

lemma read_loop_cached:
  assumes "pages_wf f" "\<And>j. unat k \<le> j \<Longrightarrow> j < unat m \<Longrightarrow> cached f (unat (vf_pos f) + j) = Some (D ! j)"
    "unat (vf_pos f) + unat m < 2 ^ 64" "unat k \<le> unat m" "length D = unat m" "unat m \<le> length dst" "unat m - unat k < fuel"
  shows "read_loop fuel ops f s m k dst = (Inr (Inr m), take (unat k) dst @ drop (unat k) D @ drop (unat m) dst, s)"
  using assms(2,4,6,7)
proof (induction fuel arbitrary: k dst)
  case 0
  then show ?case by simp
next
  case (Suc fuel)
  show ?case
  proof (cases "unat k < unat m")
    case False
    then have "k = m" using Suc.prems(2) by (simp add: word_eq_nat_alt)
    then show ?thesis using assms(5) by simp
  next
    case True
    let ?c = "vf_pos f + k"
    let ?chunk = "min (m - k) (4096 - ?c mod 4096)"
    have c: "unat ?c = unat (vf_pos f) + unat k"
      using True assms(3) by (intro unat_add_u64) linarith
    have ch: "unat ?chunk = min (unat m - unat k) (4096 - unat ?c mod 4096)"
      using True by (subst chunk_unat) (simp_all add: word_le_nat_alt)
    have "unat ?c mod 4096 < 4096" by simp
    then have chb: "0 < unat ?chunk" "unat ?chunk \<le> unat m - unat k" "unat ?chunk \<le> 4096 - unat ?c mod 4096"
      using True unfolding ch by simp_all
    define n where "n = unat ?chunk"
    define part where "part = take n (drop (unat k) D)"
    have lp: "length part = n" using chb assms(5) unfolding part_def n_def by simp
    have "read_chunk ops f s ?c (take n (drop (unat k) dst)) = (Inr (Inr ()), part, s)"
    proof (rule read_chunk_cached[OF assms(1)])
      show "cached f (unat ?c + j) = Some (part ! j)" if "j < n" for j
        using that Suc.prems(1)[of "unat k + j"] chb c assms(5) unfolding part_def n_def by (simp add: add.assoc)
    qed (use chb lp Suc.prems(3) in \<open>simp_all add: n_def\<close>)
    moreover have "mem_get dst (unat k) n = Inr (take n (drop (unat k) dst))"
      using chb Suc.prems(3) unfolding n_def by (intro mem_get_ok) linarith
    ultimately have "read_loop (Suc fuel) ops f s m k dst = read_loop fuel ops f s m (k + ?chunk) (blit (unat k) part dst)"
      using True by (simp add: Let_def word_less_nat_alt n_def)
    moreover have kc: "unat (k + ?chunk) = unat k + n" and kn: "0 < n" "unat k + n \<le> unat m"
      using chb True unat_u64_less(1)[of m] unat_add_u64[of k ?chunk] unfolding n_def by linarith+
    moreover have lb: "length (blit (unat k) part dst) = length dst"
      using lp kn(2) Suc.prems(3) by simp
    ultimately have "read_loop (Suc fuel) ops f s m k dst =
        (Inr (Inr m), take (unat k + n) (blit (unat k) part dst) @ drop (unat k + n) D @ drop (unat m) (blit (unat k) part dst), s)"
      using Suc.IH[of "k + ?chunk" "blit (unat k) part dst"] Suc.prems unfolding kc by simp
    also have "take (unat k + n) (blit (unat k) part dst) = take (unat k) dst @ part"
      using lp kn Suc.prems(3) by (simp add: blit_def)
    also have "drop (unat m) (blit (unat k) part dst) = drop (unat m) dst"
      using lp kn Suc.prems(3) by (simp add: blit_def)
    also have "(take (unat k) dst @ part) @ drop (unat k + n) D @ drop (unat m) dst = take (unat k) dst @ drop (unat k) D @ drop (unat m) dst"
      using append_take_drop_id[of n "drop (unat k) D"] unfolding part_def by (simp add: add.commute)
    finally show ?thesis .
  qed
qed

text \<open>\<open>write\<close> as a whole.\<close>

lemma file_write_ok:
  assumes "VFSFileObject_write ops data (f, s) = (Inr n, f', s')" "pages_wf f" "vf_is_open f" "data \<noteq> []"
    "unat (vf_pos f) + length data < 2 ^ 64"
  obtains g where "f' = g\<lparr>vf_pos := vf_pos f + n\<rparr>" "n = of_nat (length data)" "pages_wf g" "same_object f g"
    "\<And>j. j < length data \<Longrightarrow> cached g (unat (vf_pos f) + j) = Some (data ! j)"
    "\<And>i b. \<not> (unat (vf_pos f) \<le> i \<and> i < unat (vf_pos f) + length data) \<Longrightarrow> cached f i = Some b \<Longrightarrow> cached g i = Some b"
    "unat (vf_file_size g) = max (unat (vf_file_size f)) (unat (vf_pos f) + length data)"
proof -
  obtain g t where g: "write_loop (Suc (length data)) ops data 0 (f, mutex_lock s) = (Inr n, g, t)"
    "f' = g\<lparr>vf_pos := vf_pos g + n\<rparr>"
    using assms(1,3,4) by (auto simp: VFSFileObject_write_def file_guard_def elim!: andthen_InrE split: prod.splits)
  note ok = write_loop_ok[OF g(1) assms(2,5)]
  show thesis
    by (rule that[of g]) (use ok g(2) assms(4) in \<open>auto simp: same_object_def\<close>)
qed

lemma mutex_roundtrip [simp]: "mutex_unlock (mutex_lock s) = s"
  by (simp add: mutex_lock_def mutex_unlock_def lfs_bd_cb_lock_def lfs_bd_cb_unlock_def)

lemma file_read_cached:
  assumes "pages_wf g" "vf_is_open g" "data \<noteq> []" "length buffer = length data"
    "\<And>j. j < length data \<Longrightarrow> cached g (unat p + j) = Some (data ! j)" "unat p + length data \<le> unat (vf_file_size g)"
  shows "VFSFileObject_read ops buffer (g\<lparr>vf_pos := p\<rparr>, t) =
    (Inr (Inr (of_nat (length data)), data), g\<lparr>vf_pos := p + of_nat (length data)\<rparr>, t)"
proof -
  define n where "n = (of_nat (length data) :: u64)"
  have b: "unat p + length data < 2 ^ 64" using assms(6) unat_u64_less(1)[of "vf_file_size g"] by linarith
  then have n: "unat n = length data" unfolding n_def by (intro unat_of_nat_u64) linarith
  have lt: "\<not> vf_file_size g \<le> p" using assms(3,6) by (cases data) (auto simp: word_le_nat_alt)
  have "n \<le> vf_file_size g - p" using assms(6) n lt by (simp add: word_le_nat_alt unat_sub)
  then have m: "min n (vf_file_size g - p) = n" by (rule min_absorb1)
  have "read_loop (Suc (unat n)) ops (g\<lparr>vf_pos := p\<rparr>) (mutex_lock t) n 0 buffer = (Inr (Inr n), data, mutex_lock t)"
    by (subst read_loop_cached[where D = data]) (use assms(1,4,5) n b in simp_all)
  moreover have "buffer \<noteq> []" using assms(3,4) by auto
  ultimately show ?thesis
    using assms(2,4) lt m
    by (simp add: VFSFileObject_read_def file_guard_def n_def[symmetric] del: read_loop.simps)
qed

subsection \<open>Flushing\<close>

definition same_content :: "VFSFileObject \<Rightarrow> VFSFileObject \<Rightarrow> bool" where
  "same_content f f' \<longleftrightarrow> same_object f f' \<and> vf_file_size f' = vf_file_size f \<and>
     (\<forall>i. pg_data (page_at f' i) = pg_data (page_at f i))"

lemma same_content_refl: "same_content f f"
  by (simp add: same_content_def same_object_refl)

lemma same_content_trans: "same_content f g \<Longrightarrow> same_content g h \<Longrightarrow> same_content f h"
  by (auto simp: same_content_def intro: same_object_trans)

lemma same_content_cached: "same_content f f' \<Longrightarrow> cached f' i = cached f i"
  by (simp add: same_content_def cached_def Let_def)

text \<open>A result that is no error number of littlefs.\<close>

fun no_error :: "'a result \<Rightarrow> bool" where
  "no_error (Inl (Err e)) = False"
| "no_error _ = True"

lemma no_error_attempt: "(\<And>r t. no_error (fst (g r t))) \<Longrightarrow> no_error (fst (attempt m g))"
  by (auto simp: attempt_def split: prod.splits sum.splits halt.splits)

lemma no_error_andthen: "no_error (fst m) \<Longrightarrow> (\<And>r t. no_error (fst (g r t))) \<Longrightarrow> no_error (fst (andthen m g))"
  by (cases "fst m" rule: no_error.cases) (auto simp: andthen_def split: prod.splits sum.splits)

lemma mem_get_Inl: "mem_get m k n = Inl h \<Longrightarrow> h = Undefined_behaviour"
  by (simp add: mem_get_def split: if_splits)

lemma flush_page_no_error: "no_error (fst (flush_page ops i fs))"
  by (auto simp: flush_page_def Let_def intro!: no_error_andthen no_error_attempt split: sum.splits prod.splits dest!: mem_get_Inl)

lemma flush_page_ok:
  assumes "flush_page ops i (f, s) = (Inr (), f', s')"
  shows "f' = set_page i ((page_at f i)\<lparr>pg_dirty := False\<rparr>) f"
  using assms
  by (auto simp: flush_page_def Let_def beside_def elim!: andthen_InrE attempt_InrE split: if_splits prod.splits sum.splits)

lemma flush_pages_no_error: "no_error (fst (flush_pages ops is fs))"
  by (induction "is" arbitrary: fs) (auto intro!: no_error_andthen flush_page_no_error)

lemma flush_pages_ok:
  assumes "flush_pages ops is (f, s) = (Inr (), f', s')" "pages_wf f"
  shows "same_content f f' \<and> pages_wf f' \<and> (\<forall>i. pg_dirty (page_at f' i) \<longleftrightarrow> pg_dirty (page_at f i) \<and> i \<notin> set is)"
  using assms
proof (induction "is" arbitrary: f s)
  case Nil
  then show ?case by (simp add: same_content_refl)
next
  case (Cons k ks)
  obtain g t where g: "flush_page ops k (f, s) = (Inr (), g, t)" "flush_pages ops ks (g, t) = (Inr (), f', s')"
    using Cons.prems(1) by (auto elim!: andthen_InrE)
  note e = flush_page_ok[OF g(1)]
  have "pages_wf g" unfolding e
    by (intro pages_wf_set_page Cons.prems(2)) (use pages_wf_page_at[OF Cons.prems(2), of k] in auto)
  moreover have "same_content f g" unfolding e by (simp add: same_content_def same_object_def)
  ultimately show ?case using Cons.IH[OF g(2)] e by (auto intro: same_content_trans)
qed

lemma set_dirty_pages: "pages_wf f \<Longrightarrow> set (dirty_pages f) = {i. pg_dirty (page_at f i)}"
proof -
  assume "pages_wf f"
  then have m: "map_of (vf_pages f) i = Some p \<longleftrightarrow> (i, p) \<in> set (vf_pages f)" for i p
    by (simp add: pages_wf_def)
  have "pg_dirty (page_at f i) \<longleftrightarrow> (\<exists>p. map_of (vf_pages f) i = Some p \<and> pg_dirty p)" for i
    by (simp add: page_at_def split: option.split)
  then show ?thesis unfolding m by (auto simp: dirty_pages_def image_iff)
qed

lemma flush_internal_ok:
  assumes "flush_internal ops (f, s) = (Inr (), f', s')" "pages_wf f" "vf_is_open f"
  shows "same_content f f' \<and> pages_wf f' \<and> (\<forall>i. \<not> pg_dirty (page_at f' i))"
proof -
  obtain t where "flush_pages ops (dirty_pages f) (f, s) = (Inr (), f', t)"
    using assms(1,3) by (auto simp: flush_internal_def beside_def elim!: andthen_InrE attempt_InrE split: prod.splits)
  from flush_pages_ok[OF this assms(2)] show ?thesis using set_dirty_pages[OF assms(2)] by auto
qed

lemma file_flush_ok:
  assumes "VFSFileObject_flush ops (f, s) = (Inr (), f', s')" "pages_wf f" "vf_is_open f"
  shows "same_content f f' \<and> pages_wf f' \<and> (\<forall>i. \<not> pg_dirty (page_at f' i))"
  using flush_internal_ok[OF _ assms(2,3)] assms(1,3)
  by (auto simp: VFSFileObject_flush_def file_guard_def split: prod.splits)

lemma flush_internal_no_error: "no_error (fst (flush_internal ops fs))"
  by (auto simp: flush_internal_def split: prod.splits intro!: no_error_andthen no_error_attempt flush_pages_no_error)

subsection \<open>Streams\<close>

text \<open>The characters \<open>cs\<close> have gone into a stream over a file that stood at \<open>p\<close>.\<close>

definition stream_has :: "u64 \<Rightarrow> u8 list \<Rightarrow> VFSStreamBuf \<Rightarrow> bool" where
  "stream_has p cs sb \<longleftrightarrow>
     (\<exists>f k. sb_file sb = Some f \<and> pages_wf f \<and> vf_is_open f \<and> k + sb_pptr sb = length cs \<and>
        sb_pptr sb \<le> length (sb_buffer sb) \<and> take (sb_pptr sb) (sb_buffer sb) = drop k cs \<and>
        vf_pos f = p + of_nat k \<and> unat p + k \<le> unat (vf_file_size f) \<and>
        (\<forall>j<k. cached f (unat p + j) = Some (cs ! j)))"

lemma stream_has_append:
  assumes "pages_wf f" "vf_is_open f" "unat p + length cs < 2 ^ 64" "vf_pos f = p + of_nat k" "k + length bs = length cs"
    "bs = drop k cs" "bs \<noteq> []" "\<forall>j<k. cached f (unat p + j) = Some (cs ! j)"
    "VFSFileObject_write ops bs (f, s) = (Inr n, f', s')"
  shows "n = of_nat (length bs)" "pages_wf f'" "vf_is_open f'" "vf_pos f' = p + of_nat (length cs)"
    "unat p + length cs \<le> unat (vf_file_size f')" "\<forall>j<length cs. cached f' (unat p + j) = Some (cs ! j)"
proof -
  have k: "unat (vf_pos f) = unat p + k" unfolding assms(4) by (rule unat_add_of_nat_u64) (use assms(3,5) in linarith)
  then have b: "unat (vf_pos f) + length bs < 2 ^ 64" using assms(3,5) by linarith
  obtain g where g: "f' = g\<lparr>vf_pos := vf_pos f + n\<rparr>" "n = of_nat (length bs)" "pages_wf g" "same_object f g"
    "\<And>j. j < length bs \<Longrightarrow> cached g (unat (vf_pos f) + j) = Some (bs ! j)"
    "\<And>i b. \<not> (unat (vf_pos f) \<le> i \<and> i < unat (vf_pos f) + length bs) \<Longrightarrow> cached f i = Some b \<Longrightarrow> cached g i = Some b"
    "unat (vf_file_size g) = max (unat (vf_file_size f)) (unat (vf_pos f) + length bs)"
    using file_write_ok[OF assms(9,1,2,7) b] by blast
  show "n = of_nat (length bs)" "pages_wf f'" "vf_is_open f'" using g assms(2) by (simp_all add: same_object_def)
  show "vf_pos f' = p + of_nat (length cs)" using g(1,2) assms(4,5) by (simp flip: of_nat_add)
  show "unat p + length cs \<le> unat (vf_file_size f')" using g(1,7) k assms(5) by simp
  show "\<forall>j<length cs. cached f' (unat p + j) = Some (cs ! j)"
  proof (intro allI impI)
    fix j assume j: "j < length cs"
    show "cached f' (unat p + j) = Some (cs ! j)"
    proof (cases "j < k")
      case True
      then show ?thesis using g(1) g(6)[of "unat p + j"] assms(8) k by simp
    next
      case False
      then have "j - k < length bs" "bs ! (j - k) = cs ! j" "unat (vf_pos f) + (j - k) = unat p + j"
        using j assms(5,6) k by auto
      then show ?thesis using g(1) g(5)[of "j - k"] by simp
    qed
  qed
qed

lemma stream_sync_ok:
  assumes "VFSStreamBuf_sync ops (sb, s) = (Inr 0, sb', s')" "stream_has p cs sb" "unat p + length cs < 2 ^ 64"
  shows "stream_has p cs sb'" "sb_pptr sb' = 0" "length (sb_buffer sb') = length (sb_buffer sb)"
    "\<exists>f. sb_file sb' = Some f \<and> pages_wf f \<and> vf_is_open f \<and> vf_pos f = p + of_nat (length cs) \<and>
       unat p + length cs \<le> unat (vf_file_size f) \<and> (\<forall>j<length cs. cached f (unat p + j) = Some (cs ! j)) \<and>
       (\<forall>i. \<not> pg_dirty (page_at f i))"
proof -
  obtain f k where f: "sb_file sb = Some f" "pages_wf f" "vf_is_open f" "k + sb_pptr sb = length cs"
    "sb_pptr sb \<le> length (sb_buffer sb)" "take (sb_pptr sb) (sb_buffer sb) = drop k cs" "vf_pos f = p + of_nat k"
    "unat p + k \<le> unat (vf_file_size f)" "\<forall>j<k. cached f (unat p + j) = Some (cs ! j)"
    using assms(2) unfolding stream_has_def by blast
  let ?all = "\<lambda>f. pages_wf f \<and> vf_is_open f \<and> vf_pos f = p + of_nat (length cs) \<and>
       unat p + length cs \<le> unat (vf_file_size f) \<and> (\<forall>j<length cs. cached f (unat p + j) = Some (cs ! j))"
  have *: "\<exists>g t. ?all g \<and> (case VFSFileObject_flush ops (g, t) of (r, g', t') \<Rightarrow> r = Inr () \<and>
      sb' = sb\<lparr>sb_pptr := 0, sb_file := Some g'\<rparr> \<and> s' = t')"
  proof (cases "0 < sb_pptr sb")
    case True
    then obtain g t where g: "VFSFileObject_write ops (take (sb_pptr sb) (sb_buffer sb)) (f, s) = (Inr (of_nat (sb_pptr sb)), g, t)"
      "(case VFSFileObject_flush ops (g, t) of (r, g', t') \<Rightarrow> r = Inr () \<and> sb' = sb\<lparr>sb_pptr := 0, sb_file := Some g'\<rparr> \<and> s' = t')"
      using assms(1) f(1)
      by (auto simp: VFSStreamBuf_sync_def on_file_def elim!: andthen_InrE attempt_InrE split: prod.splits sum.splits if_splits)
    have ne: "take (sb_pptr sb) (sb_buffer sb) \<noteq> []" using True f(5) by auto
    have l: "k + length (take (sb_pptr sb) (sb_buffer sb)) = length cs" using f(4,5) by simp
    from stream_has_append[OF f(2,3) assms(3) f(7) l f(6) ne f(9) g(1)] show ?thesis using g(2)
      by (intro exI[of _ g] exI[of _ t]) simp
  next
    case False
    then have k: "k = length cs" using f(4) by simp
    have "(case VFSFileObject_flush ops (f, s) of (r, g', t') \<Rightarrow> r = Inr () \<and> sb' = sb\<lparr>sb_pptr := 0, sb_file := Some g'\<rparr> \<and> s' = t')"
      using assms(1) f(1) False
      by (auto simp: VFSStreamBuf_sync_def on_file_def elim!: andthen_InrE split: prod.splits)
    then show ?thesis using f k by (intro exI[of _ f] exI[of _ s]) simp
  qed
  then obtain g t where gt: "?all g" "case VFSFileObject_flush ops (g, t) of (r, g', t') \<Rightarrow> r = Inr () \<and>
      sb' = sb\<lparr>sb_pptr := 0, sb_file := Some g'\<rparr> \<and> s' = t'"
    by (elim exE conjE) (rule that, intro conjI, assumption+)
  obtain r g' t' where "VFSFileObject_flush ops (g, t) = (r, g', t')" by (metis prod_cases3)
  with gt have g: "?all g" "VFSFileObject_flush ops (g, t) = (Inr (), g', s')"
    "sb' = sb\<lparr>sb_pptr := 0, sb_file := Some g'\<rparr>" by simp_all
  have fl: "same_content g g'" "pages_wf g'" "\<forall>i. \<not> pg_dirty (page_at g' i)"
    using file_flush_ok[OF g(2)] g(1) by blast+
  then have all: "?all g'" using g(1) same_content_cached[OF fl(1)] by (simp add: same_content_def same_object_def)
  show "stream_has p cs sb'" unfolding stream_has_def g(3) using all by (intro exI[of _ g'] exI[of _ "length cs"]) simp
  show "sb_pptr sb' = 0" "length (sb_buffer sb') = length (sb_buffer sb)" unfolding g(3) by simp_all
  show "\<exists>f. sb_file sb' = Some f \<and> pages_wf f \<and> vf_is_open f \<and> vf_pos f = p + of_nat (length cs) \<and>
       unat p + length cs \<le> unat (vf_file_size f) \<and> (\<forall>j<length cs. cached f (unat p + j) = Some (cs ! j)) \<and>
       (\<forall>i. \<not> pg_dirty (page_at f i))"
    unfolding g(3) using all fl(3) by simp
qed

lemma stream_sputc_ok:
  assumes "VFSStreamBuf_sputc ops c (sb, s) = (Inr r, sb', s')" "r \<noteq> stream_eof" "stream_has p cs sb" "unat p + length cs + 1 < 2 ^ 64"
  shows "stream_has p (cs @ [c]) sb'"
proof (cases "sb_pptr sb < length (sb_buffer sb)")
  case True
  obtain f k where f: "sb_file sb = Some f" "pages_wf f" "vf_is_open f" "k + sb_pptr sb = length cs"
    "take (sb_pptr sb) (sb_buffer sb) = drop k cs" "vf_pos f = p + of_nat k"
    "unat p + k \<le> unat (vf_file_size f)" "\<forall>j<k. cached f (unat p + j) = Some (cs ! j)"
    using assms(3) unfolding stream_has_def by blast
  have "sb' = sb\<lparr>sb_buffer := (sb_buffer sb)[sb_pptr sb := c], sb_pptr := sb_pptr sb + 1\<rparr>"
    using assms(1) True by (simp add: VFSStreamBuf_sputc_def)
  then show ?thesis using f True unfolding stream_has_def
    by (intro exI[of _ f] exI[of _ k]) (simp add: take_Suc_conv_app_nth nth_append)
next
  case False
  let ?c = "uint c"
  have "0 \<le> ?c" by simp
  then have c: "?c \<noteq> stream_eof" "word_of_int ?c = c" by (linarith, simp)
  obtain sb1 s1 f g where s1: "VFSStreamBuf_sync ops (sb, s) = (Inr 0, sb1, s1)" "sb_file sb1 = Some f"
    "VFSFileObject_write ops [c] (f, s1) = (Inr 1, g, s')" "sb' = sb1\<lparr>sb_file := Some g\<rparr>"
    using assms(1,2) False c
    by (auto simp: VFSStreamBuf_sputc_def VFSStreamBuf_overflow_def on_file_def elim!: andthen_InrE attempt_InrE
        split: if_splits option.splits prod.splits sum.splits)
  have f: "pages_wf f" "vf_is_open f" "vf_pos f = p + of_nat (length cs)" "unat p + length cs \<le> unat (vf_file_size f)"
    "\<forall>j<length cs. cached f (unat p + j) = Some (cs ! j)" "sb_pptr sb1 = 0"
    using stream_sync_ok[OF s1(1) assms(3)] assms(4) s1(2) by auto
  have old: "\<forall>j<length cs. cached f (unat p + j) = Some ((cs @ [c]) ! j)" using f(5) by (simp add: nth_append)
  have ap: "pages_wf g" "vf_is_open g" "vf_pos g = p + of_nat (length (cs @ [c]))" "unat p + length (cs @ [c]) \<le> unat (vf_file_size g)"
    "\<forall>j<length (cs @ [c]). cached g (unat p + j) = Some ((cs @ [c]) ! j)"
    using stream_has_append[OF f(1,2) _ f(3) _ _ _ old s1(3)] assms(4) by simp_all
  then show ?thesis unfolding stream_has_def s1(4) using f(6)
    by (intro exI[of _ g] exI[of _ "length (cs @ [c])"]) simp
qed

lemma stream_sputn_ok:
  assumes "VFSStreamBuf_sputn ops ds (sb, s) = (Inr (length ds), sb', s')" "stream_has p cs sb" "unat p + length cs + length ds < 2 ^ 64"
  shows "stream_has p (cs @ ds) sb'"
  using assms
proof (induction ds arbitrary: cs sb s)
  case Nil
  then show ?case by simp
next
  case (Cons c ds)
  obtain r sb1 s1 where r: "VFSStreamBuf_sputc ops c (sb, s) = (Inr r, sb1, s1)" "r \<noteq> stream_eof"
    "VFSStreamBuf_sputn ops ds (sb1, s1) = (Inr (length ds), sb', s')"
    using Cons.prems(1) by (auto elim!: andthen_InrE split: if_splits)
  have "stream_has p (cs @ [c]) sb1" using stream_sputc_ok[OF r(1,2) Cons.prems(2)] Cons.prems(3) by simp
  from Cons.IH[OF r(3) this] show ?case using Cons.prems(3) by simp
qed

subsection \<open>Error codes\<close>

lemma error_table:
  "lfsToErrorCode (lfs_error_code e) =
     (case e of LFS_ERR_IO \<Rightarrow> kIoError | LFS_ERR_CORRUPT \<Rightarrow> kCorrupted | LFS_ERR_NOENT \<Rightarrow> kFileNotFound
      | LFS_ERR_EXIST \<Rightarrow> kFileExists | LFS_ERR_NOTDIR \<Rightarrow> kNotDirectory | LFS_ERR_ISDIR \<Rightarrow> kIsDirectory
      | LFS_ERR_NOTEMPTY \<Rightarrow> kDirectoryNotEmpty | LFS_ERR_BADF \<Rightarrow> kBadFileDescriptor | LFS_ERR_FBIG \<Rightarrow> kFileTooLarge
      | LFS_ERR_INVAL \<Rightarrow> kInvalidParameter | LFS_ERR_NOSPC \<Rightarrow> kNoSpaceOnDevice | LFS_ERR_NOMEM \<Rightarrow> kNoMemory
      | LFS_ERR_NOATTR \<Rightarrow> kNoAttribute | LFS_ERR_NAMETOOLONG \<Rightarrow> kNameTooLong)"
  by (cases e) (simp_all add: lfsToErrorCode_def kErrorMap_def)

lemma legacy_of_number: "e \<noteq> kSuccess \<Longrightarrow> lfsToLegacyErrorCode (ErrorCode_int e) = kCodeUnknownError"
  by (cases e) (simp_all add: lfsToLegacyErrorCode_def kErrorMap_def)

section \<open>Sample objects\<close>

definition sample_limited :: "memory_device vfs" where
  "sample_limited =
     (vfs_handle memory_ops (MemoryBlockDevice 0 0))
       \<lparr>l_metadata_list := [(1, File (lfs_file_zero\<lparr>f_flags := LFS_O_RDWR\<rparr>))], l_file_max_size := 2\<rparr>"

definition sample_object :: "u64 \<Rightarrow> VFSFileObject" where
  "sample_object pos =
     \<lparr>vf_file_handle = 1, vf_path = [], vf_pos = pos, vf_file_size = 8192, vf_is_open = True,
      vf_pages = [(0, \<lparr>pg_data = replicate 4096 0, pg_dirty = True\<rparr>), (1, \<lparr>pg_data = replicate 4096 0, pg_dirty = False\<rparr>)]\<rparr>"

lemma sample_object_wf: "pages_wf (sample_object p)" "vf_is_open (sample_object p)" "vf_pos (sample_object p) = p"
  by (simp_all add: pages_wf_def sample_object_def)

lemma write_loop_numeral:
  "write_loop (numeral n) ops src k fs = write_loop (Suc (pred_numeral n)) ops src k fs"
  by (simp only: numeral_eq_Suc)

lemma sample_write: "\<exists>f' s'. VFSFileObject_write memory_ops [7, 8, 9] (sample_object 4094, sample_limited) = (Inr 3, f', s')"
  by (simp add: VFSFileObject_write_def file_guard_def sample_object_def load_page_if_needed_def page_at_def set_page_def
      mem_put_def Let_def write_loop_numeral blit_def)

lemma sample_remove: "fst (lfs_remove (vfs_grow memory_ops) (mutex_lock sample_limited) (c_str [47])) = Inl (Err LFS_ERR_INVAL)"
  by code_simp
lemma sample_open: "fst (lfsVFS_open memory_ops 2 [47] 1 sample_limited) = Inr (Error kIsDirectory)"
  by code_simp

text \<open>A file without changes in a file system whose files hold two bytes at most.\<close>

definition idle_file :: "memory_device vfs \<Rightarrow> bool" where
  "idle_file s \<longleftrightarrow> (\<exists>d. l_cfg s = vfs_config memory_ops d) \<and> l_file_max_size s = 2 \<and>
     l_metadata_list s = [(1, File (lfs_file_zero\<lparr>f_flags := LFS_O_RDWR\<rparr>))]"

lemma idle_file_mutex: "idle_file (mutex_lock s) = idle_file s" "idle_file (mutex_unlock s) = idle_file s"
  by (simp_all add: idle_file_def mutex_lock_def mutex_unlock_def)

lemma idle_file_sample: "idle_file sample_limited"
  by (auto simp: idle_file_def sample_limited_def vfs_handle_def Let_def)

lemma idle_file_calls:
  assumes "idle_file s"
  shows "lfs_file_seek grow s 1 0 LFS_SEEK_SET = (Inr 0, s)" "lfs_file_sync grow s 1 = (Inr (), s)"
    "length bs = 4096 \<Longrightarrow> lfs_file_write grow s 1 bs = (Inl (Err LFS_ERR_FBIG), s)"
  using assms
  by (auto simp: idle_file_def lfs_file_seek_def lfs_file_sync_def lfs_file_write_def locked_def locked_by_def asserting_open_def
      vfs_config_def lfs_bd_cb_lock_def lfs_bd_cb_unlock_def get_file_def file_at_def lfs_file_zero_def mdir_zero_def
      lfs_file_rawseek_def seek_target_def lfs_file_rawsync_def lfs_file_flush_def has_flag_def mark_erred_def lfs_file_rawwrite_def modify_file_def set_file_def)

definition object_at_0 :: "VFSFileObject \<Rightarrow> bool" where
  "object_at_0 f \<longleftrightarrow> pages_wf f \<and> vf_is_open f \<and> vf_file_handle f = 1 \<and> vf_file_size f = 8192 \<and>
     length (pg_data (page_at f 0)) = 4096 \<and> {i. pg_dirty (page_at f i)} \<subseteq> {0}"

lemma sorted_single: "sorted xs \<Longrightarrow> distinct xs \<Longrightarrow> set xs \<subseteq> {x} \<Longrightarrow> xs = [] \<or> xs = [x]"
  by (cases xs; cases "tl xs") auto

lemma idle_flush:
  assumes "object_at_0 f" "idle_file s"
  shows "\<exists>f'. VFSFileObject_flush memory_ops (f, s) = (Inr (), f', s)"
proof -
  have f: "pages_wf f" "vf_is_open f" "vf_file_handle f = 1" "vf_file_size f = 8192" "length (pg_data (page_at f 0)) = 4096"
    using assms(1) by (simp_all add: object_at_0_def)
  have "distinct (dirty_pages f)"
    using f(1) distinct_map_filter[of fst "vf_pages f"] unfolding dirty_pages_def pages_wf_def by simp
  then have "dirty_pages f = [] \<or> dirty_pages f = [0]"
    using set_dirty_pages[OF f(1)] assms(1) by (intro sorted_single) (simp_all add: object_at_0_def dirty_pages_def)
  moreover have s: "idle_file (mutex_lock s)" using assms(2) by (simp add: idle_file_mutex)
  ultimately show ?thesis
    using f(2,3,4,5) idle_file_calls[OF s]
    by (elim disjE) (simp_all add: VFSFileObject_flush_def file_guard_def flush_internal_def flush_page_def beside_def attempt_def
      mem_get_def Let_def)
qed

lemma object_at_0_set_page:
  assumes "object_at_0 f" "length data = 4096"
  shows "object_at_0 (set_page 0 \<lparr>pg_data = data, pg_dirty = True\<rparr> f)"
  using assms by (auto simp: object_at_0_def intro!: pages_wf_set_page)

lemma object_at_0_pos: "object_at_0 (f\<lparr>vf_pos := p\<rparr>) = object_at_0 f"
  by (simp add: object_at_0_def)

lemma object_at_0_load:
  assumes "object_at_0 f"
  shows "load_page_if_needed ops 0 (f, s) = (Inr (), set_page 0 (page_at f 0) f, s)" "object_at_0 (set_page 0 (page_at f 0) f)"
proof -
  have "pg_data (page_at f 0) \<noteq> []" "pages_wf f" using assms by (auto simp: object_at_0_def)
  then show "load_page_if_needed ops 0 (f, s) = (Inr (), set_page 0 (page_at f 0) f, s)"
    "object_at_0 (set_page 0 (page_at f 0) f)"
    using assms by (auto simp: object_at_0_def load_page_if_needed_def Let_def intro!: pages_wf_set_page)
qed

lemma idle_write:
  assumes "object_at_0 f" "vf_pos f = 0 \<and> bs = [7, 8] \<or> vf_pos f = 2 \<and> bs = [9]"
  shows "\<exists>f'. VFSFileObject_write memory_ops bs (f, s) = (Inr (of_nat (length bs)), f', s) \<and>
    object_at_0 f' \<and> vf_pos f' = vf_pos f + of_nat (length bs)"
proof -
  let ?g = "set_page 0 (page_at f 0) f"
  have g: "vf_is_open f" "vf_file_size ?g = 8192" "length (pg_data (page_at f 0)) = 4096" "object_at_0 ?g"
    "vf_file_size f = 8192"
    using assms(1) object_at_0_load(2)[OF assms(1)] by (simp_all add: object_at_0_def)
  show ?thesis using assms(2) g
    by (elim disjE conjE) (simp_all add: VFSFileObject_write_def file_guard_def write_loop_numeral Let_def object_at_0_load(1)[OF assms(1)]
      mem_put_def object_at_0_pos object_at_0_set_page)
qed

lemma object_flush:
  assumes "object_at_0 f" "idle_file s"
  shows "\<exists>f'. VFSFileObject_flush memory_ops (f, s) = (Inr (), f', s) \<and> object_at_0 f' \<and> vf_pos f' = vf_pos f"
proof -
  obtain f' where f': "VFSFileObject_flush memory_ops (f, s) = (Inr (), f', s)" using idle_flush[OF assms] by blast
  have "same_content f f'" "pages_wf f'" "{i. pg_dirty (page_at f' i)} = {}"
    using file_flush_ok[OF f'] assms(1) by (simp_all add: object_at_0_def)
  then show ?thesis using f' assms(1) by (simp add: object_at_0_def same_content_def same_object_def)
qed

lemma sample_object_0: "object_at_0 (sample_object 0)"
  by (auto simp: object_at_0_def sample_object_wf page_at_def) (simp_all add: sample_object_def split: if_splits)

lemma sample_stream:
  "\<exists>sb t sb' t'. VFSStreamBuf_sputn memory_ops [7, 8, 9] (VFSStreamBuf_new (Some (sample_object 0)) 2, sample_limited) = (Inr 3, sb, t) \<and>
     VFSStreamBuf_sync memory_ops (sb, t) = (Inr 0, sb', t')"
proof -
  let ?f = "sample_object 0" and ?s = sample_limited
  obtain f1 where f1: "VFSFileObject_write memory_ops [7, 8] (?f, ?s) = (Inr 2, f1, ?s)" "object_at_0 f1" "vf_pos f1 = 2"
    using idle_write[OF sample_object_0, of "[7, 8]" ?s] by (auto simp: sample_object_wf)
  obtain f2 where f2: "VFSFileObject_flush memory_ops (f1, ?s) = (Inr (), f2, ?s)" "object_at_0 f2" "vf_pos f2 = 2"
    using object_flush[OF f1(2) idle_file_sample] f1(3) by auto
  obtain f3 where f3: "VFSFileObject_write memory_ops [9] (f2, ?s) = (Inr 1, f3, ?s)" "object_at_0 f3"
    using idle_write[OF f2(2), of "[9]" ?s] f2(3) by auto
  obtain f4 where f4: "VFSFileObject_flush memory_ops (f3, ?s) = (Inr (), f4, ?s)"
    using object_flush[OF f3(2) idle_file_sample] by auto
  define sb where "sb = (\<lambda>f b k. \<lparr>sb_file = Some f, sb_buffer = b, sb_gptr = 0, sb_egptr = 0, sb_pptr = k\<rparr>)"
  have new: "VFSStreamBuf_new (Some ?f) 2 = sb ?f [0, 0] 0"
    by (simp add: VFSStreamBuf_new_def sb_def numeral_2_eq_2)
  have c1: "VFSStreamBuf_sputc memory_ops 7 (sb ?f [0, 0] 0, ?s) = (Inr 7, sb ?f [7, 0] 1, ?s)"
    by (simp add: VFSStreamBuf_sputc_def sb_def)
  have c2: "VFSStreamBuf_sputc memory_ops 8 (sb ?f [7, 0] 1, ?s) = (Inr 8, sb ?f [7, 8] 2, ?s)"
    by (simp add: VFSStreamBuf_sputc_def sb_def)
  have y: "VFSStreamBuf_sync memory_ops (sb ?f [7, 8] 2, ?s) = (Inr 0, sb f2 [7, 8] 0, ?s)"
    using f1(1) f2(1) by (simp add: VFSStreamBuf_sync_def sb_def on_file_def attempt_def)
  have c3: "VFSStreamBuf_sputc memory_ops 9 (sb ?f [7, 8] 2, ?s) = (Inr 9, sb f3 [7, 8] 0, ?s)"
    using y f3(1) by (simp add: VFSStreamBuf_sputc_def VFSStreamBuf_overflow_def sb_def on_file_def attempt_def)
  have "VFSStreamBuf_sputn memory_ops [7, 8, 9] (VFSStreamBuf_new (Some ?f) 2, ?s) = (Inr 3, sb f3 [7, 8] 0, ?s)"
    unfolding new by (simp add: c1 c2 c3 del: One_nat_def)
  moreover have "VFSStreamBuf_sync memory_ops (sb f3 [7, 8] 0, ?s) = (Inr 0, sb f4 [7, 8] 0, ?s)"
    using f4 by (simp add: VFSStreamBuf_sync_def sb_def on_file_def attempt_def)
  ultimately show ?thesis by blast
qed

section \<open>Properties\<close>

text \<open>C16: what is written to a file object is read back. However littlefs and the device answer, a write
that ends returns the full length, advances the position, extends the size, keeps the page table in order and
every cached byte outside the range; and a read of the same range, in whatever state the file system is by
then, gives exactly the data and goes back to no littlefs function.\<close>

theorem vfs_write_read_back:
  assumes "pages_wf f" "vf_is_open f" "data \<noteq> []" "unat (vf_pos f) + length data < 2 ^ 64"
    and "VFSFileObject_write ops data (f, s) = (Inr n, f', s')" "length buffer = length data"
  shows "unat n = length data \<and> pages_wf f' \<and> vf_pos f' = vf_pos f + n \<and>
    unat (vf_file_size f') = max (unat (vf_file_size f)) (unat (vf_pos f) + length data) \<and>
    VFSFileObject_read ops buffer (f'\<lparr>vf_pos := vf_pos f\<rparr>, t) = (Inr (Inr n, data), f', t) \<and>
    (\<forall>i b. \<not> (unat (vf_pos f) \<le> i \<and> i < unat (vf_pos f) + length data) \<longrightarrow> cached f i = Some b \<longrightarrow> cached f' i = Some b)"
proof -
  obtain g where g: "f' = g\<lparr>vf_pos := vf_pos f + n\<rparr>" "n = of_nat (length data)" "pages_wf g" "same_object f g"
    "\<And>j. j < length data \<Longrightarrow> cached g (unat (vf_pos f) + j) = Some (data ! j)"
    "\<And>i b. \<not> (unat (vf_pos f) \<le> i \<and> i < unat (vf_pos f) + length data) \<Longrightarrow> cached f i = Some b \<Longrightarrow> cached g i = Some b"
    "unat (vf_file_size g) = max (unat (vf_file_size f)) (unat (vf_pos f) + length data)"
    using file_write_ok[OF assms(5,1,2,3,4)] by blast
  have "unat n = length data" using assms(4) unfolding g(2) by (intro unat_of_nat_u64) linarith
  moreover have "pages_wf f'" "vf_pos f' = vf_pos f + n" using g(1,3) by simp_all
  moreover have "unat (vf_file_size f') = max (unat (vf_file_size f)) (unat (vf_pos f) + length data)" using g(1,7) by simp
  moreover have "\<forall>i b. \<not> (unat (vf_pos f) \<le> i \<and> i < unat (vf_pos f) + length data) \<longrightarrow> cached f i = Some b \<longrightarrow> cached f' i = Some b"
    using g(1,6) by simp
  moreover have "VFSFileObject_read ops buffer (f'\<lparr>vf_pos := vf_pos f\<rparr>, t) = (Inr (Inr n, data), f', t)"
    using file_read_cached[OF g(3) _ assms(3,6), of "vf_pos f"] g assms(2) by (simp add: same_object_def)
  ultimately show ?thesis by blast
qed

theorem vfs_write_read_back_witness:
  "\<exists>f' s'. VFSFileObject_write memory_ops [7, 8, 9] (sample_object 4094, sample_limited) = (Inr 3, f', s') \<and>
     VFSFileObject_read memory_ops [0, 0, 0] (f'\<lparr>vf_pos := 4094\<rparr>, s') = (Inr (Inr 3, [7, 8, 9]), f', s') \<and>
     vf_pos f' = 4097 \<and> cached f' 0 = Some 0"
proof -
  obtain f' s' where w: "VFSFileObject_write memory_ops [7, 8, 9] (sample_object 4094, sample_limited) = (Inr 3, f', s')"
    using sample_write by blast
  have c: "cached (sample_object 4094) 0 = Some 0" by (simp add: cached_def Let_def page_at_def sample_object_def)
  have "unat (3 :: u64) = length [7 :: u8, 8, 9] \<and> pages_wf f' \<and> vf_pos f' = vf_pos (sample_object 4094) + 3 \<and>
    unat (vf_file_size f') = max (unat (vf_file_size (sample_object 4094))) (unat (vf_pos (sample_object 4094)) + length [7 :: u8, 8, 9]) \<and>
    VFSFileObject_read memory_ops [0, 0, 0] (f'\<lparr>vf_pos := vf_pos (sample_object 4094)\<rparr>, s') = (Inr (Inr 3, [7, 8, 9]), f', s') \<and>
    (\<forall>i b. \<not> (unat (vf_pos (sample_object 4094)) \<le> i \<and> i < unat (vf_pos (sample_object 4094)) + length [7 :: u8, 8, 9]) \<longrightarrow>
       cached (sample_object 4094) i = Some b \<longrightarrow> cached f' i = Some b)"
    by (rule vfs_write_read_back[OF _ _ _ _ w]) (simp_all add: sample_object_wf)
  then show ?thesis using w c sample_object_wf(3) by auto
qed

text \<open>C33: flushing writes the dirty pages in ascending order and leaves all of them clean with their content
kept, and it never reports an error. The witness has a write that littlefs refuses: the page is marked clean
all the same, and the data is lost without notice.\<close>

theorem vfs_flush_forgets:
  assumes "pages_wf f" "vf_is_open f"
  shows "(\<forall>e. fst (VFSFileObject_flush ops (f, s)) \<noteq> Inl (Err e)) \<and>
    (\<forall>f' s' i. VFSFileObject_flush ops (f, s) = (Inr (), f', s') \<longrightarrow>
       \<not> pg_dirty (page_at f' i) \<and> pg_data (page_at f' i) = pg_data (page_at f i)) \<and>
    sorted (dirty_pages f) \<and> set (dirty_pages f) = {i. pg_dirty (page_at f i)}"
proof -
  have "fst (VFSFileObject_flush ops (f, s)) \<noteq> Inl (Err e)" for e
    using flush_internal_no_error[of ops "(f, mutex_lock s)"]
    by (auto simp: VFSFileObject_flush_def file_guard_def split: prod.splits)
  moreover have "\<not> pg_dirty (page_at f' i) \<and> pg_data (page_at f' i) = pg_data (page_at f i)"
    if "VFSFileObject_flush ops (f, s) = (Inr (), f', s')" for f' s' i
    using that file_flush_ok[of ops f s f' s'] assms by (simp add: same_content_def)
  moreover have "sorted (dirty_pages f)" "set (dirty_pages f) = {i. pg_dirty (page_at f i)}"
    using set_dirty_pages[OF assms(1)] by (simp_all add: dirty_pages_def)
  ultimately show ?thesis by blast
qed

theorem vfs_flush_forgets_witness:
  "\<exists>f' s'. pg_dirty (page_at (sample_object 0) 0) \<and> lfs_file_write (vfs_grow memory_ops) sample_limited 1 (pg_data (page_at (sample_object 0) 0)) = (Inl (Err LFS_ERR_FBIG), sample_limited) \<and>
     VFSFileObject_flush memory_ops (sample_object 0, sample_limited) = (Inr (), f', s') \<and> \<not> pg_dirty (page_at f' 0)"
proof -
  obtain f' where f': "VFSFileObject_flush memory_ops (sample_object 0, sample_limited) = (Inr (), f', sample_limited)"
    using object_flush[OF sample_object_0 idle_file_sample] by blast
  have "\<not> pg_dirty (page_at f' 0)" using vfs_flush_forgets[OF sample_object_wf(1,2), of memory_ops 0 sample_limited] f' by blast
  moreover have "length (pg_data (page_at (sample_object 0) 0)) = 4096" "pg_dirty (page_at (sample_object 0) 0)"
    by (simp_all add: sample_object_def page_at_def)
  ultimately show ?thesis using f' idle_file_calls(3)[OF idle_file_sample] by blast
qed





end
