(* ===== verification/SignedWords.thy ===== *)
theory SignedWords
  imports Prelude
begin

text \<open>
  Machine words of 64 bits read as signed numbers, which the code does with positions and sizes, and their
  conversion to the 32 bits of an \<open>int\<close>.
\<close>

lemma sint_u64: "sint (w :: u64) = (if unat w < 2 ^ 63 then int (unat w) else int (unat w) - 2 ^ 64)"
proof (cases "unat w < 2 ^ 63")
  case True
  then have "int (unat w) < int (2 ^ 63)" by (simp only: of_nat_less_iff)
  then have "uint w < 2 ^ 63" by simp
  moreover have "- (2 ^ 63) \<le> uint w" by (rule order_trans[OF _ uint_ge_0]) simp
  ultimately have "signed_take_bit 63 (uint w) = uint w" by (intro signed_take_bit_int_eq_self)
  moreover have "sint w = signed_take_bit 63 (uint w)" by (simp only: sint_uint) simp
  ultimately show ?thesis using True by simp
next
  case False
  then have "int (2 ^ 63) \<le> int (unat w)" by (simp only: of_nat_le_iff not_less)
  then have lo: "2 ^ 63 \<le> uint w" by simp
  have hi: "uint w < 2 ^ 64" using uint_lt2p[of w] by simp
  have "sint w = signed_take_bit 63 (uint w)" by (simp only: sint_uint) simp
  also have "\<dots> = signed_take_bit 63 (uint w - 2 ^ 64)"
  proof -
    have "take_bit (Suc 63) (uint w) = take_bit (Suc 63) (uint w - 2 ^ 64)" by (simp add: take_bit_eq_mod mod_diff_right_eq[symmetric])
    then show ?thesis by (simp only: signed_take_bit_eq_iff_take_bit_eq)
  qed
  also have "\<dots> = uint w - 2 ^ 64" by (rule signed_take_bit_int_eq_self) (use lo hi in simp_all)
  finally show ?thesis using False by simp
qed

lemma sint_in_room: "unat (w :: u64) < 2 ^ 63 \<Longrightarrow> \<not> sint w < 0"
  by (simp add: sint_u64)

lemma sint_u32_of_nat: "n < 2 ^ 31 \<Longrightarrow> sint (of_nat n :: u32) = int n"
proof -
  assume "n < 2 ^ 31"
  then have "int n < int (2 ^ 31)" by (simp only: of_nat_less_iff)
  then have n: "int n < 2 ^ 31" by simp
  then have "uint (of_nat n :: u32) = int n" by (simp add: uint_nat unat_of_nat)
  moreover have "sint (of_nat n :: u32) = signed_take_bit 31 (uint (of_nat n :: u32))" by (simp only: sint_uint) simp
  moreover have "signed_take_bit 31 (int n) = int n" by (rule signed_take_bit_int_eq_self) (use n in linarith)+
  ultimately show ?thesis by simp
qed

end
