(* ===== verification/FuseProperties.thy ===== *)
theory FuseProperties
  imports Fuse VfsProperties SignedWords
begin

text \<open>
  The Fuse handlers: what \<open>write\<close> returns, and which paths \<open>getattr\<close> finds. The sample is a disk whose root
  directory has one empty file, in a file system whose files hold two bytes at most.
\<close>

subsection \<open>Opening\<close>

lemma open_object:
  assumes "lfsVFS_open ops p path flags s = (Inr (Value f), t)"
  shows "vf_is_open f" "pages_wf f" "vf_pos f = 0"
proof -
  have *: "vf_is_open f \<and> vf_pages f = [] \<and> vf_pos f = 0"
    using assms
    by (auto simp: lfsVFS_open_def lock_guard_def init_file_state_def beside_def VFSFileObject_new_def Let_def
        elim!: attempt_InrE split: prod.splits sum.splits)
  then show "vf_is_open f" "pages_wf f" "vf_pos f = 0" by (simp_all add: pages_wf_def)
qed

lemma openFile_cases:
  assumes "lfsVFS_openFile ops p None path flags s = (Inr (code, file), t)"
  obtains f where "code = kCodeOK" "file = Some f" "vf_is_open f" "pages_wf f" "vf_pos f = 0"
  | "code \<noteq> kCodeOK \<or> file = None"
proof (cases "file")
  case (Some f)
  then have "lfsVFS_open ops p path flags s = (Inr (Value f), t)" "code = kCodeOK"
    using assms by (auto simp: lfsVFS_openFile_def elim!: andthen_InrE split: Result.splits)
  from that(1)[OF this(2) Some open_object[OF this(1)]] show thesis .
qed (use that in auto)

subsection \<open>Writing never fails\<close>

lemma mem_put_Inl: "mem_put m k bs = Inl h \<Longrightarrow> h = Undefined_behaviour"
  by (simp add: mem_put_def split: if_splits)

lemma mem_put_no_error: "no_error (mem_put m k bs)"
  by (cases "mem_put m k bs") (auto dest: mem_put_Inl)

lemma load_page_if_needed_no_error: "no_error (fst (load_page_if_needed ops i fs))"
  by (cases fs) (auto simp: load_page_if_needed_def load_page_def beside_def Let_def intro!: no_error_andthen no_error_attempt mem_put_no_error
      split: prod.splits sum.splits dest!: mem_put_Inl)

lemma write_loop_no_error: "no_error (fst (write_loop fuel ops src k fs))"
proof (induction fuel arbitrary: k fs)
  case (Suc fuel)
  obtain f s where "fs = (f, s)" by (metis prod.exhaust)
  then show ?case using Suc.IH
    by (auto simp: Let_def intro!: no_error_andthen load_page_if_needed_no_error split: sum.splits dest!: mem_put_Inl)
qed simp

lemma file_write_no_error: "no_error (fst (VFSFileObject_write ops data (f, s)))"
  using no_error_andthen[OF write_loop_no_error[of "Suc (length data)" ops data 0 "(f, mutex_lock s)"],
      of "\<lambda>n (f, s). (Inr n, f\<lparr>vf_pos := vf_pos f + n\<rparr>, s)"]
  by (auto simp: VFSFileObject_write_def file_guard_def simp del: write_loop.simps split: prod.splits)

lemma bytes_of_write:
  assumes "n < 2 ^ 31"
  shows "bytes_or_EIO (Inr (of_nat n)) = int n"
proof -
  have "n < 2 ^ 64" using assms by (rule less_trans) simp
  then have "unat (of_nat n :: u64) = n" by (rule unat_of_nat_u64)
  then have "sint (of_nat n :: u64) = int n" using assms by (simp add: sint_u64)
  then show ?thesis using sint_u32_of_nat[OF assms] by (simp add: bytes_or_EIO_def i64_of_def Let_def)
qed

lemma seek_set:
  assumes "VFSFileObject_seek offset kSeekSet (f, s) = (r, f', s')" "vf_is_open f" "unat offset < 2 ^ 63"
  shows "f' = f\<lparr>vf_pos := offset\<rparr>"
  using assms sint_in_room[OF assms(3)] by (simp add: VFSFileObject_seek_def file_guard_def split: if_splits)

lemma written_bytes:
  assumes "VFSFileObject_write ops buf (f, s) = (m, fs)" "m = (case r of Inl e \<Rightarrow> Inl (Err e) | Inr n \<Rightarrow> Inr n)"
    "vf_is_open f" "pages_wf f" "unat (vf_pos f) < 2 ^ 63" "length buf < 2 ^ 31"
  shows "bytes_or_EIO r = int (length buf)"
proof -
  obtain n where n: "r = Inr n" "m = Inr n" using assms(1,2) file_write_no_error[of ops buf f s] by (cases r) auto
  obtain f' s' where fs: "fs = (f', s')" by (metis prod.exhaust)
  have "unat (vf_pos f) + length buf < 2 ^ 63 + 2 ^ 31" using assms(5,6) by (rule add_strict_mono)
  also have "\<dots> < (2 :: nat) ^ 64" by simp
  finally have b: "unat (vf_pos f) + length buf < 2 ^ 64" .
  have "n = of_nat (length buf)"
  proof (cases "buf = []")
    case True
    then show ?thesis using assms(1) n(2) by (simp add: VFSFileObject_write_def fs)
  next
    case False
    then show ?thesis using file_write_ok[OF assms(1)[unfolded n(2) fs] assms(4,3) False b] by metis
  qed
  then show ?thesis using n(1) bytes_of_write[OF assms(6)] by simp
qed

section \<open>Properties\<close>

text \<open>C34: \<open>write\<close> reports success whatever happens to the data. When the file opens, it returns the number of bytes
  that it was given, even if littlefs refuses them, and never \<open>EIO\<close>. In the witness the file system allows
  files of two bytes; three are written with success, and the device is as before.\<close>

theorem lfs_fuse_write_hides_errors:
  assumes "lfs_fuse_write ops p path buf offset s = (Inr r, s')" "length buf < 2 ^ 31" "unat offset < 2 ^ 63"
  shows "\<exists>code fo t. lfsVFS_openFile ops p None (normalize_path path) (kFileRead OR kFileWrite OR kFileCreateIfNotExists) s = (Inr (code, fo), t) \<and>
    r = (if code = kCodeOK then int (length buf) else - ENOENT)"
proof -
  obtain code fo t where o: "lfsVFS_openFile ops p None (normalize_path path) (kFileRead OR kFileWrite OR kFileCreateIfNotExists) s = (Inr (code, fo), t)"
    using assms(1) by (auto simp: lfs_fuse_write_def fuse_with_file_def elim!: andthen_InrE)
  show ?thesis
  proof (cases "code = kCodeOK")
    case False
    then show ?thesis using assms(1) o by (simp add: lfs_fuse_write_def fuse_with_file_def)
  next
    case True
    with assms(1) o obtain f where fo: "fo = Some f"
      by (auto simp: lfs_fuse_write_def fuse_with_file_def split: option.splits)
    then have f: "vf_is_open f" "pages_wf f" using openFile_cases[OF o] True by auto
    obtain r1 f1 s1 where k: "VFSFileObject_seek offset kSeekSet (f, t) = (r1, f1, s1)" by (metis prod_cases3)
    then have f1: "vf_is_open f1" "pages_wf f1" "unat (vf_pos f1) < 2 ^ 63"
      using seek_set[OF k f(1) assms(3)] f assms(3) by simp_all
    obtain m fs r2 where w: "VFSFileObject_write ops buf (f1, s1) = (m, fs)" "m = (case r2 of Inl e \<Rightarrow> Inl (Err e) | Inr n \<Rightarrow> Inr n)"
      "r = bytes_or_EIO r2"
      using assms(1) o True fo k
      by (auto simp: lfs_fuse_write_def fuse_with_file_def elim!: andthen_InrE attempt_InrE split: prod.splits)
    then show ?thesis using written_bytes[OF w(1,2) f1 assms(2)] o True by auto
  qed
qed

text \<open>The sample disk: the root directory in blocks 0 and 1, with a file \<open>a\<close> that is empty.\<close>

definition fuse_memory :: memory_device where
  "fuse_memory =
     \<lparr>md_block_size = 24, md_block_count = 2,
      md_storage = [1, 0, 0, 0, 255, 239, 255, 254, 97, 32, 0, 0, 1, 112, 31, 252, 4, 198, 10, 200, 238, 255, 255, 255] @ replicate 24 0\<rparr>"

definition fuse_state :: "memory_device vfs" where
  "fuse_state =
     (let cache = \<lparr>c_block = LFS_BLOCK_NULL, c_offset = 0, c_size = 0, c_buffer = replicate 24 0\<rparr>
      in (vfs_handle memory_ops fuse_memory)
           \<lparr>l_read_cache := cache, l_write_cache := cache, l_root := (0, 1), l_erase_size := 24, l_block_size := 24,
            l_block_count := 2, l_name_max_length := 255, l_file_max_size := 2, l_attr_max_size := 1022\<rparr>)"

definition fuse_dir :: lfs_dir where
  "fuse_dir = \<lparr>ml_id = 0, ml_type = 0, ml_metadata = mdir_zero, d_pos = 0, d_head = (0, 0)\<rparr>"

lemma sample_fuse_write:
  "case lfs_fuse_write memory_ops 1 (Some [47, 97]) [7, 8, 9] 0 fuse_state of (r, t) \<Rightarrow> r = Inr 3 \<and> vc_block_device (l_dev t) = fuse_memory"
  by code_simp

lemma sample_fuse_open:
  "case lfsVFS_openFile memory_ops 1 None [97, 47, 98] 1 fuse_state of (r, t) \<Rightarrow>
     r = Inr (kCodeUnknownError, None) \<and> fst (lfsVFS_dir 2 fuse_dir [47] t) = Inr [FileEntry [97] 0]"
  by code_simp

theorem lfs_fuse_write_hides_errors_witness:
  "\<exists>code fo t s'. lfsVFS_openFile memory_ops 1 None [97] 0x103 fuse_state = (Inr (code, fo), t) \<and> code = kCodeOK \<and>
     lfs_fuse_write memory_ops 1 (Some [47, 97]) [7, 8, 9] 0 fuse_state = (Inr 3, s') \<and> vc_block_device (l_dev s') = fuse_memory"
proof -
  obtain s' where s': "lfs_fuse_write memory_ops 1 (Some [47, 97]) [7, 8, 9] 0 fuse_state = (Inr 3, s')" "vc_block_device (l_dev s') = fuse_memory"
    using sample_fuse_write by (auto split: prod.splits)
  from lfs_fuse_write_hides_errors[OF s'(1)] show ?thesis using s' by (auto split: if_splits)
qed



end
