(* ===== verification/DeviceRead.thy ===== *)
theory DeviceRead
  imports Device
begin

text \<open>
  Reading through the caches, on any \<open>readable_device\<close>: \<open>lfs_bd_read\<close> sound what the device
  holds, overlaid with what the write cache holds and has not written yet, and it always sound.
  \<open>lfs_bd_cmp\<close> compares exactly those bytes.
\<close>

subsection \<open>What is assumed of the caller\<close>

text \<open>The file system uses this device.\<close>

definition runs_on :: "'d lfs \<Rightarrow> 'd IBlockDevice \<Rightarrow> bool" where
  "runs_on s ops \<longleftrightarrow> cfg_read (l_cfg s) = bd_read ops \<and> cfg_write (l_cfg s) = bd_write ops \<and>
     cfg_erase (l_cfg s) = bd_erase ops \<and> cfg_sync (l_cfg s) = bd_sync ops"

text \<open>The sizes \<open>lfs_init\<close> checks, with one erase block per block, as every device of the repository has it.\<close>

definition geometry :: "'d lfs \<Rightarrow> nat \<Rightarrow> nat \<Rightarrow> bool" where
  "geometry s bs bc \<longleftrightarrow> unat (l_block_size s) = bs \<and> unat (l_block_count s) = bc \<and> bs < 2 ^ 63 \<and> bc < 2 ^ 63 \<and> l_erase_size s = l_block_size s \<and>
     0 < unat (cfg_read_size (l_cfg s)) \<and> 0 < unat (cfg_write_size (l_cfg s)) \<and> 0 < unat (cfg_cache_size (l_cfg s)) \<and>
     unat (cfg_read_size (l_cfg s)) dvd unat (cfg_cache_size (l_cfg s)) \<and>
     unat (cfg_write_size (l_cfg s)) dvd unat (cfg_cache_size (l_cfg s)) \<and>
     unat (cfg_cache_size (l_cfg s)) dvd bs"

text \<open>A cache in memory fits its block, and starts where a read may start.\<close>

definition cache_fits :: "'d lfs \<Rightarrow> lfs_cache \<Rightarrow> bool" where
  "cache_fits s c \<longleftrightarrow> unat (c_offset c) + unat (c_size c) \<le> unat (l_block_size s) \<and>
     unat (c_size c) \<le> length (c_buffer c) \<and> unat (cfg_read_size (l_cfg s)) dvd unat (c_offset c)"

text \<open>A read cache in use holds what the disk holds there.\<close>

definition cache_holds :: "'d lfs \<Rightarrow> lfs_cache \<Rightarrow> (nat \<Rightarrow> u8 list) \<Rightarrow> bool" where
  "cache_holds s c disk \<longleftrightarrow> length (c_buffer c) = unat (cfg_cache_size (l_cfg s)) \<and>
     (c_block c < l_block_count s \<longrightarrow> cache_fits s c \<and>
       take (unat (c_size c)) (c_buffer c) = take (unat (c_size c)) (drop (unat (c_offset c)) (disk (unat (c_block c)))))"

text \<open>What a reader sees: the disk, with the bytes of the write cache on top.\<close>

definition overlay :: "lfs_cache option \<Rightarrow> (nat \<Rightarrow> u8 list) \<Rightarrow> nat \<Rightarrow> u8 list" where
  "overlay wc disk b = (case wc of None \<Rightarrow> disk b
     | Some w \<Rightarrow> if unat (c_block w) = b then blit (unat (c_offset w)) (take (unat (c_size w)) (c_buffer w)) (disk b) else disk b)"

definition pending_fits :: "'d lfs \<Rightarrow> lfs_cache option \<Rightarrow> bool" where
  "pending_fits s wc \<longleftrightarrow> (case wc of None \<Rightarrow> True | Some w \<Rightarrow> c_block w < l_block_count s \<longrightarrow> cache_fits s w)"

subsection \<open>Words\<close>

lemma lfs_min_unat: "unat (lfs_min a b) = min (unat a) (unat b)"
  by (simp add: lfs_min_def word_less_nat_alt)

lemma lfs_max_unat: "unat (lfs_max a b) = max (unat a) (unat b)"
  by (simp add: lfs_max_def word_less_nat_alt)

lemma cache_covers:
  assumes "cache_fits s c"
  shows "off < c_offset c + c_size c \<longleftrightarrow> unat off < unat (c_offset c) + unat (c_size c)"
proof -
  have "unat (c_offset c) + unat (c_size c) < 2 ^ 64"
    using assms unat_u64_less(1)[of "l_block_size s"] unfolding cache_fits_def by linarith
  then show ?thesis by (simp add: word_less_nat_alt unat_add_u64)
qed

subsection \<open>One look into a cache\<close>

lemma cache_diff_hit:
  fixes n off :: u64
  assumes "cache_fits s c" "block = c_block c" "unat (c_offset c) \<le> unat off"
    "unat off < unat (c_offset c) + unat (c_size c)"
  defines "m \<equiv> min (unat n) (unat (c_offset c) + unat (c_size c) - unat off)"
  shows "cache_diff c block off n = Inl (Inr (take m (drop (unat off - unat (c_offset c)) (c_buffer c))))"
proof -
  have o: "unat (off - c_offset c) = unat off - unat (c_offset c)"
    using assms(3) by (rule unat_sub_u64)
  then have m: "unat (lfs_min n (c_size c - (off - c_offset c))) = m"
    unfolding lfs_min_unat m_def using assms(3,4) by (simp add: unat_sub_u64)
  have "unat off - unat (c_offset c) + m \<le> length (c_buffer c)"
    using assms(1,3,4) unfolding cache_fits_def m_def by linarith
  with assms(2-4) m o show ?thesis
    by (simp add: cache_diff_def cache_covers[OF assms(1)] word_le_nat_alt mem_simps Let_def)
qed

lemma cache_diff_miss:
  fixes n off :: u64
  assumes "c_block c = block \<Longrightarrow> cache_fits s c" "0 < unat n"
    "\<not> (block = c_block c \<and> unat (c_offset c) \<le> unat off \<and> unat off < unat (c_offset c) + unat (c_size c))"
  obtains m where "cache_diff c block off n = Inr m" "0 < unat m" "unat m \<le> unat n"
    "m = n \<or> block = c_block c \<and> unat off + unat m = unat (c_offset c)"
    "\<And>i. unat off \<le> i \<Longrightarrow> i < unat off + unat m \<Longrightarrow>
      \<not> (block = c_block c \<and> unat (c_offset c) \<le> i \<and> i < unat (c_offset c) + unat (c_size c))"
proof (cases "block = c_block c \<and> unat off < unat (c_offset c) + unat (c_size c)")
  case True
  then have lt: "unat off < unat (c_offset c)" using assms(3) by auto
  have m: "unat (lfs_min n (c_offset c - off)) = min (unat n) (unat (c_offset c) - unat off)"
    using lt by (simp add: lfs_min_unat unat_sub_u64)
  have "cache_diff c block off n = Inr (lfs_min n (c_offset c - off))"
    using True lt cache_covers[of s c] assms(1) by (simp add: cache_diff_def word_le_nat_alt)
  moreover have "lfs_min n (c_offset c - off) = n \<or> unat off + unat (lfs_min n (c_offset c - off)) = unat (c_offset c)"
    using m lt by (auto simp: word_eq_nat_alt min_def)
  moreover have "0 < unat (lfs_min n (c_offset c - off))" "unat (lfs_min n (c_offset c - off)) \<le> unat n"
    using m lt assms(2) by simp_all
  moreover have "i < unat (c_offset c)" if "i < unat off + unat (lfs_min n (c_offset c - off))" for i
    using that m lt by linarith
  ultimately show thesis
    using that[of "lfs_min n (c_offset c - off)"] True by (meson not_le)
next
  case False
  then have "cache_diff c block off n = Inr n"
    using cache_covers[of s c] assms(1) by (auto simp: cache_diff_def)
  then show thesis using that[of n] assms(2) False by auto
qed

subsection \<open>The raw read\<close>

text \<open>A read that stays in one erase block is one call of the driver.\<close>

lemma rawread_once:
  assumes "0 < n" "off + n \<le> l_erase_size s" "n mod cfg_read_size (l_cfg s) = 0"
    "lfs_min n (off + l_erase_size s) = n" "unat n = length buf"
  shows "lfs_bd_rawread_loop (Suc (Suc f)) s block off buf n =
    (case cfg_read (l_cfg s) (l_dev s) block off buf of
       (Inl h, data, d) \<Rightarrow> (Inl h, blit 0 data buf, s\<lparr>l_dev := d\<rparr>)
     | (Inr _, data, d) \<Rightarrow> (Inr (), blit 0 data buf, s\<lparr>l_dev := d\<rparr>))"
  using assms by (simp add: Let_def split: prod.splits sum.splits)

context readable_device begin

text \<open>Every error comes from the device: an operation of it, inside its blocks, that failed with it.\<close>

definition device_fails :: "halt \<Rightarrow> bool" where
  "device_fails h \<longleftrightarrow> (\<exists>d b off buf. inv d \<and> unat b < bcount \<and> unat off + length buf \<le> bsize \<and>
     (fst (bd_read ops d b off buf) = Inl h \<or> fst (bd_write ops d b off buf) = Inl h \<or>
      fst (bd_erase ops d b) = Inl h \<or> fst (bd_sync ops d) = Inl h))"

definition sound :: "'x result \<Rightarrow> bool" where
  "sound r \<longleftrightarrow> (\<forall>h. r = Inl h \<longrightarrow> device_fails h)"

lemma sound_simps [simp]: "sound (Inr x)" "sound (Inl h) \<longleftrightarrow> device_fails h"
  by (simp_all add: sound_def)

lemma device_failsI:
  assumes "inv d" "unat b < bcount" "unat off + length buf \<le> bsize"
  shows "fst (bd_read ops d b off buf) = Inl h \<Longrightarrow> device_fails h" "fst (bd_write ops d b off buf) = Inl h \<Longrightarrow> device_fails h"
  using assms unfolding device_fails_def by blast+

lemma device_fails_returns: "device_fails h \<Longrightarrow> returns (Inl h)"
proof -
  assume "device_fails h"
  then obtain d b off buf where h: "inv d" "unat b < bcount" "unat off + length buf \<le> bsize"
    "fst (bd_read ops d b off buf) = Inl h \<or> fst (bd_write ops d b off buf) = Inl h \<or> fst (bd_erase ops d b) = Inl h \<or> fst (bd_sync ops d) = Inl h"
    unfolding device_fails_def by blast
  obtain r buf' d1 where rd: "bd_read ops d b off buf = (r, buf', d1)" by (metis prod_cases3)
  obtain q d2 where wr: "bd_write ops d b off buf = (q, d2)" by (metis prod.exhaust)
  obtain e d3 where er: "bd_erase ops d b = (e, d3)" by (metis prod.exhaust)
  obtain y d4 where sy: "bd_sync ops d = (y, d4)" by (metis prod.exhaust)
  have "returns r" "returns q" "returns e" "returns y"
    using read_law[OF h(1-3) rd] write_inv[OF h(1-3) wr] erase_inv[OF h(1,2) er] sync_inv[OF h(1) sy] by simp_all
  with h(4) show ?thesis by (cases h) (auto simp: rd wr er sy)
qed

lemma sound_returns: "sound r \<Longrightarrow> returns r"
  by (cases r) (auto dest: device_fails_returns elim: returns.elims)

lemma read_sound:
  "inv d \<Longrightarrow> unat b < bcount \<Longrightarrow> unat off + length buf \<le> bsize \<Longrightarrow> bd_read ops d b off buf = (r, buf', d') \<Longrightarrow>
    inv d' \<and> content d' = content d \<and> length buf' = length buf \<and> sound r \<and>
    (r = Inr () \<longrightarrow> buf' = take (length buf) (drop (unat off) (content d (unat b))))"
  using read_law[of d b off buf r buf' d'] device_failsI(1)[of d b off buf] by (auto simp: sound_def)

lemma write_sound:
  "inv d \<Longrightarrow> unat b < bcount \<Longrightarrow> unat off + length data \<le> bsize \<Longrightarrow> bd_write ops d b off data = (r, d') \<Longrightarrow>
    inv d' \<and> sound r \<and> (\<forall>b'. b' < bcount \<longrightarrow> b' \<noteq> unat b \<longrightarrow> content d' b' = content d b')"
  using write_inv[of d b off data r d'] device_failsI(2)[of d b off data] by (auto simp: sound_def)

definition same_disk :: "'d lfs \<Rightarrow> 'd lfs \<Rightarrow> bool" where
  "same_disk s s' \<longleftrightarrow> (\<exists>d. s' = s\<lparr>l_dev := d\<rparr> \<and> inv d \<and> content d = content (l_dev s))"

lemma same_disk_trans: "same_disk s s' \<Longrightarrow> same_disk s' s'' \<Longrightarrow> same_disk s s''"
  by (auto simp: same_disk_def)

lemma same_disk_refl: "inv (l_dev s) \<Longrightarrow> same_disk s s"
  unfolding same_disk_def by (rule exI[of _ "l_dev s"]) simp

lemma same_diskD:
  assumes "same_disk s s'"
  shows "inv (l_dev s')" "content (l_dev s') = content (l_dev s)" "runs_on s' ops = runs_on s ops"
    "geometry s' bsize bcount = geometry s bsize bcount" "cache_fits s' = cache_fits s" "cache_holds s' = cache_holds s"
    "pending_fits s' = pending_fits s" "l_cfg s' = l_cfg s" "l_block_size s' = l_block_size s" "l_block_count s' = l_block_count s"
    "l_erase_size s' = l_erase_size s"
  using assms by (auto simp: same_disk_def runs_on_def geometry_def cache_fits_def cache_holds_def pending_fits_def fun_eq_iff split: option.splits)

lemma rawread:
  assumes g: "geometry s bsize bcount" "runs_on s ops" "inv (l_dev s)"
    and b: "unat block < bcount" "unat off + length buf \<le> bsize"
    and d: "unat (cfg_read_size (l_cfg s)) dvd length buf"
    and e: "lfs_bd_rawread s block off buf = (r, buf', s')"
  shows "same_disk s s' \<and> length buf' = length buf \<and> sound r \<and>
    (r = Inr () \<longrightarrow> buf' = take (length buf) (drop (unat off) (content (l_dev s) (unat block))))"
proof -
  let ?n = "of_nat (length buf) :: u64"
  have lt: "bsize < 2 ^ 64" using bounds[OF g(3)] by simp
  have n: "unat ?n = length buf" using b(2) lt by (intro unat_of_nat_u64) linarith
  have on: "unat (off + ?n) = unat off + length buf"
    using b(2) lt by (intro unat_add_of_nat_u64) linarith
  have bs: "unat (l_block_size s) = bsize" "unat (l_block_count s) = bcount" "l_erase_size s = l_block_size s"
    using g(1) by (simp_all add: geometry_def)
  have md: "?n mod cfg_read_size (l_cfg s) = 0"
    using d by (simp add: word_eq_nat_alt unat_mod n)
  have as: "block < l_block_count s" "off + ?n \<le> l_block_size s"
    using b by (simp_all add: word_less_nat_alt word_le_nat_alt bs on)
  note rd = g(2)[unfolded runs_on_def, THEN conjunct1]
  show ?thesis
  proof (cases "length buf = 0")
    case True
    then show ?thesis using e as g(3) by (auto simp: lfs_bd_rawread_def intro: same_disk_refl)
  next
    case False
    then have pos: "0 < ?n" by (simp add: word_less_nat_alt n)
    have "0 < bsize" using False b(2) by linarith
    then have dv: "l_block_size s div l_block_size s = 1"
      using bs(1) by (simp add: word_eq_nat_alt unat_div)
    have "unat off < bsize" using False b(2) by (cases buf) auto
    then have o: "off mod l_block_size s = off" "off div l_block_size s = 0"
      by (simp_all add: word_eq_nat_alt unat_mod unat_div bs)
    have "unat off + bsize < 2 ^ 64" using \<open>unat off < bsize\<close> g(1) unfolding geometry_def by simp
    then have "unat (lfs_min ?n (off + l_block_size s)) = length buf"
      using b(2) by (simp add: lfs_min_unat n unat_add_u64 bs)
    then have dl: "lfs_min ?n (off + l_block_size s) = ?n" by (simp add: word_eq_nat_alt n)
    obtain f where f: "length buf = Suc f" using False by (cases "length buf") auto
    obtain q data d1 where rd1: "bd_read ops (l_dev s) block off buf = (q, data, d1)" by (metis prod_cases3)
    note R = read_sound[OF g(3) b rd1]
    have bw: "blit 0 data buf = data" using R by (simp add: blit_whole)
    have "lfs_bd_rawread s block off buf = lfs_bd_rawread_loop (Suc (unat ?n)) s block off buf ?n"
      unfolding lfs_bd_rawread_def Let_def using as md by (simp add: bs(3) dv o)
    also have "\<dots> = lfs_bd_rawread_loop (Suc (Suc f)) s block off buf ?n"
      unfolding trans [OF n f] ..
    also have "\<dots> = (case q of Inl h \<Rightarrow> (Inl h, data, s\<lparr>l_dev := d1\<rparr>) | Inr _ \<Rightarrow> (Inr (), data, s\<lparr>l_dev := d1\<rparr>))"
      using as(2) md pos by (subst rawread_once) (simp_all add: bs(3) dl n rd rd1 bw split: sum.splits)
    finally have "lfs_bd_rawread s block off buf =
        (case q of Inl h \<Rightarrow> (Inl h, data, s\<lparr>l_dev := d1\<rparr>) | Inr _ \<Rightarrow> (Inr (), data, s\<lparr>l_dev := d1\<rparr>))" .
    then show ?thesis using e R unfolding same_disk_def by (auto split: sum.splits)
  qed
qed

lemma alignup_ge: "0 < R \<Longrightarrow> x \<le> (x + R - 1) div R * R" for R :: nat
proof -
  assume R: "0 < R"
  have "(x + R - 1) div R * R + (x + R - 1) mod R = x + R - 1" by simp
  moreover have "(x + R - 1) mod R < R" using R by simp
  ultimately show ?thesis by linarith
qed

lemma aligndown_gt: "0 < R \<Longrightarrow> x < x - x mod R + R" for R :: nat
  using mod_less_divisor[of R x] mod_less_eq_dividend[of x R] by linarith

lemma mod_dvd_diff: "(a::nat) dvd x \<Longrightarrow> a dvd y \<Longrightarrow> a dvd x - y"
  by (rule dvd_diff_nat)

lemma dvd_min: "(a::nat) dvd x \<Longrightarrow> a dvd y \<Longrightarrow> a dvd min x y"
  by (simp add: min_def)

lemma load_preserves:
  assumes g: "geometry s bsize bcount" "runs_on s ops" "inv (l_dev s)"
    and b: "block < l_block_count s" "unat off < bsize"
    and h: "0 < unat hint" "bsize + unat hint + unat (cfg_read_size (l_cfg s)) \<le> 2 ^ 64"
    and rc: "cache_holds s rc (content (l_dev s))"
    and e: "load_read_cache s rc hint block off = (r, rc', s')"
  shows "same_disk s s' \<and> sound r \<and> (r = Inr () \<longrightarrow> cache_holds s rc' (content (l_dev s)) \<and>
      c_block rc' = block \<and> unat (c_offset rc') \<le> unat off \<and> unat off < unat (c_offset rc') + unat (c_size rc'))"
proof -
  define R where "R = unat (cfg_read_size (l_cfg s))"
  define C where "C = unat (cfg_cache_size (l_cfg s))"
  define A where "A = (unat off + unat hint + R - 1) div R * R"
  have R: "0 < R" "R dvd C" "C dvd bsize" "0 < C" "R dvd bsize"
    using g(1) unfolding geometry_def R_def C_def by (auto intro: dvd_trans)
  have bs: "unat (l_block_size s) = bsize" "unat (l_block_count s) = bcount"
    using g(1) by (simp_all add: geometry_def)
  define o' where "o' = lfs_aligndown off (cfg_read_size (l_cfg s))"
  define n' where "n' = lfs_min (lfs_min (lfs_alignup (off + hint) (cfg_read_size (l_cfg s))) (l_block_size s) - o') (cfg_cache_size (l_cfg s))"
  have o: "unat o' = unat off - unat off mod R"
    by (simp add: o'_def unat_lfs_aligndown R_def)
  have oR: "R dvd unat o'" "unat o' \<le> unat off" "unat off < unat o' + R"
    using aligndown_gt[OF R(1), of "unat off"] unfolding o by (simp_all add: dvd_minus_mod)
  have up: "unat (lfs_alignup (off + hint) (cfg_read_size (l_cfg s))) = A"
  proof -
    have s: "unat (off + hint) = unat off + unat hint"
      using h b(2) R(1) by (intro unat_add_u64) (simp add: R_def)
    have "unat (lfs_alignup (off + hint) (cfg_read_size (l_cfg s))) =
        (unat (off + hint) + unat (cfg_read_size (l_cfg s)) - 1) div unat (cfg_read_size (l_cfg s)) * unat (cfg_read_size (l_cfg s))"
      using R(1) h(2) b(2) s by (intro unat_lfs_alignup) (simp_all add: word_less_nat_alt R_def)
    then show ?thesis by (simp add: A_def s R_def)
  qed
  have A: "R dvd A" "unat off < A"
  proof -
    show "R dvd A" by (simp add: A_def)
    have "unat off + unat hint \<le> A"
      unfolding A_def using R(1) by (rule alignup_ge)
    then show "unat off < A" using h(1) by linarith
  qed
  have n: "unat n' = min (min A bsize - unat o') C"
    using oR(2) A(2) b(2) unfolding n'_def by (simp add: lfs_min_unat up bs C_def unat_sub_u64)
  have nR: "R dvd unat n'" unfolding n by (intro dvd_min mod_dvd_diff A R oR)
  have fit: "unat o' + unat n' \<le> bsize" using oR(2) b(2) n by simp
  have cov: "unat off < unat o' + unat n'"
  proof -
    have "R \<le> C" using R(2,4) by (rule dvd_imp_le)
    then show ?thesis using n A(2) b(2) oR(2,3) by simp
  qed
  have len: "length (c_buffer rc) = C" using rc by (simp add: cache_holds_def C_def)
  have nl: "unat n' \<le> length (c_buffer rc)" using n len by simp
  obtain q d1 s1 where raw: "lfs_bd_rawread s block o' (take (unat n') (c_buffer rc)) = (q, d1, s1)"
    by (metis prod_cases3)
  have W: "same_disk s s1 \<and> length d1 = unat n' \<and> sound q \<and>
      (q = Inr () \<longrightarrow> d1 = take (unat n') (drop (unat o') (content (l_dev s) (unat block))))"
    using rawread[OF g _ _ _ raw] b(1) fit nR nl by (simp add: word_less_nat_alt bs R_def min_def)
  have "r = q" "s' = s1" "rc' = rc\<lparr>c_block := block, c_offset := o', c_size := n', c_buffer := blit 0 d1 (c_buffer rc)\<rparr>"
    using e raw nl unfolding load_read_cache_def Let_def
    by (simp_all add: mem_get_ok o'_def [symmetric] n'_def [symmetric])
  then show ?thesis
    using W b(1) fit cov oR nl len nR unfolding cache_holds_def cache_fits_def
    by (auto simp: C_def R_def bs blit_def)
qed

subsection \<open>The read\<close>

text \<open>The bytes \<open>overlay\<close> gives, in the two ways the code gets them.\<close>

lemma overlay_hit:
  assumes "cache_fits s w" "unat (c_offset w) \<le> o'" "o' + m \<le> unat (c_offset w) + unat (c_size w)"
    "length (disk (unat (c_block w))) = unat (l_block_size s)"
  shows "take m (drop (o' - unat (c_offset w)) (c_buffer w)) = take m (drop o' (overlay (Some w) disk (unat (c_block w))))"
proof (rule nth_equalityI)
  have l: "o' - unat (c_offset w) + m \<le> length (c_buffer w)" "o' + m \<le> unat (l_block_size s)"
    using assms(1-3) unfolding cache_fits_def by linarith+
  have f: "unat (c_offset w) + length (take (unat (c_size w)) (c_buffer w)) \<le> length (disk (unat (c_block w)))"
    using assms(1,4) unfolding cache_fits_def by simp
  show "length (take m (drop (o' - unat (c_offset w)) (c_buffer w))) = length (take m (drop o' (overlay (Some w) disk (unat (c_block w)))))"
    using l f assms(4) by (simp add: overlay_def)
  fix i
  assume "i < length (take m (drop (o' - unat (c_offset w)) (c_buffer w)))"
  then have i: "i < m" by simp
  have "overlay (Some w) disk (unat (c_block w)) ! (o' + i) = c_buffer w ! (o' + i - unat (c_offset w))"
    using i l f assms(1-4) unfolding cache_fits_def by (simp add: overlay_def nth_blit)
  then show "take m (drop (o' - unat (c_offset w)) (c_buffer w)) ! i = take m (drop o' (overlay (Some w) disk (unat (c_block w)))) ! i"
    using i l f assms(2,4) by (simp add: overlay_def)
qed

lemma overlay_miss:
  assumes "\<And>w. wc = Some w \<Longrightarrow> unat (c_block w) = b \<Longrightarrow> unat (c_offset w) + unat (c_size w) \<le> length (disk b) \<and>
      unat (c_size w) \<le> length (c_buffer w) \<and> (\<forall>i. o' \<le> i \<longrightarrow> i < o' + m \<longrightarrow> \<not> (unat (c_offset w) \<le> i \<and> i < unat (c_offset w) + unat (c_size w)))"
    "o' + m \<le> length (disk b)"
  shows "take m (drop o' (overlay wc disk b)) = take m (drop o' (disk b))"
proof (cases wc)
  case None
  then show ?thesis by (simp add: overlay_def)
next
  case (Some w)
  show ?thesis
  proof (cases "unat (c_block w) = b")
    case True
    note W = assms(1)[OF Some True]
    have n: "blit (unat (c_offset w)) (take (unat (c_size w)) (c_buffer w)) (disk b) ! i = disk b ! i" if "o' \<le> i" "i < o' + m" for i
      using that W assms(2) by (subst nth_blit) (auto simp: min_def)
    show ?thesis
      using n W assms(2) True by (intro nth_equalityI) (auto simp: overlay_def Some)
  qed (simp add: overlay_def Some)
qed

definition read_pre :: "'d lfs \<Rightarrow> lfs_cache option \<Rightarrow> lfs_cache \<Rightarrow> lfs_size_t \<Rightarrow> lfs_block_t \<Rightarrow> bool" where
  "read_pre s wc rc hint block \<longleftrightarrow> geometry s bsize bcount \<and> runs_on s ops \<and> inv (l_dev s) \<and> pending_fits s wc \<and>
     cache_holds s rc (content (l_dev s)) \<and> block < l_block_count s \<and>
     0 < unat hint \<and> bsize + unat hint + unat (cfg_read_size (l_cfg s)) \<le> 2 ^ 64"

definition read_post :: "'d lfs \<Rightarrow> lfs_cache option \<Rightarrow> lfs_block_t \<Rightarrow> lfs_off_t \<Rightarrow> u8 list \<Rightarrow> nat \<Rightarrow> lfs_size_t \<Rightarrow> unit result \<times> u8 list \<times> lfs_cache \<times> 'd lfs \<Rightarrow> bool" where
  "read_post s wc block off buf data n res = (case res of (r, buf', rc', s') \<Rightarrow>
     same_disk s s' \<and> sound r \<and> length buf' = length buf \<and>
     (r = Inr () \<longrightarrow> cache_holds s rc' (content (l_dev s)) \<and>
       buf' = take data buf @ take (unat n) (drop (unat off) (overlay wc (content (l_dev s)) (unat block)))))"

lemma length_overlay:
  assumes "read_pre s wc rc hint block"
  shows "length (overlay wc (content (l_dev s)) (unat block)) = bsize"
proof -
  have l: "length (content (l_dev s) (unat block)) = bsize"
    using assms by (intro length_content) (simp_all add: read_pre_def geometry_def word_less_nat_alt)
  show ?thesis
  proof (cases wc)
    case (Some w)
    have "cache_fits s w" if "unat (c_block w) = unat block"
      using assms that by (simp add: read_pre_def pending_fits_def Some word_less_nat_alt)
    then show ?thesis
      using l assms by (auto simp: overlay_def Some cache_fits_def read_pre_def geometry_def)
  qed (simp add: overlay_def l)
qed

lemma consume:
  assumes "read_post s1 wc block (off + of_nat m) (blit data bytes buf) (data + m) (n - of_nat m) res"
    and "same_disk s s1" "data + unat n = length buf" "m \<le> unat n" "unat off + unat n \<le> bsize" "bsize < 2 ^ 64"
    and "bytes = take m (drop (unat off) (overlay wc (content (l_dev s)) (unat block)))"
    and "length (overlay wc (content (l_dev s)) (unat block)) = bsize"
  shows "read_post s wc block off buf data n res"
proof -
  let ?v = "overlay wc (content (l_dev s)) (unat block)"
  have l: "length bytes = m" using assms(4,5,7,8) by simp
  have o: "unat (off + of_nat m) = unat off + m"
    using assms(4-6) by (intro unat_add_of_nat_u64) linarith
  have "unat (of_nat m :: u64) = m" using assms(4-6) by (intro unat_of_nat_u64) linarith
  then have n: "unat (n - of_nat m) = unat n - m" using assms(4) by (simp add: unat_sub_u64)
  have e: "take (data + m) (blit data bytes buf) = take data buf @ bytes"
    using assms(3,4) l by (simp add: blit_def)
  have lb: "length (blit data bytes buf) = length buf" using assms(3,4) l by simp
  have "bytes @ take (unat n - m) (drop (unat off + m) ?v) = take (unat n) (drop (unat off) ?v)"
    using take_drop_append[of m "unat n - m" "unat off" ?v] assms(4,7) by simp
  then show ?thesis
    using assms(1-3) l unfolding read_post_def
    by (auto simp: o n e lb same_diskD intro: same_disk_trans split: prod.splits)
qed

lemma read_loop:
  assumes "read_pre s wc rc hint block" "unat off + unat n \<le> bsize" "data + unat n = length buf"
    and "2 * unat n < fuel \<or> 2 * unat n \<le> fuel \<and> 0 < unat n \<and> c_block rc = block \<and>
      unat (c_offset rc) \<le> unat off \<and> unat off < unat (c_offset rc) + unat (c_size rc)"
  shows "read_post s wc block off buf data n (lfs_bd_read_loop fuel s wc rc hint block off buf data n)"
  using assms
proof (induction fuel arbitrary: s rc off buf data n)
  case 0
  then show ?case by auto
next
  case (Suc fuel)
  note pre = Suc.prems(1)
  have g: "geometry s bsize bcount" "runs_on s ops" "inv (l_dev s)" "pending_fits s wc"
    "cache_holds s rc (content (l_dev s))" "block < l_block_count s"
    using pre by (simp_all add: read_pre_def)
  have bs: "unat (l_block_size s) = bsize" "bsize < 2 ^ 64" "unat block < bcount"
    using g bounds by (simp_all add: geometry_def word_less_nat_alt)
  have lc: "length (content (l_dev s) (unat block)) = bsize" by (rule length_content [OF g(3) bs(3)])
  let ?V = "overlay wc (content (l_dev s)) (unat block)"
  note lv = length_overlay[OF pre]
  show ?case
  proof (cases "unat n = 0")
    case True
    then have "n = 0" by (simp add: word_eq_nat_alt)
    then show ?thesis using Suc.prems g by (simp add: read_post_def same_disk_refl)
  next
    case False
    then have n: "0 < n" "0 < unat n" by (simp_all add: word_less_nat_alt)
    have step: "read_post s wc block off buf data n
        (lfs_bd_read_loop fuel s1 wc rc hint block (off + of_nat (length bytes)) (blit data bytes buf) (data + length bytes) (n - of_nat (length bytes)))"
      if "same_disk s s1" "bytes = take m (drop (unat off) ?V)" "0 < m" "m \<le> unat n" for s1 bytes m
    proof -
      have l: "length bytes = m" using that lv Suc.prems(2) by simp
      have o: "unat (off + of_nat m) = unat off + m"
        using that(4) Suc.prems(2) bs(2) by (intro unat_add_of_nat_u64) linarith
      have "unat (of_nat m :: u64) = m" using that(4) Suc.prems(2) bs(2) by (intro unat_of_nat_u64) linarith
      then have d: "unat (n - of_nat m) = unat n - m" using that(4) by (simp add: unat_sub_u64)
      have p1: "read_pre s1 wc rc hint block"
        using pre that(1) by (simp add: read_pre_def same_diskD)
      show ?thesis unfolding l
      proof (rule consume [OF Suc.IH that(1) Suc.prems(3) that(4) Suc.prems(2) bs(2) that(2) lv])
        show "read_pre s1 wc rc hint block" by (rule p1)
        show "unat (off + of_nat m) + unat (n - of_nat m) \<le> bsize"
          unfolding o d using that(4) Suc.prems(2) by simp
        show "data + m + unat (n - of_nat m) = length (blit data bytes buf)"
          unfolding d using that(4) Suc.prems(3) l by simp
        show "2 * unat (n - of_nat m) < fuel \<or> 2 * unat (n - of_nat m) \<le> fuel \<and> 0 < unat (n - of_nat m) \<and> c_block rc = block \<and>
            unat (c_offset rc) \<le> unat (off + of_nat m) \<and> unat (off + of_nat m) < unat (c_offset rc) + unat (c_size rc)"
          unfolding d using that(3,4) Suc.prems(4) by linarith
      qed
    qed
    let ?R = "unat (cfg_read_size (l_cfg s))"
    note loop = lfs_bd_read_loop.simps(2)[of fuel s wc rc hint block off buf data n]
    define wd where "wd = (case wc of None \<Rightarrow> Inr n | Some w \<Rightarrow> cache_diff w block off n)"
    show ?thesis
    proof (cases "\<exists>w. wc = Some w \<and> block = c_block w \<and> unat (c_offset w) \<le> unat off \<and> unat off < unat (c_offset w) + unat (c_size w)")
      case True
      then obtain w where w: "wc = Some w" "block = c_block w" "unat (c_offset w) \<le> unat off" "unat off < unat (c_offset w) + unat (c_size w)" by blast
      have f: "cache_fits s w" using g(4,6) w(1,2) by (simp add: pending_fits_def)
      define m where "m = min (unat n) (unat (c_offset w) + unat (c_size w) - unat off)"
      define bytes where "bytes = take m (drop (unat off - unat (c_offset w)) (c_buffer w))"
      have "wd = Inl (Inr bytes)"
        unfolding wd_def bytes_def m_def using cache_diff_hit[OF f w(2-4)] by (simp add: w(1))
      moreover have "bytes = take m (drop (unat off) ?V)"
        using overlay_hit[OF f w(3), of m "content (l_dev s)"] w lc bs m_def by (simp add: bytes_def)
      moreover have "0 < m" "m \<le> unat n" using w(4) n(2) by (simp_all add: m_def)
      ultimately show ?thesis
        using step[OF same_disk_refl [OF g(3)]] n(1) unfolding loop wd_def [symmetric] by simp
    next
      case nowc: False
      obtain d1 where d1: "wd = Inr d1" "0 < unat d1" "unat d1 \<le> unat n" "d1 = n \<or> ?R dvd unat off + unat d1"
        "\<And>w i. wc = Some w \<Longrightarrow> unat off \<le> i \<Longrightarrow> i < unat off + unat d1 \<Longrightarrow>
          \<not> (block = c_block w \<and> unat (c_offset w) \<le> i \<and> i < unat (c_offset w) + unat (c_size w))"
      proof (cases wc)
        case None
        then show thesis using that[of n] n by (simp add: wd_def)
      next
        case (Some w)
        have fits: "c_block w = block \<Longrightarrow> cache_fits s w" using g(4,6) Some by (simp add: pending_fits_def)
        obtain m where "cache_diff w block off n = Inr m" "0 < unat m" "unat m \<le> unat n"
          "m = n \<or> block = c_block w \<and> unat off + unat m = unat (c_offset w)"
          "\<And>i. unat off \<le> i \<Longrightarrow> i < unat off + unat m \<Longrightarrow> \<not> (block = c_block w \<and> unat (c_offset w) \<le> i \<and> i < unat (c_offset w) + unat (c_size w))"
          using cache_diff_miss[OF fits n(2)] nowc Some by blast
        then show thesis using that[of m] fits Some by (auto simp: wd_def cache_fits_def)
      qed
      have view: "take m (drop (unat off) ?V) = take m (drop (unat off) (content (l_dev s) (unat block)))" if "m \<le> unat d1" for m
      proof (rule overlay_miss)
        show "unat off + m \<le> length (content (l_dev s) (unat block))" using that d1(3) Suc.prems(2) lc by linarith
        fix w assume w: "wc = Some w" "unat (c_block w) = unat block"
        have "cache_fits s w" using g(4,6) w by (simp add: pending_fits_def word_less_nat_alt)
        moreover have "\<not> (unat (c_offset w) \<le> i \<and> i < unat (c_offset w) + unat (c_size w))" if "unat off \<le> i" "i < unat off + m" for i
          using d1(5)[OF w(1) that(1)] that(2) \<open>m \<le> unat d1\<close> w(2) by (simp add: word_eq_nat_alt)
        ultimately show "unat (c_offset w) + unat (c_size w) \<le> length (content (l_dev s) (unat block)) \<and> unat (c_size w) \<le> length (c_buffer w) \<and>
            (\<forall>i. unat off \<le> i \<longrightarrow> i < unat off + m \<longrightarrow> \<not> (unat (c_offset w) \<le> i \<and> i < unat (c_offset w) + unat (c_size w)))"
          using lc bs(1) by (simp add: cache_fits_def)
      qed
      show ?thesis
      proof (cases "block = c_block rc \<and> unat (c_offset rc) \<le> unat off \<and> unat off < unat (c_offset rc) + unat (c_size rc)")
        case True
        have f: "cache_fits s rc" using g(5,6) True by (simp add: cache_holds_def)
        define m where "m = min (unat d1) (unat (c_offset rc) + unat (c_size rc) - unat off)"
        define bytes where "bytes = take m (drop (unat off - unat (c_offset rc)) (c_buffer rc))"
        have "cache_diff rc block off d1 = Inl (Inr bytes)"
          unfolding bytes_def m_def using cache_diff_hit[OF f] True by simp
        moreover have "bytes = take m (drop (unat off) ?V)"
        proof -
          have m: "m \<le> unat d1" "unat off - unat (c_offset rc) + m \<le> unat (c_size rc)"
            using True unfolding m_def by linarith+
          have "bytes = take m (drop (unat off - unat (c_offset rc)) (take (unat (c_size rc)) (c_buffer rc)))"
            using m(2) by (simp add: bytes_def drop_take min_def)
          also have "take (unat (c_size rc)) (c_buffer rc) = take (unat (c_size rc)) (drop (unat (c_offset rc)) (content (l_dev s) (unat block)))"
            using g(5,6) True by (simp add: cache_holds_def)
          also have "take m (drop (unat off - unat (c_offset rc)) \<dots>) = take m (drop (unat off) (content (l_dev s) (unat block)))"
            using m(2) True by (simp add: drop_take min_def)
          finally show ?thesis using view[OF m(1)] by simp
        qed
        moreover have "0 < m" "m \<le> unat n" using True d1(2,3) by (simp_all add: m_def)
        ultimately show ?thesis
          using step[OF same_disk_refl [OF g(3)]] n(1) d1(1) unfolding loop wd_def [symmetric] by simp
      next
        case norc: False
        have fits: "c_block rc = block \<Longrightarrow> cache_fits s rc" using g(5,6) by (simp add: cache_holds_def)
        obtain d2 where d2: "cache_diff rc block off d1 = Inr d2" "0 < unat d2" "unat d2 \<le> unat d1"
          "d2 = d1 \<or> block = c_block rc \<and> unat off + unat d2 = unat (c_offset rc)"
          using cache_diff_miss[OF fits d1(2) norc] by blast
        have d2R: "d2 = n \<or> ?R dvd unat off + unat d2"
          using d2(4) d1(4) fits by (auto simp: cache_fits_def)
        show ?thesis
        proof (cases "hint \<le> n \<and> off mod cfg_read_size (l_cfg s) = 0 \<and> cfg_read_size (l_cfg s) \<le> n")
          case True
          define d3 where "d3 = lfs_aligndown d2 (cfg_read_size (l_cfg s))"
          have Rpos: "0 < ?R" using g(1) by (simp add: geometry_def)
          have Roff: "?R dvd unat off" using True by (simp add: word_eq_nat_alt unat_mod dvd_eq_mod_eq_0)
          have d3: "unat d3 = unat d2 - unat d2 mod ?R" by (simp add: d3_def unat_lfs_aligndown)
          have R3: "?R dvd unat d3" by (simp add: d3 dvd_minus_mod)
          have "0 < unat d3"
          proof (cases "d2 = n")
            case True
            then have "?R \<le> unat d2" using \<open>hint \<le> n \<and> _\<close> by (simp add: word_le_nat_alt)
            then show ?thesis unfolding d3 using Rpos mod_less_divisor[of ?R "unat d2"] by linarith
          next
            case False
            then have "?R dvd unat d2" using d2R Roff by (simp add: dvd_add_right_iff)
            then show ?thesis using d2(2) by (simp add: d3 mod_eq_0_iff_dvd)
          qed
          moreover have le: "unat d3 \<le> unat d1" using d2(3) unfolding d3 by linarith
          moreover obtain r1 bytes s1 where raw: "lfs_bd_rawread s block off (take (unat d3) (drop data buf)) = (r1, bytes, s1)"
            by (metis prod_cases3)
          have lb: "length (take (unat d3) (drop data buf)) = unat d3"
            using le d1(3) Suc.prems(3) by simp
          have W: "same_disk s s1 \<and> length bytes = unat d3 \<and> sound r1 \<and>
              (r1 = Inr () \<longrightarrow> bytes = take (unat d3) (drop (unat off) (content (l_dev s) (unat block))))"
            using rawread[OF g(1-3) bs(3) _ _ raw] lb le d1(3) Suc.prems(2) R3 by simp
          ultimately show ?thesis
          proof (cases r1)
            case (Inl h)
            have "length (blit data bytes buf) = length buf" using W le d1(3) Suc.prems(3) by simp
            then show ?thesis
              using W Inl raw n(1) d1(1) d2(1) True unfolding loop wd_def [symmetric]
              by (simp add: d3_def [symmetric] Let_def read_post_def)
          next
            case (Inr u)
            have l: "length bytes = unat d3" using W by simp
            have b: "bytes = take (unat d3) (drop (unat off) ?V)" using W Inr view[OF le] by simp
            have "unat d3 \<le> unat n" using le d1(3) by simp
            then have "read_post s wc block off buf data n
                (lfs_bd_read_loop fuel s1 wc rc hint block (off + d3) (blit data bytes buf) (data + unat d3) (n - d3))"
              using step[OF _ b \<open>0 < unat d3\<close>, of s1] W unfolding l by simp
            then show ?thesis
              using Inr raw n(1) d1(1) d2(1) True unfolding loop wd_def [symmetric]
              by (simp add: d3_def [symmetric] Let_def)
          qed
        next
          case False
          obtain r1 rc1 s1 where ld: "load_read_cache s rc hint block off = (r1, rc1, s1)" by (metis prod_cases3)
          have "unat off < bsize" using n(2) Suc.prems(2) by linarith
          note L = load_preserves[OF g(1-3) g(6) this _ _ g(5) ld]
          have L: "same_disk s s1 \<and> sound r1 \<and> (r1 = Inr () \<longrightarrow> cache_holds s rc1 (content (l_dev s)) \<and>
              c_block rc1 = block \<and> unat (c_offset rc1) \<le> unat off \<and> unat off < unat (c_offset rc1) + unat (c_size rc1))"
            using L pre by (simp add: read_pre_def)
          show ?thesis
          proof (cases r1)
            case (Inl h)
            then show ?thesis
              using L ld n(1) d1(1) d2(1) unfolding loop wd_def [symmetric] if_not_P [OF False] by (simp add: read_post_def)
          next
            case (Inr u)
            have "read_pre s1 wc rc1 hint block"
              using L Inr pre by (simp add: read_pre_def same_diskD [OF conjunct1 [OF L]])
            then have "read_post s1 wc block off buf data n (lfs_bd_read_loop fuel s1 wc rc1 hint block off buf data n)"
              using L Inr Suc.prems(2-4) norc n(2) by (intro Suc.IH) auto
            then have "read_post s wc block off buf data n (lfs_bd_read_loop fuel s1 wc rc1 hint block off buf data n)"
              using conjunct1 [OF L]
              by (auto simp: read_post_def same_diskD [OF conjunct1 [OF L]] intro: same_disk_trans split: prod.splits)
            then show ?thesis
              using Inr ld n(1) d1(1) d2(1) unfolding loop wd_def [symmetric] if_not_P [OF False] by simp
          qed
        qed
      qed
    qed
  qed
qed

lemma bd_read:
  assumes "read_pre s wc rc hint block" "unat off + length buf \<le> bsize"
  shows "case lfs_bd_read s wc rc hint block off buf of (r, buf', rc', s') \<Rightarrow>
    same_disk s s' \<and> sound r \<and> length buf' = length buf \<and>
    (r = Inr () \<longrightarrow> cache_holds s rc' (content (l_dev s)) \<and>
      buf' = take (length buf) (drop (unat off) (overlay wc (content (l_dev s)) (unat block))))"
proof -
  have g: "unat (l_block_size s) = bsize" "block < l_block_count s" "bsize < 2 ^ 64"
    using assms(1) bounds by (simp_all add: read_pre_def geometry_def)
  have n: "unat (of_nat (length buf) :: u64) = length buf"
    using assms(2) g(3) by (intro unat_of_nat_u64) linarith
  have o: "unat (off + of_nat (length buf)) = unat off + length buf"
    using assms(2) g(3) by (intro unat_add_of_nat_u64) linarith
  have "lfs_bd_read s wc rc hint block off buf =
      lfs_bd_read_loop (Suc (2 * length buf)) s wc rc hint block off buf 0 (of_nat (length buf))"
    unfolding lfs_bd_read_def Let_def using g assms(2)
    by (simp add: n o word_less_nat_alt word_le_nat_alt not_le del: lfs_bd_read_loop.simps)
  then show ?thesis
    using read_loop[OF assms(1), of off "of_nat (length buf)" 0 buf "Suc (2 * length buf)"] assms(2)
    by (simp add: n read_post_def del: lfs_bd_read_loop.simps)
qed

end

end
