(* ===== verification/DeviceWrite.thy ===== *)
theory DeviceWrite
  imports DeviceRead
begin

text \<open>
  Comparing, flushing and writing through the caches. On a \<open>readable_device\<close>, whatever it does with
  writes, \<open>lfs_bd_cmp\<close> is \<open>memcmp\<close> against the disk and a validated flush that reports success has
  put the bytes of the write cache on the disk. On a \<open>block_device\<close>, a write that reports success
  changes exactly the bytes it was given, as a reader through the write cache sees them.
\<close>

subsection \<open>What is assumed of the write cache\<close>

text \<open>A write cache in use: its start and the room up to the next write unit are inside the block.\<close>

definition flushable :: "'d lfs \<Rightarrow> lfs_cache \<Rightarrow> bool" where
  "flushable s w \<longleftrightarrow> c_block w < l_block_count s \<and> 0 < unat (c_size w) \<and>
     unat (c_offset w) + unat (c_size w) \<le> unat (l_block_size s) \<and> unat (c_size w) \<le> unat (cfg_cache_size (l_cfg s)) \<and>
     length (c_buffer w) = unat (cfg_cache_size (l_cfg s)) \<and> unat (cfg_write_size (l_cfg s)) dvd unat (c_offset w)"

definition flush_size :: "'d lfs \<Rightarrow> lfs_cache \<Rightarrow> nat" where
  "flush_size s w = unat (lfs_alignup (c_size w) (cfg_write_size (l_cfg s)))"

subsection \<open>Comparing\<close>

lemma memcmp_append:
  assumes "length as = length bs"
  shows "memcmp (as @ cs) (bs @ ds) = (case memcmp as bs of LFS_CMP_EQ \<Rightarrow> memcmp cs ds | r \<Rightarrow> r)"
  using assms by (induction as bs rule: list_induct2) auto

lemma memcmp_eq: "length as = length bs \<Longrightarrow> memcmp as bs = LFS_CMP_EQ \<longleftrightarrow> as = bs"
  by (induction as bs rule: list_induct2) auto

text \<open>The order of \<open>memcmp\<close> is the lexicographic one.\<close>

lemma memcmp_lexordp: "length as = length bs \<Longrightarrow> memcmp as bs = LFS_CMP_LT \<longleftrightarrow> ord_class.lexordp as bs"
  by (induction as bs rule: list_induct2) auto

context readable_device begin

definition cmp_post :: "'d lfs \<Rightarrow> lfs_cache option \<Rightarrow> lfs_block_t \<Rightarrow> nat \<Rightarrow> u8 list \<Rightarrow> nat \<Rightarrow> lfs_cmp result \<times> lfs_cache \<times> 'd lfs \<Rightarrow> bool" where
  "cmp_post s wc block off data n res = (case res of (r, rc', s') \<Rightarrow>
     same_disk s s' \<and> sound r \<and>
     (\<forall>c. r = Inr c \<longrightarrow> cache_holds s rc' (content (l_dev s)) \<and>
       c = memcmp (take n (drop off (overlay wc (content (l_dev s)) (unat block)))) (take n data)))"

lemma cmp_loop:
  assumes "read_pre s wc rc hint block" "unat n \<le> unat hint" "unat off + unat n \<le> bsize" "unat n \<le> length data"
    and "idx \<le> n" "unat n - unat idx < fuel"
  shows "cmp_post s wc block (unat off + unat idx) (drop (unat idx) data) (unat n - unat idx)
    (lfs_bd_cmp_loop fuel s wc rc hint block off data n idx)"
  using assms
proof (induction fuel arbitrary: s rc idx)
  case 0
  then show ?case by simp
next
  case (Suc fuel)
  note pre = Suc.prems(1)
  have g: "inv (l_dev s)" "cache_holds s rc (content (l_dev s))" using pre by (simp_all add: read_pre_def)
  have lt: "bsize < 2 ^ 64" using bounds[OF g(1)] by simp
  have i: "unat idx \<le> unat n" using Suc.prems(5) by (simp add: word_le_nat_alt)
  let ?V = "overlay wc (content (l_dev s)) (unat block)"
  show ?case
  proof (cases "idx < n")
    case False
    then have "unat n - unat idx = 0" by (simp add: word_less_nat_alt)
    with False g show ?thesis by (simp add: cmp_post_def same_disk_refl)
  next
    case True
    define diff where "diff = lfs_min (n - idx) 256"
    have d: "unat diff = min (unat n - unat idx) 256" using i by (simp add: diff_def lfs_min_unat unat_sub_u64)
    have dpos: "0 < unat diff" using True d by (simp add: word_less_nat_alt)
    have o: "unat (off + idx) = unat off + unat idx" using Suc.prems(3) i lt by (intro unat_add_u64) linarith
    have h: "unat (hint - idx) = unat hint - unat idx" using Suc.prems(2) i by (intro unat_sub_u64) linarith
    have ix: "unat (idx + diff) = unat idx + unat diff" using Suc.prems(3) i d lt by (intro unat_add_u64) linarith
    obtain r dat rc1 s1 where rd: "lfs_bd_read s wc rc (hint - idx) block (off + idx) (replicate (unat diff) 0) = (r, dat, rc1, s1)"
      by (metis prod_cases4)
    have p1: "read_pre s wc rc (hint - idx) block"
      using pre True Suc.prems(2) i unfolding read_pre_def h word_less_nat_alt by auto
    have fit: "unat (off + idx) + length (replicate (unat diff) (0::u8)) \<le> bsize"
      using Suc.prems(3) i d by (simp add: o)
    have R: "same_disk s s1 \<and> sound r \<and> length dat = unat diff \<and>
        (r = Inr () \<longrightarrow> cache_holds s rc1 (content (l_dev s)) \<and> dat = take (unat diff) (drop (unat off + unat idx) ?V))"
      using bd_read[OF p1 fit] by (simp add: rd o)
    have mg: "mem_get data (unat idx) (unat diff) = Inr (take (unat diff) (drop (unat idx) data))"
      using Suc.prems(4) i d by (intro mem_get_ok) linarith
    have split: "memcmp (take (unat n - unat idx) (drop (unat off + unat idx) ?V)) (take (unat n - unat idx) (drop (unat idx) data)) =
        (case memcmp (take (unat diff) (drop (unat off + unat idx) ?V)) (take (unat diff) (drop (unat idx) data)) of
           LFS_CMP_EQ \<Rightarrow> memcmp (take (unat n - unat (idx + diff)) (drop (unat off + unat (idx + diff)) ?V))
             (take (unat n - unat (idx + diff)) (drop (unat (idx + diff)) data)) | r \<Rightarrow> r)"
    proof -
      have n: "unat n - unat idx = unat diff + (unat n - (unat idx + unat diff))" using d i by simp
      show ?thesis unfolding ix n take_drop_append add.assoc
        by (subst memcmp_append) (use length_overlay[OF pre] Suc.prems(3,4) i d in simp_all)
    qed
    note loop = lfs_bd_cmp_loop.simps(2)[of fuel s wc rc hint block off data n idx]
    show ?thesis
    proof (cases r)
      case (Inl e)
      then show ?thesis using R True unfolding loop by (cases e) (simp_all add: diff_def [symmetric] rd cmp_post_def)
    next
      case (Inr u)
      have p2: "read_pre s1 wc rc1 hint block"
        using R Inr pre by (simp add: read_pre_def same_diskD [OF conjunct1 [OF R]])
      have "cmp_post s1 wc block (unat off + unat (idx + diff)) (drop (unat (idx + diff)) data) (unat n - unat (idx + diff))
          (lfs_bd_cmp_loop fuel s1 wc rc1 hint block off data n (idx + diff))"
        using Suc.prems dpos i d by (intro Suc.IH[OF p2]) (simp_all add: ix word_le_nat_alt)
      then have IH: "cmp_post s wc block (unat off + unat (idx + diff)) (drop (unat (idx + diff)) data) (unat n - unat (idx + diff))
          (lfs_bd_cmp_loop fuel s1 wc rc1 hint block off data n (idx + diff))"
        using conjunct1 [OF R] by (auto simp: cmp_post_def same_diskD [OF conjunct1 [OF R]] intro: same_disk_trans split: prod.splits)
      show ?thesis
        using R Inr True IH split unfolding loop
        by (auto simp: diff_def [symmetric] Let_def rd mg cmp_post_def split: lfs_cmp.splits)
    qed
  qed
qed

lemma bd_cmp:
  assumes "read_pre s wc rc hint block" "unat n \<le> unat hint" "unat off + unat n \<le> bsize" "unat n \<le> length data"
  shows "cmp_post s wc block (unat off) data (unat n) (lfs_bd_cmp s wc rc hint block off data n)"
  using cmp_loop[OF assms, of 0 "Suc (unat n)"] by (simp add: lfs_bd_cmp_def del: lfs_bd_cmp_loop.simps)

subsection \<open>The raw write\<close>

definition same_but :: "'d lfs \<Rightarrow> 'd lfs \<Rightarrow> nat \<Rightarrow> bool" where
  "same_but s s' b \<longleftrightarrow> (\<exists>d. s' = s\<lparr>l_dev := d\<rparr> \<and> inv d \<and> (\<forall>k<bcount. k \<noteq> b \<longrightarrow> content d k = content (l_dev s) k))"

lemma same_butD:
  assumes "same_but s s' b"
  shows "inv (l_dev s')" "runs_on s' ops = runs_on s ops" "k < bcount \<Longrightarrow> k \<noteq> b \<Longrightarrow> content (l_dev s') k = content (l_dev s) k"
    "geometry s' bsize bcount = geometry s bsize bcount" "cache_fits s' = cache_fits s" "cache_holds s' = cache_holds s"
    "pending_fits s' = pending_fits s" "l_cfg s' = l_cfg s" "l_block_size s' = l_block_size s" "l_block_count s' = l_block_count s"
  using assms by (auto simp: same_but_def runs_on_def geometry_def cache_fits_def cache_holds_def pending_fits_def fun_eq_iff split: option.splits)

lemma same_disk_same_but: "same_disk s s' \<Longrightarrow> same_but s s' b"
  by (auto simp: same_disk_def same_but_def)

lemma same_but_trans: "same_but s s' b \<Longrightarrow> same_but s' s'' b \<Longrightarrow> same_but s s'' b"
  by (auto simp: same_but_def)

lemma same_but_refl: "inv (l_dev s) \<Longrightarrow> same_but s s b"
  by (rule same_disk_same_but [OF same_disk_refl])

end

text \<open>A write that stays in one erase block is one call of the driver.\<close>

lemma rawprog_once:
  assumes "0 < n" "off + n \<le> l_erase_size s" "n mod cfg_write_size (l_cfg s) = 0"
    "lfs_min n (off + l_erase_size s) = n" "unat n = length buf"
  shows "lfs_bd_rawprog_loop (Suc (Suc f)) s block off buf n =
    (case cfg_write (l_cfg s) (l_dev s) block off buf of
       (Inl h, d) \<Rightarrow> (Inl h, s\<lparr>l_dev := d\<rparr>) | (Inr _, d) \<Rightarrow> (Inr (), s\<lparr>l_dev := d\<rparr>))"
  using assms by (simp add: Let_def split: prod.splits sum.splits)

lemma rawprog_call:
  assumes g: "geometry s bs bc" "unat block < bc" "unat off + length buf \<le> bs"
    and d: "unat (cfg_write_size (l_cfg s)) dvd length buf" and ne: "buf \<noteq> []"
  shows "lfs_bd_rawprog s block off buf =
    (case cfg_write (l_cfg s) (l_dev s) block off buf of
       (Inl h, d) \<Rightarrow> (Inl h, s\<lparr>l_dev := d\<rparr>) | (Inr _, d) \<Rightarrow> (Inr (), s\<lparr>l_dev := d\<rparr>))"
proof -
  let ?n = "of_nat (length buf) :: u64"
  have bs: "unat (l_block_size s) = bs" "unat (l_block_count s) = bc" "l_erase_size s = l_block_size s" "bs < 2 ^ 63"
    using g(1) by (simp_all add: geometry_def)
  have n: "unat ?n = length buf" using g(3) bs(4) by (intro unat_of_nat_u64) simp
  have on: "unat (off + ?n) = unat off + length buf" using g(3) bs(4) by (intro unat_add_of_nat_u64) simp
  have md: "?n mod cfg_write_size (l_cfg s) = 0"
    using d by (simp add: word_eq_nat_alt unat_mod n)
  have as: "block < l_block_count s" "off + ?n \<le> l_block_size s"
    using g(2,3) by (simp_all add: word_less_nat_alt word_le_nat_alt bs on)
  have pos: "0 < ?n" using ne by (simp add: word_less_nat_alt n)
  have "0 < bs" using ne g(3) by (cases buf) auto
  then have dv: "l_block_size s div l_block_size s = 1"
    using bs(1) by (simp add: word_eq_nat_alt unat_div)
  have ob: "unat off < bs" using ne g(3) by (cases buf) auto
  then have o: "off mod l_block_size s = off" "off div l_block_size s = 0"
    by (simp_all add: word_eq_nat_alt unat_mod unat_div bs)
  have "unat (lfs_min ?n (off + l_block_size s)) = length buf"
    using g(3) ob bs(4) by (simp add: lfs_min_unat n unat_add_u64 bs)
  then have dl: "lfs_min ?n (off + l_block_size s) = ?n" by (simp add: word_eq_nat_alt n)
  obtain f where f: "length buf = Suc f" using ne by (cases "length buf") auto
  have "lfs_bd_rawprog s block off buf = lfs_bd_rawprog_loop (Suc (unat ?n)) s block off buf ?n"
    unfolding lfs_bd_rawprog_def Let_def using as md by (simp add: bs(3) dv o)
  also have "\<dots> = lfs_bd_rawprog_loop (Suc (Suc f)) s block off buf ?n"
    unfolding trans [OF n f] ..
  finally show ?thesis
    using as(2) md pos by (subst (asm) rawprog_once) (simp_all add: bs(3) dl n)
qed

context readable_device begin

lemma rawprog:
  assumes g: "geometry s bsize bcount" "runs_on s ops" "inv (l_dev s)"
    and b: "unat block < bcount" "unat off + length buf \<le> bsize"
    and d: "unat (cfg_write_size (l_cfg s)) dvd length buf" "buf \<noteq> []"
    and e: "lfs_bd_rawprog s block off buf = (r, s')"
  shows "same_but s s' (unat block) \<and> sound r \<and> (\<exists>d'. s' = s\<lparr>l_dev := d'\<rparr> \<and> bd_write ops (l_dev s) block off buf = (r, d'))"
proof -
  obtain q d1 where w: "bd_write ops (l_dev s) block off buf = (q, d1)" by (metis prod.exhaust)
  have "cfg_write (l_cfg s) = bd_write ops" using g(2) by (simp add: runs_on_def)
  then have "r = q" "s' = s\<lparr>l_dev := d1\<rparr>"
    using e w by (auto simp: rawprog_call[OF g(1) b d] split: sum.splits)
  then show ?thesis
    using write_sound[OF g(3) b w] w by (auto simp: same_but_def)
qed

subsection \<open>Flushing\<close>

lemma flush_size:
  assumes "geometry s bsize bcount" "flushable s w"
  shows "unat (c_size w) \<le> flush_size s w" "flush_size s w \<le> unat (cfg_cache_size (l_cfg s))"
    "unat (c_offset w) + flush_size s w \<le> bsize" "unat (cfg_write_size (l_cfg s)) dvd flush_size s w"
proof -
  let ?W = "unat (cfg_write_size (l_cfg s))" and ?C = "unat (cfg_cache_size (l_cfg s))" and ?n = "unat (c_size w)"
  have bs: "unat (l_block_size s) = bsize" using assms(1) by (simp add: geometry_def)
  have W: "0 < ?W" "?W dvd ?C" "?W dvd bsize" "bsize < 2 ^ 63" "?C dvd bsize" "0 < ?C"
    using assms(1) unfolding geometry_def by (auto intro: dvd_trans)
  have f: "unat (c_offset w) + ?n \<le> bsize" "?n \<le> ?C" "?W dvd unat (c_offset w)" "0 < ?n"
    using assms(2) by (simp_all add: flushable_def bs)
  have "0 < bsize" using f(1,4) by linarith
  then have "?W \<le> bsize" using W(3) by (intro dvd_imp_le)
  then have e: "flush_size s w = (?n + ?W - 1) div ?W * ?W"
    unfolding flush_size_def using W f(1) by (intro unat_lfs_alignup) (simp_all add: word_less_nat_alt)
  show "?n \<le> flush_size s w" unfolding e by (rule alignup_ge [OF W(1)])
  have least: "flush_size s w \<le> m" if dv: "?W dvd m" and "?n \<le> m" for m
  proof -
    obtain q where q: "m = ?W * q" using dv by (auto elim: dvdE)
    have "(?n + ?W - 1) div ?W \<le> (?W * q + ?W - 1) div ?W" using that q by (intro div_le_mono) simp
    also have "(?W * q + ?W - 1) div ?W = q" using W(1) by (intro div_nat_eqI) (simp_all add: algebra_simps)
    finally show ?thesis unfolding e q by (simp add: mult.commute)
  qed
  show "flush_size s w \<le> ?C" using W(2) f(2) by (rule least)
  have "flush_size s w \<le> bsize - unat (c_offset w)" using W(3) f(1,3) by (intro least dvd_diff_nat) simp_all
  then show "unat (c_offset w) + flush_size s w \<le> bsize" using f(1) by linarith
  show "?W dvd flush_size s w" by (simp add: e)
qed

lemma block_not_special:
  assumes "geometry s bs bc" "b < l_block_count s"
  shows "b \<noteq> LFS_BLOCK_NULL" "b \<noteq> LFS_BLOCK_INLINE"
proof -
  have "unat b < 2 ^ 63" using assms by (simp add: geometry_def word_less_nat_alt)
  moreover have "unat (- 1 :: u64) = 2 ^ 64 - 1" "unat (- 2 :: u64) = 2 ^ 64 - 2"
    by (simp_all add: unsigned_minus_1_eq_mask mask_eq_exp_minus_1)
  ultimately show "b \<noteq> LFS_BLOCK_NULL" "b \<noteq> LFS_BLOCK_INLINE" by auto
qed

lemma cache_holds_dropped:
  assumes "length (c_buffer rc) = unat (cfg_cache_size (l_cfg s))"
  shows "cache_holds s (lfs_cache_drop rc) disk" "cache_holds s (lfs_cache_zero rc) disk"
  using assms leD [OF word_order.extremum] by (simp_all add: cache_holds_def lfs_cache_drop_def lfs_cache_zero_def)

text \<open>The state of the caches and the disk when a flush has succeeded.\<close>

lemma flush_validated:
  assumes g: "geometry s bsize bcount" "runs_on s ops" "inv (l_dev s)" and w: "flushable s w"
    and rc: "length (c_buffer rc) = unat (cfg_cache_size (l_cfg s))"
    and room: "3 * bsize \<le> 2 ^ 64"
    and e: "lfs_bd_flush s w rc True = (r, w', rc', s')"
  shows "same_but s s' (unat (c_block w)) \<and> (sound r \<or> r = Inl (Err LFS_ERR_CORRUPT)) \<and>
    (r = Inr () \<longrightarrow> w' = lfs_cache_zero w \<and> cache_holds s rc' (content (l_dev s')) \<and>
      take (flush_size s w) (drop (unat (c_offset w)) (content (l_dev s') (unat (c_block w)))) = take (flush_size s w) (c_buffer w))"
proof -
  let ?d = "lfs_alignup (c_size w) (cfg_write_size (l_cfg s))" and ?n = "flush_size s w" and ?b = "unat (c_block w)"
  have d: "unat ?d = ?n" by (simp add: flush_size_def)
  note fs = flush_size[OF g(1) w]
  have W: "c_block w < l_block_count s" "0 < unat (c_size w)" "length (c_buffer w) = unat (cfg_cache_size (l_cfg s))"
    using w by (simp_all add: flushable_def)
  note nb = block_not_special[OF g(1) W(1)]
  have b: "?b < bcount" using g(1) W(1) by (simp add: geometry_def word_less_nat_alt)
  define bf where "bf = take ?n (c_buffer w)"
  have lb: "length bf = ?n" using fs(2) W(3) by (simp add: bf_def)
  have ne: "bf \<noteq> []" using lb fs(1) W(2) by auto
  have mg: "mem_get (c_buffer w) 0 (unat ?d) = Inr bf"
    using fs(2) W(3) by (simp add: d mem_get_ok bf_def)
  obtain r1 s1 where p: "lfs_bd_rawprog s (c_block w) (c_offset w) bf = (r1, s1)" by (metis prod.exhaust)
  have P: "same_but s s1 ?b \<and> sound r1"
    using rawprog[OF g b _ _ ne p] fs lb by auto
  show ?thesis
  proof (cases r1)
    case (Inl h)
    then show ?thesis using e P by (auto simp: lfs_bd_flush_def nb mg p)
  next
    case (Inr u)
    note D = same_butD[OF conjunct1 [OF P]]
    obtain r2 rc2 s2 where c: "lfs_bd_cmp s1 None (lfs_cache_drop rc) ?d (c_block w) (c_offset w) (c_buffer w) ?d = (r2, rc2, s2)"
      by (metis prod_cases3)
    have pre: "read_pre s1 None (lfs_cache_drop rc) ?d (c_block w)"
    proof -
      have "unat (cfg_read_size (l_cfg s)) \<le> bsize"
      proof (rule dvd_imp_le)
        show "unat (cfg_read_size (l_cfg s)) dvd bsize" using g(1) by (auto simp: geometry_def intro: dvd_trans)
        show "0 < bsize" using fs(1,3) W(2) by linarith
      qed
      moreover have "unat ?d \<le> bsize" using fs(3) d by linarith
      moreover have "0 < unat ?d" using fs(1) W(2) d by linarith
      ultimately show ?thesis
        using g W(1) rc room cache_holds_dropped(1)[of rc s1]
        by (simp add: read_pre_def D pending_fits_def)
    qed
    have C: "cmp_post s1 None (c_block w) (unat (c_offset w)) (c_buffer w) (unat ?d) (r2, rc2, s2)"
      using bd_cmp[OF pre order_refl, of "c_offset w" "c_buffer w"] fs(2,3) W(3) unfolding c d by simp
    then have S: "same_disk s1 s2" "sound r2" by (simp_all add: cmp_post_def)
    then have sb: "same_but s s2 ?b" using P by (blast intro: same_but_trans same_disk_same_but)
    show ?thesis
    proof (cases r2)
      case (Inl h)
      then show ?thesis
        using e sb S(2) Inr by (cases h) (auto simp: lfs_bd_flush_def lfs_bd_validate_def nb mg p c)
    next
      case (Inr res)
      have eq: "res = memcmp (take ?n (drop (unat (c_offset w)) (content (l_dev s1) ?b))) (take ?n (c_buffer w))"
        and ch: "cache_holds s1 rc2 (content (l_dev s1))"
        using C Inr by (simp_all add: cmp_post_def d overlay_def)
      have l: "length (content (l_dev s1) ?b) = bsize" by (rule length_content [OF D(1) b])
      have "res = LFS_CMP_EQ \<longleftrightarrow> take ?n (drop (unat (c_offset w)) (content (l_dev s1) ?b)) = take ?n (c_buffer w)"
        unfolding eq using fs(2,3) W(3) l by (intro memcmp_eq) simp
      then show ?thesis
        using e sb Inr \<open>r1 = Inr u\<close> same_diskD(2,6) [OF S(1)] ch D
        by (auto simp: lfs_bd_flush_def lfs_bd_validate_def nb mg p c split: if_splits)
    qed
  qed
qed

end

subsection \<open>Writing\<close>

lemma blit_blit_append:
  assumes "k + length bs \<le> length m" "k' + length as \<le> length bs"
  shows "blit (k + k') as (blit k bs m) = blit k (blit k' as bs) m"
  using assms by (intro nth_equalityI) (auto simp: nth_blit less_diff_conv2 add.commute add.left_commute)

lemma blit_extend:
  assumes "k + length bs \<le> length m" "k' \<le> length bs" "k + k' + length as \<le> length m"
  shows "blit (k + k') as (blit k bs m) = blit k (take k' bs @ as @ drop (k' + length as) bs) m"
proof (rule nth_equalityI)
  fix i
  assume "i < length (blit (k + k') as (blit k bs m))"
  then have i: "i < length m" using assms by simp
  let ?x = "take k' bs @ as @ drop (k' + length as) bs"
  have l: "k + length ?x \<le> length m" using assms by simp
  have "?x ! (i - k) = (if i < k + k' then bs ! (i - k) else if i < k + k' + length as then as ! (i - (k + k')) else bs ! (i - k))"
    if "k \<le> i" "i < k + length ?x"
    using that assms(2) by (auto simp: nth_append less_diff_conv2 min_def)
  then show "blit (k + k') as (blit k bs m) ! i = blit k ?x m ! i"
    using i l assms by (auto simp: nth_blit)
qed (use assms in simp)

text \<open>Where a write may begin: at the end of what the cache holds, or inside it.\<close>

definition writable :: "'d lfs \<Rightarrow> lfs_cache \<Rightarrow> lfs_block_t \<Rightarrow> nat \<Rightarrow> bool" where
  "writable s w block off \<longleftrightarrow> length (c_buffer w) = unat (cfg_cache_size (l_cfg s)) \<and>
     (if c_block w = LFS_BLOCK_NULL then unat (cfg_write_size (l_cfg s)) dvd off
      else c_block w = block \<and> unat (cfg_write_size (l_cfg s)) dvd unat (c_offset w) \<and>
        unat (c_size w) < unat (cfg_cache_size (l_cfg s)) \<and> unat (c_offset w) \<le> off \<and>
        off \<le> unat (c_offset w) + unat (c_size w) \<and> unat (c_offset w) + unat (c_size w) \<le> unat (l_block_size s))"

context block_device begin

lemma flush:
  assumes g: "geometry s bsize bcount" "runs_on s ops" "inv (l_dev s)" and w: "flushable s w"
    and e: "lfs_bd_flush s w rc False = (r, w', rc', s')"
  shows "same_but s s' (unat (c_block w)) \<and> sound r \<and> rc' = rc \<and>
    (r = Inr () \<longrightarrow> w' = lfs_cache_zero w \<and> content (l_dev s') (unat (c_block w)) =
      blit (unat (c_offset w)) (take (flush_size s w) (c_buffer w)) (content (l_dev s) (unat (c_block w))))"
proof -
  let ?d = "lfs_alignup (c_size w) (cfg_write_size (l_cfg s))" and ?n = "flush_size s w" and ?b = "unat (c_block w)"
  note fs = flush_size[OF g(1) w]
  have W: "c_block w < l_block_count s" "0 < unat (c_size w)" "length (c_buffer w) = unat (cfg_cache_size (l_cfg s))"
    using w by (simp_all add: flushable_def)
  note nb = block_not_special[OF g(1) W(1)]
  have b: "?b < bcount" using g(1) W(1) by (simp add: geometry_def word_less_nat_alt)
  define bf where "bf = take ?n (c_buffer w)"
  have lb: "length bf = ?n" using fs(2) W(3) by (simp add: bf_def)
  have ne: "bf \<noteq> []" using lb fs(1) W(2) by auto
  have mg: "mem_get (c_buffer w) 0 (unat ?d) = Inr bf"
    using fs(2) W(3) by (simp add: flush_size_def [symmetric] mem_get_ok bf_def)
  obtain r1 s1 where p: "lfs_bd_rawprog s (c_block w) (c_offset w) bf = (r1, s1)" by (metis prod.exhaust)
  have fit: "unat (c_offset w) + length bf \<le> bsize" using fs(3) lb by simp
  have P: "same_but s s1 ?b \<and> sound r1 \<and> (\<exists>d'. s1 = s\<lparr>l_dev := d'\<rparr> \<and> bd_write ops (l_dev s) (c_block w) (c_offset w) bf = (r1, d'))"
    using rawprog[OF g b fit _ ne p] fs lb by auto
  then have "content (l_dev s1) ?b = blit (unat (c_offset w)) bf (content (l_dev s) ?b)" if "r1 = Inr ()"
    using write_law[OF g(3) b fit] that by auto
  then show ?thesis
    using e P unfolding bf_def [symmetric] by (auto simp: lfs_bd_flush_def nb mg p split: sum.splits)
qed

lemma same_but_writable: "same_but s s' b \<Longrightarrow> writable s' = writable s"
  by (auto simp: same_but_def writable_def fun_eq_iff)

text \<open>What a reader through the write cache sees, before and after one step of a write.\<close>

definition write_post :: "'d lfs \<Rightarrow> lfs_cache \<Rightarrow> lfs_block_t \<Rightarrow> nat \<Rightarrow> u8 list \<Rightarrow> unit result \<times> lfs_cache \<times> lfs_cache \<times> 'd lfs \<Rightarrow> bool" where
  "write_post s w block off data res = (case res of (r, w', rc', s') \<Rightarrow>
     same_but s s' (unat block) \<and> sound r \<and>
     (r = Inr () \<longrightarrow> writable s w' block (off + length data) \<and>
       overlay (Some w') (content (l_dev s')) (unat block) = blit off data (overlay (Some w) (content (l_dev s)) (unat block))))"

lemma overlay_null: "b < bcount \<Longrightarrow> geometry s bsize bcount \<Longrightarrow> c_block w = LFS_BLOCK_NULL \<Longrightarrow> overlay (Some w) disk b = disk b"
  by (auto simp: overlay_def geometry_def unsigned_minus_1_eq_mask mask_eq_exp_minus_1)

lemma write_into_cache:
  assumes g: "geometry s bsize bcount" and w: "writable s w block (unat off)" "c_block w = block" "unat block < bcount"
    and m: "0 < m" "m \<le> length data" "unat off + m \<le> bsize" "unat off + m \<le> unat (c_offset w) + unat (cfg_cache_size (l_cfg s))"
    and l: "length (disk (unat block)) = bsize"
  defines "w' \<equiv> w\<lparr>c_buffer := blit (unat off - unat (c_offset w)) (take m data) (c_buffer w),
      c_size := lfs_max (c_size w) (off + of_nat m - c_offset w)\<rparr>"
  shows "overlay (Some w') disk (unat block) = blit (unat off) (take m data) (overlay (Some w) disk (unat block))"
    "unat (c_size w') = max (unat (c_size w)) (unat off + m - unat (c_offset w))"
    "length (c_buffer w') = length (c_buffer w)" "c_block w' = block" "c_offset w' = c_offset w"
proof -
  have bs: "unat (l_block_size s) = bsize" "bsize < 2 ^ 63" using g by (simp_all add: geometry_def)
  have nn: "block \<noteq> LFS_BLOCK_NULL"
    using block_not_special[OF g, of block] w(3) g by (auto simp: geometry_def word_less_nat_alt)
  have W: "length (c_buffer w) = unat (cfg_cache_size (l_cfg s))" "unat (c_offset w) \<le> unat off"
    "unat off \<le> unat (c_offset w) + unat (c_size w)" "unat (c_offset w) + unat (c_size w) \<le> bsize"
    "unat (c_size w) < unat (cfg_cache_size (l_cfg s))"
    using w nn bs by (auto simp: writable_def)
  have o: "unat (off + of_nat m) = unat off + m" using m(3) bs(2) by (intro unat_add_of_nat_u64) simp
  have "unat (off + of_nat m - c_offset w) = unat off + m - unat (c_offset w)"
    using W(2) by (simp add: unat_sub_u64 o)
  then show sz: "unat (c_size w') = max (unat (c_size w)) (unat off + m - unat (c_offset w))"
    by (simp add: w'_def lfs_max_unat)
  show lb: "length (c_buffer w') = length (c_buffer w)"
    unfolding w'_def using W(1,2) m(2,4) by simp
  show "c_block w' = block" "c_offset w' = c_offset w" by (simp_all add: w'_def w(2))
  let ?k = "unat (c_offset w)" and ?k' = "unat off - unat (c_offset w)"
  have t: "take (unat (c_size w')) (c_buffer w') = take ?k' (take (unat (c_size w)) (c_buffer w)) @ take m data @
      drop (?k' + m) (take (unat (c_size w)) (c_buffer w))"
  proof (rule nth_equalityI)
    show "length (take (unat (c_size w')) (c_buffer w')) = length (take ?k' (take (unat (c_size w)) (c_buffer w)) @ take m data @
      drop (?k' + m) (take (unat (c_size w)) (c_buffer w)))"
      unfolding length_take length_append length_drop lb sz using W m by linarith
    fix i
    assume "i < length (take (unat (c_size w')) (c_buffer w'))"
    then have i: "i < max (unat (c_size w)) (?k' + m)" "i < length (c_buffer w)"
      using sz lb W(2) by (auto simp: less_max_iff_disj)
    then show "take (unat (c_size w')) (c_buffer w') ! i = (take ?k' (take (unat (c_size w)) (c_buffer w)) @ take m data @
      drop (?k' + m) (take (unat (c_size w)) (c_buffer w))) ! i"
    proof -
      have kl: "?k' \<le> unat (c_size w)" "?k' + m \<le> length (c_buffer w)" using W(1-3) m(4) by linarith+
      have "take (unat (c_size w')) (c_buffer w') ! i = blit ?k' (take m data) (c_buffer w) ! i"
        using i sz W(2) by (simp add: w'_def less_max_iff_disj)
      moreover have "drop (?k' + m) (take (unat (c_size w)) (c_buffer w)) ! (i - (?k' + m)) = c_buffer w ! i" if "?k' + m \<le> i"
        using that i by (subst nth_drop) (auto simp: less_max_iff_disj)
      ultimately show ?thesis
        using i kl m(2) by (auto simp: nth_blit nth_append min_def less_diff_conv2)
    qed
  qed
  have kk: "?k + ?k' = unat off" using W(2) by simp
  have sl: "length (take (unat (c_size w)) (c_buffer w)) = unat (c_size w)" using W(1,5) by simp
  have "blit (?k + ?k') (take m data) (blit ?k (take (unat (c_size w)) (c_buffer w)) (disk (unat block))) =
      blit ?k (take (unat (c_size w')) (c_buffer w')) (disk (unat block))"
    unfolding t using blit_extend[of ?k "take (unat (c_size w)) (c_buffer w)" "disk (unat block)" ?k' "take m data"] W(3,4) m l sl kk
    by (simp add: min_absorb2)
  then show "overlay (Some w') disk (unat block) = blit (unat off) (take m data) (overlay (Some w) disk (unat block))"
    unfolding kk by (simp add: overlay_def w(2) w'_def)
qed

lemma write_loop:
  assumes "geometry s bsize bcount" "runs_on s ops" "inv (l_dev s)" "block < l_block_count s"
    and "writable s w block (unat off)" "unat off + length data \<le> bsize"
    and "2 * length data < fuel \<or> 2 * length data \<le> fuel \<and> data \<noteq> [] \<and> c_block w = block"
  shows "write_post s w block (unat off) data (lfs_bd_write_loop fuel s w rc False block off data)"
  using assms
proof (induction fuel arbitrary: s w rc off data)
  case 0
  then show ?case by auto
next
  case (Suc fuel)
  note g = Suc.prems(1-3)
  have bs: "unat (l_block_size s) = bsize" "bsize < 2 ^ 63" using g(1) by (simp_all add: geometry_def)
  have b: "unat block < bcount" using g(1) Suc.prems(4) by (simp add: geometry_def word_less_nat_alt)
  note nb = block_not_special[OF g(1) Suc.prems(4)]
  have lc: "length (content (l_dev s) (unat block)) = bsize" by (rule length_content [OF g(3) b])
  let ?C = "unat (cfg_cache_size (l_cfg s))" and ?W = "unat (cfg_write_size (l_cfg s))"
  have CW: "?W dvd ?C" "0 < ?C" "?C dvd bsize" "0 < ?W" using g(1) by (simp_all add: geometry_def)
  note loop = lfs_bd_write_loop.simps(2)[of fuel s w rc False block off data]
  show ?case
  proof (cases "data = []")
    case True
    then show ?thesis using Suc.prems(5) g by (simp add: write_post_def same_but_refl)
  next
    case ne: False
    then have lp: "0 < length data" by simp
    have n: "unat (of_nat (length data) :: u64) = length data"
      using Suc.prems(6) bs(2) by (intro unat_of_nat_u64) simp
    have np: "0 < (of_nat (length data) :: u64)" using lp by (simp add: word_less_nat_alt n)
    show ?thesis
    proof (cases "c_block w = LFS_BLOCK_NULL")
      case True
      define w1 where "w1 = w\<lparr>c_block := block, c_offset := lfs_aligndown off (cfg_write_size (l_cfg s)), c_size := 0\<rparr>"
      have dv: "?W dvd unat off" using Suc.prems(5) True by (simp add: writable_def)
      then have o: "unat (c_offset w1) = unat off" by (simp add: w1_def unat_lfs_aligndown)
      have w1: "writable s w1 block (unat off)"
        using Suc.prems(5,6) True dv CW(2) nb bs o by (simp add: writable_def w1_def)
      have "write_post s w1 block (unat off) data (lfs_bd_write_loop fuel s w1 rc False block off data)"
        using Suc.prems(7) True nb ne
        by (intro Suc.IH[OF g Suc.prems(4) w1 Suc.prems(6)]) (auto simp: w1_def)
      moreover have "overlay (Some w1) (content (l_dev s)) (unat block) = overlay (Some w) (content (l_dev s)) (unat block)"
        using overlay_null[OF b g(1) True] by (simp add: overlay_def w1_def)
      ultimately have "write_post s w block (unat off) data (lfs_bd_write_loop fuel s w1 rc False block off data)"
        by (simp add: write_post_def)
      moreover have "lfs_bd_write_loop (Suc fuel) s w rc False block off data = lfs_bd_write_loop fuel s w1 rc False block off data"
        unfolding loop Let_def using np nb True by (simp add: w1_def)
      ultimately show ?thesis by simp
    next
      case nnull: False
      have W: "length (c_buffer w) = ?C" "unat (c_offset w) \<le> unat off" "c_block w = block" "?W dvd unat (c_offset w)"
        "unat off \<le> unat (c_offset w) + unat (c_size w)" "unat (c_offset w) + unat (c_size w) \<le> bsize" "unat (c_size w) < ?C"
        using Suc.prems(5) nnull bs by (auto simp: writable_def)
      have "0 < bsize" using Suc.prems(6) lp by linarith
      then have "?C \<le> bsize" using CW(3) by (intro dvd_imp_le)
      then have "unat (c_offset w + cfg_cache_size (l_cfg s)) = unat (c_offset w) + ?C"
        using W(6) bs(2) by (intro unat_add_u64) simp
      then have cond: "block = c_block w \<and> c_offset w \<le> off \<and> off < c_offset w + cfg_cache_size (l_cfg s)"
        using W by (simp add: word_le_nat_alt word_less_nat_alt)
      define diff where "diff = lfs_min (of_nat (length data)) (cfg_cache_size (l_cfg s) - (off - c_offset w))"
      define m where "m = unat diff"
      have m: "m = min (length data) (?C - (unat off - unat (c_offset w)))"
        using W(2,5,7) by (simp add: m_def diff_def lfs_min_unat n unat_sub_u64)
      have mb: "0 < m" "m \<le> length data" "unat off + m \<le> bsize" "unat off + m \<le> unat (c_offset w) + ?C"
        using m lp W(2,5,7) Suc.prems(6) by (auto simp: min_def split: if_splits)
      define w2 where "w2 = w\<lparr>c_buffer := blit (unat off - unat (c_offset w)) (take m data) (c_buffer w),
        c_size := lfs_max (c_size w) (off + of_nat m - c_offset w)\<rparr>"
      have dm: "of_nat m = diff" by (simp add: m_def)
      note I = write_into_cache[where disk = "content (l_dev s)", OF g(1) Suc.prems(5) W(3) b mb lc, folded w2_def]
      have o: "unat (off + diff) = unat off + m" using mb(3) bs(2) by (simp add: m_def unat_add_u64)
      have put: "mem_put (c_buffer w) (unat (off - c_offset w)) (take (unat diff) data) =
          Inr (blit (unat off - unat (c_offset w)) (take m data) (c_buffer w))"
        using W(1,2) mb(2,4) by (simp add: unat_sub_u64 m_def [symmetric] mem_put_ok)
      have body: "lfs_bd_write_loop (Suc fuel) s w rc False block off data =
          (if c_size w2 = cfg_cache_size (l_cfg s)
           then (case lfs_bd_flush s w2 rc False of (Inl h, wc, rc, s) \<Rightarrow> (Inl h, wc, rc, s)
                | (Inr _, wc, rc, s) \<Rightarrow> lfs_bd_write_loop fuel s wc rc False block (off + diff) (drop m data))
           else lfs_bd_write_loop fuel s w2 rc False block (off + diff) (drop m data))"
        unfolding loop Let_def if_P [OF cond] diff_def [symmetric] put
        unfolding m_def [symmetric] using np by (simp add: w2_def dm)
      have rest: "unat (off + diff) + length (drop m data) \<le> bsize"
        "2 * length (drop m data) < fuel \<or> 2 * length (drop m data) \<le> fuel \<and> drop m data \<noteq> [] \<and> c_block u = block" for u :: lfs_cache
      proof -
        show "unat (off + diff) + length (drop m data) \<le> bsize" using o mb(2) Suc.prems(6) by simp
        have "2 * length data \<le> Suc fuel" using Suc.prems(7) by auto
        moreover have "length (drop m data) + m = length data" using mb(2) by simp
        ultimately have "2 * length (drop m data) < fuel" using mb(1) by linarith
        then show "2 * length (drop m data) < fuel \<or> 2 * length (drop m data) \<le> fuel \<and> drop m data \<noteq> [] \<and> c_block u = block" for u :: lfs_cache
          by blast
      qed
      have all: "blit (unat (off + diff)) (drop m data) (blit (unat off) (take m data) v) = blit (unat off) data v" if "length v = bsize" for v
        using blit_append[of "unat off" "take m data" "drop m data" v] mb(2) Suc.prems(6) that by (simp add: o min_absorb2)
      have lv: "length (overlay (Some w) (content (l_dev s)) (unat block)) = bsize"
        using lc W(1,3,6,7) by (simp add: overlay_def)
      have sz: "unat (c_size w2) \<le> ?C" using I(2) W(7) mb(4) by simp
      have sb: "unat (c_offset w) + unat (c_size w2) \<le> bsize" using I(2) W(2,6) mb(3) by simp
      show ?thesis
      proof (cases "c_size w2 = cfg_cache_size (l_cfg s)")
        case full: True
        obtain r1 w3 rc3 s1 where f: "lfs_bd_flush s w2 rc False = (r1, w3, rc3, s1)" by (metis prod_cases4)
        have fl: "flushable s w2"
          using Suc.prems(4) full CW(2) sb I W(1,4) bs by (simp add: flushable_def)
        have "flush_size s w2 = ?C" using flush_size(1,2)[OF g(1) fl] full by simp
        then have F: "same_but s s1 (unat block) \<and> sound r1 \<and> (r1 = Inr () \<longrightarrow> w3 = lfs_cache_zero w2 \<and>
            content (l_dev s1) (unat block) = overlay (Some w2) (content (l_dev s)) (unat block))"
          using flush[OF g fl f] I(4,5) full by (simp add: overlay_def)
        show ?thesis
        proof (cases r1)
          case (Inl h)
          then show ?thesis using F unfolding body by (simp add: full f write_post_def)
        next
          case (Inr u)
          note D = same_butD[OF conjunct1 [OF F]]
          have z: "c_block w3 = LFS_BLOCK_NULL" "length (c_buffer w3) = ?C" using F Inr I(3) W(1) by (simp_all add: lfs_cache_zero_def)
          have "unat off + m = unat (c_offset w) + ?C" using I(2) full W(2,7) mb(4) by (simp add: max_def split: if_splits)
          then have "writable s1 w3 block (unat (off + diff))"
            using z W(4) CW(1) unfolding o writable_def by (simp add: D)
          then have "write_post s1 w3 block (unat (off + diff)) (drop m data)
              (lfs_bd_write_loop fuel s1 w3 rc3 False block (off + diff) (drop m data))"
            using g Suc.prems(4) rest by (intro Suc.IH) (simp_all add: D)
          moreover have "overlay (Some w3) (content (l_dev s1)) (unat block) = overlay (Some w2) (content (l_dev s)) (unat block)"
            using overlay_null[OF b g(1) z(1)] F Inr by simp
          ultimately show ?thesis
            using F Inr all[OF lv] I(1) mb(2) unfolding body write_post_def
            by (auto simp: full f o D same_but_writable [OF conjunct1 [OF F]] intro: same_but_trans split: prod.splits)
        qed
      next
        case False
        then have lt: "unat (c_size w2) < ?C" using sz by (simp add: word_eq_nat_alt)
        have "writable s w2 block (unat (off + diff))"
          using lt sb I(2-5) W(1,2,4) nb bs unfolding o by (auto simp: writable_def)
        then have "write_post s w2 block (unat (off + diff)) (drop m data)
            (lfs_bd_write_loop fuel s w2 rc False block (off + diff) (drop m data))"
          using g Suc.prems(4) rest by (intro Suc.IH) simp_all
        then show ?thesis
          using all[OF lv] I(1) mb(2) False unfolding body write_post_def
          by (auto simp: o split: prod.splits)
      qed
    qed
  qed
qed

lemma bd_write:
  assumes "geometry s bsize bcount" "runs_on s ops" "inv (l_dev s)" "block < l_block_count s"
    and "writable s w block (unat off)" "unat off + length data \<le> bsize"
  shows "write_post s w block (unat off) data (lfs_bd_write s w rc False block off data)"
proof -
  have bs: "unat (l_block_size s) = bsize" "bsize < 2 ^ 63" using assms(1) by (simp_all add: geometry_def)
  have "unat (off + of_nat (length data)) = unat off + length data"
    using assms(6) bs(2) by (intro unat_add_of_nat_u64) simp
  then have "off + of_nat (length data) \<le> l_block_size s"
    using assms(6) bs by (simp add: word_le_nat_alt)
  then have "lfs_bd_write s w rc False block off data = lfs_bd_write_loop (Suc (2 * length data)) s w rc False block off data"
    unfolding lfs_bd_write_def using assms(4) by simp
  then show ?thesis using write_loop[OF assms, of "Suc (2 * length data)"] by simp
qed

end

context reliable_device begin

lemma never_fails: "\<not> device_fails h"
  using read_ok write_ok erase_ok sync_ok unfolding device_fails_def by (metis Inl_Inr_False)

lemma sound_reliable: "sound r \<longleftrightarrow> (\<exists>x. r = Inr x)"
  by (cases r) (simp_all add: never_fails)

end

end
