(* ===== verification/DeviceProperties.thy ===== *)
theory DeviceProperties
  imports DeviceWrite Crc
begin

text \<open>
  The properties of the device layer, on the devices of the repository: a scrambled memory device,
  and a memory device whose writes may fail or be corrupted. A small file system, \<open>sample\<close>, serves as
  the concrete state at which each property is applied.
\<close>

subsection \<open>A concrete file system\<close>

definition sample_config :: "'d IBlockDevice \<Rightarrow> 'd lfs_config" where
  "sample_config ops =
     \<lparr>cfg_on_grow = False, cfg_read = bd_read ops, cfg_write = bd_write ops, cfg_erase = bd_erase ops,
      cfg_sync = bd_sync ops, cfg_lock = (\<lambda>d. (Inr (), d)), cfg_unlock = (\<lambda>d. (Inr (), d)),
      cfg_read_size = 4, cfg_write_size = 4, cfg_erase_size = 16, cfg_block_size = 16, cfg_block_count = 4,
      cfg_block_cycles = 100, cfg_cache_size = 8, cfg_lookahead_size = 8, cfg_read_buffer = None,
      cfg_write_buffer = None, cfg_lookahead_buffer = None, cfg_name_max_length = 0,
      cfg_file_max_size = 0, cfg_attr_max_size = 0, cfg_metadata_max = 0\<rparr>"

definition sample_cache :: lfs_cache where
  "sample_cache = \<lparr>c_block = LFS_BLOCK_NULL, c_offset = 0, c_size = 0, c_buffer = replicate 8 0\<rparr>"

definition sample :: "'d IBlockDevice \<Rightarrow> 'd \<Rightarrow> 'd lfs" where
  "sample ops d =
     \<lparr>l_read_cache = sample_cache, l_write_cache = sample_cache, l_root = (0, 1), l_metadata_list = [],
      l_seed = 0, l_gstate = gstate_zero, l_gdisk = gstate_zero, l_gdelta = gstate_zero,
      l_free = \<lparr>fr_offset = 0, fr_size = 0, fr_i = 0, fr_ack = 4, fr_buffer = [0]\<rparr>,
      l_cfg = sample_config ops, l_dev = d, l_erase_size = 16, l_block_size = 16, l_block_count = 4,
      l_name_max_length = 255, l_file_max_size = 1000, l_attr_max_size = 1022\<rparr>"

definition sample_memory :: memory_device where
  "sample_memory = MemoryBlockDevice 16 4"

definition sample_crypto :: "memory_device crypto_device" where
  "sample_crypto = \<lparr>decorated = sample_memory, cr_key = 0xA5A55A5AA5A55A5A\<rparr>"

definition sample_fault :: "memory_device fault_device" where
  "sample_fault = set_corrupt_next_write (FaultInjectBlockDevice sample_memory) True"

lemma sample_facts:
  "runs_on (sample ops d) ops" "geometry (sample ops d) 16 4" "l_block_size (sample ops d) = 16"
  "l_block_count (sample ops d) = 4" "l_dev (sample ops d) = d" "unat (cfg_read_size (l_cfg (sample ops d))) = 4"
  "cache_holds (sample ops d) sample_cache disk" "memory_inv 16 4 sample_memory"
  "decorated sample_crypto = sample_memory" "decorated sample_fault = sample_memory"
  by (simp_all add: runs_on_def geometry_def sample_def sample_config_def cache_holds_def sample_cache_def
      sample_memory_def MemoryBlockDevice_def memory_inv_def sample_crypto_def sample_fault_def
      set_corrupt_next_write_def FaultInjectBlockDevice_def word_less_nat_alt unsigned_minus_1_eq_mask mask_eq_exp_minus_1)

subsection \<open>Properties\<close>

text \<open>C9: reading through the caches. On a scrambled memory device, \<open>lfs_bd_read\<close> returns, without an
  error, the clear bytes the device holds, with the bytes still waiting in the write cache on top; it
  changes nothing on the device, and the read cache it leaves holds what the device holds.\<close>

theorem lfs_bd_read_correct:
  assumes "runs_on s (crypto_ops memory_ops)" "geometry s bs bc"
    and "memory_inv (l_block_size s) (l_block_count s) (decorated (l_dev s))"
    and "pending_fits s wc" "cache_holds s rc (crypto_content memory_content (l_dev s))"
    and "unat block < bc" "unat off + length buf \<le> bs" "0 < unat hint"
    and "bs + unat hint + unat (cfg_read_size (l_cfg s)) \<le> 2 ^ 64"
  shows "\<exists>rc' d. lfs_bd_read s wc rc hint block off buf =
      (Inr (), take (length buf) (drop (unat off) (overlay wc (crypto_content memory_content (l_dev s)) (unat block))),
       rc', s\<lparr>l_dev := d\<rparr>) \<and>
    crypto_content memory_content d = crypto_content memory_content (l_dev s) \<and>
    cache_holds s rc' (crypto_content memory_content d)"
proof -
  have b: "unat (l_block_size s) = bs" "unat (l_block_count s) = bc"
    using assms(2) by (simp_all add: geometry_def)
  have "crypto_mem.read_pre (l_block_size s) (l_block_count s) s wc rc hint block"
    unfolding crypto_mem.read_pre_def unfolding b using assms by (simp add: b word_less_nat_alt)
  note R = crypto_mem.bd_read[OF this, unfolded crypto_mem.same_disk_def crypto_mem.sound_reliable, unfolded b, OF assms(7)]
  obtain r buf' rc' s' where e: "lfs_bd_read s wc rc hint block off buf = (r, buf', rc', s')" by (metis prod_cases4)
  show ?thesis using R unfolding e by auto
qed

theorem lfs_bd_read_correct_witness:
  "\<exists>rc' d. lfs_bd_read (sample (crypto_ops memory_ops) sample_crypto) None sample_cache 8 1 3 (replicate 6 0) =
      (Inr (), take 6 (drop 3 (crypto_content memory_content sample_crypto 1)), rc',
       sample (crypto_ops memory_ops) sample_crypto\<lparr>l_dev := d\<rparr>)"
  using lfs_bd_read_correct[of "sample (crypto_ops memory_ops) sample_crypto" 16 4 None sample_cache 1 3 "replicate 6 0" 8]
  by (auto simp: sample_facts pending_fits_def overlay_def)




definition sample_pending :: lfs_cache where
  "sample_pending = \<lparr>c_block = 1, c_offset = 4, c_size = 3, c_buffer = [7, 8, 9, 0, 0, 0, 0, 0]\<rparr>"


text \<open>C20: the comparison the validation and the name lookup rest on. \<open>lfs_bd_cmp\<close>, which reads in
  chunks of 256 bytes, returns \<open>memcmp\<close> of the whole range on the disk, overlaid with the pending
  writes, and the given bytes.\<close>

theorem lfs_bd_cmp_correct:
  assumes "runs_on s (crypto_ops memory_ops)" "geometry s bs bc"
    and "memory_inv (l_block_size s) (l_block_count s) (decorated (l_dev s))"
    and "pending_fits s wc" "cache_holds s rc (crypto_content memory_content (l_dev s))"
    and "unat block < bc" "0 < unat hint" "bs + unat hint + unat (cfg_read_size (l_cfg s)) \<le> 2 ^ 64"
    and "unat n \<le> unat hint" "unat off + unat n \<le> bs" "unat n \<le> length data"
  shows "fst (lfs_bd_cmp s wc rc hint block off data n) =
    Inr (memcmp (take (unat n) (drop (unat off) (overlay wc (crypto_content memory_content (l_dev s)) (unat block))))
      (take (unat n) data))"
proof -
  have b: "unat (l_block_size s) = bs" "unat (l_block_count s) = bc"
    using assms(2) by (simp_all add: geometry_def)
  have "crypto_mem.read_pre (l_block_size s) (l_block_count s) s wc rc hint block"
    unfolding crypto_mem.read_pre_def unfolding b using assms by (simp add: b word_less_nat_alt)
  note R = crypto_mem.bd_cmp[OF this assms(9) _ assms(11), of off, unfolded crypto_mem.cmp_post_def crypto_mem.sound_reliable, unfolded b, OF assms(10)]
  obtain r rc' s' where e: "lfs_bd_cmp s wc rc hint block off data n = (r, rc', s')" by (metis prod_cases3)
  show ?thesis using R unfolding e by auto
qed

theorem lfs_bd_cmp_correct_witness:
  "fst (lfs_bd_cmp (sample (crypto_ops memory_ops) sample_crypto) None sample_cache 8 1 2 [1, 2, 3] 3) =
    Inr (memcmp (take 3 (drop 2 (crypto_content memory_content sample_crypto 1))) [1, 2, 3])"
  using lfs_bd_cmp_correct[of "sample (crypto_ops memory_ops) sample_crypto" 16 4 None sample_cache 1 8 3 2 "[1, 2, 3]"]
  by (simp add: sample_facts pending_fits_def overlay_def)

text \<open>C21: scrambling is invisible. Written through \<open>CryptoBlockDevice\<close> and read back through it, at
  any other offset and length inside the block, the bytes are the ones written, although the device
  below holds them scrambled.\<close>

theorem crypto_write_read:
  fixes d :: "memory_device crypto_device"
  assumes "memory_inv bs bc (decorated d)" "unat b < unat bc" "unat off + length data \<le> unat bs"
    and "unat off \<le> unat off'" "unat off' + length buf \<le> unat off + length data"
    and "crypto_write memory_ops d b off data = (r, d')"
  shows "r = Inr () \<and> (\<exists>d''. crypto_read memory_ops d' b off' buf =
    (Inr (), take (length buf) (drop (unat off' - unat off) data), d''))"
proof -
  have w: "bd_write (crypto_ops memory_ops) d b off data = (r, d')"
    using assms(6) by (simp add: crypto_ops_def)
  have r: "r = Inr ()" using crypto_mem.write_ok[OF assms(1-3)] w by simp
  have inv: "memory_inv bs bc (decorated d')" using crypto_mem.write_inv[OF assms(1-3) w] by simp
  have c: "crypto_content memory_content d' (unat b) = blit (unat off) data (crypto_content memory_content d (unat b))"
    using crypto_mem.write_law[OF assms(1-3)] w r by simp
  have l: "length (crypto_content memory_content d (unat b)) = unat bs" by (rule crypto_mem.length_content [OF assms(1,2)])
  have fit: "unat off' + length buf \<le> unat bs" using assms(3,5) by linarith
  obtain q buf' d'' where rd: "bd_read (crypto_ops memory_ops) d' b off' buf = (q, buf', d'')" by (metis prod_cases3)
  have "take (length buf) (drop (unat off') (blit (unat off) data (crypto_content memory_content d (unat b)))) =
      take (length buf) (drop (unat off' - unat off) data)"
    using assms(3-5) l by (intro nth_equalityI) (auto simp: nth_blit)
  then show ?thesis
    using crypto_mem.read_law[OF inv assms(2) fit rd] crypto_mem.read_ok[OF inv assms(2) fit] rd r
    by (simp add: c crypto_ops_def)
qed

theorem crypto_write_read_witness:
  "fst (snd (crypto_read memory_ops (snd (crypto_write memory_ops sample_crypto 1 2 [10, 20, 30, 40])) 1 3 [0, 0])) = [20, 30]"
proof -
  obtain r d' where w: "crypto_write memory_ops sample_crypto 1 2 [10, 20, 30, 40] = (r, d')" by (metis prod.exhaust)
  show ?thesis
    using crypto_write_read[OF _ _ _ _ _ w, where bs = 16 and bc = 4 and off' = 3 and buf = "[0, 0]"]
    by (auto simp: w sample_facts)
qed

definition fault_writes :: "'d IBlockDevice \<Rightarrow> 'd fault_device \<Rightarrow> (lfs_block_t \<times> lfs_off_t \<times> u8 list) list \<Rightarrow> 'd fault_device" where
  "fault_writes u = foldl (\<lambda>d (b, off, data). snd (fault_write u d b off data))"

definition device_writes :: "'d IBlockDevice \<Rightarrow> 'd \<Rightarrow> (lfs_block_t \<times> lfs_off_t \<times> u8 list) list \<Rightarrow> 'd" where
  "device_writes u = foldl (\<lambda>d (b, off, data). snd (bd_write u d b off data))"

lemma sint_small: "unat (w :: 32 word) < 2 ^ 31 \<Longrightarrow> sint w = int (unat w)"
proof -
  assume "unat w < 2 ^ 31"
  then have "int (unat w) < int (2 ^ 31)" by (simp only: of_nat_less_iff)
  moreover have e: "int (unat w) = uint w" by simp
  ultimately have u: "0 \<le> uint w" "uint w < 2 ^ 31" unfolding e by simp_all
  have "sint w = signed_take_bit 31 (uint w)" by (simp add: sint_uint)
  also have "\<dots> = uint w" using u by (intro signed_take_bit_int_eq_self) linarith+
  finally show ?thesis using e by simp
qed

lemma fault_spent_iff:
  assumes "fi_fail_after_writes d = n" "fi_write_count d = of_nat k" "k \<le> unat n" "unat n < 2 ^ 31"
  shows "fault_spent d \<longleftrightarrow> k = unat n"
proof -
  have k: "unat (of_nat k :: 32 word) = k" using assms(3,4) by (simp only: unat_of_nat) simp
  have "sint n = int (unat n)" "sint (of_nat k :: 32 word) = int k"
    using sint_small[of n] sint_small[of "of_nat k"] k assms(3,4) by simp_all
  then show ?thesis
    using assms(3) unfolding fault_spent_def assms(1,2) by (simp only: of_nat_le_iff of_nat_0_le_iff simp_thms) linarith
qed

lemma fault_writes_step:
  assumes "fi_fail_after_writes d = n" "fi_write_count d = of_nat k" "k \<le> unat n" "unat n < 2 ^ 31" "\<not> fi_corrupt_next_write d"
  shows "decorated (fault_writes u d ws) = device_writes u (decorated d) (take (unat n - k) ws) \<and>
    (unat n - k \<le> length ws \<longrightarrow> fault_spent (fault_writes u d ws))"
  using assms
proof (induction ws arbitrary: d k)
  case Nil
  then show ?case
    using fault_spent_iff[OF Nil.prems(1-4)] by (simp add: fault_writes_def device_writes_def)
next
  case (Cons w ws)
  obtain b off data where w: "w = (b, off, data)" by (metis prod_cases3)
  note sp = fault_spent_iff[OF Cons.prems(1-4)]
  let ?d = "snd (fault_write u d b off data)"
  have fw: "fault_writes u d (w # ws) = fault_writes u ?d ws" by (simp add: fault_writes_def w)
  show ?case
  proof (cases "k = unat n")
    case True
    then have "?d = d" using sp by (simp add: fault_write_def)
    then show ?thesis using Cons.IH[OF Cons.prems] True by (simp only: fw) simp
  next
    case False
    have "fi_fail_after_writes ?d = n" "fi_write_count ?d = of_nat (Suc k)" "\<not> fi_corrupt_next_write ?d"
      "decorated ?d = snd (bd_write u (decorated d) b off data)"
      using False sp Cons.prems by (simp_all add: fault_write_def Let_def split: prod.splits)
    moreover have "unat n - k = Suc (unat n - Suc k)" using False Cons.prems(3) by simp
    ultimately show ?thesis
      using Cons.IH[of ?d "Suc k"] False Cons.prems(3,4) unfolding fw by (simp add: device_writes_def w)
  qed
qed

text \<open>C22: the power-loss test device. While the budget of \<open>set_fail_after_writes n\<close> lasts, the device
  below sees every write; once \<open>n\<close> writes have been made, every further write and sync fails with an
  I/O error and leaves the device below as it is.\<close>

theorem fault_device_stops:
  assumes "unat n < 2 ^ 31" "\<not> fi_corrupt_next_write d"
  shows "let d' = fault_writes u (set_fail_after_writes d n) ws in decorated d' = device_writes u (decorated d) (take (unat n) ws) \<and>
    (unat n \<le> length ws \<longrightarrow> fault_write u d' b off data = (Inl (Err LFS_ERR_IO), d') \<and>
      fault_sync u d' = (Inl (Err LFS_ERR_IO), d'))"
  using fault_writes_step[of "set_fail_after_writes d n" n 0 u ws] assms(1,2)
  by (auto simp: Let_def set_fail_after_writes_def fault_write_def fault_sync_def)

theorem fault_device_stops_witness:
  "decorated (fault_writes memory_ops (set_fail_after_writes (FaultInjectBlockDevice sample_memory) 1)
     [(0, 0, [1]), (1, 0, [2]), (2, 0, [3])]) = device_writes memory_ops sample_memory [(0, 0, [1])] \<and>
   fst (fault_sync memory_ops (fault_writes memory_ops (set_fail_after_writes (FaultInjectBlockDevice sample_memory) 1)
     [(0, 0, [1]), (1, 0, [2]), (2, 0, [3])])) = Inl (Err LFS_ERR_IO)"
  using fault_device_stops[of 1 "FaultInjectBlockDevice sample_memory" memory_ops "[(0, 0, [1]), (1, 0, [2]), (2, 0, [3])]"]
  by (simp add: FaultInjectBlockDevice_def Let_def)

text \<open>C23: the checksum of the metadata log catches a torn or flipped run of bytes. The table-driven
  \<open>lfs_crc\<close> is the bitwise CRC-32 with polynomial \<open>0xEDB88320\<close>, and two logs that differ only inside
  a run of at most four bytes have different checksums.\<close>

theorem lfs_crc_detects:
  assumes "length p = length q" "length p \<le> 4"
  shows "lfs_crc c (xs @ p @ ys) = foldl crc_byte c (xs @ p @ ys) \<and>
    (lfs_crc c (xs @ p @ ys) = lfs_crc c (xs @ q @ ys) \<longleftrightarrow> p = q)"
  using lfs_crc_burst[OF assms] lfs_crc_reference by blast

theorem lfs_crc_detects_witness:
  "lfs_crc (- 1) [1, 2, 3, 4, 5] \<noteq> lfs_crc (- 1) [1, 9, 9, 4, 5]"
  using lfs_crc_detects[of "[2, 3]" "[9, 9]" "- 1" "[1]" "[4, 5]", THEN conjunct2] by (simp del: lfs_crc.simps)

text \<open>C24: a commit closed by its own checksum reads as checksum 0, and its checksum is the one of its
  parts in sequence, which is what makes the running checksum of the commit code well defined.\<close>

theorem lfs_crc_closes:
  "lfs_crc c (xs @ ys) = lfs_crc (lfs_crc c xs) ys \<and> lfs_crc c (xs @ le_bytes 4 (lfs_crc c xs)) = 0"
  by (simp add: lfs_crc_append lfs_crc_own_checksum)

text \<open>C40: the bit tricks. \<open>lfs_popc64\<close> counts the set bits; \<open>lfs_ctz64\<close> is the position of the lowest
  one; \<open>lfs_npw2_64\<close> is the least exponent whose power of two reaches its argument, for every
  argument above 1.\<close>

theorem bit_tricks_correct:
  assumes "1 < a"
  shows "unat (lfs_popc64 a) = card {i. i < 64 \<and> bit a i} \<and>
    bit a (unat (lfs_ctz64 a)) \<and> (\<forall>k < unat (lfs_ctz64 a). \<not> bit a k) \<and>
    unat a \<le> 2 ^ unat (lfs_npw2_64 a) \<and> 2 ^ (unat (lfs_npw2_64 a) - 1) < unat a"
proof -
  have "a \<noteq> 0" using assms by auto
  then show ?thesis
    using unat_lfs_popc64[of a] unat_lfs_ctz64[of a] unat_lfs_npw2_64[OF assms] by simp
qed

theorem bit_tricks_correct_witness: "unat (lfs_popc64 12) = card {i. i < 64 \<and> bit (12 :: u64) i} \<and> 2 ^ (unat (lfs_npw2_64 12) - 1) < (12 :: nat)"
  using bit_tricks_correct[of 12] by simp

end
