(* ===== verification/TagProperties.thy ===== *)
theory TagProperties
  imports FsTraverse Bits
begin

text \<open>
  Properties of tags, of the global state and of the structures as they lie on the disk.
\<close>

subsection \<open>Fields of a tag\<close>

lemma mask_numerals:
  "(0x3ff :: u32) = mask 10" "(0xfff :: u32) = mask 12" "(0xf00 :: u32) = push_bit 8 (mask 4)"
  "(0xff :: u32) = mask 8" "(0x80000000 :: u32) = push_bit 31 1" "(0x0ff00000 :: u32) = push_bit 20 (mask 8)"
  "(0x7fffffff :: u32) = mask 31"
  by (simp_all add: mask_eq_exp_minus_1)

lemma bit_LFS_MKTAG:
  "bit (LFS_MKTAG type ident sz) i \<longleftrightarrow>
     i < 32 \<and> (20 \<le> i \<and> bit type (i - 20) \<or> 10 \<le> i \<and> bit ident (i - 10) \<or> bit sz i)"
  by (auto simp: LFS_MKTAG_def bit_simps dest: bit_imp_le_length)

lemma bit_tag_fields:
  "bit (lfs_tag_type3 t) i \<longleftrightarrow> i < 12 \<and> bit t (i + 20)"
  "bit (lfs_tag_id t) i \<longleftrightarrow> i < 10 \<and> bit t (i + 10)"
  "bit (lfs_tag_size t) i \<longleftrightarrow> i < 10 \<and> bit t i"
  "bit (lfs_tag_type1 t) i \<longleftrightarrow> 8 \<le> i \<and> i < 12 \<and> bit t (i + 20)"
  "bit (lfs_tag_chunk t) i \<longleftrightarrow> i < 8 \<and> bit t (i + 20)"
  unfolding lfs_tag_type3_def lfs_tag_id_def lfs_tag_size_def lfs_tag_type1_def lfs_tag_chunk_def mask_numerals
  by (auto simp: bit_simps ac_simps dest: bit_imp_le_length)

lemma isvalid_iff: "lfs_tag_isvalid t \<longleftrightarrow> \<not> bit t 31"
  unfolding lfs_tag_isvalid_def mask_numerals by (simp only: bit_iff_and_push_bit_not_eq_0 not_not)

lemma isdelete_bits: "lfs_tag_isdelete t \<longleftrightarrow> (\<forall>i < 10. bit t i)"
proof
  assume d: "lfs_tag_isdelete t"
  show "\<forall>i < 10. bit t i"
  proof (intro allI impI)
    fix i :: nat
    assume i: "i < 10"
    have "bit (signed_drop_bit 22 (push_bit 22 t)) i"
      using d i by (simp add: lfs_tag_isdelete_def)
    then show "bit t i" using i by (simp add: bit_simps split: if_splits)
  qed
next
  assume b: "\<forall>i < 10. bit t i"
  show "lfs_tag_isdelete t"
    unfolding lfs_tag_isdelete_def
    by (rule bit_word_eqI) (use b in \<open>auto simp: bit_simps\<close>)
qed

lemma isdelete_iff: "lfs_tag_isdelete t \<longleftrightarrow> lfs_tag_size t = 0x3ff"
proof -
  have n: "(0x3ff :: u64) = mask 10" by (simp add: mask_eq_exp_minus_1)
  have "lfs_tag_size t = mask 10 \<longleftrightarrow> (\<forall>i < 64. (i < 10 \<and> bit t i) = (i < 10))"
    by (auto simp: bit_eq_iff bit_tag_fields bit_simps)
  moreover have "i < 10 \<Longrightarrow> i < 64" for i :: nat by simp
  ultimately show ?thesis unfolding isdelete_bits n by blast
qed

lemma unat_tag_size: "unat (lfs_tag_size t) < 1024"
proof -
  have "lfs_tag_size t = take_bit 10 (lfs_tag_size t)"
    by (auto simp: bit_eq_iff bit_tag_fields bit_simps)
  then have "unat (lfs_tag_size t) = take_bit 10 (unat (lfs_tag_size t))"
    by (metis unsigned_take_bit_eq)
  then show ?thesis using take_bit_nat_less_exp[of 10 "unat (lfs_tag_size t)"] by simp
qed

lemma tag_size_word: "lfs_tag_size t = ucast (t AND mask 10)"
  by (simp add: lfs_tag_size_def mask_eq_exp_minus_1)

text \<open>The number of bytes that a tag takes in the log.\<close>

lemma power_numeral_1024: "(2::nat) ^ 10 = 1024" by simp

lemma unat_dsize:
  "unat (lfs_tag_dsize t) = 4 + (if lfs_tag_isdelete t then 0 else unat (lfs_tag_size t))"
proof (cases "lfs_tag_isdelete t")
  case True
  then have "take_bit 10 t = mask 10"
    by (intro bit_word_eqI) (auto simp: isdelete_bits bit_simps)
  then have m: "unat t mod 1024 = 1023"
    using unsigned_take_bit_eq[of 10 t] by (simp add: take_bit_eq_mod mask_eq_exp_minus_1)
  have "unat (t + 1) = (unat t + 1) mod 2 ^ 32"
    by (simp only: unat_word_ariths) simp
  then have "unat (t + 1) mod 1024 = (unat t + 1) mod 1024"
    using mod_mod_cancel[OF le_imp_power_dvd[of 10 32 2], of "unat t + 1"] by (simp only: semiring_norm power_numeral_1024)
  also have "\<dots> = 0" using m by (simp add: mod_Suc)
  finally have "unat (t + 1) mod 1024 = 0" .
  moreover have "unat (take_bit 10 (t + 1)) = take_bit 10 (unat (t + 1))"
    by (rule unsigned_take_bit_eq)
  moreover have "take_bit 10 (unat (t + 1)) = unat (t + 1) mod 1024"
    by (simp only: take_bit_eq_mod power_numeral_1024)
  ultimately have "unat (take_bit 10 (t + 1)) = 0" by (simp only:)
  then have "take_bit 10 (t + 1) = 0"
    by (simp only: unat_eq_0)
  then have "lfs_tag_size (t + 1) = 0"
    unfolding tag_size_word by (simp only: take_bit_eq_mask [symmetric] unsigned_0)
  with True show ?thesis by (simp add: lfs_tag_dsize_def)
next
  case False
  have "unat (4 + lfs_tag_size t) = 4 + unat (lfs_tag_size t)"
    using unat_tag_size[of t] by (subst unat_add_u64) simp_all
  with False show ?thesis by (simp add: lfs_tag_dsize_def)
qed

end
