(* ===== verification/StateProperties.thy ===== *)
theory StateProperties
  imports DeviceProperties TagProperties Mount
begin

text \<open>
  Tags, the global state and the structures as they lie in memory: what is packed can be unpacked, the
  operations on the packed fields do what they promise, and where the masks of \<open>lfs_tag_type1\<close> and
  \<open>lfs_tag_type3\<close>, which keep the validity bit, make them promise something else.
\<close>

subsection \<open>Packing and unpacking\<close>

lemma less_exp_bit: "w < 2 ^ n \<Longrightarrow> bit w i \<Longrightarrow> i < n" for w :: "'a::len word"
  using less_mask_eq[of w n] by (metis bit_take_bit_iff take_bit_eq_mask)

lemmas field_bits =
  less_exp_bit[where n = 12 and 'a = 32, simplified] less_exp_bit[where n = 10 and 'a = 32, simplified]

lemma type1_bits: "lfs_tag_type1 t \<noteq> 0 \<longleftrightarrow> (\<exists>i. 28 \<le> i \<and> i < 32 \<and> bit t i)"
proof
  assume "lfs_tag_type1 t \<noteq> 0"
  then obtain i where "bit (lfs_tag_type1 t) i" by (auto simp: bit_eq_iff)
  then show "\<exists>i. 28 \<le> i \<and> i < 32 \<and> bit t i" by (intro exI[of _ "i + 20"]) (auto simp: bit_tag_fields)
next
  assume "\<exists>i. 28 \<le> i \<and> i < 32 \<and> bit t i"
  then obtain i where i: "28 \<le> i" "i < 32" "bit t i" by blast
  then have "bit (lfs_tag_type1 t) (i - 20)" by (auto simp: bit_tag_fields)
  then show "lfs_tag_type1 t \<noteq> 0" by auto
qed

lemma mktag_fields:
  assumes "type < 2 ^ 12" "ident < 2 ^ 10" "sz < 2 ^ 10"
  shows "lfs_tag_type3 (LFS_MKTAG type ident sz) = type" "lfs_tag_id (LFS_MKTAG type ident sz) = ident"
    "lfs_tag_size (LFS_MKTAG type ident sz) = ucast sz"
proof -
  have f: "bit type i \<Longrightarrow> i < 12" "bit ident i \<Longrightarrow> i < 10" "bit sz i \<Longrightarrow> i < 10" for i
    using assms by (auto dest: field_bits)
  show "lfs_tag_type3 (LFS_MKTAG type ident sz) = type" "lfs_tag_id (LFS_MKTAG type ident sz) = ident"
    by (rule bit_word_eqI; auto simp: bit_tag_fields bit_LFS_MKTAG dest: f)+
  show "lfs_tag_size (LFS_MKTAG type ident sz) = ucast sz"
    by (rule bit_word_eqI) (auto simp: bit_tag_fields bit_LFS_MKTAG bit_simps dest: f)
qed

lemma mktag_of_fields: "LFS_MKTAG (lfs_tag_type3 t) (lfs_tag_id t) (ucast (lfs_tag_size t)) = t"
proof (rule bit_word_eqI)
  fix i :: nat
  assume "i < LENGTH(32)"
  then show "bit (LFS_MKTAG (lfs_tag_type3 t) (lfs_tag_id t) (ucast (lfs_tag_size t))) i = bit t i"
    by (cases "20 \<le> i"; cases "10 \<le> i") (auto simp: bit_tag_fields bit_LFS_MKTAG bit_simps)
qed

text \<open>C25: tags. Taking a tag apart into type, id and size and packing these again gives the tag; packing
  fields that fit their widths and taking the tag apart gives the fields. The space a tag takes in a log
  is at least its own four bytes and at most 1026, whatever the tag.\<close>

theorem tag_roundtrip:
  assumes "type < 2 ^ 12" "ident < 2 ^ 10" "sz < 2 ^ 10"
  shows "lfs_tag_type3 (LFS_MKTAG type ident sz) = type \<and> lfs_tag_id (LFS_MKTAG type ident sz) = ident \<and>
    lfs_tag_size (LFS_MKTAG type ident sz) = ucast sz \<and>
    LFS_MKTAG (lfs_tag_type3 t) (lfs_tag_id t) (ucast (lfs_tag_size t)) = t \<and>
    4 \<le> unat (lfs_tag_dsize t) \<and> unat (lfs_tag_dsize t) \<le> 1026"
proof (intro conjI)
  show "4 \<le> unat (lfs_tag_dsize t)" by (simp add: unat_dsize)
  have "unat (lfs_tag_size t) \<noteq> 1023" if "\<not> lfs_tag_isdelete t"
    using that by (simp add: isdelete_iff word_eq_nat_alt)
  then show "unat (lfs_tag_dsize t) \<le> 1026"
    using unat_tag_size[of t] by (auto simp: unat_dsize)
qed (simp_all add: mktag_fields[OF assms] mktag_of_fields)

theorem tag_roundtrip_witness:
  "lfs_tag_id (LFS_MKTAG LFS_TYPE_INLINESTRUCT 5 16) = 5 \<and> unat (lfs_tag_dsize 0xffffffff) \<le> 1026"
  using tag_roundtrip[of LFS_TYPE_INLINESTRUCT 5 16 "0xffffffff"] by simp

subsection \<open>Layouts\<close>

lemma bytes_word: "le_word (le_bytes 8 (w :: u64)) = w" "le_word (le_bytes 4 (v :: u32)) = v"
  by (rule le_word_le_bytes; simp)+



subsection \<open>The global state\<close>

interpretation gstate: comm_monoid lfs_gstate_xor gstate_zero
  by unfold_locales (simp_all add: lfs_gstate_xor_def gstate_zero_def ac_simps)

lemma gstate_xor_self [simp]: "lfs_gstate_xor a a = gstate_zero"
  by (simp add: lfs_gstate_xor_def gstate_zero_def)

text \<open>
  What the directories together hold of the global state: each a share, and the state is their exclusive or.
\<close>

definition recombine :: "lfs_gstate list \<Rightarrow> lfs_gstate" where
  "recombine shares = foldr lfs_gstate_xor shares gstate_zero"

lemma recombine_update:
  assumes "i < length shares"
  shows "recombine (shares[i := lfs_gstate_xor delta (shares ! i)]) = lfs_gstate_xor delta (recombine shares)"
  using assms
proof (induction shares arbitrary: i)
  case (Cons a shares)
  then show ?case by (cases i) (simp_all add: recombine_def gstate.left_commute gstate.assoc)
qed simp

lemma clear_count_xor:
  "clear_orphan_count (lfs_gstate_xor a b) = lfs_gstate_xor (clear_orphan_count a) (clear_orphan_count b)"
  by (simp add: clear_orphan_count_def lfs_gstate_xor_def) (intro bit_word_eqI; auto simp: bit_simps)

lemma clear_count_twice [simp]: "clear_orphan_count (clear_orphan_count a) = clear_orphan_count a"
  by (simp add: clear_orphan_count_def ac_simps)



lemma uint_tag_size: "uint (lfs_tag_size t) = uint t mod 1024"
proof -
  have "uint (lfs_tag_size t) = take_bit 10 (uint t)"
    by (intro bit_eqI) (auto simp: bit_simps bit_tag_fields dest: bit_imp_le_length)
  then show ?thesis by (simp add: take_bit_eq_mod)
qed

lemma uint_add_signed: "uint (t + scast (n :: u8) :: u32) = (uint t + sint n) mod 4294967296"
proof -
  have "t + scast n = (word_of_int (uint t + sint n) :: u32)" 
    by (simp only: scast_eq wi_hom_add [symmetric] word_of_int_uint)
  then have "uint (t + scast n) = take_bit 32 (uint t + sint n)" by (simp only: uint_word_of_int_eq) simp
  then show ?thesis by (simp add: take_bit_eq_mod)
qed

lemma add_low:
  fixes x m :: int
  assumes "0 \<le> x" "x < 4294967296" "0 \<le> x mod 1024 + m" "x mod 1024 + m < 1024"
  shows "(x + m) mod 4294967296 = 1024 * (x div 1024) + (x mod 1024 + m)"
    and "(1024 * (x div 1024) + (x mod 1024 + m)) mod 1024 = x mod 1024 + m"
    and "(1024 * (x div 1024) + (x mod 1024 + m)) div 1024 = x div 1024"
proof -
  let ?q = "x div 1024" and ?k = "x mod 1024 + m"
  have x: "x + m = 1024 * ?q + ?k" by simp
  have "?q < 4194304" using assms(2) using mult_div_mod_eq[of 1024 x] pos_mod_sign[of 1024 x] by linarith
  moreover have "0 \<le> ?q" using assms(1) by simp
  ultimately have "0 \<le> x + m" "x + m < 4294967296" unfolding x using assms(3,4) by linarith+
  then show "(x + m) mod 4294967296 = 1024 * ?q + ?k" unfolding x [symmetric] by simp
  have "?k mod 1024 = ?k" "?k div 1024 = 0" using assms(3,4) by (simp_all only: mod_pos_pos_trivial div_pos_pos_trivial)
  then show "(1024 * ?q + ?k) mod 1024 = ?k" "(1024 * ?q + ?k) div 1024 = ?q"
    by (simp_all only: mod_mult_self4 div_mult_self4)
qed

lemma add_orphans:
  assumes "0 \<le> uint (lfs_tag_size t) + sint (orphans :: u8)" "uint (lfs_tag_size t) + sint orphans < 1024"
  shows "uint (lfs_tag_size (t + scast orphans)) = uint (lfs_tag_size t) + sint orphans"
    and "10 \<le> i \<Longrightarrow> bit (t + scast orphans) i \<longleftrightarrow> bit t i"
proof -
  have "0 \<le> uint t" "uint t < 4294967296" using unsigned_less[of t, where 'a = int] by simp_all
  note low = add_low[OF this assms[unfolded uint_tag_size]]
  note u = uint_add_signed[of t orphans, unfolded low(1)]
  show "uint (lfs_tag_size (t + scast orphans)) = uint (lfs_tag_size t) + sint orphans"
    unfolding uint_tag_size u low(2) by (rule refl)
  have "drop_bit 10 (uint (t + scast orphans)) = drop_bit 10 (uint t)"
    unfolding u drop_bit_eq_div using low(3) by simp
  then have "bit (drop_bit 10 (uint (t + scast orphans))) (i - 10) = bit (drop_bit 10 (uint t)) (i - 10)" by simp
  then show "bit (t + scast orphans) i \<longleftrightarrow> bit t i" if "10 \<le> i"
    using that by (simp only: bit_drop_bit_eq comp_apply le_add_diff_inverse bit_uint_iff) (metis bit_imp_le_length)
qed

lemma tag_size_bits: "lfs_tag_size t = lfs_tag_size t' \<longleftrightarrow> (\<forall>i < 10. bit t i = bit t' i)"
proof -
  have "bit t i = (bit (lfs_tag_size t) i :: bool)" if "i < 10" for i t using that by (simp add: bit_tag_fields)
  moreover have "lfs_tag_size t = lfs_tag_size t'" if "\<forall>i < 10. bit t i = bit t' i"
    using that by (intro bit_word_eqI) (auto simp: bit_tag_fields)
  ultimately show ?thesis by metis
qed

text \<open>A move is pending: one of the three type bits of the tag is set, the validity bit apart.\<close>

definition move_pending :: "lfs_gstate \<Rightarrow> bool" where
  "move_pending g = (g_tag g AND 0x70000000 \<noteq> 0)"

lemma move_pending_bits: "move_pending g \<longleftrightarrow> (\<exists>i. 28 \<le> i \<and> i < 31 \<and> bit (g_tag g) i)"
proof -
  have m: "(0x70000000 :: u32) = push_bit 28 (mask 3)" by (simp add: mask_eq_exp_minus_1)
  have "bit (g_tag g AND push_bit 28 (mask 3)) i \<longleftrightarrow> 28 \<le> i \<and> i < 31 \<and> bit (g_tag g) i" for i
    by (auto simp: bit_simps)
  then show ?thesis unfolding move_pending_def m by (metis bit_0_eq bit_eqI bot_apply bot_bool_def)
qed

lemma hasmove_bits: "lfs_gstate_hasmove g \<longleftrightarrow> move_pending g \<or> bit (g_tag g) 31"
proof -
  have "28 \<le> i \<and> i < 32 \<longleftrightarrow> 28 \<le> i \<and> i < 31 \<or> i = 31" for i :: nat by auto
  then show ?thesis
    unfolding lfs_gstate_hasmove_def type1_bits move_pending_bits by (metis le_numeral_extra(4) lessI numeral_eq_iff)
qed

lemma bit_31: "bit (0x80000000 :: u32) i \<longleftrightarrow> i = 31"
proof -
  have "(0x80000000 :: u32) = 2 ^ 31" by simp
  then show ?thesis by (simp only: bit_exp_iff possible_bit_word) auto
qed

lemma tag_id_bits: "lfs_tag_id t = lfs_tag_id t' \<longleftrightarrow> (\<forall>i. 10 \<le> i \<and> i < 20 \<longrightarrow> bit t i = bit t' i)"
proof
  assume e: "lfs_tag_id t = lfs_tag_id t'"
  have b: "bit t i = bit (lfs_tag_id t) (i - 10)" if "10 \<le> i" "i < 20" for i t using that by (simp add: bit_tag_fields) arith
  show "\<forall>i. 10 \<le> i \<and> i < 20 \<longrightarrow> bit t i = bit t' i" using b[of _ t] b[of _ t'] e by simp
qed (intro bit_word_eqI, auto simp: bit_tag_fields)

text \<open>C30: counting orphans. \<open>lfs_fs_preporphans\<close> adds to the count that the tag of the global state holds in
  its size field, keeps the pair and the id of a pending move, and sets the top bit when orphans are left.
  Since the mask of \<open>lfs_tag_type1\<close> takes that bit for a type, \<open>lfs_gstate_hasmove\<close> then says that a
  move is pending, whether there is one or not.\<close>

theorem lfs_fs_preporphans_counts:
  assumes "0 \<le> uint (lfs_tag_size (g_tag (l_gstate s))) + sint orphans"
    and "uint (lfs_tag_size (g_tag (l_gstate s))) + sint orphans < 1024"
  shows "\<exists>g. lfs_fs_preporphans s orphans = (Inr (), s\<lparr>l_gstate := g\<rparr>) \<and>
    uint (lfs_tag_size (g_tag g)) = uint (lfs_tag_size (g_tag (l_gstate s))) + sint orphans \<and>
    lfs_tag_id (g_tag g) = lfs_tag_id (g_tag (l_gstate s)) \<and> g_pair g = g_pair (l_gstate s) \<and>
    move_pending g = move_pending (l_gstate s) \<and>
    lfs_gstate_hasmove g = (lfs_gstate_hasorphans g \<or> move_pending g)"
proof -
  let ?t = "g_tag (l_gstate s)"
  note add = add_orphans[OF assms]
  define u where "u = ?t + scast orphans"
  define g where "g = (l_gstate s)\<lparr>g_tag := (u AND NOT (LFS_MKTAG LFS_TYPE_HAS_ORPHANS 0 0)) OR push_bit 31 (of_bool (lfs_tag_size u \<noteq> 0))\<rparr>"
  define k :: u32 where "k = 0x80000000"
  have m: "LFS_MKTAG LFS_TYPE_HAS_ORPHANS 0 0 = k" "push_bit 31 (of_bool c :: u32) = (if c then k else 0)" for c
    by (simp_all add: LFS_MKTAG_def k_def)
  have k: "bit k i \<longleftrightarrow> i = 31" for i unfolding k_def by (rule bit_31)
  have b: "bit (g_tag g) i \<longleftrightarrow> (if i = 31 then lfs_tag_size u \<noteq> 0 else bit u i)" for i
    unfolding g_def m by (auto simp: k bit_and_iff bit_or_iff bit_not_iff possible_bit_word dest: bit_imp_le_length)
  have pos: "0 < lfs_tag_size ?t \<or> 0 \<le> sint orphans" using assms(1) by (auto simp: word_neq_0_conv [symmetric])
  have sz: "lfs_tag_size (g_tag g) = lfs_tag_size u" unfolding tag_size_bits by (simp add: b)
  show ?thesis
  proof (intro exI[of _ g] conjI)
    show "lfs_fs_preporphans s orphans = (Inr (), s\<lparr>l_gstate := g\<rparr>)"
      using pos by (simp add: lfs_fs_preporphans_def Let_def g_def u_def lfs_gstate_hasorphans_def)
    show "uint (lfs_tag_size (g_tag g)) = uint (lfs_tag_size ?t) + sint orphans" using sz add(1) by (simp add: u_def)
    show "lfs_tag_id (g_tag g) = lfs_tag_id ?t" unfolding tag_id_bits by (simp add: b u_def add(2))
    show "g_pair g = g_pair (l_gstate s)" by (simp add: g_def)
    show mv: "move_pending g = move_pending (l_gstate s)"
      unfolding move_pending_bits by (rule ex_cong1) (auto simp: b u_def add(2))
    show "lfs_gstate_hasmove g = (lfs_gstate_hasorphans g \<or> move_pending g)"
      by (auto simp: hasmove_bits lfs_gstate_hasorphans_def sz b)
  qed
qed

theorem lfs_fs_preporphans_counts_witness:
  "\<exists>g. lfs_fs_preporphans (sample memory_ops sample_memory) 1 = (Inr (), (sample memory_ops sample_memory)\<lparr>l_gstate := g\<rparr>) \<and>
     lfs_tag_size (g_tag g) \<noteq> 0 \<and> \<not> move_pending g \<and> lfs_gstate_hasmove g"
proof -
  have "lfs_tag_size 0 = 0" "\<not> move_pending gstate_zero" by (simp_all add: lfs_tag_size_def move_pending_def gstate_zero_def)
  then show ?thesis
    using lfs_fs_preporphans_counts[of "sample memory_ops sample_memory" 1]
    by (force simp: sample_def gstate_zero_def lfs_gstate_hasorphans_def)
qed

lemma bit_move_mask:
  "bit (LFS_MKTAG LFS_TYPE_MOVESTATE 0x3ff 0) i \<longleftrightarrow> 10 \<le> i \<and> i < 31"
  "ident < 2 ^ 10 \<Longrightarrow> bit (LFS_MKTAG LFS_TYPE_DELETE ident 0) i \<longleftrightarrow> 20 \<le> i \<and> i < 28 \<or> i = 30 \<or> 10 \<le> i \<and> bit ident (i - 10)"
proof -
  define k :: u32 where "k = 2 ^ 10"
  have m: "(0x7ff :: u32) = mask 11" "(0x3ff :: u32) = mask 10" "(0x4ff :: u32) = mask 8 OR k"
    by (simp_all add: mask_eq_exp_minus_1 k_def)
  have k: "bit k j \<longleftrightarrow> j = 10" for j unfolding k_def by (simp only: bit_exp_iff possible_bit_word) auto
  show "bit (LFS_MKTAG LFS_TYPE_MOVESTATE 0x3ff 0) i \<longleftrightarrow> 10 \<le> i \<and> i < 31"
    unfolding bit_LFS_MKTAG m by (auto simp: bit_simps)
  show "bit (LFS_MKTAG LFS_TYPE_DELETE ident 0) i \<longleftrightarrow> 20 \<le> i \<and> i < 28 \<or> i = 30 \<or> 10 \<le> i \<and> bit ident (i - 10)" if "ident < 2 ^ 10"
    unfolding bit_LFS_MKTAG m using less_exp_bit[OF that, of "i - 10"] by (auto simp: bit_or_iff k bit_mask_iff)
qed

text \<open>C31: marking a move. \<open>lfs_fs_prepmove\<close> with an id and a pair makes exactly that move pending and leaves
  the count of orphans; with the id \<open>0x3ff\<close> no move is pending and the pair is null. \<open>lfs_gstate_hasmovehere\<close>
  recognises the pair, in either order.\<close>

theorem lfs_fs_prepmove_marks:
  assumes "ident \<le> 0x3ff"
  shows "move_pending (l_gstate (lfs_fs_prepmove s ident pair)) = (ident \<noteq> 0x3ff) \<and>
    lfs_tag_size (g_tag (l_gstate (lfs_fs_prepmove s ident pair))) = lfs_tag_size (g_tag (l_gstate s)) \<and>
    lfs_gstate_hasmove (l_gstate (lfs_fs_prepmove s ident pair)) = (ident \<noteq> 0x3ff \<or> bit (g_tag (l_gstate s)) 31) \<and>
    lfs_tag_id (g_tag (l_gstate (lfs_fs_prepmove s ident pair))) = (if ident = 0x3ff then 0 else ucast ident) \<and>
    g_pair (l_gstate (lfs_fs_prepmove s ident pair)) = (if ident = 0x3ff then (0, 0) else pair) \<and>
    (ident = 0x3ff \<or> lfs_gstate_hasmovehere (l_gstate (lfs_fs_prepmove s ident (lfs_pair_swap pair))) pair)"
proof -
  define c where "c = (ident \<noteq> 0x3ff)"
  have i: "(ucast ident :: u32) < 2 ^ 10" using assms by (simp add: word_less_nat_alt word_le_nat_alt unsigned_ucast_eq take_bit_eq_mod)
  have id: "bit ident n \<Longrightarrow> n < 10" for n
    using less_exp_bit[OF i, of n] by (auto simp: bit_ucast_iff dest: bit_imp_le_length)
  have b: "bit (g_tag (l_gstate (lfs_fs_prepmove s ident q))) i \<longleftrightarrow>
     (if 10 \<le> i \<and> i < 31 then c \<and> (20 \<le> i \<and> i < 28 \<or> i = 30 \<or> bit ident (i - 10)) else bit (g_tag (l_gstate s)) i)" for i q
    using less_exp_bit[OF i, of "i - 10"]
    by (auto simp: lfs_fs_prepmove_def c_def bit_simps bit_move_mask[unfolded LFS_MKTAG_def] bit_move_mask(2)[OF i] bit_move_mask(1) dest: bit_imp_le_length)
  have mv: "move_pending (l_gstate (lfs_fs_prepmove s ident q)) = c" for q
    unfolding move_pending_bits by (auto simp: b intro!: exI[of _ 30])
  have hm: "lfs_gstate_hasmove (l_gstate (lfs_fs_prepmove s ident q)) = (c \<or> bit (g_tag (l_gstate s)) 31)" for q
    by (simp add: hasmove_bits mv b)
  show ?thesis
  proof (intro conjI)
    show "lfs_tag_size (g_tag (l_gstate (lfs_fs_prepmove s ident pair))) = lfs_tag_size (g_tag (l_gstate s))"
      by (simp add: tag_size_bits b)
    show "lfs_tag_id (g_tag (l_gstate (lfs_fs_prepmove s ident pair))) = (if ident = 0x3ff then 0 else ucast ident)"
      by (intro bit_word_eqI) (auto simp: bit_tag_fields b c_def bit_simps dest: id)
    show "ident = 0x3ff \<or> lfs_gstate_hasmovehere (l_gstate (lfs_fs_prepmove s ident (lfs_pair_swap pair))) pair"
      using hm[of "lfs_pair_swap pair"] by (cases pair) (auto simp: lfs_gstate_hasmovehere_def lfs_gstate_hasmove_def c_def lfs_fs_prepmove_def)
  qed (simp_all add: mv hm c_def, simp add: lfs_fs_prepmove_def)
qed

theorem lfs_fs_prepmove_marks_witness:
  "move_pending (l_gstate (lfs_fs_prepmove (sample memory_ops sample_memory) 5 (3, 4))) \<and>
   lfs_tag_id (g_tag (l_gstate (lfs_fs_prepmove (sample memory_ops sample_memory) 5 (3, 4)))) = 5"
  using lfs_fs_prepmove_marks[of 5 "sample memory_ops sample_memory" "(3, 4)"] by simp

end
