(* ===== verification/LogModel.thy ===== *)
theory LogModel
  imports StateProperties
begin

text \<open>
  What a metadata log means. A log is a list of tags with their data; \<open>replay\<close> runs it forward and gives,
  for each entry of the directory, the history of its attributes: a splice tag inserts or removes an
  entry and so shifts the ids behind it, any other tag is put in front of the history of its id. The
  code never replays a log: \<open>lfs_dir_getslice\<close> searches it from its end and corrects the id it looks for
  at every splice (\<open>log_find\<close>). The two agree.
\<close>

type_synonym log_entry = "lfs_tag_t \<times> u8 list"

subsection \<open>The meaning of a log\<close>

definition is_splice :: "lfs_tag_t \<Rightarrow> bool" where
  "is_splice t = (lfs_tag_type1 t = LFS_TYPE_SPLICE)"

definition insert_at :: "nat \<Rightarrow> 'a \<Rightarrow> 'a list \<Rightarrow> 'a list" where
  "insert_at k x xs = take k xs @ x # drop k xs"

definition remove_at :: "nat \<Rightarrow> 'a list \<Rightarrow> 'a list" where
  "remove_at k xs = take k xs @ drop (Suc k) xs"

definition tag_ident :: "lfs_tag_t \<Rightarrow> nat" where
  "tag_ident t = unat (lfs_tag_id t)"

definition create_tag :: "nat \<Rightarrow> lfs_tag_t" where
  "create_tag k = LFS_MKTAG LFS_TYPE_CREATE (of_nat k) 0"

definition delete_tag :: "nat \<Rightarrow> lfs_tag_t" where
  "delete_tag k = LFS_MKTAG LFS_TYPE_DELETE (of_nat k) 0"

definition log_step :: "log_entry list list \<Rightarrow> log_entry \<Rightarrow> log_entry list list" where
  "log_step dir e =
     (let t = fst e; k = tag_ident t
      in if t = create_tag k then insert_at k [] dir
         else if t = delete_tag k then remove_at k dir
         else if k < length dir then dir[k := e # dir ! k] else dir)"

definition replay :: "log_entry list \<Rightarrow> log_entry list list" where
  "replay es = foldl log_step [] es"

text \<open>
  A tag fits a directory of \<open>n\<close> entries: it creates an entry behind an existing one or at the end, removes
  an existing one, or is no splice and belongs to an existing one or, with the id \<open>0x3ff\<close>, to none.
\<close>

definition fits :: "nat \<Rightarrow> lfs_tag_t \<Rightarrow> bool" where
  "fits n t =
     (let k = tag_ident t
      in if t = create_tag k then k \<le> n \<and> n < 0x3fe
         else if t = delete_tag k then k < n
         else \<not> is_splice t \<and> (k < n \<or> k = 0x3ff))"

fun log_fits :: "log_entry list list \<Rightarrow> log_entry list \<Rightarrow> bool" where
  "log_fits dir [] = (length dir < 0x3ff)"
| "log_fits dir (e # es) = (length dir < 0x3ff \<and> fits (length dir) (fst e) \<and> log_fits (log_step dir e) es)"

subsection \<open>Searching backwards\<close>

text \<open>The tests and the arithmetic of \<open>lfs_dir_getslice\<close>, on a list with the newest tag first.\<close>

fun log_find :: "lfs_tag_t \<Rightarrow> lfs_tag_t \<Rightarrow> lfs_tag_t \<Rightarrow> log_entry list \<Rightarrow> (lfs_tag_t \<times> u8 list) option" where
  "log_find gmask gtag gdiff [] = None"
| "log_find gmask gtag gdiff ((tag, bytes) # es) =
     (let splice = lfs_tag_id gmask \<noteq> 0 \<and> lfs_tag_type1 tag = LFS_TYPE_SPLICE \<and>
        lfs_tag_id tag \<le> lfs_tag_id (gtag - gdiff)
      in if splice \<and> tag = (LFS_MKTAG LFS_TYPE_CREATE 0 0 OR (LFS_MKTAG 0 0x3ff 0 AND (gtag - gdiff)))
         then None
         else
           let gdiff = (if splice then gdiff + splice_mktag tag else gdiff)
           in if (gmask AND tag) = (gmask AND (gtag - gdiff))
              then if lfs_tag_isdelete tag then None else Some (tag + gdiff, bytes)
              else log_find gmask gtag gdiff es)"

text \<open>
  The history of one entry, searched for the newest attribute whose type agrees under the mask. An
  attribute that was deleted is not found.
\<close>

definition history_find :: "u32 \<Rightarrow> u32 \<Rightarrow> log_entry list \<Rightarrow> log_entry option" where
  "history_find tmask type h =
     (case find (\<lambda>e. (tmask AND lfs_tag_type3 (fst e)) = (tmask AND type)) h of
        Some e \<Rightarrow> (if lfs_tag_isdelete (fst e) then None else Some e)
      | None \<Rightarrow> None)"

text \<open>A tag with another id.\<close>

definition with_id :: "lfs_tag_t \<Rightarrow> nat \<Rightarrow> lfs_tag_t" where
  "with_id t k = LFS_MKTAG (lfs_tag_type3 t) (of_nat k) (ucast (lfs_tag_size t))"

subsection \<open>Shifting ids\<close>

lemma LFS_MKTAG_plus:
  assumes "ident < 2 ^ 10" "sz < 2 ^ 10"
  shows "LFS_MKTAG type ident sz = push_bit 20 type + push_bit 10 ident + sz"
proof -
  have f: "bit ident i \<Longrightarrow> i < 10" "bit sz i \<Longrightarrow> i < 10" for i using assms by (auto dest: field_bits)
  have "push_bit 20 type AND push_bit 10 ident = 0" "(push_bit 20 type OR push_bit 10 ident) AND sz = 0"
    by (rule bit_word_eqI; auto simp: bit_simps dest!: f)+
  then show ?thesis by (simp only: LFS_MKTAG_def disjunctive_add_eq_or or.assoc)
qed

lemma of_nat_10: "k < 1024 \<Longrightarrow> (of_nat k :: u32) < 2 ^ 10"
  by (simp add: word_less_nat_alt unat_of_nat)

lemma tag_ident_less: "tag_ident t < 1024"
proof -
  have "bit (lfs_tag_id t) i \<Longrightarrow> i < 10" for i by (simp add: bit_tag_fields)
  then have "take_bit 10 (lfs_tag_id t) = lfs_tag_id t" by (intro bit_word_eqI) (auto simp: bit_simps)
  then have "unat (lfs_tag_id t) = take_bit 10 (unat (lfs_tag_id t))" by (metis unsigned_take_bit_eq)
  then show ?thesis using take_bit_nat_less_exp[of 10 "unat (lfs_tag_id t)"] by (simp add: tag_ident_def)
qed

lemma of_nat_tag_ident: "of_nat (tag_ident t) = lfs_tag_id t"
  by (simp add: tag_ident_def)

lemma tag_ident_MKTAG: "type < 2 ^ 12 \<Longrightarrow> k < 1024 \<Longrightarrow> sz < 2 ^ 10 \<Longrightarrow> tag_ident (LFS_MKTAG type (of_nat k) sz) = k"
  using mktag_fields(2)[of type "of_nat k" sz] of_nat_10[of k] by (simp add: tag_ident_def unat_of_nat)

lemma with_id_ident: "with_id t (tag_ident t) = t"
  by (simp add: with_id_def of_nat_tag_ident mktag_of_fields)

text \<open>A difference of tags that is a distance of ids.\<close>

definition id_shift :: "nat \<Rightarrow> nat \<Rightarrow> lfs_tag_t" where
  "id_shift a b = push_bit 10 (of_nat a) - push_bit 10 (of_nat b)"

lemma push_bit_word_add: "push_bit n (a + b) = push_bit n a + push_bit n b" for a b :: "'a::len word"
  by (simp add: push_bit_eq_mult algebra_simps)

lemma tag_less_10: "(ucast (lfs_tag_size t) :: u32) < 2 ^ 10"
proof -
  have "unat (ucast (lfs_tag_size t) :: u32) = take_bit 32 (unat (lfs_tag_size t))" by (simp add: unsigned_ucast_eq)
  also have "\<dots> \<le> unat (lfs_tag_size t)" by (rule take_bit_nat_less_eq_self)
  finally show ?thesis using unat_tag_size[of t] by (simp add: word_less_nat_alt)
qed

lemma with_id_shift:
  assumes "a < 1024"
  shows "t + id_shift a (tag_ident t) = with_id t a"
proof -
  have "t = push_bit 20 (lfs_tag_type3 t) + push_bit 10 (of_nat (tag_ident t)) + ucast (lfs_tag_size t)"
    using LFS_MKTAG_plus[OF of_nat_10[OF tag_ident_less] tag_less_10] with_id_ident[of t] by (simp add: with_id_def)
  then have "t + id_shift a (tag_ident t) =
      (push_bit 20 (lfs_tag_type3 t) + push_bit 10 (of_nat (tag_ident t)) + ucast (lfs_tag_size t)) + id_shift a (tag_ident t)"
    by simp
  moreover have "with_id t a = push_bit 20 (lfs_tag_type3 t) + push_bit 10 (of_nat a) + ucast (lfs_tag_size t)"
    unfolding with_id_def by (rule LFS_MKTAG_plus[OF of_nat_10[OF assms] tag_less_10])
  ultimately show ?thesis by (simp add: id_shift_def)
qed

lemma MKTAG_shift:
  assumes "a < 1024" "b < 1024" "sz < 2 ^ 10"
  shows "LFS_MKTAG type (of_nat a) sz - id_shift a b = LFS_MKTAG type (of_nat b) sz"
  unfolding LFS_MKTAG_plus[OF of_nat_10[OF assms(1)] assms(3)] LFS_MKTAG_plus[OF of_nat_10[OF assms(2)] assms(3)] id_shift_def
  by simp

lemma splice_tags:
  assumes "k < 1024"
  shows "lfs_tag_type1 (create_tag k) = LFS_TYPE_SPLICE" "lfs_tag_type1 (delete_tag k) = LFS_TYPE_SPLICE"
    "lfs_tag_id (create_tag k) = of_nat k" "lfs_tag_id (delete_tag k) = of_nat k"
    "splice_mktag (create_tag k) = push_bit 10 1" "splice_mktag (delete_tag k) = - push_bit 10 1"
proof -
  have id: "(of_nat k :: u32) < 2 ^ 10" using assms by (rule of_nat_10)
  have t1: "lfs_tag_type1 t = lfs_tag_type3 t AND 0xf00" for t
    by (simp add: lfs_tag_type1_def lfs_tag_type3_def and.assoc)
  have ch: "lfs_tag_chunk t = ucast (lfs_tag_type3 t)" for t
    by (rule bit_word_eqI) (auto simp: bit_tag_fields bit_ucast_iff)
  have t3: "lfs_tag_type3 (create_tag k) = 0x401" "lfs_tag_type3 (delete_tag k) = 0x4ff"
    unfolding create_tag_def delete_tag_def by (rule mktag_fields(1); (rule id)?; simp)+
  show "lfs_tag_type1 (create_tag k) = LFS_TYPE_SPLICE" "lfs_tag_type1 (delete_tag k) = LFS_TYPE_SPLICE"
    by (simp_all add: t1 t3)
  show "lfs_tag_id (create_tag k) = of_nat k" "lfs_tag_id (delete_tag k) = of_nat k"
    unfolding create_tag_def delete_tag_def by (rule mktag_fields(2); (rule id)?; simp)+
  show "splice_mktag (create_tag k) = push_bit 10 1" "splice_mktag (delete_tag k) = - push_bit 10 1"
    by (simp_all add: splice_mktag_def lfs_tag_splice_def ch t3 LFS_MKTAG_def not_eq_complement mask_eq_exp_minus_1)
qed

lemma create_not_delete: "j < 1024 \<Longrightarrow> k < 1024 \<Longrightarrow> create_tag j \<noteq> delete_tag k"
  using splice_tags(5)[of j] splice_tags(6)[of k] by auto

lemma create_tag_inject:
  assumes "j < 1024" "k < 1024"
  shows "create_tag j = create_tag k \<longleftrightarrow> j = k"
proof
  assume "create_tag j = create_tag k"
  then have "(of_nat j :: u32) = of_nat k" using splice_tags(3)[OF assms(1)] splice_tags(3)[OF assms(2)] by simp
  then have "unat (of_nat j :: u32) = unat (of_nat k :: u32)" by simp
  then show "j = k" using assms by (simp add: unat_of_nat)
qed simp

lemma mask_tag:
  assumes "tmask < 2 ^ 12"
  shows "(LFS_MKTAG tmask 0x3ff 0 AND t) = LFS_MKTAG (tmask AND lfs_tag_type3 t) (lfs_tag_id t) 0"
proof -
  have m: "(0x3ff :: u32) = mask 10" by (simp add: mask_eq_exp_minus_1)
  show ?thesis unfolding m
  proof (rule bit_word_eqI)
    fix i :: nat
    assume i: "i < LENGTH(32)"
    show "bit (LFS_MKTAG tmask (mask 10) 0 AND t) i = bit (LFS_MKTAG (tmask AND lfs_tag_type3 t) (lfs_tag_id t) 0) i"
      using i less_exp_bit[OF assms, of "i - 20"]
      by (cases "20 \<le> i"; cases "10 \<le> i") (auto simp: bit_and_iff bit_LFS_MKTAG bit_mask_iff bit_tag_fields)
  qed
qed

lemma mask_match:
  assumes "tmask < 2 ^ 12"
  shows "(LFS_MKTAG tmask 0x3ff 0 AND t) = (LFS_MKTAG tmask 0x3ff 0 AND t') \<longleftrightarrow>
    (tmask AND lfs_tag_type3 t) = (tmask AND lfs_tag_type3 t') \<and> lfs_tag_id t = lfs_tag_id t'" (is "?l \<longleftrightarrow> ?a \<and> ?i")
proof
  have type: "tmask AND lfs_tag_type3 t < 2 ^ 12" for t
    using word_and_le2[of tmask "lfs_tag_type3 t"] assms by (rule le_less_trans)
  have id: "lfs_tag_id t < 2 ^ 10" for t
    using of_nat_10[OF tag_ident_less[of t]] by (simp only: of_nat_tag_ident)
  have z: "(0 :: u32) < 2 ^ 10" by simp
  show "?a \<and> ?i" if ?l
    using that mktag_fields(1,2)[OF type[of t] id[of t] z] mktag_fields(1,2)[OF type[of t'] id[of t'] z]
    unfolding mask_tag[OF assms] by simp
qed (simp add: mask_tag[OF assms])

lemma create_tag_of:
  "(LFS_MKTAG LFS_TYPE_CREATE 0 0 OR (LFS_MKTAG 0 0x3ff 0 AND t)) = create_tag (tag_ident t)"
proof -
  have m: "(0x3ff :: u32) = mask 10" by (simp add: mask_eq_exp_minus_1)
  show ?thesis
    unfolding create_tag_def of_nat_tag_ident m
    by (rule bit_word_eqI) (auto simp: bit_or_iff bit_and_iff bit_LFS_MKTAG bit_tag_fields bit_mask_iff)
qed

subsection \<open>One step of the log and one of the search\<close>

lemma length_log_step:
  assumes "fits (length dir) (fst e)"
  shows "length (log_step dir e) =
    (if fst e = create_tag (tag_ident (fst e)) then Suc (length dir)
     else if fst e = delete_tag (tag_ident (fst e)) then length dir - 1 else length dir)"
  using assms by (auto simp: log_step_def fits_def Let_def insert_at_def remove_at_def)

lemma log_step_create:
  assumes "j \<le> length dir" "j < 1024" "k \<le> length dir"
  shows "log_step dir (create_tag j, bytes) ! k = (if k < j then dir ! k else if k = j then [] else dir ! (k - 1))"
proof -
  have "tag_ident (create_tag j) = j" unfolding create_tag_def by (rule tag_ident_MKTAG) (use assms(2) in simp_all)
  then show ?thesis using assms by (auto simp: log_step_def insert_at_def nth_append min_def nth_Cons')
qed

lemma log_step_delete:
  assumes "j < length dir" "j < 1024" "Suc k < length dir"
  shows "log_step dir (delete_tag j, bytes) ! k = (if k < j then dir ! k else dir ! Suc k)"
proof -
  have i: "tag_ident (delete_tag j) = j" unfolding delete_tag_def by (rule tag_ident_MKTAG) (use assms(2) in simp_all)
  then have "delete_tag j \<noteq> create_tag (tag_ident (delete_tag j))" using create_not_delete[of j j] assms(2) by metis
  then show ?thesis using assms i by (auto simp: log_step_def remove_at_def nth_append min_def)
qed

lemma log_fits_snoc:
  "log_fits dir (es @ [e]) \<longleftrightarrow>
     log_fits dir es \<and> fits (length (foldl log_step dir es)) (fst e) \<and> length (foldl log_step dir (es @ [e])) < 0x3ff"
  by (induction es arbitrary: dir) auto

lemma log_fits_length: "log_fits dir es \<Longrightarrow> length (foldl log_step dir es) < 0x3ff"
  by (induction es arbitrary: dir) auto

text \<open>A search for one kind of attribute of an entry.\<close>

definition searchable :: "u32 \<Rightarrow> u32 \<Rightarrow> u32 \<Rightarrow> bool" where
  "searchable tmask type sz \<longleftrightarrow> tmask < 2 ^ 12 \<and> type < 2 ^ 12 \<and> sz < 2 ^ 10 \<and>
     tmask AND 0x700 = 0x700 \<and> type AND 0x700 \<noteq> LFS_TYPE_SPLICE"

lemma splice_no_match:
  assumes "searchable tmask type sz" "is_splice t"
  shows "(tmask AND lfs_tag_type3 t) \<noteq> (tmask AND type)"
proof
  assume e: "(tmask AND lfs_tag_type3 t) = (tmask AND type)"
  have "lfs_tag_type3 t AND 0x700 = (lfs_tag_type3 t AND 0xf00) AND 0x700" by (simp add: and.assoc)
  also have "lfs_tag_type3 t AND 0xf00 = lfs_tag_type1 t"
    by (simp add: lfs_tag_type1_def lfs_tag_type3_def and.assoc)
  finally have "lfs_tag_type3 t AND 0x700 = LFS_TYPE_SPLICE" using assms(2) by (simp add: is_splice_def)
  moreover have "(tmask AND 0x700) AND lfs_tag_type3 t = (tmask AND 0x700) AND type"
    using arg_cong[OF e, of "\<lambda>x. x AND 0x700"] by (simp add: ac_simps)
  ultimately show False using assms(1) by (simp add: searchable_def and.commute)
qed

lemma shift_splice:
  "id_shift a (Suc b) + push_bit 10 1 = id_shift a b" "id_shift a b - push_bit 10 1 = id_shift a (Suc b)"
  by (simp_all add: id_shift_def push_bit_word_add)

definition gmask_of :: "u32 \<Rightarrow> lfs_tag_t" where "gmask_of tmask = LFS_MKTAG tmask 0x3ff 0"

text \<open>What \<open>log_find\<close> does with the newest tag, when it looks for id \<open>k\<close>.\<close>

lemma log_find_step:
  assumes s: "searchable tmask type sz" and k: "k < 0x3ff" "a < 1024" and n: "k < length (log_step dir (t, bytes))"
    and f: "fits (length dir) t" "length dir < 0x3ff"
    and IH: "\<And>k. k < length dir \<Longrightarrow> log_find (gmask_of tmask) (LFS_MKTAG type (of_nat a) sz) (id_shift a k) es = R (dir ! k)"
    and R: "R [] = None" "\<And>h. R ((t, bytes) # h) =
      (if (tmask AND lfs_tag_type3 t) = (tmask AND type) then if lfs_tag_isdelete t then None else Some (with_id t a, bytes) else R h)"
  shows "log_find (gmask_of tmask) (LFS_MKTAG type (of_nat a) sz) (id_shift a k) ((t, bytes) # es) = R (log_step dir (t, bytes) ! k)"
proof -
  have S: "tmask < 2 ^ 12" "type < 2 ^ 12" "sz < 2 ^ 10" using s by (simp_all add: searchable_def)
  define u where "u = LFS_MKTAG type (of_nat k) sz"
  have u: "LFS_MKTAG type (of_nat a) sz - id_shift a k = u" unfolding u_def by (rule MKTAG_shift) (use S k in simp_all)
  have uf: "lfs_tag_type3 u = type" "lfs_tag_id u = of_nat k" "tag_ident u = k"
    using mktag_fields(1,2)[OF S(2) of_nat_10 S(3)] tag_ident_MKTAG[OF S(2) _ S(3)] k by (simp_all add: u_def)
  have g: "lfs_tag_id (gmask_of tmask) \<noteq> 0"
    unfolding gmask_of_def using mktag_fields(2)[OF S(1), of "0x3ff" 0] by simp
  define j where "j = tag_ident t"
  have j: "j < 1024" "lfs_tag_id t = of_nat j" by (simp_all add: j_def tag_ident_less of_nat_tag_ident)
  have le: "(of_nat j :: u32) \<le> of_nat k \<longleftrightarrow> j \<le> k" "(of_nat j :: u32) = of_nat k \<longleftrightarrow> j = k"
    using j(1) k(1) by (simp_all add: word_le_nat_alt word_unat_eq_iff unat_of_nat)
  define b where "b \<longleftrightarrow> is_splice t \<and> j \<le> k"
  define d where "d = (if b then id_shift a k + splice_mktag t else id_shift a k)"
  have U: "log_find (gmask_of tmask) (LFS_MKTAG type (of_nat a) sz) (id_shift a k) ((t, bytes) # es) =
     (if b \<and> t = create_tag k then None
      else if (gmask_of tmask AND t) = (gmask_of tmask AND (LFS_MKTAG type (of_nat a) sz - d))
      then if lfs_tag_isdelete t then None else Some (t + d, bytes)
      else log_find (gmask_of tmask) (LFS_MKTAG type (of_nat a) sz) d es)"
  proof -
    have "(lfs_tag_id (gmask_of tmask) \<noteq> 0 \<and> lfs_tag_type1 t = LFS_TYPE_SPLICE \<and> lfs_tag_id t \<le> of_nat k) = b"
      using g le(1) j(2) by (simp add: b_def is_splice_def)
    then show ?thesis unfolding log_find.simps(2) Let_def u create_tag_of uf d_def by (simp only:)
  qed
  have nomatch: "(gmask_of tmask AND t) \<noteq> (gmask_of tmask AND w)" if "is_splice t" "lfs_tag_type3 w = type" for w
    using splice_no_match[OF s that(1)] that(2) unfolding gmask_of_def mask_match[OF S(1)] by simp
  have shifted: "lfs_tag_type3 (LFS_MKTAG type (of_nat a) sz - id_shift a k') = type" if "k' < 1024" for k'
    using mktag_fields(1)[OF S(2) of_nat_10[OF that] S(3)] MKTAG_shift[OF k(2) that S(3), of type] by simp
  have splice: "log_find (gmask_of tmask) (LFS_MKTAG type (of_nat a) sz) (id_shift a k) ((t, bytes) # es) = R (dir ! k')"
    if "is_splice t" "\<not> (b \<and> t = create_tag k)" "d = id_shift a k'" "k' < length dir" for k'
  proof -
    have "k' < 1024" using that(4) f(2) by simp
    then show ?thesis
      using U nomatch[OF that(1) shifted[of k']] IH[OF that(4)] that(2,3) by (simp only: if_False)
  qed
  have sp: "is_splice (create_tag j)" "is_splice (delete_tag j)" using splice_tags(1,2)[OF j(1)] by (simp_all only: is_splice_def)
  have fit: "if t = create_tag j then j \<le> length dir \<and> length dir < 0x3fe
      else if t = delete_tag j then j < length dir else \<not> is_splice t \<and> (j < length dir \<or> j = 0x3ff)"
    using f(1) by (simp only: fits_def Let_def j_def)
  have len: "length (log_step dir (t, bytes)) =
      (if t = create_tag j then Suc (length dir) else if t = delete_tag j then length dir - 1 else length dir)"
    using length_log_step[of dir "(t, bytes)"] f(1) by (simp only: fst_conv j_def)
  consider (create) "t = create_tag j" "j \<le> length dir" | (delete) "t = delete_tag j" "t \<noteq> create_tag j" "j < length dir"
    | (attr) "t \<noteq> create_tag j" "t \<noteq> delete_tag j" "\<not> is_splice t" "j < length dir \<or> j = 0x3ff"
    using fit by (auto split: if_splits)
  then show ?thesis
  proof cases
    case create
    have kn: "k \<le> length dir"
      using n len create(1) by simp
    note sub = log_step_create[OF create(2) j(1) kn, of bytes, folded create(1)]
    have t: "is_splice t" using sp(1) create(1) by simp
    have eq: "t = create_tag k \<longleftrightarrow> j = k" using create_tag_inject[of j k] j(1) k(1) create(1) by simp
    consider "k < j" | "k = j" | "j < k" by linarith
    then show ?thesis
    proof cases
      case 1
      then have "d = id_shift a k" by (simp add: d_def b_def)
      then show ?thesis using splice[OF t, of k] 1 create(2) eq sub by simp
    next
      case 2
      then have "b \<and> t = create_tag k" using t eq by (simp add: b_def)
      then show ?thesis unfolding U sub using 2 R(1) by simp
    next
      case 3
      then have "d = id_shift a (k - 1)"
        using t splice_tags(5)[OF j(1)] create(1) shift_splice(1)[of a "k - 1"] by (simp add: d_def b_def)
      then show ?thesis using splice[OF t, of "k - 1"] 3 kn eq sub by simp
    qed
  next
    case delete
    have kn: "Suc k < length dir"
      using n len delete by simp
    note sub = log_step_delete[OF delete(3) j(1) kn, of bytes, folded delete(1)]
    have t: "is_splice t" using sp(2) delete(1) by simp
    have eq: "t \<noteq> create_tag k" using create_not_delete[of k j] j(1) k(1) delete(1) by fastforce
    show ?thesis
    proof (cases "j \<le> k")
      case True
      then have "d = id_shift a (Suc k)"
        using t splice_tags(6)[OF j(1)] delete(1) shift_splice(2)[of a k] by (simp add: d_def b_def)
      then show ?thesis using splice[OF t, of "Suc k"] True kn eq sub by simp
    next
      case False
      then have "d = id_shift a k" by (simp add: d_def b_def)
      then show ?thesis using splice[OF t, of k] False kn eq sub by simp
    qed
  next
    case attr
    then have b: "\<not> b" and d: "d = id_shift a k" by (simp_all add: b_def d_def)
    have kn: "k < length dir" using n len attr by simp
    have sub: "log_step dir (t, bytes) ! k = (if k = j then (t, bytes) # dir ! k else dir ! k)"
      using attr(1,2) kn by (simp only: log_step_def Let_def fst_conv j_def [symmetric] if_False nth_list_update) auto
    have m: "(gmask_of tmask AND t) = (gmask_of tmask AND u) \<longleftrightarrow> (tmask AND lfs_tag_type3 t) = (tmask AND type) \<and> j = k"
      unfolding gmask_of_def mask_match[OF S(1)] uf j(2) le(2) by (rule refl)
    have w: "k = j \<Longrightarrow> t + id_shift a k = with_id t a" using with_id_shift[OF k(2), of t] by (simp add: j_def)
    show ?thesis
      unfolding U d u m sub using b w IH[OF kn] R(2) by (cases "k = j") auto
  qed
qed

text \<open>
  Searching backwards for an attribute of entry \<open>k\<close> of the directory, when the id asked for was \<open>a\<close> and all
  the splices passed so far have moved it to \<open>k\<close>.
\<close>

theorem log_find_replay:
  assumes s: "searchable tmask type sz" and "a < 1024"
  shows "log_fits [] (rev es) \<Longrightarrow> k < length (replay (rev es)) \<Longrightarrow>
    log_find (gmask_of tmask) (LFS_MKTAG type (of_nat a) sz) (id_shift a k) es =
      map_option (\<lambda>e. (with_id (fst e) a, snd e)) (history_find tmask type (replay (rev es) ! k))"
proof (induction es arbitrary: k)
  case Nil
  then show ?case by (simp add: replay_def)
next
  case (Cons e es)
  obtain t bytes where e: "e = (t, bytes)" by fastforce
  let ?R = "\<lambda>h. map_option (\<lambda>e. (with_id (fst e) a, snd e)) (history_find tmask type h)"
  have f: "log_fits [] (rev es)" "fits (length (replay (rev es))) t" "length (replay (rev es)) < 0x3ff"
    and l: "length (replay (rev (e # es))) < 0x3ff"
    using Cons.prems(1) log_fits_length[of "[]" "rev es"] by (simp_all add: log_fits_snoc e replay_def)
  have st: "replay (rev (e # es)) = log_step (replay (rev es)) (t, bytes)" by (simp add: replay_def e)
  have "log_find (gmask_of tmask) (LFS_MKTAG type (of_nat a) sz) (id_shift a k) ((t, bytes) # es) =
      ?R (log_step (replay (rev es)) (t, bytes) ! k)"
  proof (rule log_find_step[OF s _ assms(2)])
    show "k < 0x3ff" "k < length (log_step (replay (rev es)) (t, bytes))" using Cons.prems(2) l st by simp_all
    show "fits (length (replay (rev es))) t" "length (replay (rev es)) < 0x3ff" by (rule f)+
  qed (use Cons.IH[OF f(1)] in \<open>auto simp: history_find_def\<close>)
  then show ?case unfolding e st [unfolded e] .
qed

end
