(* ===== verification/OwnRead.thy ===== *)
theory OwnRead
  imports Metadata FileIndex DeviceWrite
begin

text \<open>
  Reading through the read cache of the file system itself, which is how metadata is read: the step
  lemmas that the properties of the metadata log, of the skip lists and of the path lookup share. A
  state is \<open>ready\<close> when its read cache says what the device holds; reading keeps everything of the
  state but the read cache and the device, and keeps what the device holds.
\<close>

context readable_device begin

definition ready :: "'d lfs \<Rightarrow> bool" where
  "ready s \<longleftrightarrow> geometry s bsize bcount \<and> runs_on s ops \<and> inv (l_dev s) \<and>
     cache_holds s (l_read_cache s) (content (l_dev s)) \<and> 2 * bsize + unat (cfg_read_size (l_cfg s)) \<le> 2 ^ 64"

definition keeps :: "'d lfs \<Rightarrow> 'd lfs \<Rightarrow> bool" where
  "keeps s s' \<longleftrightarrow> (\<exists>rc d. s' = s\<lparr>l_read_cache := rc, l_dev := d\<rparr> \<and> inv d \<and> content d = content (l_dev s))"

lemma keeps_refl: "inv (l_dev s) \<Longrightarrow> keeps s s"
  unfolding keeps_def by (rule exI[of _ "l_read_cache s"], rule exI[of _ "l_dev s"]) simp

lemma keeps_trans: "keeps s s' \<Longrightarrow> keeps s' s'' \<Longrightarrow> keeps s s''"
  unfolding keeps_def by (elim exE conjE) auto

lemma keepsD:
  assumes "keeps s s'"
  shows "inv (l_dev s')" "content (l_dev s') = content (l_dev s)" "runs_on s' = runs_on s"
    "geometry s' = geometry s" "cache_fits s' = cache_fits s" "cache_holds s' = cache_holds s"
    "pending_fits s' = pending_fits s" "l_cfg s' = l_cfg s" "l_block_size s' = l_block_size s"
    "l_block_count s' = l_block_count s" "l_erase_size s' = l_erase_size s" "l_write_cache s' = l_write_cache s"
    "l_gstate s' = l_gstate s" "l_gdisk s' = l_gdisk s" "l_gdelta s' = l_gdelta s" "l_free s' = l_free s"
    "l_metadata_list s' = l_metadata_list s" "l_root s' = l_root s" "l_seed s' = l_seed s"
    "l_name_max_length s' = l_name_max_length s"
  using assms by (auto simp: keeps_def runs_on_def geometry_def cache_fits_def cache_holds_def pending_fits_def fun_eq_iff split: option.splits)

lemma readyD:
  assumes "ready s"
  shows "geometry s bsize bcount" "runs_on s ops" "inv (l_dev s)" "unat (l_block_size s) = bsize" "unat (l_block_count s) = bcount"
    "bsize < 2 ^ 63" "bcount < 2 ^ 63"
  using assms by (simp_all add: ready_def geometry_def)

text \<open>One read, with or without a write cache on top.\<close>

definition own_read :: "'d lfs \<Rightarrow> lfs_cache option \<Rightarrow> lfs_block_t \<Rightarrow> lfs_off_t \<Rightarrow> nat \<Rightarrow> unit result \<times> u8 list \<times> 'd lfs \<Rightarrow> bool" where
  "own_read s wc block off n res = (case res of (r, bytes, s') \<Rightarrow>
     keeps s s' \<and> sound r \<and> length bytes = n \<and>
     (r = Inr () \<longrightarrow> ready s' \<and> bytes = take n (drop (unat off) (overlay wc (content (l_dev s)) (unat block)))))"

lemma own_read_result:
  assumes "ready s" "pending_fits s wc" "unat block < bcount" "unat off + length buf \<le> bsize" "0 < unat hint" "unat hint \<le> bsize"
  shows "own_read s wc block off (length buf)
    (case lfs_bd_read s wc (l_read_cache s) hint block off buf of (r, buf', rc, s') \<Rightarrow> (r, buf', s'\<lparr>l_read_cache := rc\<rparr>))"
proof -
  have "read_pre s wc (l_read_cache s) hint block"
    using assms by (simp add: read_pre_def ready_def geometry_def word_less_nat_alt)
  note R = bd_read[OF this assms(4)]
  obtain r buf' rc s' where e: "lfs_bd_read s wc (l_read_cache s) hint block off buf = (r, buf', rc, s')" by (metis prod_cases4)
  have sd: "same_disk s s'" using R by (simp add: e)
  then obtain d where "s' = s\<lparr>l_dev := d\<rparr>" "inv d" "content d = content (l_dev s)" by (auto simp: same_disk_def)
  then have "keeps s (s'\<lparr>l_read_cache := rc\<rparr>)"
    unfolding keeps_def by (intro exI[of _ rc] exI[of _ d]) (cases s, simp)
  moreover have "ready (s'\<lparr>l_read_cache := rc\<rparr>)" if "cache_holds s rc (content (l_dev s))"
  proof -
    have "ready (s\<lparr>l_dev := l_dev s', l_read_cache := rc\<rparr>)"
      using that assms(1) same_diskD(1,2)[OF sd] by (auto simp: ready_def geometry_def runs_on_def cache_holds_def cache_fits_def)
    moreover have "s'\<lparr>l_read_cache := rc\<rparr> = s\<lparr>l_dev := l_dev s', l_read_cache := rc\<rparr>"
      using sd unfolding same_disk_def by auto
    ultimately show ?thesis by simp
  qed
  ultimately show ?thesis using R by (simp add: e own_read_def)
qed

lemma bd_read_own:
  assumes "ready s" "unat block < bcount" "unat off + length buf \<le> bsize" "0 < unat hint" "unat hint \<le> bsize"
  shows "own_read s None block off (length buf) (lfs_bd_read_own s False hint block off buf)"
  using own_read_result[OF assms(1) _ assms(2-5), of None] by (simp add: lfs_bd_read_own_def pending_fits_def)

lemma bd_read_through:
  assumes "ready s" "pending_fits s wc" "unat block < bcount" "unat off + length buf \<le> bsize" "0 < unat hint" "unat hint \<le> bsize"
  shows "own_read s wc block off (length buf) (lfs_bd_read_through s wc hint block off buf)"
  using own_read_result[OF assms] by (simp add: lfs_bd_read_through_def)

text \<open>A read into a fresh local variable.\<close>

lemma read_local:
  assumes "ready s" "unat block < bcount" "unat off + n \<le> bsize" "0 < unat hint" "unat hint \<le> bsize"
  shows "case read_local s False hint block off n of (r, s') \<Rightarrow> keeps s s' \<and> sound r \<and>
    (\<forall>bytes. r = Inr bytes \<longrightarrow> ready s' \<and> bytes = take n (drop (unat off) (content (l_dev s) (unat block))))"
proof -
  have "unat off + length (replicate n (0::u8)) \<le> bsize" using assms(3) by simp
  note R = bd_read_own[OF assms(1,2) this assms(4,5)]
  obtain r bytes s' where e: "lfs_bd_read_own s False hint block off (replicate n 0) = (r, bytes, s')" by (metis prod_cases3)
  show ?thesis using R by (cases r) (simp_all add: e own_read_def read_local_def overlay_def)
qed

end

lemma mem_ready:
  assumes "runs_on s memory_ops" "geometry s bs bc" "memory_inv (l_block_size s) (l_block_count s) (l_dev s)"
    and "cache_holds s (l_read_cache s) (memory_content (l_dev s))" "2 * bs + unat (cfg_read_size (l_cfg s)) \<le> 2 ^ 64"
  shows "mem.ready (l_block_size s) (l_block_count s) s" "unat (l_block_size s) = bs" "unat (l_block_count s) = bc"
proof -
  show b: "unat (l_block_size s) = bs" "unat (l_block_count s) = bc"
    using assms(2) by (simp_all add: geometry_def)
  show "mem.ready (l_block_size s) (l_block_count s) s"
    unfolding mem.ready_def unfolding b using assms by blast
qed

lemma overlay_None [simp]: "overlay None disk = disk"
  by (simp add: overlay_def fun_eq_iff)

lemma pending_fits_None [simp]: "pending_fits s None"
  by (simp add: pending_fits_def)

end
