(* ===== verification/LogRead.thy ===== *)
theory LogRead
  imports LogModel OwnRead
begin

text \<open>
  The log of a metadata pair on the device, and \<open>lfs_dir_getslice\<close> as a search of the log it holds.
\<close>

subsection \<open>A log in a block\<close>

definition stored_tag :: "u8 list \<Rightarrow> nat \<Rightarrow> u32" where
  "stored_tag blk off = lfs_frombe32 (le_word (take 4 (drop off blk)))"

text \<open>
  The log that ends at \<open>off\<close> with the tag \<open>tag\<close>, its newest entry first. A tag is stored as the exclusive or
  with its predecessor, most significant byte first; its data follow it. The log starts behind the four
  bytes of the revision count.
\<close>

fun log_ends :: "u8 list \<Rightarrow> nat \<Rightarrow> lfs_tag_t \<Rightarrow> log_entry list \<Rightarrow> bool" where
  "log_ends blk off tag [] = (off = 4)"
| "log_ends blk off tag ((t, bytes) # es) =
     (t = tag \<and> unat (lfs_tag_dsize t) = 4 + length bytes \<and> 8 + length bytes \<le> off \<and> off \<le> length blk \<and>
      take (length bytes) (drop (off - length bytes) blk) = bytes \<and>
      log_ends blk (off - (4 + length bytes)) ((stored_tag blk (off - (4 + length bytes)) XOR tag) AND 0x7fffffff) es)"

lemma log_ends_bounds: "log_ends blk off tag es \<Longrightarrow> 4 \<le> off \<and> 4 * length es + 4 \<le> off"
proof (induction es arbitrary: off tag)
  case (Cons e es)
  obtain t bytes where "e = (t, bytes)" by fastforce
  then show ?case using Cons.prems Cons.IH by fastforce
qed simp

context readable_device begin

definition failed :: "'x result \<Rightarrow> bool" where
  "failed r \<longleftrightarrow> (\<exists>h. r = Inl h \<and> device_fails h)"

lemma read_data:
  assumes "ready s" "unat block < bcount" "unat off + length buf \<le> bsize" "length buf < 1024"
  shows "own_read s None block off (length buf) (lfs_bd_read_own s False (of_nat (length buf)) block off buf)"
proof (cases buf)
  case Nil
  have "block < l_block_count s" "off \<le> l_block_size s"
    using assms readyD[OF assms(1)] by (simp_all add: word_less_nat_alt word_le_nat_alt Nil)
  then have "lfs_bd_read_own s False (of_nat (length buf)) block off buf = (Inr (), [], s)"
    by (simp add: Nil lfs_bd_read_own_def lfs_bd_read_def not_le not_less)
  then show ?thesis using assms(1) by (simp add: own_read_def Nil keeps_refl readyD(3))
next
  case Cons
  then have "unat (of_nat (length buf) :: u64) = length buf" "0 < length buf"
    using unat_of_nat_u64[of "length buf"] assms(4) Cons by simp_all
  then show ?thesis by (intro bd_read_own) (use assms in simp_all)
qed

lemma getslice_loop:
  assumes "ready s" "unat (fst (m_pair dir)) < bcount" "length buf < 1024"
    and "log_ends (content (l_dev s) (unat (fst (m_pair dir)))) (unat offset) ntag es" "length es < fuel"
  shows "case lfs_dir_getslice_loop fuel s dir gmask gtag 0 buf offset ntag gdiff of (r, buf', s') \<Rightarrow>
    keeps s s' \<and> length buf' = length buf \<and>
    (failed r \<or> ready s' \<and>
      (case log_find gmask gtag gdiff es of
         None \<Rightarrow> r = Inl (Err LFS_ERR_NOENT)
       | Some (t, bytes) \<Rightarrow> r = Inr t \<and> buf' = take (length buf) bytes @ replicate (length buf - length bytes) 0))"
  using assms(1,4,5)
proof (induction fuel arbitrary: s offset ntag es gdiff)
  case (Suc fuel)
  show ?case
  proof (cases es)
    case Nil
    then have "unat offset = 4" using Suc.prems(2) by simp
    then have "offset = 4" by (simp add: word_eq_nat_alt)
    moreover have "\<not> (4 + lfs_tag_dsize ntag \<le> 4)"
      using unat_tag_size[of ntag] by (simp add: word_le_nat_alt unat_add_u64 unat_dsize)
    ultimately show ?thesis using Suc.prems(1) Nil by (simp add: keeps_refl readyD(3))
  next
    case (Cons e es')
    obtain t bytes where e: "e = (t, bytes)" by fastforce
    let ?blk = "content (l_dev s) (unat (fst (m_pair dir)))"
    note L = Suc.prems(2)[unfolded Cons e log_ends.simps]
    have t: "t = ntag" using L by simp
    have sz: "unat (lfs_tag_dsize ntag) = 4 + length bytes" and off: "8 + length bytes \<le> unat offset" "unat offset \<le> length ?blk"
      and data: "take (length bytes) (drop (unat offset - length bytes) ?blk) = bytes"
      using L t by simp_all
    define o' where "o' = offset - lfs_tag_dsize ntag"
    have o': "unat o' = unat offset - (4 + length bytes)" unfolding o'_def using sz off(1) by (subst unat_sub_u64) auto
    have blk: "length ?blk = bsize" using length_content[OF readyD(3)[OF Suc.prems(1)] assms(2)] .
    have go: "4 + lfs_tag_dsize ntag \<le> offset"
    proof -
      have "8 + length bytes < 2 ^ 64" using off(1) unat_u64_less(1)[of offset] by linarith
      then have "unat (4 + lfs_tag_dsize ntag) = 8 + length bytes" using sz by (subst unat_add_u64) simp_all
      then show ?thesis using off(1) by (simp add: word_le_nat_alt)
    qed
    have "unat o' + 4 \<le> bsize" "unat (4 :: u64) \<le> bsize" using o' off blk by simp_all
    note R = read_local[OF Suc.prems(1) assms(2) this(1) _ this(2)]
    obtain r s1 where e1: "read_local s False 4 (fst (m_pair dir)) o' 4 = (r, s1)" by fastforce
    show ?thesis
    proof (cases r)
      case (Inl h)
      then show ?thesis using R go by (simp add: e1 o'_def [symmetric] Let_def failed_def)
    next
      case (Inr head)
      then have k: "keeps s s1" "ready s1" and head: "lfs_frombe32 (le_word head) = stored_tag ?blk (unat o')"
        using R by (simp_all add: e1 stored_tag_def)
      note kd = keepsD[OF k(1)]
      define ntag' where "ntag' = (stored_tag ?blk (unat o') XOR ntag) AND 0x7fffffff"
      define splice where "splice \<longleftrightarrow> lfs_tag_id gmask \<noteq> 0 \<and> lfs_tag_type1 ntag = LFS_TYPE_SPLICE \<and>
        lfs_tag_id ntag \<le> lfs_tag_id (gtag - gdiff)"
      define stop where "stop \<longleftrightarrow> splice \<and> ntag = (LFS_MKTAG LFS_TYPE_CREATE 0 0 OR (LFS_MKTAG 0 0x3ff 0 AND (gtag - gdiff)))"
      define gdiff' where "gdiff' = (if splice then gdiff + splice_mktag ntag else gdiff)"
      define match where "match \<longleftrightarrow> (gmask AND ntag) = (gmask AND (gtag - gdiff'))"
      have F: "log_find gmask gtag gdiff es = (if stop then None else if match then if lfs_tag_isdelete ntag then None else Some (ntag + gdiff', bytes)
          else log_find gmask gtag gdiff' es')"
        unfolding Cons e t log_find.simps(2) Let_def stop_def match_def gdiff'_def splice_def by (rule refl)
      define diff where "diff = unat (lfs_min (lfs_tag_size ntag) (of_nat (length buf)))"
      have G: "lfs_dir_getslice_loop (Suc fuel) s dir gmask gtag 0 buf offset ntag gdiff =
        (if stop then (Inl (Err LFS_ERR_NOENT), buf, s1)
         else if match then if lfs_tag_isdelete ntag then (Inl (Err LFS_ERR_NOENT), buf, s1)
           else (case lfs_bd_read_own s1 False (of_nat diff) (fst (m_pair dir)) (o' + 4) (take diff buf) of
                   (Inl h, bytes, s) \<Rightarrow> (Inl h, blit 0 bytes buf, s)
                 | (Inr _, bytes, s) \<Rightarrow> (Inr (ntag + gdiff'), bytes @ replicate (length buf - diff) 0, s))
         else lfs_dir_getslice_loop fuel s1 dir gmask gtag 0 buf o' ntag' gdiff')"
        using go unfolding lfs_dir_getslice_loop.simps(2) Let_def o'_def [symmetric] e1 Inr
        by (simp only: not_True_eq_False if_False prod.case sum.case head ntag'_def stop_def match_def gdiff'_def splice_def diff_def add_0_right)
      show ?thesis
      proof (cases "stop \<or> match")
        case False
        have "content (l_dev s1) = content (l_dev s)" by (rule kd)
        moreover have "log_ends ?blk (unat o') ntag' es'" using L by (simp add: ntag'_def o' t)
        ultimately have "case lfs_dir_getslice_loop fuel s1 dir gmask gtag 0 buf o' ntag' gdiff' of (r, buf', s') \<Rightarrow>
            keeps s1 s' \<and> length buf' = length buf \<and>
            (failed r \<or> ready s' \<and>
              (case log_find gmask gtag gdiff' es' of
                 None \<Rightarrow> r = Inl (Err LFS_ERR_NOENT)
               | Some (t, bytes) \<Rightarrow> r = Inr t \<and> buf' = take (length buf) bytes @ replicate (length buf - length bytes) 0))"
          using Suc.prems(3) Cons by (intro Suc.IH k(2)) simp_all
        then show ?thesis unfolding G F using False keeps_trans[OF k(1)] by (auto split: prod.splits)
      next
        case True
        then consider "stop \<or> lfs_tag_isdelete ntag" | "\<not> stop" "match" "\<not> lfs_tag_isdelete ntag" by blast
        then show ?thesis
        proof cases
          case 1
          then show ?thesis unfolding G F using True k by auto
        next
          case 2
          have sb: "unat (lfs_tag_size ntag) = length bytes" using sz 2(3) by (simp add: unat_dsize)
          have d: "diff = min (length bytes) (length buf)"
            using assms(3) by (simp add: diff_def lfs_min_unat sb unat_of_nat_u64)
          have "unat o' + 4 = unat offset - length bytes" "unat offset - length bytes < 2 ^ 64"
            using o' off(1) unat_u64_less(1)[of offset] by linarith+
          then have o4: "unat (o' + 4) = unat offset - length bytes" by (subst unat_add_u64) simp_all
          have len: "length (take diff buf) = diff" using d by simp
          obtain r2 b2 s2 where e2: "lfs_bd_read_own s1 False (of_nat diff) (fst (m_pair dir)) (o' + 4) (take diff buf) = (r2, b2, s2)"
            by (metis prod_cases3)
          have D: "own_read s1 None (fst (m_pair dir)) (o' + 4) diff (r2, b2, s2)"
            using read_data[OF k(2) assms(2), of "o' + 4" "take diff buf", unfolded len e2] o4 d off(2) blk assms(3) off(1) by auto
          have "take diff (drop (unat offset - length bytes) ?blk) = take diff bytes"
            using arg_cong[OF data, of "take diff"] min_absorb1[of diff "length bytes"] d by simp
          then have D': "keeps s s2" "sound r2" "length b2 = diff" "r2 = Inr () \<Longrightarrow> ready s2 \<and> b2 = take diff bytes"
            using D keeps_trans[OF k(1)] by (simp_all add: own_read_def o4 kd(2))
          have "take diff bytes = take (length buf) bytes" "length buf - diff = length buf - length bytes" "diff \<le> length buf"
            using d by (simp_all add: min_def)
          then show ?thesis
            unfolding G F e2 using 2 D' by (cases r2) (simp_all add: failed_def)
        qed
      qed
    qed
  qed
qed simp

end

subsection \<open>Writing a log down\<close>

text \<open>The tags and data as \<open>lfs_dir_commit_attribute\<close> lays them out, behind a tag \<open>p\<close>.\<close>

fun log_bytes :: "lfs_tag_t \<Rightarrow> log_entry list \<Rightarrow> u8 list" where
  "log_bytes p [] = []"
| "log_bytes p ((t, bytes) # es) =
     le_bytes 4 (lfs_tobe32 ((t AND 0x7fffffff) XOR p)) @ bytes @ log_bytes (t AND 0x7fffffff) es"

definition entry_ok :: "log_entry \<Rightarrow> bool" where
  "entry_ok e \<longleftrightarrow> lfs_tag_isvalid (fst e) \<and> unat (lfs_tag_dsize (fst e)) = 4 + length (snd e)"

text \<open>The newest tag without its validity bit, as the search finds it once another tag follows.\<close>

fun settle :: "log_entry list \<Rightarrow> log_entry list" where
  "settle [] = []"
| "settle ((t, bytes) # es) = (t AND 0x7fffffff, bytes) # es"

lemma bswap32_twice: "lfs_bswap32 (lfs_bswap32 a) = a"
proof -
  have "le_bytes 4 (lfs_bswap32 (lfs_bswap32 a)) = le_bytes 4 a" by (simp only: bswap32_bytes rev_rev_ident)
  then have "(le_word (le_bytes 4 (lfs_bswap32 (lfs_bswap32 a))) :: u32) = le_word (le_bytes 4 a)" by (rule arg_cong)
  then show ?thesis by (simp only: bytes_word)
qed

lemma stored_tag_append:
  assumes "length pre = off"
  shows "stored_tag (pre @ le_bytes 4 (lfs_tobe32 t) @ post) off = t"
  using assms by (simp add: stored_tag_def lfs_frombe32_def lfs_tobe32_def bytes_word bswap32_twice)

lemma valid_mask: "lfs_tag_isvalid t \<Longrightarrow> t AND 0x7fffffff = t"
  unfolding isvalid_iff mask_numerals(7)
  by (rule bit_word_eqI) (auto simp: bit_and_iff bit_mask_iff less_Suc_eq numeral_eq_Suc)

lemma mask_xor:
  "((t XOR p) XOR t) AND m = p AND m" "(w XOR (p AND m)) AND m = (w XOR p) AND m" for t p m w :: u32
  by (rule bit_word_eqI; auto simp: bit_simps)+

lemma dsize_mask: "lfs_tag_dsize (t AND 0x7fffffff) = lfs_tag_dsize t"
proof -
  have "lfs_tag_size (t AND 0x7fffffff) = lfs_tag_size t"
    unfolding tag_size_bits mask_numerals(7) by (auto simp: bit_and_iff bit_mask_iff)
  then have "unat (lfs_tag_dsize (t AND 0x7fffffff)) = unat (lfs_tag_dsize t)" by (simp add: unat_dsize isdelete_iff)
  then show ?thesis by (simp add: word_eq_nat_alt)
qed

lemma take_drop_prefix: "take off blk' = take off blk \<Longrightarrow> k + n \<le> off \<Longrightarrow> take n (drop k blk') = take n (drop k blk)"
  by (metis add.commute drop_take min.absorb1 take_drop take_take)

text \<open>A log may be read from any block that agrees with the one it was written to up to its end.\<close>

lemma log_ends_prefix:
  assumes "log_ends blk off tag es" "take off blk' = take off blk" "off \<le> length blk'"
  shows "log_ends blk' off tag es"
  using assms
proof (induction es arbitrary: off tag)
  case (Cons e es)
  obtain t bytes where e: "e = (t, bytes)" by fastforce
  let ?o = "off - (4 + length bytes)"
  have L: "8 + length bytes \<le> off" "take (length bytes) (drop (off - length bytes) blk) = bytes"
    "log_ends blk ?o ((stored_tag blk ?o XOR tag) AND 0x7fffffff) es"
    using Cons.prems(1) by (simp_all add: e)
  have "stored_tag blk' ?o = stored_tag blk ?o"
    unfolding stored_tag_def using take_drop_prefix[OF Cons.prems(2), of ?o 4] L(1) by simp
  moreover have "take (length bytes) (drop (off - length bytes) blk') = bytes"
    using take_drop_prefix[OF Cons.prems(2), of "off - length bytes" "length bytes"] L(1,2) by simp
  moreover have "take ?o blk' = take ?o blk"
    using take_drop_prefix[OF Cons.prems(2), of 0 ?o] by simp
  then have "log_ends blk' ?o ((stored_tag blk ?o XOR tag) AND 0x7fffffff) es"
    using Cons.prems(3) by (intro Cons.IH L(3)) auto
  ultimately show ?case using Cons.prems by (auto simp: e)
qed simp

lemma log_ends_settle:
  assumes "log_ends blk off tag es"
  shows "log_ends blk off (tag AND 0x7fffffff) (settle es)"
proof (cases es)
  case (Cons e es')
  then show ?thesis using assms by (cases e) (simp add: dsize_mask mask_xor(2))
qed (use assms in simp)

lemma log_ends_extend:
  assumes "log_ends pre (length pre) tag es" "entry_ok (t, bytes)"
  shows "log_ends (pre @ le_bytes 4 (lfs_tobe32 (t XOR tag)) @ bytes) (length pre + 4 + length bytes) t ((t, bytes) # settle es)"
proof -
  let ?B = "pre @ le_bytes 4 (lfs_tobe32 (t XOR tag)) @ bytes"
  have st: "stored_tag ?B (length pre) = t XOR tag" by (rule stored_tag_append) simp
  have "log_ends ?B (length pre) tag es"
    by (rule log_ends_prefix[OF assms(1)]) simp_all
  then have "log_ends ?B (length pre) ((stored_tag ?B (length pre) XOR t) AND 0x7fffffff) (settle es)"
    unfolding st mask_xor(1) by (rule log_ends_settle)
  then show ?thesis
    using assms(2) log_ends_bounds[OF assms(1)] by (simp add: entry_ok_def)
qed

text \<open>The log of a fresh pair.\<close>

lemma settle_ok: "(\<forall>e \<in> set es. entry_ok e) \<Longrightarrow> settle es = es"
  by (cases es) (auto simp: entry_ok_def valid_mask)

definition last_tag :: "log_entry list \<Rightarrow> lfs_tag_t" where
  "last_tag es = (if es = [] then 0xffffffff else fst (last es))"

lemma log_bytes_snoc:
  assumes "\<forall>e \<in> set (es @ [(t, bytes)]). entry_ok e"
  shows "log_bytes p (es @ [(t, bytes)]) =
    log_bytes p es @ le_bytes 4 (lfs_tobe32 (t XOR (if es = [] then p else fst (last es)))) @ bytes"
  using assms
proof (induction es arbitrary: p)
  case (Cons e es)
  then show ?case by (cases e) (auto simp: entry_ok_def valid_mask)
qed (simp add: entry_ok_def valid_mask)

lemma log_ends_log_bytes:
  assumes "\<forall>e \<in> set es. entry_ok e" "length head = 4"
  shows "log_ends (head @ log_bytes 0xffffffff es) (4 + length (log_bytes 0xffffffff es)) (last_tag es) (rev es)"
  using assms(1)
proof (induction es rule: rev_induct)
  case (snoc e es)
  obtain t bytes where e: "e = (t, bytes)" by fastforce
  have "log_ends (head @ log_bytes 0xffffffff es) (length (head @ log_bytes 0xffffffff es)) (last_tag es) (rev es)"
    using snoc assms(2) by simp
  note X = log_ends_extend[OF this, of t bytes]
  have "settle (rev es) = rev es" by (rule settle_ok) (use snoc.prems in simp)
  then show ?case
    using X snoc.prems assms(2) log_bytes_snoc[OF snoc.prems[unfolded e], of "0xffffffff"] by (simp add: e last_tag_def)
qed (simp add: assms(2))

subsection \<open>Getting an attribute\<close>

text \<open>The entries that are visible: one that is being moved away is passed over.\<close>

definition visible :: "'d lfs \<Rightarrow> lfs_metadata_dir \<Rightarrow> log_entry list \<Rightarrow> log_entry list list" where
  "visible s dir es =
     (if lfs_gstate_hasmovehere (l_gdisk s) (m_pair dir) then remove_at (tag_ident (g_tag (l_gdisk s))) (replay es)
      else replay es)"

lemma visible_nth:
  assumes "k < length (visible s dir es)"
    and "k' = (if lfs_gstate_hasmovehere (l_gdisk s) (m_pair dir) \<and> tag_ident (g_tag (l_gdisk s)) \<le> k then Suc k else k)"
  shows "k' < length (replay es)" "visible s dir es ! k = replay es ! k'"
  using assms by (auto simp: visible_def remove_at_def nth_append min_def split: if_splits)

lemma length_replay: "log_fits [] es \<Longrightarrow> length (replay es) < 0x3ff"
  unfolding replay_def by (rule log_fits_length)

context readable_device begin

lemma dir_get_visible:
  assumes "ready s" "unat (fst (m_pair dir)) < bcount"
    and "log_ends (content (l_dev s) (unat (fst (m_pair dir)))) (unat (m_offset dir)) (m_etag dir) (rev es)" "log_fits [] es"
    and "searchable tmask type (of_nat n)" "n < 1024" "k < length (visible s dir es)"
  shows "case lfs_dir_get s dir (gmask_of tmask) (LFS_MKTAG type (of_nat k) (of_nat n)) (replicate n 0) of (r, buf', s') \<Rightarrow>
    keeps s s' \<and> length buf' = n \<and>
    (failed r \<or> ready s' \<and>
      (case history_find tmask type (visible s dir es ! k) of
         None \<Rightarrow> r = Inl (Err LFS_ERR_NOENT)
       | Some (t, bytes) \<Rightarrow> r = Inr (with_id t k) \<and> buf' = take n bytes @ replicate (n - length bytes) 0))"
proof -
  let ?move = "lfs_gstate_hasmovehere (l_gdisk s) (m_pair dir)" and ?m = "tag_ident (g_tag (l_gdisk s))"
  let ?gtag = "LFS_MKTAG type (of_nat k) (of_nat n)"
  define k' where "k' = (if ?move \<and> ?m \<le> k then Suc k else k)"
  note K = visible_nth[OF assms(7) k'_def]
  have k: "k < 1024" using K(1) length_replay[OF assms(4)] by (simp add: k'_def split: if_splits)
  have S: "type < 2 ^ 12" "(of_nat n :: u32) < 2 ^ 10" "tmask < 2 ^ 12" using assms(5) by (simp_all add: searchable_def)
  have g: "lfs_tag_id (gmask_of tmask) \<noteq> 0"
    unfolding gmask_of_def using mktag_fields(2)[OF S(3), of "0x3ff" 0] by simp
  have id: "lfs_tag_id (g_tag (l_gdisk s)) \<le> lfs_tag_id ?gtag \<longleftrightarrow> ?m \<le> k"
    unfolding mktag_fields(2)[OF S(1) of_nat_10[OF k] S(2)] using k by (simp add: word_le_nat_alt tag_ident_def unat_of_nat)
  have d: "(if ?move \<and> lfs_tag_id (gmask_of tmask) \<noteq> 0 \<and> lfs_tag_id (g_tag (l_gdisk s)) \<le> lfs_tag_id ?gtag
      then 0 - LFS_MKTAG 0 1 0 else 0) = id_shift k k'"
    using g id by (simp add: k'_def id_shift_def push_bit_word_add LFS_MKTAG_def)
  have tk: "take (unat (lfs_tag_size ?gtag)) (replicate n (0 :: u8)) = replicate n 0"
    unfolding mktag_fields(3)[OF S(1) of_nat_10[OF k] S(2)] using assms(6) by (simp add: unsigned_ucast_eq unat_of_nat take_bit_eq_mod)
  have "length (rev es) < Suc (unat (m_offset dir))" using log_ends_bounds[OF assms(3)] by simp
  note G = getslice_loop[OF assms(1,2) _ assms(3) this, of "replicate n 0" "gmask_of tmask" ?gtag "id_shift k k'"]
  note F = log_find_replay[OF assms(5) k, of "rev es" k', unfolded rev_rev_ident, OF assms(4) K(1)]
  show ?thesis
    unfolding lfs_dir_get_def lfs_dir_getslice_def Let_def tk d K(2)
    using G assms(6) unfolding F by (auto split: prod.splits option.splits)
qed

end

end
