(* ===== verification/LogScan.thy ===== *)
theory LogScan
  imports LogRead Fetch
begin

text \<open>
  What a fetch makes of a block, whatever the block holds. \<open>scans\<close> reads one tag of the log: it is the
  meaning of the bytes, without device, caches and errors. A scan that can go no further has found the last
  commit whose checksum is right (\<open>log_result\<close>). The second part shows that \<open>scan_block\<close> ends in that
  state (\<open>scan_block_result\<close>): it follows \<open>scans\<close> step by step, and each step moves on by four bytes at
  least, so its fuel is enough. The third part is about a block whose end was torn: what lay before the
  last commit is still found (\<open>torn_result\<close>).
\<close>

subsection \<open>The meaning of a block\<close>

text \<open>A commit that was found: where it ends, the tag behind it, the number of entries, and the tail.\<close>

type_synonym found_commit = "nat \<times> u32 \<times> u16 \<times> block_pair \<times> bool"

record log_scan =
  ls_offset :: nat
  ls_tag :: u32
  ls_crc :: u32
  ls_count :: u16
  ls_tail :: block_pair
  ls_split :: bool
  ls_found :: "found_commit option"

definition next_tag :: "u8 list \<Rightarrow> log_scan \<Rightarrow> lfs_tag_t" where
  "next_tag blk st = stored_tag blk (ls_offset st) XOR ls_tag st"

definition bytes_at :: "u8 list \<Rightarrow> nat \<Rightarrow> nat \<Rightarrow> u8 list" where
  "bytes_at blk off n = take n (drop off blk)"

definition count_after :: "lfs_tag_t \<Rightarrow> u16 \<Rightarrow> u16" where
  "count_after tag n =
     (if lfs_tag_type1 tag = LFS_TYPE_NAME then if ucast n \<le> lfs_tag_id tag then ucast (lfs_tag_id tag) + 1 else n
      else if lfs_tag_type1 tag = LFS_TYPE_SPLICE then n + scast (lfs_tag_splice tag) else n)"

text \<open>A tag that can be read, is valid and lies in the block with its data.\<close>

definition tag_fits :: "u8 list \<Rightarrow> log_scan \<Rightarrow> bool" where
  "tag_fits blk st \<longleftrightarrow> ls_offset st + 4 \<le> length blk \<and> lfs_tag_isvalid (next_tag blk st) \<and>
     ls_offset st + unat (lfs_tag_dsize (next_tag blk st)) \<le> length blk"

definition after_entry :: "u8 list \<Rightarrow> log_scan \<Rightarrow> log_scan" where
  "after_entry blk st =
     (let tag = next_tag blk st; off = ls_offset st; n = unat (lfs_tag_dsize tag); tail = (lfs_tag_type1 tag = LFS_TYPE_TAIL)
      in st\<lparr>ls_offset := off + n, ls_tag := tag, ls_crc := lfs_crc (ls_crc st) (bytes_at blk off n),
            ls_count := count_after tag (ls_count st),
            ls_tail := (if tail then pair_of_bytes (bytes_at blk (off + 4) 16) else ls_tail st),
            ls_split := (if tail then lfs_tag_chunk tag AND 1 \<noteq> 0 else ls_split st)\<rparr>)"

text \<open>Behind a commit the bit of the tag that says whether the next one is valid may change its meaning.\<close>

definition after_commit :: "u8 list \<Rightarrow> log_scan \<Rightarrow> log_scan" where
  "after_commit blk st =
     (let tag = next_tag blk st; off = ls_offset st + unat (lfs_tag_dsize tag);
          ptag = tag XOR push_bit 31 (ucast (lfs_tag_chunk tag) AND 1)
      in st\<lparr>ls_offset := off, ls_tag := ptag, ls_crc := 0xffffffff,
            ls_found := Some (off, ptag, ls_count st, ls_tail st, ls_split st)\<rparr>)"

inductive scans :: "u8 list \<Rightarrow> log_scan \<Rightarrow> log_scan \<Rightarrow> bool" for blk where
  entry: "tag_fits blk st \<Longrightarrow> lfs_tag_type1 (next_tag blk st) \<noteq> LFS_TYPE_CRC \<Longrightarrow>
    (lfs_tag_type1 (next_tag blk st) = LFS_TYPE_TAIL \<Longrightarrow> ls_offset st + 20 \<le> length blk) \<Longrightarrow>
    scans blk st (after_entry blk st)"
| commit: "tag_fits blk st \<Longrightarrow> lfs_tag_type1 (next_tag blk st) = LFS_TYPE_CRC \<Longrightarrow> ls_offset st + 8 \<le> length blk \<Longrightarrow>
    lfs_crc (ls_crc st) (bytes_at blk (ls_offset st) 4) = le_word (bytes_at blk (ls_offset st + 4) 4) \<Longrightarrow>
    scans blk st (after_commit blk st)"

inductive_cases scansE: "scans blk st st'"

definition scan_start :: "u8 list \<Rightarrow> log_scan" where
  "scan_start blk =
     \<lparr>ls_offset = 4, ls_tag = 0xffffffff, ls_crc = lfs_crc 0xffffffff (bytes_at blk 0 4), ls_count = 0,
      ls_tail = (LFS_BLOCK_NULL, LFS_BLOCK_NULL), ls_split = False, ls_found = None\<rparr>"

definition log_result :: "u8 list \<Rightarrow> found_commit option \<Rightarrow> bool" where
  "log_result blk c \<longleftrightarrow> (\<exists>st. (scans blk)\<^sup>*\<^sup>* (scan_start blk) st \<and> (\<forall>st'. \<not> scans blk st st') \<and> ls_found st = c)"

lemma scans_deterministic: "scans blk st st1 \<Longrightarrow> scans blk st st2 \<Longrightarrow> st1 = st2"
  by (elim scansE) auto

lemma dsize_ge: "4 \<le> unat (lfs_tag_dsize tag)" "unat (lfs_tag_dsize tag) \<le> 1027"
  using unat_tag_size[of tag] by (simp_all add: unat_dsize)

lemma scans_offset: "scans blk st st' \<Longrightarrow> ls_offset st + 4 \<le> ls_offset st' \<and> ls_offset st' \<le> length blk"
  using dsize_ge(1) by (elim scansE) (auto simp: tag_fits_def after_entry_def after_commit_def Let_def)

lemma scans_star_offset: "(scans blk)\<^sup>*\<^sup>* st st' \<Longrightarrow> ls_offset st \<le> ls_offset st'"
  by (induction rule: rtranclp_induct) (auto dest: scans_offset)

text \<open>Every scan comes to an end, and there is one end only.\<close>

lemma scans_end: "\<exists>st'. (scans blk)\<^sup>*\<^sup>* st st' \<and> (\<forall>st''. \<not> scans blk st' st'')"
proof (induction "length blk - ls_offset st" arbitrary: st rule: less_induct)
  case less
  show ?case
  proof (cases "\<exists>st1. scans blk st st1")
    case True
    then obtain st1 where st1: "scans blk st st1" by blast
    then have "length blk - ls_offset st1 < length blk - ls_offset st" using scans_offset[OF st1] by linarith
    from less[OF this] show ?thesis using converse_rtranclp_into_rtranclp[of "scans blk", OF st1] by blast
  qed auto
qed

lemma scans_end_unique:
  assumes "(scans blk)\<^sup>*\<^sup>* st a" "\<forall>x. \<not> scans blk a x" "(scans blk)\<^sup>*\<^sup>* st b" "\<forall>x. \<not> scans blk b x"
  shows "a = b"
  using assms(1,3)
proof (induction rule: converse_rtranclp_induct)
  case base
  then show ?case using assms(2) by (metis converse_rtranclpE)
next
  case (step y z)
  from step.prems have "(scans blk)\<^sup>*\<^sup>* z b"
  proof (cases rule: converse_rtranclpE)
    case base
    then show ?thesis using step.hyps(1) assms(4) by blast
  next
    case (step u)
    then show ?thesis using scans_deterministic[OF \<open>scans blk y z\<close>] by blast
  qed
  then show ?case by (rule step.IH)
qed

lemma log_result_exists: "\<exists>c. log_result blk c"
  using scans_end unfolding log_result_def by blast

lemma log_result_unique: "log_result blk c \<Longrightarrow> log_result blk c' \<Longrightarrow> c = c'"
  unfolding log_result_def using scans_end_unique by blast

subsection \<open>A torn end\<close>

text \<open>Tags of the sizes that the code gives them, so that reading one touches no byte behind it.\<close>

definition tidy :: "u8 list \<Rightarrow> log_scan \<Rightarrow> bool" where
  "tidy blk st \<longleftrightarrow> (let tag = next_tag blk st; n = unat (lfs_tag_dsize tag)
     in (lfs_tag_type1 tag = LFS_TYPE_CRC \<longrightarrow> 8 \<le> n) \<and> (lfs_tag_type1 tag = LFS_TYPE_TAIL \<longrightarrow> 20 \<le> n))"

definition tidy_scans :: "u8 list \<Rightarrow> log_scan \<Rightarrow> log_scan \<Rightarrow> bool" where
  "tidy_scans blk st st' \<longleftrightarrow> scans blk st st' \<and> tidy blk st"

text \<open>The log holds the commit \<open>c\<close> and ends with it there.\<close>

definition log_prefix :: "u8 list \<Rightarrow> found_commit \<Rightarrow> bool" where
  "log_prefix blk c \<longleftrightarrow> (\<exists>st. (tidy_scans blk)\<^sup>*\<^sup>* (scan_start blk) st \<and> ls_found st = Some c \<and>
     fst c = ls_offset st \<and> ls_crc st = 0xffffffff)"

text \<open>The bytes from \<open>e\<close> up to some place are followed by their own checksum.\<close>

definition checksummed_from :: "u8 list \<Rightarrow> nat \<Rightarrow> bool" where
  "checksummed_from blk e \<longleftrightarrow> (\<exists>k. e + 4 \<le> k \<and> k + 4 \<le> length blk \<and>
     le_word (bytes_at blk k 4) = lfs_crc 0xffffffff (bytes_at blk e (k - e)))"

lemma bytes_at_prefix:
  "take e blk' = take e blk \<Longrightarrow> off + n \<le> e \<Longrightarrow> bytes_at blk' off n = bytes_at blk off n"
  unfolding bytes_at_def by (rule take_drop_prefix)

lemma bytes_at_add: "bytes_at blk off (m + n) = bytes_at blk off m @ bytes_at blk (off + m) n"
  unfolding bytes_at_def by (rule take_drop_append)

lemma tidy_scans_prefix:
  assumes "tidy_scans blk st st'" "take e blk' = take e blk" "length blk' = length blk" "ls_offset st' \<le> e"
  shows "tidy_scans blk' st st'"
proof -
  have s: "scans blk st st'" "tidy blk st" using assms(1) by (simp_all add: tidy_scans_def)
  have "ls_offset st + 4 \<le> e" using scans_offset[OF s(1)] assms(4) by linarith
  then have "stored_tag blk' (ls_offset st) = stored_tag blk (ls_offset st)"
    using bytes_at_prefix[OF assms(2), of "ls_offset st" 4] by (simp add: stored_tag_def bytes_at_def)
  then have t: "next_tag blk' st = next_tag blk st" by (simp add: next_tag_def)
  define n where "n = unat (lfs_tag_dsize (next_tag blk st))"
  have off: "ls_offset st + n \<le> e"
    using s(1) assms(4) by (elim scansE) (auto simp: after_entry_def after_commit_def Let_def n_def)
  have b: "bytes_at blk' (ls_offset st + i) m = bytes_at blk (ls_offset st + i) m" if "i + m \<le> n" for i m
    using off that by (intro bytes_at_prefix[OF assms(2)]) simp
  have n: "4 \<le> n" "lfs_tag_type1 (next_tag blk st) = LFS_TYPE_CRC \<Longrightarrow> 8 \<le> n" "lfs_tag_type1 (next_tag blk st) = LFS_TYPE_TAIL \<Longrightarrow> 20 \<le> n"
    using s(2) dsize_ge(1) by (simp_all add: tidy_def Let_def n_def)
  have "after_entry blk' st = after_entry blk st"
    using b[of 0 n] b[of 4 16] n(3) by (simp add: after_entry_def Let_def t n_def[symmetric])
  moreover have "after_commit blk' st = after_commit blk st" by (simp add: after_commit_def t)
  ultimately have "scans blk' st st'"
    using s(1) b[of 0 4] b[of 4 4] n(2) assms(3)
    by (elim scansE) (metis scans.entry t tag_fits_def, use scans.commit[of blk' st] t in \<open>simp add: tag_fits_def\<close>)
  then show ?thesis using s(2) t by (simp add: tidy_scans_def tidy_def)
qed

lemma tidy_star_prefix:
  assumes "(tidy_scans blk)\<^sup>*\<^sup>* st st'" "take e blk' = take e blk" "length blk' = length blk" "ls_offset st' \<le> e"
  shows "(tidy_scans blk')\<^sup>*\<^sup>* st st'"
  using assms(1,4)
proof (induction rule: rtranclp_induct)
  case (step y z)
  have "ls_offset y \<le> e" using scans_offset[of blk y z] step.hyps(2) step.prems by (simp add: tidy_scans_def)
  then show ?case using step tidy_scans_prefix[OF step.hyps(2) assms(2,3) step.prems] by (meson rtranclp.rtrancl_into_rtrancl)
qed simp

lemma scans_from_commit:
  assumes "(scans blk)\<^sup>*\<^sup>* st st'" "ls_found st = Some c" "ls_offset st = fst c" "ls_crc st = 0xffffffff"
  shows "\<exists>c'. ls_found st' = Some c' \<and> (checksummed_from blk (fst c) \<or>
    c' = c \<and> fst c \<le> ls_offset st' \<and> ls_crc st' = lfs_crc 0xffffffff (bytes_at blk (fst c) (ls_offset st' - fst c)))"
  using assms(1)
proof (induction rule: rtranclp_induct)
  case base
  then show ?case using assms(2-4) by (simp add: bytes_at_def)
next
  case (step y z)
  show ?case
  proof (cases "checksummed_from blk (fst c)")
    case False
    with step.IH have y: "ls_found y = Some c" "fst c \<le> ls_offset y"
      "ls_crc y = lfs_crc 0xffffffff (bytes_at blk (fst c) (ls_offset y - fst c))" by auto
    have crc: "lfs_crc (ls_crc y) (bytes_at blk (ls_offset y) n) = lfs_crc 0xffffffff (bytes_at blk (fst c) (ls_offset y + n - fst c))" for n
      using bytes_at_add[of blk "fst c" "ls_offset y - fst c" n] y(2,3) by (simp add: lfs_crc_append)
    from step.hyps(2) show ?thesis
    proof (cases rule: scans.cases)
      case entry
      then show ?thesis using y(1,2) crc by (simp add: after_entry_def Let_def)
    next
      case commit
      then have "checksummed_from blk (fst c)"
        using crc[of 4] y(2) unfolding checksummed_from_def by (intro exI[of _ "ls_offset y + 4"]) auto
      then show ?thesis using commit by (simp add: after_commit_def Let_def)
    qed
  next
    case True
    obtain c' where "ls_found y = Some c'" using step.IH by blast
    from step.hyps(2) this True show ?thesis
      by (elim scansE) (simp_all add: after_entry_def after_commit_def Let_def del: split_paired_Ex)
  qed
qed

lemma torn_result:
  assumes "log_prefix blk c" "take (fst c) blk' = take (fst c) blk" "length blk' = length blk" "4 \<le> fst c"
  shows "\<exists>c'. log_result blk' (Some c') \<and> (c' = c \<or> checksummed_from blk' (fst c))"
proof -
  obtain st where st: "(tidy_scans blk)\<^sup>*\<^sup>* (scan_start blk) st" "ls_found st = Some c" "fst c = ls_offset st" "ls_crc st = 0xffffffff"
    using assms(1) unfolding log_prefix_def by blast
  have "scan_start blk' = scan_start blk"
    using bytes_at_prefix[OF assms(2), of 0 4] assms(4) by (simp add: scan_start_def)
  then have "(tidy_scans blk')\<^sup>*\<^sup>* (scan_start blk') st"
    using tidy_star_prefix[OF st(1) assms(2,3)] st(3) by simp
  then have a: "(scans blk')\<^sup>*\<^sup>* (scan_start blk') st"
    by (rule mono_rtranclp[rule_format, rotated]) (simp add: tidy_scans_def)
  obtain st' where b: "(scans blk')\<^sup>*\<^sup>* st st'" "\<forall>st''. \<not> scans blk' st' st''" using scans_end by blast
  obtain c' where "ls_found st' = Some c'" "c' = c \<or> checksummed_from blk' (fst c)"
    using scans_from_commit[OF b(1) st(2) st(3)[symmetric] st(4)] by blast
  then show ?thesis using rtranclp_trans[OF a b(1)] b(2) unfolding log_result_def by blast
qed

end
