(* ===== verification/LogFetch.thy ===== *)
theory LogFetch
  imports LogScan
begin

text \<open>
  \<open>lfs_dir_fetch\<close> on two blocks that may hold anything: the block with the newer revision is scanned first
  (\<open>newest_first\<close>), and the directory that is returned is the last commit that \<open>LogScan\<close> finds in it, or else in
  the other (\<open>pair_result\<close>).
\<close>

definition dir_found :: "lfs_metadata_dir \<Rightarrow> found_commit option \<Rightarrow> bool" where
  "dir_found dir c \<longleftrightarrow> (case c of None \<Rightarrow> m_offset dir = 0
     | Some (e, tag, n, tail, split) \<Rightarrow> unat (m_offset dir) = e \<and> 0 < e \<and> m_etag dir = tag \<and> m_count dir = n \<and>
         m_tail dir = tail \<and> m_split dir = split)"

text \<open>The revision of a block, and the pair with the block first that is tried first.\<close>

definition revision :: "u8 list \<Rightarrow> u32" where
  "revision blk = le_word (bytes_at blk 0 4)"

definition newest_first :: "(nat \<Rightarrow> u8 list) \<Rightarrow> block_pair \<Rightarrow> block_pair" where
  "newest_first disk pair =
     (if 0 < lfs_scmp (revision (disk (unat (snd pair)))) (revision (disk (unat (fst pair)))) then lfs_pair_swap pair else pair)"

text \<open>The directory that a fetch gives for a commit it has found in the first block of the pair.\<close>

definition dir_of :: "(nat \<Rightarrow> u8 list) \<Rightarrow> block_pair \<Rightarrow> found_commit \<Rightarrow> lfs_metadata_dir \<Rightarrow> bool" where
  "dir_of disk pair c dir \<longleftrightarrow> m_pair dir = pair \<and> m_revision_count dir = revision (disk (unat (fst pair))) \<and> dir_found dir (Some c)"

definition fetch_code :: "found_commit \<Rightarrow> lfs_tag_t result" where
  "fetch_code c = (case c of (_, _, n, _) \<Rightarrow> if 0x3ff < n then Inl (Err LFS_ERR_NOENT) else Inr 0)"

text \<open>The newest commit of a pair: in the block tried first, or else in the other.\<close>

definition pair_result :: "(nat \<Rightarrow> u8 list) \<Rightarrow> block_pair \<Rightarrow> (block_pair \<times> found_commit) option \<Rightarrow> bool" where
  "pair_result disk pair res \<longleftrightarrow>
     (\<exists>c c'. log_result (disk (unat (fst pair))) c \<and> log_result (disk (unat (snd pair))) c' \<and>
        res = (case c of Some x \<Rightarrow> Some (pair, x) | None \<Rightarrow> map_option (\<lambda>x. (lfs_pair_swap pair, x)) c'))"

lemma dir_found_erased [simp]: "dir_found (dir\<lparr>m_erased := b\<rparr>) c = dir_found dir c"
  by (cases c) (simp_all add: dir_found_def split: prod.splits)

context reliable_device begin

lemma sound_ok: "sound r \<Longrightarrow> \<exists>x. r = Inr x"
  using never_fails by (cases r) auto

text \<open>A fetch changes the read cache, and the seed of the random numbers.\<close>

definition keeps_log :: "'d lfs \<Rightarrow> 'd lfs \<Rightarrow> bool" where
  "keeps_log s s' \<longleftrightarrow> ready s' \<and> (\<exists>rc d seed. s' = s\<lparr>l_read_cache := rc, l_dev := d, l_seed := seed\<rparr> \<and> content d = content (l_dev s))"

lemma keeps_log_refl: "ready s \<Longrightarrow> keeps_log s s"
  unfolding keeps_log_def by (intro conjI exI[of _ "l_read_cache s"] exI[of _ "l_dev s"] exI[of _ "l_seed s"]) simp_all

lemma keeps_log_trans: "keeps_log s s' \<Longrightarrow> keeps_log s' s'' \<Longrightarrow> keeps_log s s''"
  unfolding keeps_log_def by (elim exE conjE) auto

lemma keeps_keeps_log: "keeps s s' \<Longrightarrow> ready s' \<Longrightarrow> keeps_log s s'"
proof -
  assume "keeps s s'" "ready s'"
  then obtain rc d where "s' = s\<lparr>l_read_cache := rc, l_dev := d\<rparr>" "content d = content (l_dev s)" by (auto simp: keeps_def)
  then show "keeps_log s s'" using \<open>ready s'\<close>
    unfolding keeps_log_def by (intro conjI exI[of _ rc] exI[of _ d] exI[of _ "l_seed s"]) simp_all
qed

lemma ready_seed: "ready (s\<lparr>l_seed := x\<rparr>) = ready s"
  by (simp add: ready_def geometry_def runs_on_def cache_holds_def cache_fits_def)

lemma keeps_log_seed:
  assumes "keeps_log s s'"
  shows "keeps_log s (s'\<lparr>l_seed := x\<rparr>)"
proof -
  obtain rc d seed where "s' = s\<lparr>l_read_cache := rc, l_dev := d, l_seed := seed\<rparr>" "content d = content (l_dev s)" "ready s'"
    using assms unfolding keeps_log_def by blast
  moreover from this have "s'\<lparr>l_seed := x\<rparr> = s\<lparr>l_read_cache := rc, l_dev := d, l_seed := x\<rparr>" by simp
  ultimately show ?thesis unfolding keeps_log_def ready_seed by blast
qed

lemma keeps_logD:
  assumes "keeps_log s s'"
  shows "ready s'" "content (l_dev s') = content (l_dev s)" "l_cfg s' = l_cfg s" "l_block_size s' = l_block_size s"
    "l_block_count s' = l_block_count s" "l_gdisk s' = l_gdisk s"
  using assms by (auto simp: keeps_log_def)

text \<open>Reads inside the block succeed, reads beyond its end are corrupt.\<close>

lemma read_in:
  assumes "ready s" "unat block < bcount" "unat off + length buf \<le> bsize" "0 < unat hint" "unat hint \<le> bsize"
  shows "\<exists>s'. lfs_bd_read_own s False hint block off buf = (Inr (), bytes_at (content (l_dev s) (unat block)) (unat off) (length buf), s') \<and> keeps_log s s'"
proof -
  obtain r bytes s' where e: "lfs_bd_read_own s False hint block off buf = (r, bytes, s')" by (metis prod_cases3)
  have R: "keeps s s'" "sound r" "r = Inr () \<Longrightarrow> ready s' \<and> bytes = bytes_at (content (l_dev s) (unat block)) (unat off) (length buf)"
    using bd_read_own[OF assms] by (simp_all add: e own_read_def bytes_at_def)
  moreover have "r = Inr ()" using sound_ok[OF R(2)] by auto
  ultimately show ?thesis using e keeps_keeps_log by simp
qed

lemma read_beyond:
  assumes "ready s" "bsize < unat off + length buf" "unat off + length buf < 2 ^ 64"
  shows "lfs_bd_read_own s False hint block off buf = (Inl (Err LFS_ERR_CORRUPT), buf, s)"
proof -
  have "unat (off + of_nat (length buf)) = unat off + length buf" by (rule unat_add_of_nat_u64) (rule assms)
  then have "l_block_size s < off + of_nat (length buf)" using assms(2) readyD(4)[OF assms(1)] by (simp add: word_less_nat_alt)
  then show ?thesis by (simp add: lfs_bd_read_own_def lfs_bd_read_def)
qed

lemma read_local_in:
  assumes "ready s" "unat block < bcount" "unat off + n \<le> bsize" "0 < unat hint" "unat hint \<le> bsize"
  shows "\<exists>s'. read_local s False hint block off n = (Inr (bytes_at (content (l_dev s) (unat block)) (unat off) n), s') \<and> keeps_log s s'"
  using read_in[OF assms(1,2) _ assms(4,5), of off "replicate n 0"] assms(3) by (auto simp: read_local_def)

lemma read_local_beyond:
  assumes "ready s" "bsize < unat off + n" "unat off + n < 2 ^ 64"
  shows "read_local s False hint block off n = (Inl (Err LFS_ERR_CORRUPT), s)"
  using read_beyond[OF assms(1), of off "replicate n 0"] assms(2,3) by (simp add: read_local_def)

text \<open>The checksum of an entry, byte by byte.\<close>

lemma bytes_at_Suc: "off < length blk \<Longrightarrow> bytes_at blk off (Suc n) = bytes_at blk off 1 @ bytes_at blk (off + 1) n"
  using bytes_at_add[of blk off 1 n] by simp

lemma entry_crc:
  assumes "ready s" "unat (fst (m_pair (sc_dir sc))) < bcount" "unat (sc_offset sc) + unat j + n \<le> bsize"
  shows "\<exists>s'. scan_entry_crc n s j sc =
      (Inr (), sc\<lparr>sc_crc := lfs_crc (sc_crc sc) (bytes_at (content (l_dev s) (unat (fst (m_pair (sc_dir sc))))) (unat (sc_offset sc) + unat j) n)\<rparr>, s') \<and>
    keeps_log s s'"
  using assms
proof (induction n arbitrary: s j sc)
  case 0
  then show ?case by (simp add: bytes_at_def keeps_log_refl lfs_crc_reference)
next
  case (Suc n)
  let ?b = "fst (m_pair (sc_dir sc))"
  have b: "bsize < 2 ^ 63" using readyD(6)[OF Suc.prems(1)] .
  have o: "unat (sc_offset sc + j) = unat (sc_offset sc) + unat j" and j: "unat (j + 1) = unat j + 1"
    using Suc.prems(3) b by (subst unat_add_u64; simp)+
  have "unat (sc_offset sc + j) + length [0 :: u8] \<le> bsize" "0 < unat (l_block_size s)" "unat (l_block_size s) \<le> bsize"
    using Suc.prems(3) readyD(4)[OF Suc.prems(1)] unfolding o by simp_all
  from read_in[OF Suc.prems(1,2) this] obtain s1 where s1:
    "lfs_bd_read_own s False (l_block_size s) ?b (sc_offset sc + j) [0] =
       (Inr (), bytes_at (content (l_dev s) (unat ?b)) (unat (sc_offset sc) + unat j) 1, s1)" "keeps_log s s1"
    by (auto simp: o)
  let ?sc = "sc\<lparr>sc_crc := lfs_crc (sc_crc sc) (bytes_at (content (l_dev s) (unat ?b)) (unat (sc_offset sc) + unat j) 1)\<rparr>"
  have "unat (sc_offset ?sc) + unat (j + 1) + n \<le> bsize" using Suc.prems(3) j by simp
  from Suc.IH[OF keeps_logD(1)[OF s1(2)] _ this] Suc.prems(2) obtain s2 where
    "scan_entry_crc n s1 (j + 1) ?sc = (Inr (), ?sc\<lparr>sc_crc := lfs_crc (sc_crc ?sc) (bytes_at (content (l_dev s) (unat ?b)) (unat (sc_offset sc) + unat j + 1) n)\<rparr>, s2)"
    "keeps_log s1 s2"
    using keeps_logD(2)[OF s1(2)] j by (auto simp: add.assoc)
  then show ?case
    using s1 keeps_log_trans[OF s1(2)] Suc.prems(3) bytes_at_add[of "content (l_dev s) (unat ?b)" "unat (sc_offset sc) + unat j" 1 n]
    by (simp add: lfs_crc_append)
qed

text \<open>The locals of the loop and the scan they stand for.\<close>

definition same_scan :: "block_pair \<Rightarrow> u32 \<Rightarrow> dir_scan \<Rightarrow> log_scan \<Rightarrow> bool" where
  "same_scan pair revn sc st \<longleftrightarrow> m_pair (sc_dir sc) = pair \<and> m_revision_count (sc_dir sc) = revn \<and>
     unat (sc_offset sc) + unat (lfs_tag_dsize (sc_ptag sc)) = ls_offset st \<and> ls_offset st \<le> bsize \<and>
     sc_ptag sc = ls_tag st \<and> sc_crc sc = ls_crc st \<and> sc_count sc = ls_count st \<and> sc_tail sc = ls_tail st \<and>
     sc_split sc = ls_split st \<and> sc_besttag sc = - 1 \<and> sc_tempbest sc = - 1 \<and> dir_found (sc_dir sc) (ls_found st)"

definition scan_stops :: "block_pair \<Rightarrow> u32 \<Rightarrow> dir_scan \<Rightarrow> found_commit option \<Rightarrow> bool" where
  "scan_stops pair revn sc c \<longleftrightarrow> m_pair (sc_dir sc) = pair \<and> m_revision_count (sc_dir sc) = revn \<and> sc_besttag sc = - 1 \<and>
     dir_found (sc_dir sc) c"

lemma dsize_toggle: "lfs_tag_dsize (tag XOR push_bit 31 x) = lfs_tag_dsize tag"
proof -
  have "lfs_tag_size (tag XOR push_bit 31 x) = lfs_tag_size tag"
    by (rule bit_word_eqI) (auto simp: bit_tag_fields bit_simps)
  then have "unat (lfs_tag_dsize (tag XOR push_bit 31 x)) = unat (lfs_tag_dsize tag)"
    by (simp add: unat_dsize isdelete_iff)
  then show ?thesis by (simp only: word_eq_nat_alt)
qed

lemma stop_rel:
  assumes "same_scan pair revn sc st" "sc_dir sc' = sc_dir sc" "sc_besttag sc' = sc_besttag sc"
  shows "scan_stops pair revn (not_erased sc') (ls_found st)"
  using assms by (simp add: same_scan_def scan_stops_def not_erased_def)

lemma scan_commit_result:
  assumes "ready s" "unat (fst pair) < bcount" "same_scan pair revn sc st" "tag_fits (content (l_dev s) (unat (fst pair))) st"
    "tag = next_tag (content (l_dev s) (unat (fst pair))) st" "lfs_tag_type1 tag = LFS_TYPE_CRC" "unat off = ls_offset st"
    "sc1 = sc\<lparr>sc_offset := off, sc_crc := lfs_crc (sc_crc sc) (bytes_at (content (l_dev s) (unat (fst pair))) (ls_offset st) 4), sc_ptag := tag\<rparr>"
  shows "\<exists>go sc' s'. scan_commit s tag sc1 = (Inr go, sc', s') \<and> keeps_log s s' \<and>
    (if go then \<exists>st'. scans (content (l_dev s) (unat (fst pair))) st st' \<and> same_scan pair revn sc' st'
     else (\<forall>st'. \<not> scans (content (l_dev s) (unat (fst pair))) st st') \<and> scan_stops pair revn sc' (ls_found st))"
proof -
  let ?blk = "content (l_dev s) (unat (fst pair))"
  have len: "length ?blk = bsize" using length_content[OF readyD(3)[OF assms(1)] assms(2)] .
  have b: "bsize < 2 ^ 63" using readyD(6)[OF assms(1)] .
  have o: "ls_offset st \<le> bsize" "fst (m_pair (sc_dir sc1)) = fst pair" using assms(3,8) by (simp_all add: same_scan_def)
  have o4: "unat (off + 4) = ls_offset st + 4" using o(1) b assms(7) by (subst unat_add_u64) simp_all
  have stop: "scan_stops pair revn (not_erased sc1) (ls_found st)"
    by (rule stop_rel[OF assms(3)]) (simp_all add: assms(8))
  show ?thesis
  proof (cases "ls_offset st + 8 \<le> bsize")
    case False
    have "read_local s False (l_block_size s) (fst pair) (off + 4) 4 = (Inl (Err LFS_ERR_CORRUPT), s)"
      using False o(1) b by (intro read_local_beyond[OF assms(1)]) (simp_all add: o4)
    moreover have "\<not> scans ?blk st st'" for st' using False len assms(5,6) by (auto elim!: scansE)
    ultimately show ?thesis using stop keeps_log_refl[OF assms(1)] o(2)
      by (auto simp: scan_commit_def scan_failed_def assms(8))
  next
    case True
    have "0 < unat (l_block_size s)" "unat (l_block_size s) \<le> bsize" using True readyD(4)[OF assms(1)] by simp_all
    then obtain s1 where s1: "read_local s False (l_block_size s) (fst pair) (off + 4) 4 = (Inr (bytes_at ?blk (ls_offset st + 4) 4), s1)" "keeps_log s s1"
      using read_local_in[OF assms(1,2), of "off + 4" 4 "l_block_size s"] True o4 by auto
    show ?thesis
    proof (cases "sc_crc sc1 = le_word (bytes_at ?blk (ls_offset st + 4) 4)")
      case False
      have "\<not> scans ?blk st st'" for st' using False assms(3,5,6,8) by (auto elim!: scansE simp: same_scan_def)
      then show ?thesis using False stop s1 o(2)
        by (auto simp: scan_commit_def lfs_fromle32_def Let_def assms(8))
    next
      case eq: True
      define ptag where "ptag = tag XOR push_bit 31 (ucast (lfs_tag_chunk tag) AND 1)"
      let ?s = "s1\<lparr>l_seed := lfs_crc (l_seed s1) (le_bytes 4 (sc_crc sc1))\<rparr>"
      let ?sc = "sc1\<lparr>sc_ptag := ptag, sc_besttag := sc_tempbest sc1, sc_dir := (sc_dir sc1)\<lparr>m_offset := off + lfs_tag_dsize tag,
          m_etag := ptag, m_count := sc_count sc1, m_tail := sc_tail sc1, m_split := sc_split sc1\<rparr>, sc_crc := 0xffffffff\<rparr>"
      have res: "scan_commit s tag sc1 = (Inr True, ?sc, ?s)"
        using eq s1(1) o(2) by (simp add: scan_commit_def lfs_fromle32_def Let_def assms(8) ptag_def)
      have "scans ?blk st (after_commit ?blk st)"
        using True len eq assms(3,4,5,6,8) by (intro scans.commit) (simp_all add: same_scan_def)
      moreover have "same_scan pair revn ?sc (after_commit ?blk st)"
      proof -
        have n: "ls_offset st + unat (lfs_tag_dsize tag) \<le> bsize" using assms(4,5) len by (simp add: tag_fits_def)
        then have "unat (off + lfs_tag_dsize tag) = ls_offset st + unat (lfs_tag_dsize tag)"
          using b assms(7) by (subst unat_add_u64) simp_all
        moreover have "after_commit ?blk st = st\<lparr>ls_offset := ls_offset st + unat (lfs_tag_dsize tag), ls_tag := ptag,
            ls_crc := 0xffffffff, ls_found := Some (ls_offset st + unat (lfs_tag_dsize tag), ptag, ls_count st, ls_tail st, ls_split st)\<rparr>"
          by (simp add: after_commit_def Let_def ptag_def assms(5))
        moreover have "lfs_tag_dsize ptag = lfs_tag_dsize tag" by (simp only: ptag_def dsize_toggle)
        ultimately show ?thesis using assms(3,7,8) n dsize_ge(1)[of tag]
          by (simp add: same_scan_def dir_found_def)
      qed
      ultimately show ?thesis using res keeps_log_seed[OF s1(2)] by auto
    qed
  qed
qed

lemma scan_match_none:
  assumes "lfs_tag_isvalid tag"
  shows "scan_match cb s (- 1) (- 1) tag sc = (Inr True, sc, s)"
proof -
  have "tag \<noteq> - 1" using assms by (auto simp: isvalid_iff)
  then show ?thesis by (simp add: scan_match_def)
qed

lemma scan_entry_result:
  assumes "ready s" "unat (fst pair) < bcount" "same_scan pair revn sc st" "tag_fits (content (l_dev s) (unat (fst pair))) st"
    "tag = next_tag (content (l_dev s) (unat (fst pair))) st" "lfs_tag_type1 tag \<noteq> LFS_TYPE_CRC" "unat off = ls_offset st"
    "sc1 = sc\<lparr>sc_offset := off, sc_crc := lfs_crc (sc_crc sc) (bytes_at (content (l_dev s) (unat (fst pair))) (ls_offset st) (unat (lfs_tag_dsize tag))), sc_ptag := tag\<rparr>"
  shows "\<exists>go sc' s'. scan_entry s tag sc1 = (Inr go, sc', s') \<and> keeps_log s s' \<and>
    (if go then \<exists>st'. scans (content (l_dev s) (unat (fst pair))) st st' \<and> same_scan pair revn sc' st'
     else (\<forall>st'. \<not> scans (content (l_dev s) (unat (fst pair))) st st') \<and> scan_stops pair revn sc' (ls_found st))"
proof -
  let ?blk = "content (l_dev s) (unat (fst pair))"
  have len: "length ?blk = bsize" using length_content[OF readyD(3)[OF assms(1)] assms(2)] .
  have b: "bsize < 2 ^ 63" using readyD(6)[OF assms(1)] .
  have o: "ls_offset st \<le> bsize" "fst (m_pair (sc_dir sc1)) = fst pair" using assms(3,8) by (simp_all add: same_scan_def)
  have fits: "ls_offset st + unat (lfs_tag_dsize tag) \<le> bsize" using assms(4,5) len by (simp add: tag_fits_def)
  have o4: "unat (off + 4) = ls_offset st + 4" using o(1) b assms(7) by (subst unat_add_u64) simp_all
  note S = assms(3)[unfolded same_scan_def]
  show ?thesis
  proof (cases "lfs_tag_type1 tag = LFS_TYPE_TAIL")
    case False
    define sc2 where "sc2 = sc1\<lparr>sc_count := count_after tag (sc_count sc1)\<rparr>"
    have "scan_entry s tag sc1 = (Inr True, sc2, s)"
      using False S unfolding sc2_def
      by (simp add: scan_entry_def count_after_def Let_def assms(8))
    moreover have "scans ?blk st (after_entry ?blk st)"
      using False assms(4,5,6) by (intro scans.entry) simp_all
    moreover have "same_scan pair revn sc2 (after_entry ?blk st)"
      using S fits False assms(5,7) by (simp add: same_scan_def after_entry_def Let_def sc2_def assms(8))
    ultimately show ?thesis using keeps_log_refl[OF assms(1)] by auto
  next
    case True
    define sc2 where "sc2 = sc1\<lparr>sc_split := (lfs_tag_chunk tag AND 1 \<noteq> 0)\<rparr>"
    have e: "scan_entry s tag sc1 = (case lfs_bd_read_own s False (l_block_size s) (fst pair) (off + 4) (pair_to_bytes (sc_tail sc2)) of
        (Inl h, bytes, s) \<Rightarrow> scan_failed h (sc2\<lparr>sc_tail := pair_of_bytes bytes\<rparr>) s
      | (Inr _, bytes, s) \<Rightarrow> (Inr True, sc2\<lparr>sc_tail := lfs_pair_fromle64 (pair_of_bytes bytes)\<rparr>, s))"
      using True o(2)[unfolded assms(8)] unfolding sc2_def assms(8) by (simp add: scan_entry_def Let_def)
    have l16: "length (pair_to_bytes p) = 16" for p by (simp add: pair_to_bytes_def)
    show ?thesis
    proof (cases "ls_offset st + 20 \<le> bsize")
      case False
      have "lfs_bd_read_own s False (l_block_size s) (fst pair) (off + 4) (pair_to_bytes (sc_tail sc2)) =
          (Inl (Err LFS_ERR_CORRUPT), pair_to_bytes (sc_tail sc2), s)"
        using False o(1) b by (intro read_beyond[OF assms(1)]) (simp_all add: o4 l16)
      then have "scan_entry s tag sc1 = (Inr False, not_erased (sc2\<lparr>sc_tail := pair_of_bytes (pair_to_bytes (sc_tail sc2))\<rparr>), s)"
        unfolding e by (simp add: scan_failed_def)
      moreover have "scan_stops pair revn (not_erased (sc2\<lparr>sc_tail := pair_of_bytes (pair_to_bytes (sc_tail sc2))\<rparr>)) (ls_found st)"
        by (rule stop_rel[OF assms(3)]) (simp_all add: sc2_def assms(8))
      moreover have "\<not> scans ?blk st st'" for st' using False len True assms(5) by (auto elim!: scansE)
      ultimately show ?thesis using keeps_log_refl[OF assms(1)] by auto
    next
      case in_blk: True
      have "0 < unat (l_block_size s)" "unat (l_block_size s) \<le> bsize" using in_blk readyD(4)[OF assms(1)] by simp_all
      then obtain s1 where s1: "lfs_bd_read_own s False (l_block_size s) (fst pair) (off + 4) (pair_to_bytes (sc_tail sc2)) =
          (Inr (), bytes_at ?blk (ls_offset st + 4) 16, s1)" "keeps_log s s1"
        using read_in[OF assms(1,2), of "off + 4" "pair_to_bytes (sc_tail sc2)" "l_block_size s"] in_blk o4 l16 by auto
      let ?sc = "sc2\<lparr>sc_tail := pair_of_bytes (bytes_at ?blk (ls_offset st + 4) 16)\<rparr>"
      have "scan_entry s tag sc1 = (Inr True, ?sc, s1)"
        unfolding e s1(1) by (simp add: lfs_pair_fromle64_def lfs_fromle64_def)
      moreover have "scans ?blk st (after_entry ?blk st)"
        using in_blk len assms(4,5,6) by (intro scans.entry) simp_all
      moreover have "same_scan pair revn ?sc (after_entry ?blk st)"
        using S fits True assms(5,7) by (simp add: same_scan_def after_entry_def Let_def sc2_def assms(8) count_after_def)
      ultimately show ?thesis using s1(2) by auto
    qed
  qed
qed

lemma scan_step_result:
  assumes "ready s" "unat (fst pair) < bcount" "same_scan pair revn sc st"
  shows "\<exists>go sc' s'. scan_step cb s (- 1) (- 1) sc = (Inr go, sc', s') \<and> keeps_log s s' \<and>
    (if go then \<exists>st'. scans (content (l_dev s) (unat (fst pair))) st st' \<and> same_scan pair revn sc' st'
     else (\<forall>st'. \<not> scans (content (l_dev s) (unat (fst pair))) st st') \<and> scan_stops pair revn sc' (ls_found st))"
proof -
  let ?blk = "content (l_dev s) (unat (fst pair))"
  have len: "length ?blk = bsize" using length_content[OF readyD(3)[OF assms(1)] assms(2)] .
  have b: "bsize < 2 ^ 63" using readyD(6)[OF assms(1)] .
  note S = assms(3)[unfolded same_scan_def]
  define off where "off = sc_offset sc + lfs_tag_dsize (sc_ptag sc)"
  have m: "unat (sc_offset sc) + unat (lfs_tag_dsize (sc_ptag sc)) = ls_offset st" "ls_offset st \<le> bsize" using S by blast+
  have off: "unat off = ls_offset st" unfolding off_def by (subst unat_add_u64) (use m b in simp_all)
  define sc0 where "sc0 = sc\<lparr>sc_offset := off\<rparr>"
  have pair: "fst (m_pair (sc_dir sc)) = fst pair" using S by simp
  show ?thesis
  proof (cases "ls_offset st + 4 \<le> bsize")
    case False
    have "read_local s False (l_block_size s) (fst pair) off 4 = (Inl (Err LFS_ERR_CORRUPT), s)"
      using False S b by (intro read_local_beyond[OF assms(1)]) (simp_all add: off)
    then have "scan_step cb s (- 1) (- 1) sc = (Inr False, not_erased sc0, s)"
      using pair by (simp add: scan_step_def Let_def off_def[symmetric] scan_failed_def sc0_def)
    moreover have "scan_stops pair revn (not_erased sc0) (ls_found st)"
      by (rule stop_rel[OF assms(3)]) (simp_all add: sc0_def)
    moreover have "\<not> scans ?blk st st'" for st' using False len by (auto elim!: scansE simp: tag_fits_def)
    ultimately show ?thesis using keeps_log_refl[OF assms(1)] by auto
  next
    case True
    have "0 < unat (l_block_size s)" "unat (l_block_size s) \<le> bsize" using True readyD(4)[OF assms(1)] by simp_all
    then obtain s1 where s1: "read_local s False (l_block_size s) (fst pair) off 4 = (Inr (bytes_at ?blk (ls_offset st) 4), s1)" "keeps_log s s1"
      using read_local_in[OF assms(1,2), of off 4 "l_block_size s"] True off by auto
    note K = keeps_logD[OF s1(2)]
    define tag where "tag = next_tag ?blk st"
    define n where "n = unat (lfs_tag_dsize tag)"
    define crc where "crc = lfs_crc (sc_crc sc) (bytes_at ?blk (ls_offset st) 4)"
    have tag: "lfs_frombe32 (le_word (bytes_at ?blk (ls_offset st) 4)) XOR sc_ptag sc = tag"
      using S by (simp add: tag_def next_tag_def stored_tag_def bytes_at_def)
    have past: "l_block_size s1 < off + lfs_tag_dsize tag \<longleftrightarrow> bsize < ls_offset st + n"
    proof -
      have "unat (off + lfs_tag_dsize tag) = ls_offset st + n"
        using S b off dsize_ge(2)[of tag] unfolding n_def by (subst unat_add_u64) simp_all
      then show ?thesis using K(4) readyD(4)[OF assms(1)] by (simp add: word_less_nat_alt)
    qed
    let ?sc1 = "sc0\<lparr>sc_crc := crc, sc_ptag := tag\<rparr>"
    have E: "scan_step cb s (- 1) (- 1) sc =
      (if \<not> lfs_tag_isvalid tag
       then (Inr False, sc0\<lparr>sc_crc := crc, sc_dir := (sc_dir sc)\<lparr>m_erased := (lfs_tag_type1 (sc_ptag sc) = LFS_TYPE_CRC \<and>
            m_offset (sc_dir sc) mod cfg_write_size (l_cfg s1) = 0)\<rparr>\<rparr>, s1)
       else if bsize < ls_offset st + n then (Inr False, not_erased (sc0\<lparr>sc_crc := crc\<rparr>), s1)
       else if lfs_tag_type1 tag = LFS_TYPE_CRC then scan_commit s1 tag ?sc1
       else case scan_entry_crc (n - 4) s1 4 ?sc1 of
              (Inl h, sc, s) \<Rightarrow> (Inl h, sc, s)
            | (Inr _, sc, s) \<Rightarrow>
                (case scan_entry s tag sc of
                   (Inl h, sc, s) \<Rightarrow> (Inl h, sc, s)
                 | (Inr go, sc, s) \<Rightarrow> if go then scan_match cb s (- 1) (- 1) tag sc else (Inr False, sc, s)))"
    proof -
      have sel: "sc_ptag (sc\<lparr>sc_offset := off, sc_crc := x\<rparr>) = sc_ptag sc" "sc_dir (sc\<lparr>sc_offset := off, sc_crc := x\<rparr>) = sc_dir sc"
        "sc_offset (sc\<lparr>sc_offset := off, sc_crc := x\<rparr>) = off" "fst (m_pair (sc_dir (sc\<lparr>sc_offset := off\<rparr>))) = fst pair"
        "sc_offset (sc\<lparr>sc_offset := off\<rparr>) = off" "sc_crc (sc\<lparr>sc_offset := off\<rparr>) = sc_crc sc" for x
        using pair by simp_all
      show ?thesis
        unfolding scan_step_def Let_def off_def[symmetric] sc0_def crc_def n_def sel s1(1) prod.case sum.case tag
        using past unfolding n_def by (simp only: not_le if_False)
    qed
    consider "\<not> lfs_tag_isvalid tag" | "lfs_tag_isvalid tag" "bsize < ls_offset st + n" | "lfs_tag_isvalid tag" "ls_offset st + n \<le> bsize"
      by linarith
    then show ?thesis
    proof cases
      case 1
      have "\<not> scans ?blk st st'" for st' using 1 tag_def by (auto elim!: scansE simp: tag_fits_def)
      then show ?thesis using 1 s1(2) S unfolding E by (auto simp: scan_stops_def sc0_def)
    next
      case 2
      have "\<not> scans ?blk st st'" for st' using 2 tag_def n_def len by (auto elim!: scansE simp: tag_fits_def)
      moreover have "scan_stops pair revn (not_erased (sc0\<lparr>sc_crc := crc\<rparr>)) (ls_found st)"
        by (rule stop_rel[OF assms(3)]) (simp_all add: sc0_def)
      ultimately show ?thesis using 2 s1(2) unfolding E by auto
    next
      case 3
      have fits: "tag_fits ?blk st" using 3 True len by (simp add: tag_fits_def tag_def[symmetric] n_def[symmetric])
      note fits' = fits[folded K(2)] and tag' = tag_def[folded K(2)]
      show ?thesis
      proof (cases "lfs_tag_type1 tag = LFS_TYPE_CRC")
        case crc_tag: True
        have "?sc1 = sc\<lparr>sc_offset := off, sc_crc := lfs_crc (sc_crc sc) (bytes_at (content (l_dev s1) (unat (fst pair))) (ls_offset st) 4), sc_ptag := tag\<rparr>"
          by (simp add: sc0_def crc_def K(2))
        from scan_commit_result[OF K(1) assms(2,3) fits' tag' crc_tag off this]
        obtain go sc' s' where R: "scan_commit s1 tag ?sc1 = (Inr go, sc', s')" "keeps_log s1 s'"
          "if go then \<exists>st'. scans ?blk st st' \<and> same_scan pair revn sc' st'
             else (\<forall>st'. \<not> scans ?blk st st') \<and> scan_stops pair revn sc' (ls_found st)"
          unfolding K(2) by blast
        have "scan_step cb s (- 1) (- 1) sc = (Inr go, sc', s')" unfolding E using 3 crc_tag R(1) by (simp add: not_less)
        then show ?thesis using keeps_log_trans[OF s1(2) R(2)] R(3) by blast
      next
        case False
        have n4: "4 \<le> n" using dsize_ge(1)[of tag] by (simp add: n_def)
        have sc1: "fst (m_pair (sc_dir ?sc1)) = fst pair" "sc_offset ?sc1 = off" using pair by (simp_all add: sc0_def)
        have "unat (sc_offset ?sc1) + unat (4 :: u64) + (n - 4) \<le> bsize" using 3 n4 by (simp add: sc1 off)
        from entry_crc[OF K(1) _ this] obtain s2 where s2:
          "scan_entry_crc (n - 4) s1 4 ?sc1 = (Inr (), ?sc1\<lparr>sc_crc := lfs_crc crc (bytes_at ?blk (ls_offset st + 4) (n - 4))\<rparr>, s2)" "keeps_log s1 s2"
          using assms(2) sc1(1) by (auto simp: sc1(2) off K(2))
        have "lfs_crc crc (bytes_at ?blk (ls_offset st + 4) (n - 4)) = lfs_crc (sc_crc sc) (bytes_at ?blk (ls_offset st) n)"
          using bytes_at_add[of ?blk "ls_offset st" 4 "n - 4"] n4 by (simp add: crc_def lfs_crc_append)
        note K2 = keeps_logD[OF keeps_log_trans[OF s1(2) s2(2)]]
        have "?sc1\<lparr>sc_crc := lfs_crc crc (bytes_at ?blk (ls_offset st + 4) (n - 4))\<rparr> =
            sc\<lparr>sc_offset := off, sc_crc := lfs_crc (sc_crc sc) (bytes_at (content (l_dev s2) (unat (fst pair))) (ls_offset st) (unat (lfs_tag_dsize tag))), sc_ptag := tag\<rparr>"
          using \<open>lfs_crc crc _ = _\<close> by (simp add: sc0_def K2(2) n_def)
        from scan_entry_result[OF K2(1) assms(2,3) fits[folded K2(2)] tag_def[folded K2(2)] False off this]
        obtain go sc' s' where R: "scan_entry s2 tag (?sc1\<lparr>sc_crc := lfs_crc crc (bytes_at ?blk (ls_offset st + 4) (n - 4))\<rparr>) = (Inr go, sc', s')"
          "keeps_log s2 s'" "if go then \<exists>st'. scans ?blk st st' \<and> same_scan pair revn sc' st'
             else (\<forall>st'. \<not> scans ?blk st st') \<and> scan_stops pair revn sc' (ls_found st)"
          unfolding K2(2) by blast
        have "scan_step cb s (- 1) (- 1) sc = (Inr go, sc', s')"
          unfolding E using 3 False s2(1) R(1) scan_match_none[OF 3(1)] by (cases go) (simp_all add: not_less)
        then show ?thesis using keeps_log_trans[OF s1(2) keeps_log_trans[OF s2(2) R(2)]] R(3) by blast
      qed
    qed
  qed
qed

text \<open>The loop ends, within its fuel, where the scan ends.\<close>

lemma scan_loop_result:
  assumes "ready s" "unat (fst pair) < bcount" "same_scan pair revn sc st" "bsize - ls_offset st < fuel"
  shows "\<exists>sc' s' st'. scan_loop fuel cb s (- 1) (- 1) sc = (Inr (), sc', s') \<and> keeps_log s s' \<and>
    (scans (content (l_dev s) (unat (fst pair))))\<^sup>*\<^sup>* st st' \<and> (\<forall>x. \<not> scans (content (l_dev s) (unat (fst pair))) st' x) \<and>
    scan_stops pair revn sc' (ls_found st')"
  using assms(1,3,4)
proof (induction fuel arbitrary: s sc st)
  case (Suc fuel)
  let ?blk = "content (l_dev s) (unat (fst pair))"
  obtain go sc1 s1 where R: "scan_step cb s (- 1) (- 1) sc = (Inr go, sc1, s1)" "keeps_log s s1"
    "if go then \<exists>st'. scans ?blk st st' \<and> same_scan pair revn sc1 st'
       else (\<forall>st'. \<not> scans ?blk st st') \<and> scan_stops pair revn sc1 (ls_found st)"
    using scan_step_result[OF Suc.prems(1) assms(2) Suc.prems(2)] by blast
  note K = keeps_logD[OF R(2)]
  show ?case
  proof (cases go)
    case True
    then obtain st1 where st1: "scans ?blk st st1" "same_scan pair revn sc1 st1" using R(3) by auto
    have "bsize - ls_offset st1 < fuel"
      using scans_offset[OF st1(1)] Suc.prems(3) length_content[OF readyD(3)[OF Suc.prems(1)] assms(2)] by linarith
    from Suc.IH[OF K(1) st1(2) this] obtain sc' s' st' where
      I: "scan_loop fuel cb s1 (- 1) (- 1) sc1 = (Inr (), sc', s')" "keeps_log s1 s'" "(scans ?blk)\<^sup>*\<^sup>* st1 st'"
        "\<forall>x. \<not> scans ?blk st' x" "scan_stops pair revn sc' (ls_found st')"
      unfolding K(2) by blast
    have "scan_loop (Suc fuel) cb s (- 1) (- 1) sc = (Inr (), sc', s')" using R(1) True I(1) by simp
    then show ?thesis
      using I keeps_log_trans[OF R(2) I(2)] converse_rtranclp_into_rtranclp[of "scans ?blk", OF st1(1) I(3)] by blast
  next
    case False
    then have "scan_loop (Suc fuel) cb s (- 1) (- 1) sc = (Inr (), sc1, s1)" using R(1) by simp
    then show ?thesis using R(2,3) False by auto
  qed
qed simp

lemma scan_block_result:
  assumes "ready s" "unat (fst (m_pair dir)) < bcount" "4 \<le> bsize" "m_offset dir = 0"
    "le_bytes 4 (m_revision_count dir) = bytes_at (content (l_dev s) (unat (fst (m_pair dir)))) 0 4"
  shows "\<exists>sc' s' c. scan_block cb s (- 1) (- 1) dir (- 1) = (Inr (), sc', s') \<and> keeps_log s s' \<and>
    log_result (content (l_dev s) (unat (fst (m_pair dir)))) c \<and> scan_stops (m_pair dir) (m_revision_count dir) sc' c"
proof -
  let ?blk = "content (l_dev s) (unat (fst (m_pair dir)))"
  let ?sc = "\<lparr>sc_dir = dir, sc_besttag = - 1, sc_offset = 0, sc_ptag = 0xffffffff,
        sc_crc = lfs_crc 0xffffffff (le_bytes 4 (lfs_tole32 (m_revision_count dir))), sc_count = 0,
        sc_tail = (LFS_BLOCK_NULL, LFS_BLOCK_NULL), sc_split = False, sc_tempbest = - 1\<rparr>"
  have d: "unat (lfs_tag_dsize 0xffffffff) = 4" by (simp add: unat_dsize isdelete_iff lfs_tag_size_def)
  have "same_scan (m_pair dir) (m_revision_count dir) ?sc (scan_start ?blk)"
    using assms(3,4,5) by (simp add: same_scan_def scan_start_def dir_found_def d lfs_tole32_def)
  moreover have "bsize - ls_offset (scan_start ?blk) < Suc (Suc (unat (l_block_size s)))"
    using readyD(4)[OF assms(1)] by simp
  ultimately show ?thesis
    using scan_loop_result[OF assms(1,2)] unfolding scan_block_def log_result_def by blast
qed

lemma fetch_revision_result:
  assumes "ready s" "unat block < bcount" "4 \<le> bsize"
  shows "\<exists>s'. fetch_revision s block 0 other = (Inr (0 < lfs_scmp (revision (content (l_dev s) (unat block))) other),
      revision (content (l_dev s) (unat block)), s') \<and> keeps_log s s'"
proof -
  have "unat (0 :: u64) + length (le_bytes 4 (0 :: u32)) \<le> bsize" "0 < unat (4 :: u64)" "unat (4 :: u64) \<le> bsize" using assms(3) by simp_all
  from read_in[OF assms(1,2) this] show ?thesis
    by (auto simp: fetch_revision_def revision_def lfs_fromle32_def Let_def)
qed

lemma synthetic_none: "synthetic_move s pair (- 1) = - 1"
  by (simp add: synthetic_move_def)

lemma fetch_answer_found:
  assumes "dir_found dir (Some c)"
  shows "fetch_answer dir (- 1) = fetch_code c" "0 < m_offset dir"
proof -
  have id: "lfs_tag_id (- 1) = 0x3ff"
  proof -
    have m: "(0x3ff :: u32) = mask 10" by (simp add: mask_eq_exp_minus_1)
    show ?thesis unfolding m by (rule bit_word_eqI) (auto simp: bit_tag_fields bit_simps)
  qed
  have "(0x3ff :: u32) < ucast n \<longleftrightarrow> 0x3ff < n" for n :: u16
    using unsigned_less[of n, where ?'a = nat] by (simp add: word_less_nat_alt unsigned_ucast_eq take_bit_nat_eq_self)
  then show "fetch_answer dir (- 1) = fetch_code c" "0 < m_offset dir"
    using assms by (auto simp: fetch_answer_def isvalid_iff id fetch_code_def dir_found_def word_less_nat_alt split: prod.splits)
qed

lemma pair_swap_sel [simp]: "fst (lfs_pair_swap p) = snd p" "snd (lfs_pair_swap p) = fst p"
  by (cases p, simp)+

lemma bytes_at_revision: "length blk = bsize \<Longrightarrow> 4 \<le> bsize \<Longrightarrow> le_bytes 4 (revision blk) = bytes_at blk 0 4"
  using le_bytes_le_word[of "bytes_at blk 0 4", where 'a = 32] by (simp add: revision_def bytes_at_def)

lemma fetch_blocks_result:
  assumes "ready s" "unat (fst (m_pair dir)) < bcount" "unat (snd (m_pair dir)) < bcount" "4 \<le> bsize" "m_offset dir = 0"
    "m_revision_count dir = revision (content (l_dev s) (unat (fst (m_pair dir))))"
    "revn = revision (content (l_dev s) (unat (snd (m_pair dir))))"
  shows "\<exists>r dir' i s' res. fetch_blocks 2 cb s (- 1) (- 1) revn dir (- 1) = (r, dir', i, s') \<and> keeps_log s s' \<and>
    pair_result (content (l_dev s)) (m_pair dir) res \<and>
    (case res of None \<Rightarrow> r = Inl (Err LFS_ERR_CORRUPT) | Some (p, c) \<Rightarrow> r = fetch_code c \<and> dir_of (content (l_dev s)) p c dir')"
proof -
  let ?C = "content (l_dev s)"
  have len: "length (?C (unat b)) = bsize" if "unat b < bcount" for b using length_content[OF readyD(3)[OF assms(1)] that] .
  have "le_bytes 4 (m_revision_count dir) = bytes_at (?C (unat (fst (m_pair dir)))) 0 4"
    using bytes_at_revision[OF len[OF assms(2)] assms(4)] assms(6) by simp
  from scan_block_result[OF assms(1,2,4,5) this] obtain sc1 s1 c1 where
    R1: "scan_block cb s (- 1) (- 1) dir (- 1) = (Inr (), sc1, s1)" "keeps_log s s1" "log_result (?C (unat (fst (m_pair dir)))) c1"
      "scan_stops (m_pair dir) (m_revision_count dir) sc1 c1" by blast
  note K = keeps_logD[OF R1(2)]
  obtain c where c: "log_result (?C (unat (snd (m_pair dir)))) c" using log_result_exists by blast
  show ?thesis
  proof (cases c1)
    case (Some x)
    then have f: "dir_found (sc_dir sc1) (Some x)" "m_pair (sc_dir sc1) = m_pair dir" "m_revision_count (sc_dir sc1) = m_revision_count dir" "sc_besttag sc1 = - 1"
      using R1(4) by (simp_all add: scan_stops_def)
    have "fetch_blocks 2 cb s (- 1) (- 1) revn dir (- 1) = (fetch_code x, sc_dir sc1,
        Some (ucast (lfs_min (ucast (lfs_tag_id (- 1))) (ucast (m_count (sc_dir sc1))))), s1)"
      using R1(1) f(2,4) fetch_answer_found[OF f(1)] by (simp add: numeral_2_eq_2 synthetic_none Let_def)
    moreover have "pair_result ?C (m_pair dir) (Some (m_pair dir, x))"
      unfolding pair_result_def using R1(3) c Some by (intro exI[of _ c1] exI[of _ c]) simp
    moreover have "dir_of ?C (m_pair dir) x (sc_dir sc1)" using f assms(6) by (simp add: dir_of_def)
    ultimately show ?thesis using R1(2) by fastforce
  next
    case None
    define dir2 where "dir2 = (sc_dir sc1)\<lparr>m_pair := lfs_pair_swap (m_pair dir), m_revision_count := revn\<rparr>"
    have f: "m_offset (sc_dir sc1) = 0" "m_pair (sc_dir sc1) = m_pair dir" "sc_besttag sc1 = - 1"
      using R1(4) None by (simp_all add: scan_stops_def dir_found_def)
    have p2: "fst (m_pair dir2) = snd (m_pair dir)" by (simp add: dir2_def)
    have "unat (fst (m_pair dir2)) < bcount" "m_offset dir2 = 0" using assms(3) f(1) by (simp_all add: dir2_def)
    moreover have "le_bytes 4 (m_revision_count dir2) = bytes_at (content (l_dev s1) (unat (fst (m_pair dir2)))) 0 4"
      using bytes_at_revision[OF len[OF assms(3)] assms(4)] assms(7) K(2) p2 by (simp add: dir2_def)
    ultimately obtain sc2 s2 c2 where
      R2: "scan_block cb s1 (- 1) (- 1) dir2 (- 1) = (Inr (), sc2, s2)" "keeps_log s1 s2" "log_result (?C (unat (snd (m_pair dir)))) c2"
        "scan_stops (lfs_pair_swap (m_pair dir)) revn sc2 c2"
      using scan_block_result[OF K(1) _ assms(4), of dir2 cb] unfolding K(2) p2 by (auto simp: dir2_def)
    have pr: "pair_result ?C (m_pair dir) (map_option (\<lambda>x. (lfs_pair_swap (m_pair dir), x)) c2)"
      unfolding pair_result_def using R1(3) R2(3) None by (intro exI[of _ c1] exI[of _ c2]) simp
    have g: "m_pair (sc_dir sc2) = lfs_pair_swap (m_pair dir)" "m_revision_count (sc_dir sc2) = revn" "sc_besttag sc2 = - 1" "dir_found (sc_dir sc2) c2"
      using R2(4) by (simp_all add: scan_stops_def)
    have E: "fetch_blocks 2 cb s (- 1) (- 1) revn dir (- 1) =
      (if 0 < m_offset (sc_dir sc2) then (fetch_answer (sc_dir sc2) (- 1), sc_dir sc2,
         Some (ucast (lfs_min (ucast (lfs_tag_id (- 1))) (ucast (m_count (sc_dir sc2))))), s2)
       else (Inl (Err LFS_ERR_CORRUPT), (sc_dir sc2)\<lparr>m_pair := lfs_pair_swap (lfs_pair_swap (m_pair dir)), m_revision_count := revn\<rparr>, None, s2))"
      using R1(1) f R2(1) g(1,3) by (simp add: numeral_2_eq_2 synthetic_none Let_def dir2_def)
    show ?thesis
    proof (cases c2)
      case None
      then have "m_offset (sc_dir sc2) = 0" using g(4) by (simp add: dir_found_def)
      then show ?thesis using E pr None keeps_log_trans[OF R1(2) R2(2)] by fastforce
    next
      case (Some x)
      then have "dir_of ?C (lfs_pair_swap (m_pair dir)) x (sc_dir sc2)"
        using g assms(7) by (simp add: dir_of_def)
      then show ?thesis using E pr Some fetch_answer_found[of "sc_dir sc2" x] g(4) keeps_log_trans[OF R1(2) R2(2)] by fastforce
    qed
  qed
qed

lemma dir_fetch_result:
  assumes "ready s" "unat (fst pair) < bcount" "unat (snd pair) < bcount" "4 \<le> bsize"
  shows "\<exists>r dir' s' res. lfs_dir_fetch s dir pair = (r, dir', s') \<and> keeps_log s s' \<and>
    pair_result (content (l_dev s)) (newest_first (content (l_dev s)) pair) res \<and>
    (case res of None \<Rightarrow> r = Inl (Err LFS_ERR_CORRUPT) | Some (p, c) \<Rightarrow> r = fetch_code c \<and> dir_of (content (l_dev s)) p c dir')"
proof -
  let ?C = "content (l_dev s)" and ?cb = "\<lambda>s tag disk. (Inl Undefined_behaviour, s)"
  obtain s1 where s1: "fetch_revision s (fst pair) 0 0 =
      (Inr (0 < lfs_scmp (revision (?C (unat (fst pair)))) 0), revision (?C (unat (fst pair))), s1)" "keeps_log s s1"
    using fetch_revision_result[OF assms(1,2,4)] by blast
  note K1 = keeps_logD[OF s1(2)]
  obtain s2 where s2: "fetch_revision s1 (snd pair) 0 (revision (?C (unat (fst pair)))) =
      (Inr (0 < lfs_scmp (revision (?C (unat (snd pair)))) (revision (?C (unat (fst pair))))), revision (?C (unat (snd pair))), s2)" "keeps_log s1 s2"
    using fetch_revision_result[OF K1(1) assms(3,4)] unfolding K1(2) by blast
  note k2 = keeps_log_trans[OF s1(2) s2(2)]
  note K2 = keeps_logD[OF k2]
  define newer where "newer = (0 < lfs_scmp (revision (?C (unat (snd pair)))) (revision (?C (unat (fst pair)))))"
  define d where "d = dir\<lparr>m_pair := (if newer then lfs_pair_swap pair else pair),
      m_revision_count := (if newer then revision (?C (unat (snd pair))) else revision (?C (unat (fst pair)))), m_offset := 0\<rparr>"
  have mp: "m_pair d = newest_first ?C pair" by (simp add: d_def newest_first_def newer_def)
  have count: "\<not> l_block_count s \<le> fst pair" "\<not> l_block_count s \<le> snd pair"
    using assms(2,3) readyD(5)[OF assms(1)] by (simp_all add: word_le_nat_alt not_le)
  have E: "lfs_dir_fetchmatch s dir pair (- 1) (- 1) ?cb = fetch_blocks 2 ?cb s2 (- 1) (- 1)
      (if newer then revision (?C (unat (fst pair))) else revision (?C (unat (snd pair)))) d (- 1)"
    unfolding lfs_dir_fetchmatch_def s1(1) s2(1) d_def newer_def prod.case sum.case Let_def using count by simp
  have "unat (fst (m_pair d)) < bcount" "unat (snd (m_pair d)) < bcount" "m_offset d = 0"
    "m_revision_count d = revision (?C (unat (fst (m_pair d))))"
    "(if newer then revision (?C (unat (fst pair))) else revision (?C (unat (snd pair)))) = revision (?C (unat (snd (m_pair d))))"
    using assms(2,3) by (simp_all add: d_def)
  from fetch_blocks_result[OF K2(1) this(1,2) assms(4) this(3) this(4,5)[folded K2(2)], of ?cb]
  obtain r dir' i s' res where R: "fetch_blocks 2 ?cb s2 (- 1) (- 1)
      (if newer then revision (?C (unat (fst pair))) else revision (?C (unat (snd pair)))) d (- 1) = (r, dir', i, s')"
    "keeps_log s2 s'" "pair_result ?C (m_pair d) res"
    "case res of None \<Rightarrow> r = Inl (Err LFS_ERR_CORRUPT) | Some (p, c) \<Rightarrow> r = fetch_code c \<and> dir_of ?C p c dir'"
    unfolding K2(2) by blast
  have "lfs_dir_fetch s dir pair = (r, dir', s')" unfolding lfs_dir_fetch_def E R(1) by simp
  then show ?thesis using keeps_log_trans[OF k2 R(2)] R(3,4) unfolding mp by blast
qed

end

end
