(* ===== verification/LogCommit.thy ===== *)
theory LogCommit
  imports LogRead Commit
begin

text \<open>
  Appending to the log of a metadata pair: what \<open>lfs_dir_commit_attribute\<close> writes through the write cache
  extends the log that a reader through the write cache sees.
\<close>

lemma cache_frame [simp]:
  "geometry (s\<lparr>l_write_cache := w\<rparr>) = geometry s" "geometry (s\<lparr>l_read_cache := c\<rparr>) = geometry s"
  "geometry (s\<lparr>l_dev := d\<rparr>) = geometry s" "runs_on (s\<lparr>l_write_cache := w\<rparr>) = runs_on s"
  "runs_on (s\<lparr>l_read_cache := c\<rparr>) = runs_on s" "runs_on (s\<lparr>l_dev := d\<rparr>) = runs_on s"
  "writable (s\<lparr>l_write_cache := w\<rparr>) = writable s" "writable (s\<lparr>l_read_cache := c\<rparr>) = writable s"
  "writable (s\<lparr>l_dev := d\<rparr>) = writable s"
  by (simp_all add: geometry_def runs_on_def writable_def fun_eq_iff)

context block_device begin

text \<open>What a reader through the write cache sees of a block.\<close>

definition seen :: "'d lfs \<Rightarrow> lfs_block_t \<Rightarrow> u8 list" where
  "seen s block = overlay (Some (l_write_cache s)) (content (l_dev s)) (unat block)"

definition appending :: "'d lfs \<Rightarrow> lfs_commit \<Rightarrow> bool" where
  "appending s commit \<longleftrightarrow> geometry s bsize bcount \<and> runs_on s ops \<and> inv (l_dev s) \<and>
     co_block commit < l_block_count s \<and> co_end commit \<le> l_block_size s \<and> co_offset commit \<le> l_block_size s \<and>
     writable s (l_write_cache s) (co_block commit) (unat (co_offset commit))"

definition writes :: "'d lfs \<Rightarrow> lfs_block_t \<Rightarrow> 'd lfs \<Rightarrow> bool" where
  "writes s block s' \<longleftrightarrow> (\<exists>wc rc d. s' = s\<lparr>l_write_cache := wc, l_read_cache := rc, l_dev := d\<rparr> \<and>
     (\<forall>k<bcount. k \<noteq> unat block \<longrightarrow> content d k = content (l_dev s) k))"

lemma writes_refl: "writes s block s"
  unfolding writes_def by (rule exI[of _ "l_write_cache s"], rule exI[of _ "l_read_cache s"], rule exI[of _ "l_dev s"]) simp

lemma writes_trans: "writes s b s' \<Longrightarrow> writes s' b s'' \<Longrightarrow> writes s b s''"
  unfolding writes_def
proof (elim exE conjE)
  fix wc rc d wc' rc' d'
  assume "s' = s\<lparr>l_write_cache := wc, l_read_cache := rc, l_dev := d\<rparr>" "s'' = s'\<lparr>l_write_cache := wc', l_read_cache := rc', l_dev := d'\<rparr>"
    and "\<forall>k<bcount. k \<noteq> unat b \<longrightarrow> content d k = content (l_dev s) k" "\<forall>k<bcount. k \<noteq> unat b \<longrightarrow> content d' k = content (l_dev s') k"
  then show "\<exists>wc rc d. s'' = s\<lparr>l_write_cache := wc, l_read_cache := rc, l_dev := d\<rparr> \<and>
      (\<forall>k<bcount. k \<noteq> unat b \<longrightarrow> content d k = content (l_dev s) k)"
    by (intro exI[of _ wc'] exI[of _ rc'] exI[of _ d']) simp
qed

lemma commit_write:
  assumes "appending s commit" "unat (co_offset commit) + length bytes \<le> bsize"
  shows "case lfs_dir_commit_write s commit bytes of (r, commit', s') \<Rightarrow>
    writes s (co_block commit) s' \<and>
    (failed r \<or> r = Inr () \<and>
      commit' = commit\<lparr>co_crc := lfs_crc (co_crc commit) bytes, co_offset := co_offset commit + of_nat (length bytes)\<rparr> \<and>
      appending s' commit' \<and> unat (co_offset commit') = unat (co_offset commit) + length bytes \<and>
      seen s' (co_block commit) = blit (unat (co_offset commit)) bytes (seen s (co_block commit)))"
proof -
  note A = assms(1)[unfolded appending_def]
  have bs: "bsize < 2 ^ 63" using A by (simp add: geometry_def)
  have o: "unat (co_offset commit + of_nat (length bytes)) = unat (co_offset commit) + length bytes"
    using assms(2) bs by (intro unat_add_of_nat_u64) simp
  obtain r wc rc s1 where e: "lfs_bd_write s (l_write_cache s) (l_read_cache s) False (co_block commit) (co_offset commit) bytes = (r, wc, rc, s1)"
    by (metis prod_cases4)
  have W: "same_but s s1 (unat (co_block commit))" "sound r"
    "r = Inr () \<Longrightarrow> writable s wc (co_block commit) (unat (co_offset commit) + length bytes) \<and>
       overlay (Some wc) (content (l_dev s1)) (unat (co_block commit)) =
         blit (unat (co_offset commit)) bytes (overlay (Some (l_write_cache s)) (content (l_dev s)) (unat (co_block commit)))"
    using bd_write[of s "co_block commit" "l_write_cache s" "co_offset commit" bytes "l_read_cache s", unfolded e write_post_def] A assms(2) by auto
  then obtain d where s1: "s1 = s\<lparr>l_dev := d\<rparr>" "inv d" "\<forall>k<bcount. k \<noteq> unat (co_block commit) \<longrightarrow> content d k = content (l_dev s) k"
    by (auto simp: same_but_def)
  have w: "writes s (co_block commit) (s1\<lparr>l_write_cache := wc, l_read_cache := rc\<rparr>)"
    unfolding writes_def using s1(3) by (intro exI[of _ wc] exI[of _ rc] exI[of _ d]) (simp add: s1(1))
  show ?thesis
  proof (cases r)
    case (Inl h)
    then show ?thesis using W(2) w by (simp add: lfs_dir_commit_write_def lfs_bd_write_own_def e failed_def)
  next
    case (Inr u)
    then have "writable s wc (co_block commit) (unat (co_offset commit) + length bytes)" using W(3) by simp
    then have "appending (s1\<lparr>l_write_cache := wc, l_read_cache := rc\<rparr>)
        (commit\<lparr>co_crc := lfs_crc (co_crc commit) bytes, co_offset := co_offset commit + of_nat (length bytes)\<rparr>)"
      using A s1(2) o assms(2) by (simp add: appending_def s1(1) word_le_nat_alt geometry_def)
    then show ?thesis
      using W(3) w o Inr by (simp add: lfs_dir_commit_write_def lfs_bd_write_own_def e seen_def)
  qed
qed

lemma commit_write_result:
  assumes "appending s commit" "unat (co_offset commit) + length bytes \<le> bsize"
    and "lfs_dir_commit_write s commit bytes = (r, commit', s')"
  shows "writes s (co_block commit) s'" "failed r \<or> r = Inr ()"
    and "r = Inr () \<Longrightarrow> commit' = commit\<lparr>co_crc := lfs_crc (co_crc commit) bytes, co_offset := co_offset commit + of_nat (length bytes)\<rparr>"
    and "r = Inr () \<Longrightarrow> appending s' commit'" "r = Inr () \<Longrightarrow> unat (co_offset commit') = unat (co_offset commit) + length bytes"
    and "r = Inr () \<Longrightarrow> seen s' (co_block commit) = blit (unat (co_offset commit)) bytes (seen s (co_block commit))"
  using commit_write[OF assms(1,2), unfolded assms(3) prod.case] unfolding failed_def by blast+

lemma length_seen: "appending s commit \<Longrightarrow> length (seen s (co_block commit)) = bsize"
proof -
  assume a: "appending s commit"
  note A = a[unfolded appending_def]
  have "unat (co_block commit) < bcount" using A by (simp add: geometry_def word_less_nat_alt)
  then have l: "length (content (l_dev s) (unat (co_block commit))) = bsize" using A by (intro length_content) simp_all
  have "co_block commit \<noteq> LFS_BLOCK_NULL" using A block_not_special(1)[of s bsize bcount] by blast
  then show ?thesis
  proof (cases "unat (c_block (l_write_cache s)) = unat (co_block commit)")
    case True
    then have b: "c_block (l_write_cache s) = co_block commit" by (simp add: word_eq_nat_alt)
    have "unat (c_offset (l_write_cache s)) + unat (c_size (l_write_cache s)) \<le> bsize"
      using A \<open>co_block commit \<noteq> LFS_BLOCK_NULL\<close> unfolding writable_def b by (simp add: geometry_def)
    then show ?thesis using l by (simp add: seen_def overlay_def b)
  qed (simp add: seen_def overlay_def l)
qed

lemma commit_attribute:
  assumes a: "appending s commit" and e: "entry_ok (tag, bytes)"
    and l: "log_ends (seen s (co_block commit)) (unat (co_offset commit)) (co_ptag commit) es"
  shows "case lfs_dir_commit_attribute s commit tag (Buf_mem (bytes @ rest)) of (r, commit', s') \<Rightarrow>
    writes s (co_block commit) s' \<and>
    (if co_end commit < co_offset commit + lfs_tag_dsize tag
     then r = Inl (Err LFS_ERR_NOSPC) \<and> commit' = commit \<and> s' = s
     else failed r \<or> r = Inr () \<and> appending s' commit' \<and> co_offset commit' = co_offset commit + lfs_tag_dsize tag \<and>
       co_ptag commit' = tag \<and> co_block commit' = co_block commit \<and> co_end commit' = co_end commit \<and>
       co_crc commit' = lfs_crc (co_crc commit) (le_bytes 4 (lfs_tobe32 (tag XOR co_ptag commit)) @ bytes) \<and>
       take (unat (co_offset commit)) (seen s' (co_block commit)) = take (unat (co_offset commit)) (seen s (co_block commit)) \<and>
       log_ends (seen s' (co_block commit)) (unat (co_offset commit')) (co_ptag commit') ((tag, bytes) # settle es))"
proof (cases "co_end commit < co_offset commit + lfs_tag_dsize tag")
  case True
  then show ?thesis by (simp add: lfs_dir_commit_attribute_def writes_refl)
next
  case False
  note A = a[unfolded appending_def]
  have tag: "tag AND 0x7fffffff = tag" "tag AND 0x80000000 = 0" "unat (lfs_tag_dsize tag) = 4 + length bytes"
    using e valid_mask by (simp_all add: entry_ok_def lfs_tag_isvalid_def)
  have bs: "bsize < 2 ^ 63" "unat (l_block_size s) = bsize" using A by (simp_all add: geometry_def)
  let ?h = "le_bytes 4 (lfs_tobe32 (tag XOR co_ptag commit))" and ?o = "unat (co_offset commit)"
  have fit: "?o + 4 + length bytes \<le> bsize"
  proof -
    have o: "?o \<le> bsize" "unat (co_end commit) \<le> bsize" using A bs by (simp_all add: word_le_nat_alt)
    have "length bytes \<le> 1023" using tag(3) unat_tag_size[of tag] by (auto simp: unat_dsize split: if_splits)
    then have "unat (co_offset commit + lfs_tag_dsize tag) = ?o + (4 + length bytes)"
      using tag(3) o bs by (subst unat_add_u64) simp_all
    then show ?thesis using False o by (simp add: word_le_nat_alt not_less)
  qed
  have td: "unat (tag_data tag) = length bytes"
    unfolding tag_data_def using tag(3) by (subst unat_sub_u64) simp_all
  have ab: "attribute_bytes (Buf_mem (bytes @ rest)) (unat (tag_data tag)) = Inr bytes"
    by (simp add: attribute_bytes_def td mem_get_def)
  obtain r1 c1 s1 where e1: "lfs_dir_commit_write s commit ?h = (r1, c1, s1)" by (metis prod_cases3)
  note W1 = commit_write[OF a, of ?h, unfolded e1]
  note C = lfs_dir_commit_attribute_def[of s commit tag "Buf_mem (bytes @ rest)", unfolded if_not_P[OF False] tag(1) e1 prod.case]
  show ?thesis
  proof (cases r1)
    case (Inl h)
    then show ?thesis using W1 C False fit by (simp add: failed_def)
  next
    case (Inr u)
    have "unat (co_offset commit) + length ?h \<le> bsize" using fit by simp
    note W0 = commit_write_result[OF a this e1]
    have W: "writes s (co_block commit) s1" "appending s1 c1" "unat (co_offset c1) = ?o + 4"
      "c1 = commit\<lparr>co_crc := lfs_crc (co_crc commit) ?h, co_offset := co_offset commit + 4\<rparr>"
      "seen s1 (co_block commit) = blit ?o ?h (seen s (co_block commit))"
      by (rule W0(1) W0(4)[OF Inr[simplified]] W0(5)[OF Inr[simplified], unfolded length_le_bytes]
        W0(3)[OF Inr[simplified], unfolded length_le_bytes of_nat_numeral] W0(6)[OF Inr[simplified]])+
    have cb: "co_block c1 = co_block commit" "co_end c1 = co_end commit" "co_ptag c1 = co_ptag commit" by (simp_all add: W(4))
    obtain r2 c2 s2 where e2: "lfs_dir_commit_write s1 c1 bytes = (r2, c2, s2)" by (metis prod_cases3)
    have f2: "unat (co_offset c1) + length bytes \<le> bsize" using W(3) fit by simp
    note W2 = commit_write[OF W(2) f2, unfolded e2 cb prod.case]
    have C2: "lfs_dir_commit_attribute s commit tag (Buf_mem (bytes @ rest)) =
        (case r2 of Inl h \<Rightarrow> (Inl h, c2, s2) | Inr _ \<Rightarrow> (Inr (), c2\<lparr>co_ptag := tag\<rparr>, s2))"
      using C unfolding Inr tag(2) ab sum.case if_P[OF refl] e2 by (simp split: sum.splits)
    show ?thesis
    proof (cases r2)
      case (Inl h)
      then show ?thesis unfolding C2 using W2 writes_trans[OF W(1)] False by (simp add: failed_def)
    next
      case (Inr u)
      note V0 = commit_write_result[OF W(2) f2 e2, unfolded cb W(3)]
      have V: "writes s1 (co_block commit) s2" "appending s2 c2" "unat (co_offset c2) = ?o + 4 + length bytes"
        "c2 = c1\<lparr>co_crc := lfs_crc (co_crc c1) bytes, co_offset := co_offset c1 + of_nat (length bytes)\<rparr>"
        "seen s2 (co_block commit) = blit (?o + 4) bytes (seen s1 (co_block commit))"
        by (rule V0(1) V0(4)[OF Inr[simplified]] V0(5)[OF Inr[simplified]] V0(3)[OF Inr[simplified]] V0(6)[OF Inr[simplified]])+
      let ?pre = "take ?o (seen s (co_block commit))"
      have len: "length (seen s (co_block commit)) = bsize" by (rule length_seen[OF a])
      have view: "seen s2 (co_block commit) = blit ?o (?h @ bytes) (seen s (co_block commit))"
        unfolding V(5) W(5) using blit_append[of ?o ?h bytes "seen s (co_block commit)"] fit len by simp
      have pre: "length ?pre = ?o" using fit len by simp
      have "log_ends ?pre (length ?pre) (co_ptag commit) es"
        unfolding pre by (rule log_ends_prefix[OF l]) (use fit len in simp_all)
      note X = log_ends_extend[OF this e, unfolded pre]
      have tk: "take (?o + 4 + length bytes) (seen s2 (co_block commit)) = ?pre @ ?h @ bytes"
        unfolding view using fit len by (simp add: blit_def)
      have "log_ends (seen s2 (co_block commit)) (?o + 4 + length bytes) tag ((tag, bytes) # settle es)"
        by (rule log_ends_prefix[OF X]) (use tk pre length_seen[OF V(2)] fit in \<open>simp_all add: V(4) W(4)\<close>)
      moreover have "take ?o (seen s2 (co_block commit)) = ?pre"
        unfolding view using fit len by (simp add: blit_def)
      moreover have "appending s2 (c2\<lparr>co_ptag := tag\<rparr>)" using V(2) by (simp add: appending_def)
      moreover have "co_offset c2 = co_offset commit + lfs_tag_dsize tag"
        using V(3) tag(3) fit bs by (simp add: word_eq_nat_alt unat_add_u64)
      ultimately show ?thesis
        unfolding C2 using Inr writes_trans[OF W(1) V(1)] V(3,4) W(4) False by (simp add: lfs_crc_append)
    qed
  qed
qed

end

end
