(* ===== verification/LogProperties.thy ===== *)
theory LogProperties
  imports LogCommit DeviceProperties
begin

text \<open>
  The properties of the metadata log on a memory device.
\<close>

subsection \<open>A sample log\<close>

text \<open>Two entries are created, the first one gets a name and an attribute, then it is removed.\<close>

definition sample_log :: "log_entry list" where
  "sample_log =
     [(create_tag 0, []), (LFS_MKTAG LFS_TYPE_REG 0 3, [97, 98, 99]), (create_tag 1, []),
      (LFS_MKTAG LFS_TYPE_INLINESTRUCT 1 2, [7, 8]), (delete_tag 0, [])]"

definition sample_log_block :: "u8 list" where
  "sample_log_block = [1, 0, 0, 0] @ log_bytes 0xffffffff sample_log @ replicate 35 255"

definition sample_log_memory :: memory_device where
  "sample_log_memory = \<lparr>md_block_size = 64, md_block_count = 4, md_storage = sample_log_block @ replicate 192 0\<rparr>"

definition sample_log_state :: "memory_device lfs" where
  "sample_log_state = (sample memory_ops sample_log_memory)\<lparr>l_block_size := 64, l_erase_size := 64\<rparr>"

definition sample_log_dir :: lfs_metadata_dir where
  "sample_log_dir = \<lparr>m_pair = (0, 1), m_revision_count = 1, m_offset = 29, m_etag = last_tag sample_log, m_count = 1,
     m_erased = False, m_split = False, m_tail = (LFS_BLOCK_NULL, LFS_BLOCK_NULL)\<rparr>"

lemma tags_eval: "create_tag 0 = 0x40100000" "create_tag (Suc 0) = 0x40100400" "delete_tag 0 = 0x4ff00000"
  "LFS_MKTAG LFS_TYPE_REG 0 3 = 0x00100003" "LFS_MKTAG LFS_TYPE_INLINESTRUCT 1 2 = 0x20100402"
  by (simp_all add: create_tag_def delete_tag_def LFS_MKTAG_def)

lemma sample_log_ok: "\<forall>e \<in> set sample_log. entry_ok e"
  by (simp add: sample_log_def tags_eval entry_ok_def lfs_tag_isvalid_def unat_dsize isdelete_iff lfs_tag_size_def)

lemma sample_log_length: "length (log_bytes 0xffffffff sample_log) = 25"
  by (simp add: sample_log_def)

lemma sample_log_state:
  "runs_on sample_log_state memory_ops" "geometry sample_log_state 64 4"
  "memory_inv (l_block_size sample_log_state) (l_block_count sample_log_state) (l_dev sample_log_state)"
  "cache_holds sample_log_state (l_read_cache sample_log_state) (memory_content (l_dev sample_log_state))"
  "2 * 64 + unat (cfg_read_size (l_cfg sample_log_state)) \<le> 2 ^ 64" "l_dev sample_log_state = sample_log_memory"
  by (simp_all add: sample_log_state_def runs_on_def geometry_def sample_def sample_config_def cache_holds_def sample_cache_def
      memory_inv_def sample_log_memory_def sample_log_block_def sample_log_length)

lemma sample_log_content: "memory_content sample_log_memory 0 = sample_log_block"
  by (simp add: memory_content_def sample_log_memory_def sample_log_block_def sample_log_length)

lemma sample_log_ends:
  "log_ends (memory_content (l_dev sample_log_state) (unat (fst (m_pair sample_log_dir)))) (unat (m_offset sample_log_dir))
     (m_etag sample_log_dir) (rev sample_log)"
proof -
  have "log_ends ([1, 0, 0, 0] @ log_bytes 0xffffffff sample_log) 29 (last_tag sample_log) (rev sample_log)"
    using log_ends_log_bytes[OF sample_log_ok, of "[1, 0, 0, 0]"] by (simp add: sample_log_length)
  then have "log_ends sample_log_block 29 (last_tag sample_log) (rev sample_log)"
    by (rule log_ends_prefix) (simp_all add: sample_log_block_def sample_log_length)
  then show ?thesis by (simp add: sample_log_dir_def sample_log_state(6) sample_log_content)
qed

lemma sample_log_step:
  "log_step dir (0x40100000, bytes) = insert_at 0 [] dir" "log_step dir (0x40100400, bytes) = insert_at 1 [] dir"
  "log_step dir (0x4ff00000, bytes) = remove_at 0 dir"
  "0 < length dir \<Longrightarrow> log_step dir (0x00100003, bytes) = dir[0 := (0x00100003, bytes) # dir ! 0]"
  "1 < length dir \<Longrightarrow> log_step dir (0x20100402, bytes) = dir[1 := (0x20100402, bytes) # dir ! 1]"
  by (simp_all add: log_step_def tag_ident_def lfs_tag_id_def create_tag_def delete_tag_def LFS_MKTAG_def)

lemma sample_log_replay: "replay sample_log = [[(0x20100402, [7, 8])]]" "log_fits [] sample_log"
  unfolding sample_log_def tags_eval
  by (simp_all add: replay_def sample_log_step insert_at_def remove_at_def tags_eval)
    (simp_all add: fits_def tag_ident_def lfs_tag_id_def create_tag_def delete_tag_def LFS_MKTAG_def is_splice_def lfs_tag_type1_def)

subsection \<open>Properties\<close>



text \<open>What a reader through the write cache sees of a block.\<close>

definition memory_view :: "memory_device lfs \<Rightarrow> lfs_block_t \<Rightarrow> u8 list" where
  "memory_view s block = overlay (Some (l_write_cache s)) (memory_content (l_dev s)) (unat block)"

text \<open>C5: appending an attribute. While a commit is written, what a reader through the write cache sees of the
  block is a log. \<open>lfs_dir_commit_attribute\<close> extends it by exactly the given tag and data, keeps what was
  there, carries the checksum along and touches no other block; when the tag does not fit in front of the
  end of the commit it returns \<open>LFS_ERR_NOSPC\<close> and nothing has changed.\<close>

theorem lfs_dir_commit_attribute_appends:
  assumes "runs_on s memory_ops" "geometry s bs bc" "memory_inv (l_block_size s) (l_block_count s) (l_dev s)"
    and "co_block commit < l_block_count s" "co_end commit \<le> l_block_size s" "co_offset commit \<le> l_block_size s"
    and "writable s (l_write_cache s) (co_block commit) (unat (co_offset commit))" "entry_ok (tag, bytes)"
    and "log_ends (memory_view s (co_block commit)) (unat (co_offset commit)) (co_ptag commit) es"
  shows "\<exists>r commit' s' wc rc d. lfs_dir_commit_attribute s commit tag (Buf_mem (bytes @ rest)) = (r, commit', s') \<and>
    s' = s\<lparr>l_write_cache := wc, l_read_cache := rc, l_dev := d\<rparr> \<and>
    (\<forall>k<bc. k \<noteq> unat (co_block commit) \<longrightarrow> memory_content d k = memory_content (l_dev s) k) \<and>
    (if co_end commit < co_offset commit + lfs_tag_dsize tag
     then r = Inl (Err LFS_ERR_NOSPC) \<and> commit' = commit \<and> s' = s
     else r = Inr () \<and> co_offset commit' = co_offset commit + lfs_tag_dsize tag \<and> co_ptag commit' = tag \<and>
       co_crc commit' = lfs_crc (co_crc commit) (le_bytes 4 (lfs_tobe32 (tag XOR co_ptag commit)) @ bytes) \<and>
       take (unat (co_offset commit)) (memory_view s' (co_block commit)) =
         take (unat (co_offset commit)) (memory_view s (co_block commit)) \<and>
       writable s' wc (co_block commit) (unat (co_offset commit')) \<and>
       log_ends (memory_view s' (co_block commit)) (unat (co_offset commit')) tag ((tag, bytes) # settle es))"
proof -
  have b: "unat (l_block_size s) = bs" "unat (l_block_count s) = bc" using assms(2) by (simp_all add: geometry_def)
  have a: "mem.appending (l_block_size s) (l_block_count s) s commit"
    unfolding mem.appending_def using assms(1-7) b by simp
  have v: "mem.seen s' block = memory_view s' block" for s' block by (simp add: mem.seen_def memory_view_def)
  obtain r commit' s' where e: "lfs_dir_commit_attribute s commit tag (Buf_mem (bytes @ rest)) = (r, commit', s')"
    by (metis prod_cases3)
  have nf: "\<not> mem.failed (l_block_size s) (l_block_count s) r" unfolding mem.failed_def by (simp add: mem.never_fails)
  note C = mem.commit_attribute[OF a assms(8), of es rest, unfolded v e prod.case, OF assms(9)]
  obtain wc rc d where w: "s' = s\<lparr>l_write_cache := wc, l_read_cache := rc, l_dev := d\<rparr>"
    "\<forall>k<bc. k \<noteq> unat (co_block commit) \<longrightarrow> memory_content d k = memory_content (l_dev s) k"
    using conjunct1[OF C, unfolded mem.writes_def] by (auto simp: b)
  have wc: "l_write_cache s' = wc" by (simp add: w(1))
  have "if co_end commit < co_offset commit + lfs_tag_dsize tag
     then r = Inl (Err LFS_ERR_NOSPC) \<and> commit' = commit \<and> s' = s
     else r = Inr () \<and> co_offset commit' = co_offset commit + lfs_tag_dsize tag \<and> co_ptag commit' = tag \<and>
       co_crc commit' = lfs_crc (co_crc commit) (le_bytes 4 (lfs_tobe32 (tag XOR co_ptag commit)) @ bytes) \<and>
       take (unat (co_offset commit)) (memory_view s' (co_block commit)) =
         take (unat (co_offset commit)) (memory_view s (co_block commit)) \<and>
       writable s' wc (co_block commit) (unat (co_offset commit')) \<and>
       log_ends (memory_view s' (co_block commit)) (unat (co_offset commit')) tag ((tag, bytes) # settle es)"
  proof (cases "co_end commit < co_offset commit + lfs_tag_dsize tag")
    case True
    then show ?thesis using conjunct2[OF C] by (simp only: if_True)
  next
    case False
    then show ?thesis using conjunct2[OF C] nf by (simp only: if_False mem.appending_def wc) (elim disjE conjE; simp)
  qed
  with e w show ?thesis by blast
qed

definition sample_commit :: lfs_commit where
  "sample_commit = \<lparr>co_block = 1, co_offset = 4, co_ptag = 0xffffffff, co_crc = 0xffffffff, co_begin = 0, co_end = 48\<rparr>"

theorem lfs_dir_commit_attribute_appends_witness:
  "\<exists>commit' s'. lfs_dir_commit_attribute sample_log_state sample_commit 0x00100003 (Buf_mem [97, 98, 99]) = (Inr (), commit', s') \<and>
     log_ends (memory_view s' 1) 11 0x00100003 [(0x00100003, [97, 98, 99])]"
proof -
  have d: "lfs_tag_dsize 0x00100003 = 7"
    by (simp add: lfs_tag_dsize_def isdelete_iff lfs_tag_size_def)
  have e: "entry_ok (0x00100003, [97, 98, 99])" by (simp add: entry_ok_def lfs_tag_isvalid_def d)
  have w: "writable sample_log_state (l_write_cache sample_log_state) (co_block sample_commit) (unat (co_offset sample_commit))"
    by (simp add: writable_def sample_commit_def sample_log_state_def sample_def sample_config_def sample_cache_def)
  have s: "co_block sample_commit < l_block_count sample_log_state" "co_end sample_commit \<le> l_block_size sample_log_state"
    "co_offset sample_commit \<le> l_block_size sample_log_state"
    by (simp_all add: sample_commit_def sample_log_state_def sample_def)
  have l: "log_ends (memory_view sample_log_state (co_block sample_commit)) (unat (co_offset sample_commit)) (co_ptag sample_commit) []"
    by (simp add: sample_commit_def)
  show ?thesis
    using lfs_dir_commit_attribute_appends[OF sample_log_state(1-3) s w e l, of "[]"]
    by (auto simp: d sample_commit_def)
qed

end
