(* ===== verification/FetchProperties.thy ===== *)
theory FetchProperties
  imports LogFetch LogProperties
begin

text \<open>
  The properties of fetching a metadata pair on a memory device: whatever the blocks hold.
\<close>

subsection \<open>A torn block\<close>

text \<open>A block with one commit: an entry is created and gets a name. Behind the commit the block is erased
  in \<open>clean_block\<close>; in \<open>torn_block\<close> the next commit was cut short, and left bytes without meaning.\<close>

definition committed_bytes :: "u8 list" where
  "committed_bytes = [1, 0, 0, 0, 191, 239, 255, 255, 64, 0, 0, 3, 97, 98, 99, 80, 31, 252, 7, 173, 39, 194, 98]"

definition clean_block :: "u8 list" where
  "clean_block = committed_bytes @ replicate 17 255"

definition torn_block :: "u8 list" where
  "torn_block = committed_bytes @ [16, 31, 252, 0, 5, 6, 7, 8, 9, 10, 11, 12, 13, 14, 15, 16, 17]"

definition sample_found :: found_commit where
  "sample_found = (23, 0x500ffc04, 1, (LFS_BLOCK_NULL, LFS_BLOCK_NULL), False)"

definition torn_memory :: memory_device where
  "torn_memory = \<lparr>md_block_size = 40, md_block_count = 4, md_storage = torn_block @ replicate 120 0\<rparr>"

definition torn_state :: "memory_device lfs" where
  "torn_state = (sample memory_ops torn_memory)\<lparr>l_block_size := 40, l_erase_size := 40\<rparr>"

text \<open>The commit, one tag after the other.\<close>

definition scan1 :: log_scan where
  "scan1 = \<lparr>ls_offset = 8, ls_tag = 0x40100000, ls_crc = lfs_crc 0xffffffff (take 8 committed_bytes), ls_count = 1,
     ls_tail = (LFS_BLOCK_NULL, LFS_BLOCK_NULL), ls_split = False, ls_found = None\<rparr>"

definition scan2 :: log_scan where
  "scan2 = scan1\<lparr>ls_offset := 15, ls_tag := 0x00100003, ls_crc := lfs_crc 0xffffffff (take 15 committed_bytes)\<rparr>"

definition scan3 :: log_scan where
  "scan3 = scan2\<lparr>ls_offset := 23, ls_tag := 0x500ffc04, ls_crc := 0xffffffff, ls_found := Some sample_found\<rparr>"

lemma scan1: "tidy_scans clean_block (scan_start clean_block) scan1"
proof -
  have "tag_fits clean_block (scan_start clean_block)" "lfs_tag_type1 (next_tag clean_block (scan_start clean_block)) \<noteq> LFS_TYPE_CRC"
    "lfs_tag_type1 (next_tag clean_block (scan_start clean_block)) \<noteq> LFS_TYPE_TAIL" "tidy clean_block (scan_start clean_block)"
    "after_entry clean_block (scan_start clean_block) = scan1"
    by code_simp+
  then show ?thesis using scans.entry[of clean_block "scan_start clean_block"] by (simp add: tidy_scans_def)
qed

lemma scan2: "tidy_scans clean_block scan1 scan2"
proof -
  have "tag_fits clean_block scan1" "lfs_tag_type1 (next_tag clean_block scan1) \<noteq> LFS_TYPE_CRC"
    "lfs_tag_type1 (next_tag clean_block scan1) \<noteq> LFS_TYPE_TAIL" "tidy clean_block scan1" "after_entry clean_block scan1 = scan2"
    by code_simp+
  then show ?thesis using scans.entry[of clean_block scan1] by (simp add: tidy_scans_def)
qed

lemma scan3: "tidy_scans clean_block scan2 scan3"
proof -
  have "tag_fits clean_block scan2" "lfs_tag_type1 (next_tag clean_block scan2) = LFS_TYPE_CRC" "ls_offset scan2 + 8 \<le> length clean_block"
    "lfs_crc (ls_crc scan2) (bytes_at clean_block (ls_offset scan2) 4) = le_word (bytes_at clean_block (ls_offset scan2 + 4) 4)"
    "tidy clean_block scan2" "after_commit clean_block scan2 = scan3"
    by code_simp+
  then show ?thesis using scans.commit[of clean_block scan2] by (simp add: tidy_scans_def)
qed

lemma clean_prefix: "log_prefix clean_block sample_found"
proof -
  have "(tidy_scans clean_block)\<^sup>*\<^sup>* (scan_start clean_block) scan3"
    using scan1 scan2 scan3 by (meson converse_rtranclp_into_rtranclp rtranclp.rtrancl_refl)
  then show ?thesis
    unfolding log_prefix_def by (intro exI[of _ scan3]) (simp add: scan3_def sample_found_def)
qed

lemma torn_not_checksummed: "\<not> checksummed_from torn_block 23"
proof -
  have "list_all (\<lambda>k. le_word (bytes_at torn_block k 4) \<noteq> lfs_crc 0xffffffff (bytes_at torn_block 23 (k - 23))) [27..<37]"
    by code_simp
  then have "le_word (bytes_at torn_block k 4) \<noteq> lfs_crc 0xffffffff (bytes_at torn_block 23 (k - 23))" if "27 \<le> k" "k < 37" for k
    using that unfolding list_all_iff set_upt Ball_def atLeastLessThan_iff by blast
  moreover have "length torn_block = 40" by (simp add: torn_block_def committed_bytes_def)
  ultimately show ?thesis by (simp add: checksummed_from_def)
qed

lemma torn_state:
  "runs_on torn_state memory_ops" "geometry torn_state 40 4"
  "memory_inv (l_block_size torn_state) (l_block_count torn_state) (l_dev torn_state)"
  "cache_holds torn_state (l_read_cache torn_state) (memory_content (l_dev torn_state))"
  "2 * 40 + unat (cfg_read_size (l_cfg torn_state)) \<le> 2 ^ 64" "l_dev torn_state = torn_memory"
  "0 < l_block_count torn_state" "1 < l_block_count torn_state"
  by (simp_all add: torn_state_def runs_on_def geometry_def sample_def sample_config_def cache_holds_def sample_cache_def
      memory_inv_def torn_memory_def torn_block_def committed_bytes_def)

lemma torn_content: "memory_content torn_memory 0 = torn_block" "memory_content torn_memory 1 = replicate 40 0"
  by (simp_all add: memory_content_def torn_memory_def torn_block_def committed_bytes_def)

lemma torn_newest: "newest_first (memory_content torn_memory) (0, 1) = (0, 1)"
proof -
  have "revision torn_block = 1" "revision (replicate 40 0) = 0" by code_simp+
  then show ?thesis by (simp add: newest_first_def torn_content lfs_scmp_def del: One_nat_def)
qed

lemma pair_result_first: "log_result (disk (unat (fst pair))) (Some x) \<Longrightarrow> pair_result disk pair res \<Longrightarrow> res = Some (pair, x)"
  unfolding pair_result_def by (auto dest: log_result_unique)

lemma log_prefix_start: "log_prefix blk c \<Longrightarrow> 4 \<le> fst c"
proof -
  assume "log_prefix blk c"
  then obtain st where st: "(tidy_scans blk)\<^sup>*\<^sup>* (scan_start blk) st" "fst c = ls_offset st" unfolding log_prefix_def by blast
  have "ls_offset (scan_start blk) \<le> ls_offset st"
    using st(1) by (induction rule: rtranclp_induct) (auto simp: tidy_scans_def dest!: scans_offset)
  then show ?thesis by (simp add: st(2) scan_start_def)
qed

text \<open>The commit of a block is found whatever was left behind it.\<close>

lemma torn_pair:
  assumes "log_prefix blk c" "take (fst c) (disk (unat (fst pair))) = take (fst c) blk"
    "length (disk (unat (fst pair))) = length blk" "\<not> checksummed_from (disk (unat (fst pair))) (fst c)" "pair_result disk pair res"
  shows "res = Some (pair, c)"
  using torn_result[OF assms(1-3) log_prefix_start[OF assms(1)]] assms(4,5) by (auto dest: pair_result_first)

lemma torn_sample: "pair_result (memory_content torn_memory) (0, 1) res \<Longrightarrow> res = Some ((0, 1), sample_found)"
  by (rule torn_pair[OF clean_prefix])
    (simp_all add: torn_content sample_found_def torn_not_checksummed, simp_all add: torn_block_def clean_block_def committed_bytes_def)

lemma sample_code: "fetch_code sample_found = Inr 0"
  by (simp add: fetch_code_def sample_found_def)

subsection \<open>Properties\<close>

text \<open>C2: the newest state of a pair. Whatever bytes the two blocks of a metadata pair hold, \<open>lfs_dir_fetch\<close>
  ends without running out of its bounds and without touching anything but the read cache and the seed of the
  random numbers. It tries the block with the newer revision first. The directory it fills in is the last commit
  of that block whose checksum is right: where the commit ends, the tag there, the number of entries and the
  tail, all taken from the log up to there and from nothing behind. Only when there is no such commit it takes
  the one of the other block, and when neither has one the pair is \<open>LFS_ERR_CORRUPT\<close>.\<close>

theorem lfs_dir_fetch_newest:
  assumes "runs_on s memory_ops" "geometry s bs bc" "memory_inv (l_block_size s) (l_block_count s) (l_dev s)"
    and "cache_holds s (l_read_cache s) (memory_content (l_dev s))" "2 * bs + unat (cfg_read_size (l_cfg s)) \<le> 2 ^ 64"
    and "fst pair < l_block_count s" "snd pair < l_block_count s" "4 \<le> bs"
  shows "\<exists>r dir' rc d seed res. lfs_dir_fetch s dir pair = (r, dir', s\<lparr>l_read_cache := rc, l_dev := d, l_seed := seed\<rparr>) \<and>
    memory_content d = memory_content (l_dev s) \<and>
    pair_result (memory_content (l_dev s)) (newest_first (memory_content (l_dev s)) pair) res \<and>
    (case res of None \<Rightarrow> r = Inl (Err LFS_ERR_CORRUPT)
     | Some (p, c) \<Rightarrow> r = fetch_code c \<and> dir_of (memory_content (l_dev s)) p c dir')"
proof -
  note r = mem_ready(1)[OF assms(1-5)] and b = mem_ready(2,3)[OF assms(1-5)]
  have "unat (fst pair) < unat (l_block_count s)" "unat (snd pair) < unat (l_block_count s)" "4 \<le> unat (l_block_size s)"
    using assms(6-8) b by (simp_all add: word_less_nat_alt)
  from mem.dir_fetch_result[OF r this] show ?thesis unfolding mem.keeps_log_def by blast
qed

theorem lfs_dir_fetch_newest_witness:
  "\<exists>dir' s'. lfs_dir_fetch torn_state mdir_zero (0, 1) = (Inr 0, dir', s') \<and> m_pair dir' = (0, 1) \<and> unat (m_offset dir') = 23 \<and> m_count dir' = 1"
proof -
  have "fst (0, 1) < l_block_count torn_state" "snd (0, 1) < l_block_count torn_state" "4 \<le> (40 :: nat)" using torn_state(7,8) by simp_all
  note F = lfs_dir_fetch_newest[OF torn_state(1-5) this, of mdir_zero, unfolded torn_state(6) torn_newest]
  then obtain r dir' s' res where R: "lfs_dir_fetch torn_state mdir_zero (0, 1) = (r, dir', s')" "pair_result (memory_content torn_memory) (0, 1) res"
    "case res of None \<Rightarrow> r = Inl (Err LFS_ERR_CORRUPT) | Some (p, c) \<Rightarrow> r = fetch_code c \<and> dir_of (memory_content torn_memory) p c dir'"
    by blast
  then show ?thesis
    using torn_sample[OF R(2)] sample_code by (auto simp: dir_of_def dir_found_def sample_found_def)
qed

text \<open>C1: a power loss costs no commit. Suppose the block of a pair with the newer revision held a commit, \<open>c\<close>, and
  the program lost power while it wrote behind it. Whatever bytes then lie behind \<open>c\<close>, \<open>lfs_dir_fetch\<close> finds
  exactly \<open>c\<close> again, unless these bytes happen to be followed by their own checksum.\<close>

theorem lfs_dir_fetch_torn:
  assumes "runs_on s memory_ops" "geometry s bs bc" "memory_inv (l_block_size s) (l_block_count s) (l_dev s)"
    and "cache_holds s (l_read_cache s) (memory_content (l_dev s))" "2 * bs + unat (cfg_read_size (l_cfg s)) \<le> 2 ^ 64"
    and "fst pair < l_block_count s" "snd pair < l_block_count s" "4 \<le> bs"
    and "disk = memory_content (l_dev s)" "first = newest_first disk pair" "torn = disk (unat (fst first))"
    and "log_prefix blk c" "length blk = bs" "take (fst c) torn = take (fst c) blk" "\<not> checksummed_from torn (fst c)"
  shows "\<exists>dir' s'. lfs_dir_fetch s dir pair = (fetch_code c, dir', s') \<and> dir_of disk first c dir'"
proof -
  note r = mem_ready(1)[OF assms(1-5)] and b = mem_ready(2,3)[OF assms(1-5)]
  have p: "unat (fst pair) < unat (l_block_count s)" "unat (snd pair) < unat (l_block_count s)" "4 \<le> unat (l_block_size s)"
    using assms(6-8) b by (simp_all add: word_less_nat_alt)
  then have "unat (fst first) < unat (l_block_count s)" by (simp add: assms(10) newest_first_def)
  then have len: "length torn = length blk"
    using mem.length_content[OF mem.readyD(3)[OF r]] b assms(9,11,13) by simp
  obtain q dir' s' res where R: "lfs_dir_fetch s dir pair = (q, dir', s')" "pair_result disk first res"
    "case res of None \<Rightarrow> q = Inl (Err LFS_ERR_CORRUPT) | Some (p, c) \<Rightarrow> q = fetch_code c \<and> dir_of disk p c dir'"
    using mem.dir_fetch_result[OF r p, of dir] unfolding assms(9,10) by blast
  have "res = Some (first, c)" using torn_pair[OF assms(12) _ _ _ R(2)] assms(11,14,15) len by simp
  then show ?thesis using R by simp
qed

theorem lfs_dir_fetch_torn_witness:
  "\<exists>dir' s'. lfs_dir_fetch torn_state mdir_zero (0, 1) = (Inr 0, dir', s') \<and> dir_of (memory_content torn_memory) (0, 1) sample_found dir'"
proof -
  have s: "fst (0, 1) < l_block_count torn_state" "snd (0, 1) < l_block_count torn_state" "4 \<le> (40 :: nat)" using torn_state(7,8) by simp_all
  have t: "memory_content torn_memory (unat (fst (0 :: u64, 1 :: u64))) = torn_block" by (simp add: torn_content)
  have f: "fst sample_found = 23" by (simp add: sample_found_def)
  show ?thesis
    using lfs_dir_fetch_torn[OF torn_state(1-5) s refl refl refl clean_prefix, of mdir_zero, unfolded torn_state(6) torn_newest t f]
      torn_not_checksummed sample_code by (simp add: torn_block_def clean_block_def committed_bytes_def)
qed

end
