(* ===== verification/FilterProperties.thy ===== *)
theory FilterProperties
  imports FetchProperties StateProperties
begin

text \<open>
  What the traversal of a log makes of the creations and deletions it meets on the disk.
\<close>

lemma type1_on_disk: "lfs_tag_type1 (x OR 0x80000000) \<noteq> LFS_TYPE_SPLICE"
proof
  assume "lfs_tag_type1 (x OR 0x80000000) = LFS_TYPE_SPLICE"
  then have "bit (lfs_tag_type1 (x OR 0x80000000)) 11 = bit LFS_TYPE_SPLICE 11" by simp
  moreover have "\<not> bit (LFS_TYPE_SPLICE :: u32) 11" by (simp add: bit_numeral_word_iff)
  moreover have "bit (lfs_tag_type1 (x OR 0x80000000)) 11"
    by (simp add: lfs_tag_type1_def bit_simps)
  ultimately show False by simp
qed

subsection \<open>Properties\<close>

text \<open>C32: creations and deletions on the disk do not shift ids. \<open>lfs_dir_traverse\<close> sets bit 31 in every tag that it
  reads from the log, \<open>lfs_tag_type1\<close> keeps that bit, so \<open>lfs_dir_traverse_filter\<close> never takes such a tag for a
  splice: it drops the tag it follows or leaves it as it is. The entries that a rename or a compaction copies
  keep ids that are out of date, and are lost when another entry has been created or deleted before them.\<close>

theorem traverse_filter_ignores_splices:
  assumes "dt_offset f + lfs_tag_dsize (dt_ptag f) < m_offset (dt_dir f)" "traverse_fetch s f = (Inr (Some g), s')"
    and "lfs_dir_traverse_filter filtertag (dt_tag g) = (stop, t)"
  shows "stop \<or> t = filtertag"
proof -
  obtain x where "dt_tag g = x OR 0x80000000"
    using assms(1,2) by (auto simp: traverse_fetch_def Let_def split: prod.splits sum.splits)
  then have "lfs_tag_type1 (dt_tag g) \<noteq> LFS_TYPE_SPLICE" using type1_on_disk by simp
  then show ?thesis using assms(3) by (auto simp: lfs_dir_traverse_filter_def Let_def split: if_splits)
qed

text \<open>The log that begins with the creation of entry 0. A struct of an earlier entry 0 would be one of entry 1 then.\<close>

definition sample_frame :: lfs_dir_traverse_frame where
  "sample_frame = \<lparr>dt_dir = mdir_zero\<lparr>m_pair := (0, 1), m_offset := 23\<rparr>, dt_offset = 0, dt_ptag = 0xffffffff, dt_attrs = [],
     dt_tmask = 0, dt_ttag = 0, dt_begin = 0, dt_end = 0, dt_diff = 0, dt_cb = Cb_user, dt_tag = 0, dt_buffer = Buf_null,
     dt_disk = \<lparr>do_block = 0, do_offset = 0\<rparr>\<rparr>"

theorem traverse_filter_ignores_splices_witness:
  "\<exists>g s' stop t. traverse_fetch torn_state sample_frame = (Inr (Some g), s') \<and> dt_tag g AND 0x7fffffff = LFS_MKTAG LFS_TYPE_CREATE 0 0 \<and>
     lfs_dir_traverse_filter (LFS_MKTAG LFS_TYPE_INLINESTRUCT 0 3) (dt_tag g) = (stop, t) \<and> (stop \<or> t = LFS_MKTAG LFS_TYPE_INLINESTRUCT 0 3) \<and>
     lfs_dir_traverse_filter (LFS_MKTAG LFS_TYPE_INLINESTRUCT 0 3) (LFS_MKTAG LFS_TYPE_CREATE 0 0) = (False, LFS_MKTAG LFS_TYPE_INLINESTRUCT 1 3)"
proof -
  note rd = mem_ready(1)[OF torn_state(1-5)] and b = mem_ready(2,3)[OF torn_state(1-5)]
  have "unat (0 :: u64) < unat (l_block_count torn_state)" "unat (4 :: u64) + 4 \<le> unat (l_block_size torn_state)"
    "0 < unat (4 :: u64)" "unat (4 :: u64) \<le> unat (l_block_size torn_state)"
    unfolding b by simp_all
  from mem.read_local_in[OF rd this] obtain s' where
    s': "read_local torn_state False 4 0 4 4 = (Inr (bytes_at torn_block 4 4), s')" unfolding torn_state(6) by (auto simp: torn_content)
  define g where "g = sample_frame\<lparr>dt_offset := 4, dt_tag := 0xC0100000, dt_disk := \<lparr>do_block = 0, do_offset = 8\<rparr>,
    dt_buffer := Buf_disk \<lparr>do_block = 0, do_offset = 8\<rparr>, dt_ptag := 0xC0100000\<rparr>"
  have "(lfs_frombe32 (le_word (bytes_at torn_block 4 4)) XOR 0xffffffff) OR 0x80000000 = 0xC0100000" by code_simp
  moreover have d: "lfs_tag_dsize 0xffffffff = 4" by code_simp
  ultimately have f: "traverse_fetch torn_state sample_frame = (Inr (Some g), s')"
    using s' by (simp add: traverse_fetch_def sample_frame_def g_def Let_def)
  have "dt_offset sample_frame + lfs_tag_dsize (dt_ptag sample_frame) < m_offset (dt_dir sample_frame)"
    by (simp add: sample_frame_def d)
  note T = traverse_filter_ignores_splices[OF this f]
  obtain stop t where st: "lfs_dir_traverse_filter (LFS_MKTAG LFS_TYPE_INLINESTRUCT 0 3) (dt_tag g) = (stop, t)" by (metis prod.exhaust)
  have "dt_tag g AND 0x7fffffff = LFS_MKTAG LFS_TYPE_CREATE 0 0" unfolding g_def by code_simp
  moreover have "lfs_dir_traverse_filter (LFS_MKTAG LFS_TYPE_INLINESTRUCT 0 3) (LFS_MKTAG LFS_TYPE_CREATE 0 0) = (False, LFS_MKTAG LFS_TYPE_INLINESTRUCT 1 3)"
    by code_simp
  ultimately show ?thesis using f st T[OF st] by blast
qed

end
