(* ===== verification/ByteFile.thy ===== *)
theory ByteFile
  imports Prelude Lfs_Types
begin

text \<open>
  What a file is for its user: an array of bytes with a position (\<open>ideal_step\<close>). The locale \<open>byte_array\<close> is the
  contract of an implementation: as long as the file stays within some room, each operation answers as the array
  does. Then a whole list of operations does (\<open>run_ok\<close>).
\<close>

subsection \<open>An array of bytes with a position\<close>

record byte_file =
  bf_bytes :: "u8 list"
  bf_pos :: nat

datatype file_op = Write "u8 list" | Read "u8 list" | Seek u64 lfs_whence | Truncate u64 | Tell | Size

definition write_at :: "nat \<Rightarrow> u8 list \<Rightarrow> u8 list \<Rightarrow> u8 list" where
  "write_at k bs d = take k (d @ replicate (k - length d) 0) @ bs @ drop (k + length bs) d"

definition ideal_seek :: "u64 \<Rightarrow> byte_file \<Rightarrow> u64 \<Rightarrow> lfs_whence \<Rightarrow> u64 result" where
  "ideal_seek limit a off whence =
     (let base = (case whence of LFS_SEEK_SET \<Rightarrow> 0 | LFS_SEEK_CUR \<Rightarrow> bf_pos a | LFS_SEEK_END \<Rightarrow> length (bf_bytes a));
          npos = of_nat base + off
      in if (whence \<noteq> LFS_SEEK_SET \<and> sint npos < 0) \<or> limit < npos then Inl (Err LFS_ERR_INVAL) else Inr npos)"

text \<open>Each operation answers with a number or an error, and with the buffer it was given to read into.\<close>

fun ideal_step :: "u64 \<Rightarrow> bool \<Rightarrow> file_op \<Rightarrow> byte_file \<Rightarrow> (u64 result \<times> u8 list) \<times> byte_file" where
  "ideal_step limit app (Write bs) a =
     (let k = (if app \<and> bf_pos a < length (bf_bytes a) then length (bf_bytes a) else bf_pos a)
      in ((Inr (of_nat (length bs)), []), \<lparr>bf_bytes = write_at k bs (bf_bytes a), bf_pos = k + length bs\<rparr>))"
| "ideal_step limit app (Read buf) a =
     (let bs = take (length buf) (drop (bf_pos a) (bf_bytes a))
      in ((Inr (of_nat (length bs)), bs @ drop (length bs) buf), a\<lparr>bf_pos := bf_pos a + length bs\<rparr>))"
| "ideal_step limit app (Seek off whence) a =
     (case ideal_seek limit a off whence of
        Inl h \<Rightarrow> ((Inl h, []), a) | Inr npos \<Rightarrow> ((Inr npos, []), a\<lparr>bf_pos := unat npos\<rparr>))"
| "ideal_step limit app (Truncate n) a =
     ((Inr 0, []), a\<lparr>bf_bytes := take (unat n) (bf_bytes a) @ replicate (unat n - length (bf_bytes a)) 0\<rparr>)"
| "ideal_step limit app Tell a = ((Inr (of_nat (bf_pos a)), []), a)"
| "ideal_step limit app Size a = ((Inr (of_nat (length (bf_bytes a))), []), a)"

definition within :: "nat \<Rightarrow> byte_file \<Rightarrow> bool" where
  "within m a \<longleftrightarrow> length (bf_bytes a) \<le> m \<and> bf_pos a \<le> m"

lemma write_at_end: "length d \<le> k \<Longrightarrow> write_at k bs d = d @ replicate (k - length d) 0 @ bs"
  by (simp add: write_at_def)

subsection \<open>Lists of operations\<close>

text \<open>A list of operations, with the answers in their order.\<close>

fun run_ops :: "('op \<Rightarrow> 's \<Rightarrow> 'x \<times> 's) \<Rightarrow> 'op list \<Rightarrow> 's \<Rightarrow> 'x list \<times> 's" where
  "run_ops step [] s = ([], s)"
| "run_ops step (op # ops) s = (case step op s of (x, s) \<Rightarrow> (case run_ops step ops s of (xs, s) \<Rightarrow> (x # xs, s)))"

text \<open>A file that is an array of bytes for as long as it stays within \<open>room\<close>: what one operation does, a list of them does.\<close>

fun op_fits :: "nat \<Rightarrow> u64 \<Rightarrow> bool \<Rightarrow> file_op \<Rightarrow> byte_file \<Rightarrow> bool" where
  "op_fits room limit app op a \<longleftrightarrow>
     within room (snd (ideal_step limit app op a)) \<and> (case op of Read buf \<Rightarrow> length buf < 2 ^ 64 | _ \<Rightarrow> True)"

fun stays :: "nat \<Rightarrow> u64 \<Rightarrow> bool \<Rightarrow> file_op list \<Rightarrow> byte_file \<Rightarrow> bool" where
  "stays room limit app [] a = True"
| "stays room limit app (op # ops) a \<longleftrightarrow> op_fits room limit app op a \<and> stays room limit app ops (snd (ideal_step limit app op a))"

locale byte_array =
  fixes holds :: "'s \<Rightarrow> byte_file \<Rightarrow> bool" and step :: "file_op \<Rightarrow> 's \<Rightarrow> (u64 result \<times> u8 list) \<times> 's"
    and room :: nat and limit :: u64 and app :: bool
  assumes step_ok: "holds s a \<Longrightarrow> op_fits room limit app op a \<Longrightarrow>
    \<exists>s'. step op s = (fst (ideal_step limit app op a), s') \<and> holds s' (snd (ideal_step limit app op a))"
begin

lemma run_ok:
  "holds s a \<Longrightarrow> stays room limit app ops a \<Longrightarrow>
    \<exists>s'. run_ops step ops s = (fst (run_ops (ideal_step limit app) ops a), s') \<and> holds s' (snd (run_ops (ideal_step limit app) ops a))"
proof (induction ops arbitrary: s a)
  case (Cons op ops)
  obtain x a1 where i: "ideal_step limit app op a = (x, a1)" by (metis prod.exhaust)
  obtain s1 where s1: "step op s = (x, s1)" "holds s1 a1" using step_ok[OF Cons.prems(1), of op] Cons.prems(2) i by auto
  obtain s2 where "run_ops step ops s1 = (fst (run_ops (ideal_step limit app) ops a1), s2)" "holds s2 (snd (run_ops (ideal_step limit app) ops a1))"
    using Cons.IH[OF s1(2)] Cons.prems(2) i by auto
  then show ?case using s1(1) i by (auto split: prod.splits)
qed simp

end

end
