(* ===== verification/InlineFile.thy ===== *)
theory InlineFile
  imports Toplevel ByteFile SignedWords
begin

text \<open>
  An open file whose content is kept inline is an array of bytes (\<open>ByteFile\<close>). \<open>inline_file\<close> describes it in the
  state of littlefs: its bytes are in the cache of the file, and its flags say whether it was last read or
  written. Each operation of \<open>lfs_file.cpp\<close> on such a file is followed through its loops and does what it means
  (\<open>rawread_inline\<close>, \<open>rawwrite_inline\<close>, \<open>rawseek_inline\<close>, \<open>rawtruncate_inline\<close>); the public operations with their
  lock are the interpretation of \<open>byte_array\<close>. A file stays inline for as long as it is not larger than
  \<open>inline_max\<close>.
\<close>

subsection \<open>An open inline file\<close>

definition small :: "'d lfs \<Rightarrow> nat" where
  "small s = unat (inline_max s)"

definition inline_content :: "lfs_file \<Rightarrow> byte_file" where
  "inline_content f = \<lparr>bf_bytes = take (unat (lfs_file_rawsize f)) (c_buffer (f_cache f)), bf_pos = unat (f_pos f)\<rparr>"

definition inline_file :: "'d lfs \<Rightarrow> lfs_file \<Rightarrow> bool" where
  "inline_file s f \<longleftrightarrow>
     has_flag LFS_F_INLINE f \<and> has_flag LFS_O_RDONLY f \<and> has_flag LFS_O_WRONLY f \<and>
     c_block (f_cache f) = LFS_BLOCK_INLINE \<and> c_offset (f_cache f) = 0 \<and> c_size (f_cache f) = cfg_cache_size (l_cfg s) \<and>
     length (c_buffer (f_cache f)) = unat (cfg_cache_size (l_cfg s)) \<and>
     lfs_file_rawsize f \<le> inline_max s \<and> f_pos f \<le> inline_max s \<and>
     (has_flag LFS_F_READING f \<longrightarrow> \<not> has_flag LFS_F_WRITING f \<and> (f_pos f < z_size (f_ctz f) \<longrightarrow> f_offset f = f_pos f)) \<and>
     (has_flag LFS_F_WRITING f \<longrightarrow> f_offset f = f_pos f \<and> f_block f = LFS_BLOCK_INLINE \<and> 0 < f_pos f \<and>
        (has_flag LFS_O_APPEND f \<longrightarrow> z_size (f_ctz f) \<le> f_pos f))"

text \<open>The configuration: inline files fit into a block with its skip list, and into the largest size of a file.\<close>

definition small_room :: "'d lfs \<Rightarrow> bool" where
  "small_room s \<longleftrightarrow> small s + 16 < unat (l_block_size s) \<and> unat (l_block_size s) < 2 ^ 63 \<and> inline_max s \<le> l_file_max_size s \<and>
     cfg_block_size (l_cfg s) = l_block_size s \<and> length (c_buffer (l_read_cache s)) = unat (cfg_cache_size (l_cfg s))"

text \<open>
  An operation changes the node \<open>p\<close> of the list of open nodes and the count of blocks to look at;
  truncating also uses the read cache as a buffer, and leaves it empty then.
\<close>

definition same_buffer :: "lfs_cache \<Rightarrow> lfs_cache \<Rightarrow> bool" where
  "same_buffer rc rc' \<longleftrightarrow> length (c_buffer rc') = length (c_buffer rc) \<and> (rc' = rc \<or> c_block rc' = LFS_BLOCK_NULL)"

definition touches :: "nat \<Rightarrow> 'd lfs \<Rightarrow> 'd lfs \<Rightarrow> bool" where
  "touches p s s' \<longleftrightarrow> (\<exists>ml fr rc. s' = s\<lparr>l_metadata_list := ml, l_free := fr, l_read_cache := rc\<rparr> \<and>
     (\<forall>q. q \<noteq> p \<longrightarrow> map_of ml q = map_of (l_metadata_list s) q) \<and> same_buffer (l_read_cache s) rc)"

definition becomes :: "nat \<Rightarrow> 'd lfs \<Rightarrow> lfs_file \<Rightarrow> 'd lfs \<Rightarrow> bool" where
  "becomes p s f s' \<longleftrightarrow> touches p s s' \<and> file_at s' p = Inr f"

lemma touches_refl: "touches p s s"
  unfolding touches_def same_buffer_def by (intro exI[of _ "l_metadata_list s"] exI[of _ "l_free s"] exI[of _ "l_read_cache s"]) simp

lemma touches_trans:
  assumes "touches p s s'" "touches p s' s''"
  shows "touches p s s''"
proof -
  obtain ml fr rc where 1: "s' = s\<lparr>l_metadata_list := ml, l_free := fr, l_read_cache := rc\<rparr>"
    "\<forall>q. q \<noteq> p \<longrightarrow> map_of ml q = map_of (l_metadata_list s) q" "same_buffer (l_read_cache s) rc"
    using assms(1) unfolding touches_def by blast
  obtain ml' fr' rc' where "s'' = s'\<lparr>l_metadata_list := ml', l_free := fr', l_read_cache := rc'\<rparr>"
    "\<forall>q. q \<noteq> p \<longrightarrow> map_of ml' q = map_of (l_metadata_list s') q" "same_buffer (l_read_cache s') rc'"
    using assms(2) unfolding touches_def by blast
  with 1 show ?thesis unfolding touches_def
    by (intro exI[of _ ml'] exI[of _ fr'] exI[of _ rc']) (auto simp: same_buffer_def)
qed

lemma touchesD:
  assumes "touches p s s'"
  shows "l_cfg s' = l_cfg s" "l_block_size s' = l_block_size s" "l_file_max_size s' = l_file_max_size s" "l_dev s' = l_dev s"
    "inline_max s' = inline_max s" "small s' = small s" "small_room s' = small_room s" "inline_file s' = inline_file s"
proof -
  obtain ml fr rc where s': "s' = s\<lparr>l_metadata_list := ml, l_free := fr, l_read_cache := rc\<rparr>" and b: "same_buffer (l_read_cache s) rc"
    using assms unfolding touches_def by blast
  show e: "l_cfg s' = l_cfg s" "l_block_size s' = l_block_size s" "l_file_max_size s' = l_file_max_size s" "l_dev s' = l_dev s"
    unfolding s' by simp_all
  show m: "inline_max s' = inline_max s" unfolding inline_max_def e ..
  then show "small s' = small s" by (simp only: small_def)
  have "length (c_buffer (l_read_cache s')) = length (c_buffer (l_read_cache s))" using b unfolding s' same_buffer_def by simp
  then show "small_room s' = small_room s" unfolding small_room_def small_def m e by simp
  show "inline_file s' = inline_file s" unfolding inline_file_def[abs_def] m e ..
qed

lemma map_of_replace_node: "q \<noteq> p \<Longrightarrow> map_of (replace_node ml p e) q = map_of ml q"
  by (induction ml p e rule: replace_node.induct) auto

lemma find_replace: "find_file ml p = Inr f \<Longrightarrow> find_file (replace_node ml p (File g)) p = Inr g"
  by (induction ml p rule: find_file.induct) (auto split: if_splits)

lemma becomes_set_file: "file_at s p = Inr f \<Longrightarrow> becomes p s g (set_file p g s)"
  unfolding becomes_def touches_def file_at_def set_file_def
  by (intro conjI exI[of _ "replace_node (l_metadata_list s) p (File g)"] exI[of _ "l_free s"] exI[of _ "l_read_cache s"])
    (simp_all add: map_of_replace_node find_replace same_buffer_def)

lemma becomes_ack: "becomes p s f s' \<Longrightarrow> becomes p s f (lfs_alloc_ack s')"
proof -
  assume "becomes p s f s'"
  then obtain ml fr rc where "s' = s\<lparr>l_metadata_list := ml, l_free := fr, l_read_cache := rc\<rparr>" "find_file ml p = Inr f"
    "\<forall>q. q \<noteq> p \<longrightarrow> map_of ml q = map_of (l_metadata_list s) q" "same_buffer (l_read_cache s) rc"
    by (auto simp: becomes_def touches_def file_at_def)
  then show ?thesis
    unfolding becomes_def touches_def file_at_def lfs_alloc_ack_def
    by (intro conjI exI[of _ ml] exI[of _ "fr\<lparr>fr_ack := l_block_count s\<rparr>"] exI[of _ rc]) simp_all
qed

lemma becomes_refl: "file_at s p = Inr f \<Longrightarrow> becomes p s f s"
  by (simp add: becomes_def touches_refl)

lemma becomes_trans: "becomes p s f s' \<Longrightarrow> becomes p s' g s'' \<Longrightarrow> becomes p s g s''"
  unfolding becomes_def using touches_trans by blast

lemma becomes_modify: "file_at s p = Inr f \<Longrightarrow> \<exists>s'. modify_file p g s = (Inr (), s') \<and> becomes p s (g f) s'"
  by (simp add: modify_file_def becomes_set_file)

lemma becomes_isopen: "file_at s p = Inr f \<Longrightarrow> lfs_mlist_isopen (l_metadata_list s) p"
proof -
  have "find_file ml p = Inr f \<Longrightarrow> lfs_mlist_isopen ml p" for ml by (induction ml) (auto split: if_splits)
  then show "file_at s p = Inr f \<Longrightarrow> lfs_mlist_isopen (l_metadata_list s) p" by (simp add: file_at_def)
qed

lemma flags [simp]:
  "has_flag x (raise_flag y f) \<longleftrightarrow> has_flag x f \<or> y AND x \<noteq> 0"
  "has_flag x (f\<lparr>f_pos := v\<rparr>) = has_flag x f" "has_flag x (f\<lparr>f_offset := v\<rparr>) = has_flag x f"
  "has_flag x (f\<lparr>f_block := b\<rparr>) = has_flag x f" "has_flag x (f\<lparr>f_cache := c\<rparr>) = has_flag x f" "has_flag x (f\<lparr>f_ctz := z\<rparr>) = has_flag x f"
proof -
  have "(f_flags f OR y) AND x = 0 \<longleftrightarrow> f_flags f AND x = 0 \<and> y AND x = 0"
    by (auto simp: bit_eq_iff bit_simps)
  then show "has_flag x (raise_flag y f) \<longleftrightarrow> has_flag x f \<or> y AND x \<noteq> 0" by (auto simp: has_flag_def raise_flag_def)
qed (simp_all add: has_flag_def)

lemma clear_flag_other [simp]: "x AND y = 0 \<Longrightarrow> has_flag x (clear_flag y f) = has_flag x f"
proof -
  assume "x AND y = 0"
  then have "(f_flags f AND NOT y) AND x = f_flags f AND x" by (auto simp: bit_eq_iff bit_simps)
  then show ?thesis by (simp add: has_flag_def clear_flag_def)
qed

lemma clear_flag_self [simp]: "\<not> has_flag x (clear_flag x f)"
proof -
  have "(f_flags f AND NOT x) AND x = 0" by (auto simp: bit_eq_iff bit_simps)
  then show ?thesis by (simp add: has_flag_def clear_flag_def)
qed

lemma flag_sel [simp]:
  "f_pos (raise_flag x f) = f_pos f" "f_offset (raise_flag x f) = f_offset f" "f_block (raise_flag x f) = f_block f"
  "f_cache (raise_flag x f) = f_cache f" "f_ctz (raise_flag x f) = f_ctz f"
  "f_pos (clear_flag x f) = f_pos f" "f_offset (clear_flag x f) = f_offset f" "f_block (clear_flag x f) = f_block f"
  "f_cache (clear_flag x f) = f_cache f" "f_ctz (clear_flag x f) = f_ctz f"
  by (simp_all add: raise_flag_def clear_flag_def)

lemma access_flags: "f_flags f AND LFS_O_RDONLY = LFS_O_RDONLY \<longleftrightarrow> has_flag LFS_O_RDONLY f"
  "f_flags f AND LFS_O_WRONLY = LFS_O_WRONLY \<longleftrightarrow> has_flag LFS_O_WRONLY f"
proof -
  have "f_flags f AND 1 = 0 \<or> f_flags f AND 1 = 1" by (simp add: and_one_eq mod_2_eq_odd)
  then show "f_flags f AND LFS_O_RDONLY = LFS_O_RDONLY \<longleftrightarrow> has_flag LFS_O_RDONLY f" unfolding has_flag_def by auto
  have "f_flags f AND 2 = (if bit (f_flags f) 1 then 2 else 0)" by (rule bit_word_eqI) (auto simp: bit_simps bit_2_iff)
  then show "f_flags f AND LFS_O_WRONLY = LFS_O_WRONLY \<longleftrightarrow> has_flag LFS_O_WRONLY f" unfolding has_flag_def by simp
qed

subsection \<open>The cache of an inline file\<close>

lemma bd_write_inline:
  assumes "c_block wc = LFS_BLOCK_INLINE" "c_offset wc = 0" "c_size wc = cfg_cache_size (l_cfg s)"
    "length (c_buffer wc) = unat (cfg_cache_size (l_cfg s))" "unat pos + length data \<le> unat (cfg_cache_size (l_cfg s))"
    "unat pos + length data \<le> unat (l_block_size s)"
  shows "lfs_bd_write s wc rc v LFS_BLOCK_INLINE pos data = (Inr (), wc\<lparr>c_buffer := blit (unat pos) data (c_buffer wc)\<rparr>, rc, s)"
proof (cases "data = []")
  case False
  have n: "unat (of_nat (length data) :: u64) = length data"
    using assms(6) by (intro unat_of_nat_u64) (meson le_less_trans unat_u64_less(1) add_leD2)
  have pn: "unat (pos + of_nat (length data)) = unat pos + length data"
    using assms(6) by (intro unat_add_of_nat_u64) (meson le_less_trans unat_u64_less(1))
  let ?c = "cfg_cache_size (l_cfg s)"
  have c: "unat (?c - pos) = unat ?c - unat pos" using assms(5) by (intro unat_sub_u64) simp
  have d: "lfs_min (of_nat (length data)) (?c - (pos - c_offset wc)) = of_nat (length data)"
    using assms(5) n c unfolding assms(2) by (auto simp: lfs_min_def word_less_nat_alt word_eq_nat_alt)
  have m: "lfs_max (c_size wc) (pos + of_nat (length data) - c_offset wc) = ?c"
    using assms(5) pn unfolding assms(2,3) by (simp add: lfs_max_def word_less_nat_alt word_eq_nat_alt)
  have l: "0 < (of_nat (length data) :: u64)" "pos < c_offset wc + ?c" "c_offset wc \<le> pos"
    using length_greater_0_conv[THEN iffD2, OF False] assms(2,5) n by (simp_all add: word_less_nat_alt del: length_greater_0_conv)
  have "wc\<lparr>c_buffer := b, c_size := ?c\<rparr> = wc\<lparr>c_buffer := b\<rparr>" for b using assms(3) by simp
  moreover have "lfs_bd_flush s (wc\<lparr>c_buffer := b\<rparr>) rc v = (Inr (), wc\<lparr>c_buffer := b\<rparr>, rc, s)" for b
    by (simp add: lfs_bd_flush_def assms(1))
  moreover have "lfs_bd_write_loop (Suc k) s wc rc v block off [] = (Inr (), wc, rc, s)" for k wc block off by simp
  moreover obtain k where "2 * length data = Suc k" using False by (cases data) simp_all
  ultimately have "lfs_bd_write_loop (Suc (2 * length data)) s wc rc v LFS_BLOCK_INLINE pos data =
      (Inr (), wc\<lparr>c_buffer := blit (unat pos) data (c_buffer wc)\<rparr>, rc, s)"
    using assms(1,2,4,5) d m l n by (simp add: Let_def mem_put_ok)
  moreover have "pos + of_nat (length data) \<le> l_block_size s" using assms(6) pn by (simp add: word_le_nat_alt)
  ultimately show ?thesis by (simp add: lfs_bd_write_def)
qed (use assms in \<open>simp add: lfs_bd_write_def word_le_nat_alt\<close>)

lemma getread_inline:
  assumes "c_block rc = LFS_BLOCK_INLINE" "c_offset rc = 0" "c_size rc = cfg_cache_size (l_cfg s)"
    "length (c_buffer rc) = unat (cfg_cache_size (l_cfg s))" "unat pos + length buffer \<le> unat (cfg_cache_size (l_cfg s))"
    "unat pos + length buffer \<le> unat (l_block_size s)"
  shows "lfs_dir_getread s dir None rc hint gmask gtag pos buffer =
    (Inr (), take (length buffer) (drop (unat pos) (c_buffer rc)), rc, s)"
proof (cases "buffer = []")
  case False
  have n: "unat (of_nat (length buffer) :: u64) = length buffer"
    using assms(6) by (intro unat_of_nat_u64) (meson le_less_trans unat_u64_less(1) add_leD2)
  have pn: "unat (pos + of_nat (length buffer)) = unat pos + length buffer"
    using assms(6) by (intro unat_add_of_nat_u64) (meson le_less_trans unat_u64_less(1))
  let ?c = "cfg_cache_size (l_cfg s)" and ?b = "take (length buffer) (drop (unat pos) (c_buffer rc))"
  have c: "unat (?c - pos) = unat ?c - unat pos" using assms(5) by (intro unat_sub_u64) simp
  have d: "lfs_min (of_nat (length buffer)) (?c - pos) = of_nat (length buffer)"
    using assms(2,5) n c by (auto simp: lfs_min_def word_less_nat_alt word_eq_nat_alt)
  have l: "0 < (of_nat (length buffer) :: u64)" "pos < ?c"
    using length_greater_0_conv[THEN iffD2, OF False] assms(5) n by (simp_all add: word_less_nat_alt del: length_greater_0_conv)
  have i: "inline_diff rc pos (of_nat (length buffer)) = Inl (Inr ?b)"
    using assms l d n by (simp add: inline_diff_def cache_diff_def mem_get_ok)
  have b: "length ?b = length buffer" using assms(4,5) by simp
  have "\<not> l_block_size s < pos + of_nat (length buffer)" using assms(6) pn by (simp add: word_less_nat_alt)
  moreover obtain k where "2 * length buffer = Suc k" using False by (cases buffer) simp_all
  ultimately show ?thesis
    using l i n b by (simp add: lfs_dir_getread_def Let_def blit_whole)
qed (use assms in \<open>simp add: lfs_dir_getread_def word_less_nat_alt\<close>)

subsection \<open>Flushing\<close>

definition flushed :: "lfs_file \<Rightarrow> lfs_file" where
  "flushed f =
     (if has_flag LFS_F_READING f then clear_flag LFS_F_READING f
      else if has_flag LFS_F_WRITING f
      then (raise_flag LFS_F_DIRTY (clear_flag LFS_F_WRITING
             (f\<lparr>f_ctz := \<lparr>z_head = f_block f, z_size = lfs_max (f_pos f) (z_size (f_ctz f))\<rparr>\<rparr>)))
      else f)"

lemma inline_fileD:
  assumes "inline_file s f"
  shows "has_flag LFS_F_INLINE f" "has_flag LFS_O_RDONLY f" "has_flag LFS_O_WRONLY f" "unat (lfs_file_rawsize f) \<le> small s"
    "unat (f_pos f) \<le> small s" "has_flag LFS_F_READING f \<Longrightarrow> \<not> has_flag LFS_F_WRITING f"
  using assms by (simp_all add: inline_file_def small_def word_le_nat_alt)

lemma small_cache: "small s \<le> unat (cfg_cache_size (l_cfg s))"
  by (simp add: small_def inline_max_def lfs_min_def word_less_nat_alt not_less)

lemma inline_content:
  assumes "inline_file s f"
  shows "length (bf_bytes (inline_content f)) = unat (lfs_file_rawsize f)" "within (small s) (inline_content f)"
proof -
  have "length (c_buffer (f_cache f)) = unat (cfg_cache_size (l_cfg s))" using assms by (simp add: inline_file_def)
  then show l: "length (bf_bytes (inline_content f)) = unat (lfs_file_rawsize f)"
    using inline_fileD(4)[OF assms] small_cache[of s] by (simp add: inline_content_def)
  show "within (small s) (inline_content f)" unfolding within_def l using inline_fileD(4,5)[OF assms] by (simp add: inline_content_def)
qed

lemma file_flush_inline:
  assumes "file_at s p = Inr f" "inline_file s f"
  shows "\<exists>s'. lfs_file_flush grow s p = (Inr (), s') \<and> becomes p s (flushed f) s'"
proof -
  note F = inline_fileD(1,6)[OF assms(2)]
  consider "has_flag LFS_F_READING f" "\<not> has_flag LFS_F_WRITING f" | "\<not> has_flag LFS_F_READING f" "has_flag LFS_F_WRITING f"
    | "\<not> has_flag LFS_F_READING f" "\<not> has_flag LFS_F_WRITING f" using F(2) by blast
  then show ?thesis
  proof cases
    case 1
    obtain s1 where s1: "modify_file p (\<lambda>f. clear_flag LFS_F_READING
               (if \<not> has_flag LFS_F_INLINE f then f\<lparr>f_cache := lfs_cache_drop (f_cache f)\<rparr> else f)) s = (Inr (), s1)"
      "becomes p s (clear_flag LFS_F_READING f) s1"
      using becomes_modify[OF assms(1), of "\<lambda>f. clear_flag LFS_F_READING
               (if \<not> has_flag LFS_F_INLINE f then f\<lparr>f_cache := lfs_cache_drop (f_cache f)\<rparr> else f)"] F(1) by auto
    moreover have "file_at s1 p = Inr (clear_flag LFS_F_READING f)" using s1(2) by (simp add: becomes_def)
    ultimately show ?thesis using 1 assms(1) by (simp add: lfs_file_flush_def get_file_def flushed_def)
  next
    case 2
    let ?f = "f\<lparr>f_pos := lfs_max (f_pos f) (z_size (f_ctz f))\<rparr>"
    obtain s1 where s1: "modify_file p (\<lambda>f. f\<lparr>f_pos := lfs_max (f_pos f) (z_size (f_ctz f))\<rparr>) s = (Inr (), s1)" "becomes p s ?f s1"
      using becomes_modify[OF assms(1)] by blast
    have f1: "file_at s1 p = Inr ?f" using s1(2) by (simp add: becomes_def)
    from becomes_modify[OF f1] obtain s2 where s2: "modify_file p (\<lambda>f'. (raise_flag LFS_F_DIRTY (clear_flag LFS_F_WRITING
                  (f'\<lparr>f_ctz := \<lparr>z_head = f_block f', z_size = f_pos f'\<rparr>\<rparr>)))\<lparr>f_pos := f_pos f\<rparr>) s1 = (Inr (), s2)"
      "becomes p s1 ((raise_flag LFS_F_DIRTY (clear_flag LFS_F_WRITING
                  (?f\<lparr>f_ctz := \<lparr>z_head = f_block ?f, z_size = f_pos ?f\<rparr>\<rparr>)))\<lparr>f_pos := f_pos f\<rparr>) s2" by blast
    have "lfs_file_flush grow s p = (Inr (), s2)"
      using 2 F(1) assms(1) s1(1) s2(1) by (simp add: lfs_file_flush_def get_file_def)
    moreover have "(raise_flag LFS_F_DIRTY (clear_flag LFS_F_WRITING
                  (?f\<lparr>f_ctz := \<lparr>z_head = f_block ?f, z_size = f_pos ?f\<rparr>\<rparr>)))\<lparr>f_pos := f_pos f\<rparr> = flushed f"
      using 2 by (simp add: flushed_def raise_flag_def clear_flag_def)
    ultimately show ?thesis using becomes_trans[OF s1(2) s2(2)] by auto
  next
    case 3
    then show ?thesis using assms(1) becomes_refl by (simp add: lfs_file_flush_def get_file_def flushed_def)
  qed
qed

lemma inline_file_flushed:
  assumes "inline_file s f"
  shows "inline_file s (flushed f)" "inline_content (flushed f) = inline_content f" "\<not> has_flag LFS_F_READING (flushed f)" "\<not> has_flag LFS_F_WRITING (flushed f)"
    "has_flag LFS_O_APPEND (flushed f) = has_flag LFS_O_APPEND f" "f_pos (flushed f) = f_pos f" "z_size (f_ctz (flushed f)) = lfs_file_rawsize f"
  using assms unfolding inline_file_def flushed_def lfs_file_rawsize_def inline_content_def by (auto simp: lfs_max_def split: if_splits)


subsection \<open>Reading\<close>

lemma room_pos: "small_room s \<Longrightarrow> unat x \<le> small s \<Longrightarrow> x < l_block_size s"
  by (simp add: small_room_def word_less_nat_alt)

lemma flushedread_inline:
  assumes "inline_file s f" "small_room s" "\<not> has_flag LFS_F_WRITING f" "length buf < 2 ^ 64"
    "bs = take (length buf) (drop (unat (f_pos f)) (bf_bytes (inline_content f)))"
  shows "\<exists>f'. lfs_file_flushedread s f buf = (Inr (of_nat (length bs)), bs @ drop (length bs) buf, f', s) \<and> inline_file s f' \<and>
    inline_content f' = (inline_content f)\<lparr>bf_pos := unat (f_pos f) + length bs\<rparr> \<and> \<not> has_flag LFS_F_WRITING f' \<and>
    has_flag LFS_O_APPEND f' = has_flag LFS_O_APPEND f"
proof -
  have sz: "lfs_file_rawsize f = z_size (f_ctz f)" using assms(3) by (simp add: lfs_file_rawsize_def)
  note F = assms(1)[unfolded inline_file_def] and len = inline_content(1)[OF assms(1), unfolded sz]
  show ?thesis
  proof (cases "z_size (f_ctz f) \<le> f_pos f")
    case True
    then have "bs = []" using len assms(5) by (simp add: word_le_nat_alt)
    then show ?thesis using True assms(1,3) by (intro exI[of _ f]) (simp add: lfs_file_flushedread_def inline_content_def)
  next
    case False
    define n where "n = lfs_min (of_nat (length buf)) (z_size (f_ctz f) - f_pos f)"
    have sub: "unat (z_size (f_ctz f) - f_pos f) = unat (z_size (f_ctz f)) - unat (f_pos f)"
      using False by (intro unat_sub_u64) (simp add: word_le_nat_alt)
    have n: "unat n = length bs"
      using unat_of_nat_u64[OF assms(4)] sub len assms(5) by (simp add: n_def lfs_min_def word_less_nat_alt min_def)
    have small: "unat (z_size (f_ctz f)) \<le> small s" "unat (f_pos f) \<le> small s" using inline_fileD(4,5)[OF assms(1)] sz by simp_all
    have nb: "unat (f_pos f) + length bs \<le> unat (z_size (f_ctz f))"
      using len False assms(5) by (simp add: word_le_nat_alt)
    show ?thesis
    proof (cases "bs = []")
      case True
      then have "n = 0" using n by (simp add: word_eq_nat_alt)
      then have "lfs_file_flushedread s f buf = (Inr 0, buf, f, s)"
        using False by (simp add: lfs_file_flushedread_def n_def[symmetric] Let_def)
      then show ?thesis using True assms(1,3) by (intro exI[of _ f]) (simp add: inline_content_def)
    next
    case nonempty: False
    note b = room_pos[OF assms(2) small(2)]
    have room: "unat (z_size (f_ctz f)) \<le> unat (l_block_size s)" "unat (z_size (f_ctz f)) \<le> unat (cfg_cache_size (l_cfg s))"
      using small(1) assms(2) small_cache[of s] by (simp_all add: small_room_def)
    obtain f1 where f1: "flushedread_locate s f = (Inr (), f1, s)" "f_offset f1 = f_pos f" "f_pos f1 = f_pos f" "f_cache f1 = f_cache f" "f_ctz f1 = f_ctz f"
      "has_flag LFS_F_READING f1" "\<And>x. LFS_F_READING AND x = 0 \<Longrightarrow> has_flag x f1 = has_flag x f"
    proof (cases "has_flag LFS_F_READING f")
      case True
      moreover have "f_pos f < z_size (f_ctz f)" using False by simp
      ultimately show ?thesis using F b by (intro that[of f]) (auto simp: flushedread_locate_def)
    next
      case False
      then show ?thesis using F b
        by (intro that[of "raise_flag LFS_F_READING (f\<lparr>f_block := LFS_BLOCK_INLINE, f_offset := f_pos f\<rparr>)"]) (simp_all add: flushedread_locate_def)
    qed
    define f2 where "f2 = f1\<lparr>f_pos := f_pos f + n, f_offset := f_pos f + n\<rparr>"
    have diff: "lfs_min n (l_block_size s - f_offset f1) = n"
      using nb room(1) n b by (auto simp: lfs_min_def f1(2) word_less_nat_alt word_eq_nat_alt unat_sub_u64 word_le_nat_alt)
    obtain ch where ch: "take (unat n) (drop 0 buf) = ch" "length ch = length bs" using n assms(5) by simp
    have c: "has_flag LFS_F_INLINE f1" "c_block (f_cache f1) = LFS_BLOCK_INLINE" "c_offset (f_cache f1) = 0" "c_size (f_cache f1) = cfg_cache_size (l_cfg s)"
      "length (c_buffer (f_cache f1)) = unat (cfg_cache_size (l_cfg s))" using F f1(7) by (simp_all add: f1(4))
    have "lfs_dir_getread s (ml_metadata f1) None (f_cache f1) (l_block_size s) (LFS_MKTAG 0xfff 0x1ff 0)
        (LFS_MKTAG LFS_TYPE_INLINESTRUCT (ucast (ml_id f1)) 0) (f_pos f) ch =
      (Inr (), take (length ch) (drop (unat (f_pos f)) (c_buffer (f_cache f1))), f_cache f1, s)"
      using nb room unfolding ch(2)[symmetric] by (intro getread_inline c(2-5)) linarith+
    moreover have "take (length bs) (drop (unat (f_pos f)) (c_buffer (f_cache f1))) = bs"
      using nb assms(5) by (simp add: f1(4) inline_content_def sz take_drop min_def)
    ultimately have "flushedread_chunk s f1 ch = (Inr (), bs, f1, s)"
      by (simp add: flushedread_chunk_def c(1) ch(2) f1(2))
    moreover have "0 < n" using nonempty n by (simp add: word_less_nat_alt)
    moreover obtain k where "unat n = Suc k" using \<open>0 < n\<close> by (cases "unat n") (simp_all add: word_less_nat_alt)
    ultimately have loop: "flushedread_loop (Suc (unat n)) s f buf 0 n = (Inr (), blit 0 bs buf, f2, s)"
      using f1(1,2,3) diff ch(1) n by (simp add: f2_def)
    have nbs: "n = of_nat (length bs)" unfolding n[symmetric] by simp
    have "lfs_file_flushedread s f buf = (Inr (of_nat (length bs)), bs @ drop (length bs) buf, f2, s)"
      using False by (simp add: lfs_file_flushedread_def n_def[symmetric] Let_def loop blit_def del: flushedread_loop.simps) (simp add: nbs)
    moreover have pn: "unat (f_pos f + n) = unat (f_pos f) + length bs" using nb n room(1) by (subst unat_add_u64) (simp_all add: le_less_trans)
    moreover have w: "\<not> has_flag LFS_F_WRITING f2" "lfs_file_rawsize f2 = z_size (f_ctz f)" using assms(3) f1(5,7) by (simp_all add: f2_def lfs_file_rawsize_def)
    moreover have "inline_file s f2"
      using F f1(4-7) assms(3) small nb pn w unfolding inline_file_def by (simp add: f2_def word_le_nat_alt small_def)
    moreover have "inline_content f2 = (inline_content f)\<lparr>bf_pos := unat (f_pos f) + length bs\<rparr>"
      using w(2) pn f1(4) by (simp add: inline_content_def f2_def sz)
    ultimately show ?thesis using assms(3) f1(7) by (intro exI[of _ f2]) (simp add: f2_def)
    qed
  qed
qed


text \<open>What an operation makes of the file: the state changes at \<open>p\<close> only, and the file is the array \<open>a\<close>.\<close>

definition simulates :: "nat \<Rightarrow> 'd lfs \<Rightarrow> lfs_file \<Rightarrow> 'd lfs \<Rightarrow> byte_file \<Rightarrow> bool" where
  "simulates p s f s' a \<longleftrightarrow> (\<exists>f'. becomes p s f' s' \<and> inline_file s f' \<and> inline_content f' = a \<and>
     has_flag LFS_O_APPEND f' = has_flag LFS_O_APPEND f)"

lemma flush_state:
  assumes "file_at s p = Inr f" "inline_file s f"
  obtains s' where "lfs_file_flush grow s p = (Inr (), s')" "becomes p s (flushed f) s'" "file_at s' p = Inr (flushed f)" "inline_file s' (flushed f)"
    "small_room s' = small_room s" "inline_file s' = inline_file s"
proof -
  obtain s' where s': "lfs_file_flush grow s p = (Inr (), s')" "becomes p s (flushed f) s'" using file_flush_inline[OF assms] by blast
  note T = touchesD[of p s s'] and b = s'(2)[unfolded becomes_def]
  show ?thesis using that[OF s'] b T inline_file_flushed(1)[OF assms(2)] by simp
qed

lemma rawread_inline:
  assumes "file_at s p = Inr f" "inline_file s f" "small_room s" "length buf < 2 ^ 64"
    "ideal_step limit app (Read buf) (inline_content f) = ((r, buf'), a)"
  shows "\<exists>s'. lfs_file_rawread grow s p buf = (r, buf', s') \<and> simulates p s f s' a"
proof -
  have ra: "f_flags f AND LFS_O_RDONLY = LFS_O_RDONLY" using inline_fileD(2)[OF assms(2)] access_flags by simp
  obtain s1 f1 where f1: "(if has_flag LFS_F_WRITING f then lfs_file_flush grow s p else (Inr (), s)) = (Inr (), s1)" "becomes p s f1 s1"
    "file_at s1 p = Inr f1" "inline_file s1 f1" "\<not> has_flag LFS_F_WRITING f1" "inline_content f1 = inline_content f" "f_pos f1 = f_pos f"
    "has_flag LFS_O_APPEND f1 = has_flag LFS_O_APPEND f" "small_room s1" "inline_file s1 = inline_file s"
  proof (cases "has_flag LFS_F_WRITING f")
    case True
    obtain s' where "lfs_file_flush grow s p = (Inr (), s')" "becomes p s (flushed f) s'" "file_at s' p = Inr (flushed f)" "inline_file s' (flushed f)"
      "small_room s' = small_room s" "inline_file s' = inline_file s" by (rule flush_state[OF assms(1,2)])
    with True inline_file_flushed[OF assms(2)] assms(3) show ?thesis by (intro that[of s' "flushed f"]) simp_all
  next
    case False
    then show ?thesis using assms becomes_refl by (intro that[of s f]) simp_all
  qed
  define bs where "bs = take (length buf) (drop (unat (f_pos f1)) (bf_bytes (inline_content f1)))"
  from flushedread_inline[OF f1(4,9,5) assms(4) bs_def] obtain f2 where
    f2: "lfs_file_flushedread s1 f1 buf = (Inr (of_nat (length bs)), bs @ drop (length bs) buf, f2, s1)" "inline_file s1 f2"
      "inline_content f2 = (inline_content f1)\<lparr>bf_pos := unat (f_pos f1) + length bs\<rparr>"
      "has_flag LFS_O_APPEND f2 = has_flag LFS_O_APPEND f1" by blast
  have "r = Inr (of_nat (length bs))" "buf' = bs @ drop (length bs) buf" "a = inline_content f2"
    using assms(5) f1(6,7) f2(3) by (auto simp: Let_def bs_def inline_content_def)
  moreover have "becomes p s f2 (set_file p f2 s1)" using becomes_trans[OF f1(2) becomes_set_file[OF f1(3)]] .
  moreover have "lfs_file_rawread grow s p buf = (Inr (of_nat (length bs)), bs @ drop (length bs) buf, set_file p f2 s1)"
    using assms(1) ra f1(1,3) f2(1) by (simp add: lfs_file_rawread_def get_file_def)
  ultimately show ?thesis using f2(2,4) f1(8,10) unfolding simulates_def by auto
qed

subsection \<open>Writing\<close>

definition written :: "lfs_file \<Rightarrow> u8 list \<Rightarrow> lfs_file \<Rightarrow> bool" where
  "written f bs f' \<longleftrightarrow> f_pos f' = f_pos f + of_nat (length bs) \<and> f_offset f' = f_pos f' \<and> f_block f' = LFS_BLOCK_INLINE \<and>
     f_cache f' = (f_cache f)\<lparr>c_buffer := blit (unat (f_pos f)) bs (c_buffer (f_cache f))\<rparr> \<and> f_ctz f' = f_ctz f \<and>
     has_flag LFS_F_WRITING f' \<and> (\<forall>x. LFS_F_WRITING AND x = 0 \<longrightarrow> has_flag x f' = has_flag x f)"

lemma writing_located:
  assumes "file_at s p = Inr f" "inline_file s f" "small_room s"
  obtains s' f' where "flushedwrite_locate grow s p = (Inr (), s')" "becomes p s f' s'" "file_at s' p = Inr f'"
    "f_pos f' = f_pos f" "f_offset f' = f_pos f" "f_block f' = LFS_BLOCK_INLINE" "f_cache f' = f_cache f" "f_ctz f' = f_ctz f"
    "has_flag LFS_F_WRITING f'" "\<forall>x. LFS_F_WRITING AND x = 0 \<longrightarrow> has_flag x f' = has_flag x f"
proof (cases "has_flag LFS_F_WRITING f")
  case True
  note F = assms(2)[unfolded inline_file_def]
  have "f_offset f \<noteq> l_block_size s" using True F room_pos[OF assms(3) inline_fileD(5)[OF assms(2)]] by auto
  then show ?thesis using True F assms(1) becomes_refl
    by (intro that[of s f]) (simp_all add: flushedwrite_locate_def get_file_def)
next
  case False
  note F = assms(2)[unfolded inline_file_def]
  let ?f = "f\<lparr>f_block := LFS_BLOCK_INLINE, f_offset := f_pos f\<rparr>"
  obtain s1 where s1: "modify_file p (\<lambda>f. f\<lparr>f_block := LFS_BLOCK_INLINE, f_offset := f_pos f\<rparr>) s = (Inr (), s1)" "becomes p s ?f s1"
    using becomes_modify[OF assms(1)] by blast
  have a1: "file_at s1 p = Inr ?f" using s1(2) by (simp add: becomes_def)
  obtain s2 where s2: "modify_file p (raise_flag LFS_F_WRITING) s1 = (Inr (), s2)" "becomes p s1 (raise_flag LFS_F_WRITING ?f) s2"
    using becomes_modify[OF a1] by blast
  have "flushedwrite_locate grow s p = (Inr (), s2)"
    using False F assms(1) s1(1) s2(1) by (simp add: flushedwrite_locate_def get_file_def)
  then show ?thesis using becomes_trans[OF s1(2) s2(2)] s2(2)
    by (intro that[of s2 "raise_flag LFS_F_WRITING ?f"]) (simp_all add: becomes_def)
qed


lemma file_write_inline:
  assumes "file_at s p = Inr f" "inline_file s g" "f_cache f = f_cache g" "unat pos + length bs \<le> small s" "small_room s"
  shows "\<exists>s'. file_write s p LFS_BLOCK_INLINE pos bs = (Inr (), s') \<and>
    becomes p s (f\<lparr>f_cache := (f_cache f)\<lparr>c_buffer := blit (unat pos) bs (c_buffer (f_cache f))\<rparr>\<rparr>) s'"
proof -
  have "lfs_bd_write s (f_cache f) (l_read_cache s) True LFS_BLOCK_INLINE pos bs =
      (Inr (), (f_cache f)\<lparr>c_buffer := blit (unat pos) bs (c_buffer (f_cache f))\<rparr>, l_read_cache s, s)"
    using assms(2-5) small_cache[of s] by (intro bd_write_inline) (simp_all add: inline_file_def small_room_def)
  then show ?thesis using assms(1) becomes_set_file[OF assms(1)] by (simp add: file_write_def)
qed

lemma flushedwrite_inline:
  assumes "file_at s p = Inr f" "inline_file s f" "small_room s" "unat (f_pos f) + length bs \<le> small s"
  shows "\<exists>s' f'. lfs_file_flushedwrite grow s p bs = (Inr (of_nat (length bs)), s') \<and> becomes p s f' s' \<and>
    (if bs = [] then f' = f else written f bs f')"
proof -
  note F = assms(2)[unfolded inline_file_def]
  have small: "unat (f_pos f) \<le> small s" using inline_fileD(5)[OF assms(2)] .
  have room: "small s < 2 ^ 63" using assms(3) by (simp add: small_room_def)
  have n: "unat (of_nat (length bs) :: u64) = length bs" "unat (f_pos f + of_nat (length bs)) = unat (f_pos f) + length bs"
    using assms(4) room by (subst unat_of_nat_u64 unat_add_of_nat_u64; simp)+
  have "z_size (f_ctz f) \<le> inline_max s"
    using F by (auto simp: lfs_file_rawsize_def lfs_max_def split: if_splits)
  then have "\<not> inline_max s < lfs_max (f_pos f + of_nat (length bs)) (z_size (f_ctz f))"
    using assms(4) n(2) by (auto simp: lfs_max_def small_def word_le_nat_alt not_less)
  then have E: "lfs_file_flushedwrite grow s p bs = andthen (flushedwrite_loop (Suc (length bs)) grow s p bs) (\<lambda>_ s. (Inr (of_nat (length bs)), s))"
    using assms(1) F by (simp add: lfs_file_flushedwrite_def get_file_def)
  show ?thesis
  proof (cases "bs = []")
    case True
    then show ?thesis using E becomes_refl[OF assms(1)] by auto
  next
    case False
    obtain s1 f1 where L: "flushedwrite_locate grow s p = (Inr (), s1)" "becomes p s f1 s1" "file_at s1 p = Inr f1"
      "f_pos f1 = f_pos f" "f_offset f1 = f_pos f" "f_block f1 = LFS_BLOCK_INLINE" "f_cache f1 = f_cache f" "f_ctz f1 = f_ctz f"
      "has_flag LFS_F_WRITING f1" "\<forall>x. LFS_F_WRITING AND x = 0 \<longrightarrow> has_flag x f1 = has_flag x f"
      by (rule writing_located[where grow = grow, OF assms(1-3)])
    note T = touchesD[of p s s1] and t1 = L(2)[unfolded becomes_def]
    have diff: "lfs_min (of_nat (length bs)) (l_block_size s1 - f_offset f1) = of_nat (length bs)"
    proof -
      have "f_pos f < l_block_size s" by (rule room_pos[OF assms(3) small])
      then have "unat (l_block_size s - f_pos f) = unat (l_block_size s) - unat (f_pos f)" by (intro unat_sub_u64) (simp add: word_less_nat_alt)
      then show ?thesis using assms(3,4) T(2) t1 n(1) by (auto simp: lfs_min_def L(5) word_less_nat_alt small_room_def)
    qed
    let ?f2 = "f1\<lparr>f_cache := (f_cache f1)\<lparr>c_buffer := blit (unat (f_pos f)) bs (c_buffer (f_cache f1))\<rparr>\<rparr>"
    have "inline_file s1 f" "small_room s1" "unat (f_pos f) + length bs \<le> small s1" using T t1 assms(2-4) by simp_all
    from file_write_inline[OF L(3) this(1) L(7) this(3,2)] obtain s2 where
      s2: "file_write s1 p LFS_BLOCK_INLINE (f_pos f) bs = (Inr (), s2)" "becomes p s1 ?f2 s2" by blast
    have a2: "file_at s2 p = Inr ?f2" using s2(2) by (simp add: becomes_def)
    have prog: "flushedwrite_program (relocation_fuel s1) grow s1 p bs = (Inr (), s2)"
    proof -
      obtain k where "relocation_fuel s1 = Suc k" by (simp add: relocation_fuel_def)
      then show ?thesis using L(3,5,6) s2(1) by (simp add: get_file_def)
    qed
    let ?f3 = "?f2\<lparr>f_pos := f_pos ?f2 + of_nat (length bs), f_offset := f_offset ?f2 + of_nat (length bs)\<rparr>"
    obtain s3 where s3: "modify_file p (\<lambda>f. f\<lparr>f_pos := f_pos f + of_nat (length bs), f_offset := f_offset f + of_nat (length bs)\<rparr>) s2 = (Inr (), s3)"
      "becomes p s2 ?f3 s3" using becomes_modify[OF a2] by blast
    obtain k where k: "length bs = Suc k" using False by (cases bs) simp_all
    have "flushedwrite_loop (Suc (length bs)) grow s p bs = (Inr (), lfs_alloc_ack s3)"
      using False L(1,3) diff prog s3(1) n(1) k by (simp add: get_file_def Let_def)
    moreover have "becomes p s ?f3 (lfs_alloc_ack s3)"
      using becomes_ack[OF becomes_trans[OF L(2) becomes_trans[OF s2(2) s3(2)]]] .
    moreover have "written f bs ?f3" using L(4-10) by (simp add: written_def has_flag_def)
    ultimately show ?thesis using E False by auto
  qed
qed

text \<open>The array behind the bytes that were written.\<close>

lemma take_blit_write_at:
  "k \<le> n \<Longrightarrow> n \<le> length m \<Longrightarrow> k + length bs \<le> length m \<Longrightarrow> take (max (k + length bs) n) (blit k bs m) = write_at k bs (take n m)"
  by (auto simp: blit_def write_at_def max_def min_def drop_take le_diff_conv)

lemma written_content:
  assumes "inline_file s f" "\<not> has_flag LFS_F_READING f" "small_room s" "written f bs f'" "unat (f_pos f) + length bs \<le> small s" "bs \<noteq> []"
    "f_pos f \<le> lfs_file_rawsize f" "has_flag LFS_O_APPEND f \<longrightarrow> z_size (f_ctz f) \<le> f_pos f"
  shows "inline_file s f'" "\<not> has_flag LFS_F_READING f'" "has_flag LFS_O_APPEND f' = has_flag LFS_O_APPEND f"
    "inline_content f' = \<lparr>bf_bytes = write_at (unat (f_pos f)) bs (bf_bytes (inline_content f)), bf_pos = unat (f_pos f) + length bs\<rparr>"
proof -
  note F = assms(1)[unfolded inline_file_def] and W = assms(4)[unfolded written_def] and small = inline_fileD(4,5)[OF assms(1)]
  have pn: "unat (f_pos f') = unat (f_pos f) + length bs"
    using W assms(3,5) by (simp add: unat_add_of_nat_u64 small_room_def)
  have r: "unat (lfs_file_rawsize f') = max (unat (f_pos f')) (unat (lfs_file_rawsize f))"
  proof -
    have "unat (lfs_file_rawsize f') = max (unat (f_pos f')) (unat (z_size (f_ctz f)))"
      using W by (simp add: lfs_file_rawsize_def lfs_max_def word_less_nat_alt)
    moreover have "unat (lfs_file_rawsize f) = (if has_flag LFS_F_WRITING f then max (unat (f_pos f)) (unat (z_size (f_ctz f))) else unat (z_size (f_ctz f)))"
      by (simp add: lfs_file_rawsize_def lfs_max_def word_less_nat_alt)
    ultimately show ?thesis using pn by (simp add: max_def)
  qed
  show fl: "\<not> has_flag LFS_F_READING f'" "has_flag LFS_O_APPEND f' = has_flag LFS_O_APPEND f" using W assms(2) by simp_all
  have cache: "length (c_buffer (f_cache f)) = unat (cfg_cache_size (l_cfg s))" "small s \<le> unat (cfg_cache_size (l_cfg s))"
    using F small_cache by auto
  have "0 < f_pos f'" using pn assms(6) length_greater_0_conv[THEN iffD2, OF assms(6)] by (simp add: word_less_nat_alt del: length_greater_0_conv)
  moreover have "z_size (f_ctz f) \<le> f_pos f'" if "has_flag LFS_O_APPEND f" using assms(8) that pn by (simp add: word_le_nat_alt)
  moreover have "lfs_file_rawsize f' \<le> inline_max s" "f_pos f' \<le> inline_max s"
    using r pn assms(5) small by (simp_all add: word_le_nat_alt small_def)
  moreover have "length (c_buffer (f_cache f')) = unat (cfg_cache_size (l_cfg s))" using W cache assms(5) by simp
  ultimately show "inline_file s f'" using F W fl by (simp add: inline_file_def)
  have "take (max (unat (f_pos f) + length bs) (unat (lfs_file_rawsize f))) (blit (unat (f_pos f)) bs (c_buffer (f_cache f))) =
      write_at (unat (f_pos f)) bs (take (unat (lfs_file_rawsize f)) (c_buffer (f_cache f)))"
    using assms(5,7) small cache by (intro take_blit_write_at) (simp_all add: word_le_nat_alt)
  then show "inline_content f' = \<lparr>bf_bytes = write_at (unat (f_pos f)) bs (bf_bytes (inline_content f)), bf_pos = unat (f_pos f) + length bs\<rparr>"
    using W pn by (simp add: inline_content_def r)
qed


lemma rawwrite_step:
  assumes "file_at s p = Inr f" "inline_file s f" "\<not> has_flag LFS_F_READING f" "small_room s" "unat (f_pos f) + length bs \<le> small s"
    "f_pos f \<le> lfs_file_rawsize f" "has_flag LFS_O_APPEND f \<longrightarrow> z_size (f_ctz f) \<le> f_pos f"
  obtains s' f' where "lfs_file_flushedwrite grow s p bs = (Inr (of_nat (length bs)), s')" "becomes p s f' s'" "inline_file s f'"
    "\<not> has_flag LFS_F_READING f'" "has_flag LFS_O_APPEND f' = has_flag LFS_O_APPEND f"
    "inline_content f' = \<lparr>bf_bytes = write_at (unat (f_pos f)) bs (bf_bytes (inline_content f)), bf_pos = unat (f_pos f) + length bs\<rparr>"
proof -
  obtain s' f' where W: "lfs_file_flushedwrite grow s p bs = (Inr (of_nat (length bs)), s')" "becomes p s f' s'" "if bs = [] then f' = f else written f bs f'"
    using flushedwrite_inline[OF assms(1,2,4,5)] by blast
  show ?thesis
  proof (cases "bs = []")
    case True
    have "write_at (unat (f_pos f)) [] (bf_bytes (inline_content f)) = bf_bytes (inline_content f)"
      using assms(6) inline_content(1)[OF assms(2)] by (simp add: write_at_def word_le_nat_alt)
    then show ?thesis using W assms(2,3) True by (intro that[OF W(1,2)]) (simp_all add: inline_content_def)
  next
    case False
    then have "written f bs f'" using W(3) by simp
    from written_content[OF assms(2,3,4) this assms(5) False assms(6,7)] show ?thesis by (intro that[OF W(1,2)])
  qed
qed

lemma zeros_inline:
  assumes "file_at s p = Inr f" "inline_file s f" "\<not> has_flag LFS_F_READING f" "small_room s" "f_pos f = lfs_file_rawsize f"
    "f_pos f \<le> pos" "unat pos \<le> small s" "unat pos - unat (f_pos f) < fuel"
  shows "\<exists>s' f'. write_zeros fuel grow s p pos = (Inr (), s') \<and> becomes p s f' s' \<and> inline_file s f' \<and> \<not> has_flag LFS_F_READING f' \<and>
    has_flag LFS_O_APPEND f' = has_flag LFS_O_APPEND f \<and> f_pos f' = pos \<and>
    bf_bytes (inline_content f') = bf_bytes (inline_content f) @ replicate (unat pos - unat (f_pos f)) 0"
  using assms
proof (induction fuel arbitrary: s f)
  case (Suc fuel)
  show ?case
  proof (cases "f_pos f < pos")
    case False
    then have "f_pos f = pos" using Suc.prems(6) by simp
    then show ?thesis using Suc.prems becomes_refl by (intro exI[of _ s] exI[of _ f]) (simp add: get_file_def)
  next
    case True
    have "unat (f_pos f) + length [0 :: u8] \<le> small s" using True Suc.prems(7) by (simp add: word_less_nat_alt)
    moreover have "f_pos f \<le> lfs_file_rawsize f" "has_flag LFS_O_APPEND f \<longrightarrow> z_size (f_ctz f) \<le> f_pos f"
      using Suc.prems(5) by (auto simp: lfs_file_rawsize_def lfs_max_def split: if_splits)
    ultimately obtain s1 f1 where W: "lfs_file_flushedwrite grow s p [0] = (Inr (of_nat (length [0 :: u8])), s1)" "becomes p s f1 s1" "inline_file s f1"
      "\<not> has_flag LFS_F_READING f1" "has_flag LFS_O_APPEND f1 = has_flag LFS_O_APPEND f"
      "inline_content f1 = \<lparr>bf_bytes = write_at (unat (f_pos f)) [0] (bf_bytes (inline_content f)), bf_pos = unat (f_pos f) + length [0 :: u8]\<rparr>"
      by (rule rawwrite_step[where grow = grow, OF Suc.prems(1-4)])
    note T = touchesD[of p s s1] and t1 = W(2)[unfolded becomes_def]
    have len: "length (bf_bytes (inline_content f)) = unat (f_pos f)" using inline_content(1)[OF Suc.prems(2)] Suc.prems(5) by simp
    have c1: "bf_bytes (inline_content f1) = bf_bytes (inline_content f) @ [0]" "unat (f_pos f1) = unat (f_pos f) + 1"
      using W(6) len by (simp_all add: write_at_end) (simp add: inline_content_def)
    have e1: "f_pos f1 = lfs_file_rawsize f1" using inline_content(1)[OF W(3)] c1 len by (simp add: word_eq_nat_alt)
    have "f_pos f1 \<le> pos" "unat pos \<le> small s1" "unat pos - unat (f_pos f1) < fuel" "small_room s1" "file_at s1 p = Inr f1" "inline_file s1 f1"
      using True Suc.prems(4,7,8) c1 t1 T W(3) by (simp_all add: word_less_nat_alt word_le_nat_alt)
    from Suc.IH[OF this(5,6) W(4) this(4) e1 this(1-3)] obtain s2 f2 where I: "write_zeros fuel grow s1 p pos = (Inr (), s2)" "becomes p s1 f2 s2"
      "inline_file s1 f2" "\<not> has_flag LFS_F_READING f2" "has_flag LFS_O_APPEND f2 = has_flag LFS_O_APPEND f1" "f_pos f2 = pos"
      "bf_bytes (inline_content f2) = bf_bytes (inline_content f1) @ replicate (unat pos - unat (f_pos f1)) 0" by blast
    have "write_zeros (Suc fuel) grow s p pos = (Inr (), s2)" using True Suc.prems(1) W(1) I(1) by (simp add: get_file_def)
    moreover have "unat pos - unat (f_pos f) = Suc (unat pos - unat (f_pos f1))" using True c1(2) by (simp add: word_less_nat_alt)
    ultimately show ?thesis
      using becomes_trans[OF W(2) I(2)] I(3-7) W(5) T t1 c1(1) by (intro exI[of _ s2] exI[of _ f2]) (simp add: replicate_append_same)
  qed
qed simp


text \<open>Before the bytes are written: the position, and zeros up to it.\<close>

lemma write_prepared:
  assumes "file_at s p = Inr f" "inline_file s f" "\<not> has_flag LFS_F_READING f" "small_room s"
    "has_flag LFS_O_APPEND f \<longrightarrow> z_size (f_ctz f) \<le> f_pos f"
  obtains s' f' where "(if \<not> has_flag LFS_F_WRITING f \<and> z_size (f_ctz f) < f_pos f
      then write_zeros (Suc (unat (f_pos f - z_size (f_ctz f)))) grow (set_file p (f\<lparr>f_pos := z_size (f_ctz f)\<rparr>) s) p (f_pos f)
      else (Inr (), s)) = (Inr (), s')" "becomes p s f' s'" "inline_file s f'" "\<not> has_flag LFS_F_READING f'"
    "has_flag LFS_O_APPEND f' = has_flag LFS_O_APPEND f" "f_pos f' = f_pos f" "f_pos f' \<le> lfs_file_rawsize f'"
    "has_flag LFS_O_APPEND f' \<longrightarrow> z_size (f_ctz f') \<le> f_pos f'"
    "bf_bytes (inline_content f') = bf_bytes (inline_content f) @ replicate (unat (f_pos f) - length (bf_bytes (inline_content f))) 0"
proof (cases "\<not> has_flag LFS_F_WRITING f \<and> z_size (f_ctz f) < f_pos f")
  case False
  then have "f_pos f \<le> lfs_file_rawsize f" by (auto simp: lfs_file_rawsize_def lfs_max_def)
  then show ?thesis using False assms becomes_refl inline_content(1)[OF assms(2)]
    by (intro that[of s f]) (auto simp: word_le_nat_alt)
next
  case True
  let ?f = "f\<lparr>f_pos := z_size (f_ctz f)\<rparr>"
  have b: "becomes p s ?f (set_file p ?f s)" by (rule becomes_set_file[OF assms(1)])
  note T = touchesD[of p s "set_file p ?f s"] and t = b[unfolded becomes_def]
  note F = assms(2)[unfolded inline_file_def] and small = inline_fileD(4,5)[OF assms(2)]
  have sz: "lfs_file_rawsize ?f = z_size (f_ctz f)" "lfs_file_rawsize f = z_size (f_ctz f)" using True by (simp_all add: lfs_file_rawsize_def)
  have i: "inline_file s ?f" using F True assms(3) sz by (simp add: inline_file_def)
  have d: "unat (f_pos f - z_size (f_ctz f)) = unat (f_pos f) - unat (z_size (f_ctz f))"
    using True by (intro unat_sub_u64) (simp add: word_less_nat_alt)
  have "file_at (set_file p ?f s) p = Inr ?f" "inline_file (set_file p ?f s) ?f" "\<not> has_flag LFS_F_READING ?f" "small_room (set_file p ?f s)"
    "f_pos ?f = lfs_file_rawsize ?f" "f_pos ?f \<le> f_pos f" "unat (f_pos f) \<le> small (set_file p ?f s)"
    "unat (f_pos f) - unat (f_pos ?f) < Suc (unat (f_pos f - z_size (f_ctz f)))"
    using T t i assms(3,4) sz small True less_imp_le[OF conjunct2[OF True]] d by simp_all
  from zeros_inline[OF this, of grow] obtain s1 f1 where Z: "write_zeros (Suc (unat (f_pos f - z_size (f_ctz f)))) grow (set_file p ?f s) p (f_pos f) = (Inr (), s1)"
    "becomes p (set_file p ?f s) f1 s1" "inline_file (set_file p ?f s) f1" "\<not> has_flag LFS_F_READING f1"
    "has_flag LFS_O_APPEND f1 = has_flag LFS_O_APPEND ?f" "f_pos f1 = f_pos f"
    "bf_bytes (inline_content f1) = bf_bytes (inline_content ?f) @ replicate (unat (f_pos f) - unat (f_pos ?f)) 0" by blast
  have i1: "inline_file s f1" using Z(3) T t by simp
  have c: "bf_bytes (inline_content ?f) = bf_bytes (inline_content f)" "length (bf_bytes (inline_content f)) = unat (z_size (f_ctz f))"
    using sz inline_content(1)[OF assms(2)] by (simp_all add: inline_content_def)
  then have "unat (lfs_file_rawsize f1) = unat (f_pos f)"
    using inline_content(1)[OF i1] Z(7) True by (simp add: word_less_nat_alt)
  then have e: "lfs_file_rawsize f1 = f_pos f1" using Z(6) by (simp add: word_eq_nat_alt)
  then have "z_size (f_ctz f1) \<le> f_pos f1" by (auto simp: lfs_file_rawsize_def lfs_max_def split: if_splits)
  then show ?thesis using True Z c e i1 by (intro that[OF _ becomes_trans[OF b Z(2)]]) simp_all
qed

lemma clear_erred [simp]: "lfs_file_rawsize (clear_flag LFS_F_ERRED f) = lfs_file_rawsize f" "inline_content (clear_flag LFS_F_ERRED f) = inline_content f"
  by (simp_all add: inline_content_def lfs_file_rawsize_def)

definition append_position :: "lfs_file \<Rightarrow> lfs_file" where
  "append_position f = (if has_flag LFS_O_APPEND f \<and> f_pos f < z_size (f_ctz f) then f\<lparr>f_pos := z_size (f_ctz f)\<rparr> else f)"

lemma append_position:
  assumes "inline_file s f" "\<not> has_flag LFS_F_READING f" "a = inline_content f"
  shows "inline_file s (append_position f)" "\<not> has_flag LFS_F_READING (append_position f)"
    "unat (f_pos (append_position f)) = (if has_flag LFS_O_APPEND f \<and> bf_pos a < length (bf_bytes a) then length (bf_bytes a) else bf_pos a)"
    "has_flag LFS_O_APPEND (append_position f) = has_flag LFS_O_APPEND f"
    "has_flag LFS_O_APPEND (append_position f) \<longrightarrow> z_size (f_ctz (append_position f)) \<le> f_pos (append_position f)"
    "bf_bytes (inline_content (append_position f)) = bf_bytes a"
proof -
  note F = assms(1)[unfolded inline_file_def]
  have len: "length (bf_bytes a) = unat (lfs_file_rawsize f)" "bf_pos a = unat (f_pos f)"
    using inline_content(1)[OF assms(1)] by (simp_all add: assms(3) inline_content_def)
  show p: "has_flag LFS_O_APPEND (append_position f) = has_flag LFS_O_APPEND f" "\<not> has_flag LFS_F_READING (append_position f)"
    using assms(2) by (simp_all add: append_position_def)
  show "has_flag LFS_O_APPEND (append_position f) \<longrightarrow> z_size (f_ctz (append_position f)) \<le> f_pos (append_position f)"
    by (auto simp: append_position_def)
  have w: "has_flag LFS_O_APPEND f \<Longrightarrow> f_pos f < z_size (f_ctz f) \<Longrightarrow> \<not> has_flag LFS_F_WRITING f" using F by auto
  have r: "lfs_file_rawsize (append_position f) = lfs_file_rawsize f"
    using w by (auto simp: append_position_def lfs_file_rawsize_def)
  then show "bf_bytes (inline_content (append_position f)) = bf_bytes a"
    by (simp add: inline_content_def assms(3)) (simp add: append_position_def)
  show "inline_file s (append_position f)"
    using F r w assms(2) by (auto simp: inline_file_def append_position_def lfs_file_rawsize_def)
  show "unat (f_pos (append_position f)) = (if has_flag LFS_O_APPEND f \<and> bf_pos a < length (bf_bytes a) then length (bf_bytes a) else bf_pos a)"
    using w F unfolding len by (auto simp: append_position_def lfs_file_rawsize_def lfs_max_def word_less_nat_alt word_le_nat_alt)
qed

lemma rawwrite_inline:
  assumes "file_at s p = Inr f" "inline_file s f" "small_room s"
    "ideal_step limit (has_flag LFS_O_APPEND f) (Write bs) (inline_content f) = ((r, []), a)" "within (small s) a"
  shows "\<exists>s'. lfs_file_rawwrite grow s p bs = (r, s') \<and> simulates p s f s' a"
proof -
  have wr: "f_flags f AND LFS_O_WRONLY = LFS_O_WRONLY" using inline_fileD(3)[OF assms(2)] access_flags by simp
  obtain s1 f1 where f1: "(if has_flag LFS_F_READING f then lfs_file_flush grow s p else (Inr (), s)) = (Inr (), s1)" "becomes p s f1 s1"
    "file_at s1 p = Inr f1" "inline_file s1 f1" "\<not> has_flag LFS_F_READING f1" "inline_content f1 = inline_content f"
    "has_flag LFS_O_APPEND f1 = has_flag LFS_O_APPEND f" "small_room s1" "inline_file s1 = inline_file s"
  proof (cases "has_flag LFS_F_READING f")
    case True
    obtain s' where "lfs_file_flush grow s p = (Inr (), s')" "becomes p s (flushed f) s'" "file_at s' p = Inr (flushed f)" "inline_file s' (flushed f)"
      "small_room s' = small_room s" "inline_file s' = inline_file s" by (rule flush_state[OF assms(1,2)])
    with True inline_file_flushed[OF assms(2)] assms(3) show ?thesis by (intro that[of s' "flushed f"]) simp_all
  next
    case False
    then show ?thesis using assms becomes_refl by (intro that[of s f]) simp_all
  qed
  define f2 where "f2 = append_position f1"
  obtain s2 where s2: "modify_file p append_position s1 = (Inr (), s2)" "becomes p s1 f2 s2"
    using becomes_modify[OF f1(3)] unfolding f2_def by blast
  note T2 = touchesD[of p s1 s2] and t2 = s2(2)[unfolded becomes_def]
  note A = append_position[OF f1(4,5) f1(6)[symmetric], folded f2_def]
  have state2: "file_at s2 p = Inr f2" "inline_file s2 f2" "small_room s2" "inline_file s2 = inline_file s" using A(1) f1(8,9) T2 t2 by simp_all
  obtain s3 f3 where P: "(if \<not> has_flag LFS_F_WRITING f2 \<and> z_size (f_ctz f2) < f_pos f2
      then write_zeros (Suc (unat (f_pos f2 - z_size (f_ctz f2)))) grow (set_file p (f2\<lparr>f_pos := z_size (f_ctz f2)\<rparr>) s2) p (f_pos f2)
      else (Inr (), s2)) = (Inr (), s3)" "becomes p s2 f3 s3" "inline_file s2 f3" "\<not> has_flag LFS_F_READING f3"
    "has_flag LFS_O_APPEND f3 = has_flag LFS_O_APPEND f2" "f_pos f3 = f_pos f2" "f_pos f3 \<le> lfs_file_rawsize f3"
    "has_flag LFS_O_APPEND f3 \<longrightarrow> z_size (f_ctz f3) \<le> f_pos f3"
    "bf_bytes (inline_content f3) = bf_bytes (inline_content f2) @ replicate (unat (f_pos f2) - length (bf_bytes (inline_content f2))) 0"
    by (rule write_prepared[where grow = grow, OF state2(1,2) A(2) state2(3) A(5)])
  note T3 = touchesD[of p s2 s3] and t3 = P(2)[unfolded becomes_def]
  define k where "k = unat (f_pos f2)"
  have a: "a = \<lparr>bf_bytes = write_at k bs (bf_bytes (inline_content f)), bf_pos = k + length bs\<rparr>" "r = Inr (of_nat (length bs))"
    using assms(4) A(3) f1(6,7) by (simp_all add: Let_def k_def)
  have fit: "k + length bs \<le> small s" using assms(5) a(1) by (simp add: within_def)
  have same: "small s3 = small s" "small s2 = small s" "inline_max s2 = inline_max s" "l_file_max_size s2 = l_file_max_size s"
    using touchesD[OF conjunct1[OF f1(2)[unfolded becomes_def]]] T2 t2 T3 t3 by simp_all
  have state3: "file_at s3 p = Inr f3" "inline_file s3 f3" "small_room s3" "inline_file s3 = inline_file s" using P(3) state2(3,4) T3 t3 by simp_all
  have "unat (f_pos f3) + length bs \<le> small s3" using fit same P(6) by (simp add: k_def)
  from rawwrite_step[where grow = grow, OF state3(1,2) P(4) state3(3) this P(7,8)] obtain s4 f4 where W:
    "lfs_file_flushedwrite grow s3 p bs = (Inr (of_nat (length bs)), s4)" "becomes p s3 f4 s4" "inline_file s3 f4"
    "\<not> has_flag LFS_F_READING f4" "has_flag LFS_O_APPEND f4 = has_flag LFS_O_APPEND f3"
    "inline_content f4 = \<lparr>bf_bytes = write_at (unat (f_pos f3)) bs (bf_bytes (inline_content f3)), bf_pos = unat (f_pos f3) + length bs\<rparr>" by blast
  have a4: "file_at s4 p = Inr f4" using W(2) by (simp add: becomes_def)
  obtain s5 where s5: "modify_file p (clear_flag LFS_F_ERRED) s4 = (Inr (), s5)" "becomes p s4 (clear_flag LFS_F_ERRED f4) s5"
    using becomes_modify[OF a4] by blast
  have "\<not> l_file_max_size s2 < f_pos f2 + of_nat (length bs)"
  proof -
    have "unat (f_pos f2 + of_nat (length bs)) = k + length bs"
      using fit assms(3) by (simp add: k_def unat_add_of_nat_u64 small_room_def)
    then show ?thesis using fit assms(3) same by (simp add: small_room_def small_def word_le_nat_alt not_less)
  qed
  then have "lfs_file_rawwrite grow s p bs = (Inr (of_nat (length bs)), s5)"
    using assms(1) wr f1(1) s2(1) state2(1) P(1) W(1) s5(1) f1(3)
    by (simp add: lfs_file_rawwrite_def get_file_def append_position_def[abs_def])
  moreover have "write_at k bs (bf_bytes (inline_content f3)) = write_at k bs (bf_bytes (inline_content f))"
    using P(9) A(6) f1(6) by (simp add: write_at_def k_def)
  then have "inline_content (clear_flag LFS_F_ERRED f4) = a"
    using W(6) P(6) a(1) by (simp add: k_def)
  moreover have "inline_file s (clear_flag LFS_F_ERRED f4)"
    using W(3) state3(4) by (simp add: inline_file_def)
  moreover have "becomes p s (clear_flag LFS_F_ERRED f4) s5"
    using becomes_trans[OF f1(2) becomes_trans[OF s2(2) becomes_trans[OF P(2) becomes_trans[OF W(2) s5(2)]]]] .
  ultimately show ?thesis using a(2) W(5) P(5) A(4) f1(7) unfolding simulates_def by auto
qed


subsection \<open>The position\<close>

lemma simulates_refl: "file_at s p = Inr f \<Longrightarrow> inline_file s f \<Longrightarrow> simulates p s f s (inline_content f)"
  unfolding simulates_def using becomes_refl by blast

lemma ctz_index_small: "unat x + 16 < unat (l_block_size s) \<Longrightarrow> lfs_ctz_index s x = (0, x)"
proof -
  assume a: "unat x + 16 < unat (l_block_size s)"
  have "unat (l_block_size s - 2 * 8) = unat (l_block_size s) - 16" using a by (subst unat_sub_u64) simp_all
  then have "unat (x div (l_block_size s - 2 * 8)) = 0" using a by (simp add: unat_div_distrib)
  then have "x div (l_block_size s - 2 * 8) = 0" by (simp only: word_eq_nat_alt unat_0)
  then show "lfs_ctz_index s x = (0, x)" by (simp add: lfs_ctz_index_def Let_def)
qed

lemma seek_target_ideal:
  assumes "inline_file s f"
  shows "(case seek_target f off whence of Inl h \<Rightarrow> Inl h | Inr n \<Rightarrow> if limit < n then Inl (Err LFS_ERR_INVAL) else Inr n) =
    ideal_seek limit (inline_content f) off whence"
  using inline_content(1)[OF assms]
  by (auto simp: seek_target_def ideal_seek_def Let_def inline_content_def add.commute split: lfs_whence.split)

lemma moved_inline:
  assumes "inline_file s f" "\<not> has_flag LFS_F_WRITING f" "pos \<le> inline_max s" "has_flag LFS_F_READING f \<longrightarrow> off = pos"
  shows "inline_file s (f\<lparr>f_pos := pos, f_offset := off\<rparr>)"
    "inline_content (f\<lparr>f_pos := pos, f_offset := off\<rparr>) = (inline_content f)\<lparr>bf_pos := unat pos\<rparr>"
proof -
  have r: "lfs_file_rawsize (f\<lparr>f_pos := pos, f_offset := off\<rparr>) = lfs_file_rawsize f"
    using assms(2) by (simp add: lfs_file_rawsize_def)
  then show "inline_content (f\<lparr>f_pos := pos, f_offset := off\<rparr>) = (inline_content f)\<lparr>bf_pos := unat pos\<rparr>"
    by (simp add: inline_content_def)
  show "inline_file s (f\<lparr>f_pos := pos, f_offset := off\<rparr>)" using assms r by (auto simp: inline_file_def)
qed

lemma rawseek_inline:
  assumes "file_at s p = Inr f" "inline_file s f" "small_room s"
    "ideal_step (l_file_max_size s) app (Seek off whence) (inline_content f) = ((r, []), a)" "within (small s) a"
  shows "\<exists>s'. lfs_file_rawseek grow s p off whence = (r, s') \<and> simulates p s f s' a"
proof -
  note T = seek_target_ideal[where off = off and whence = whence and limit = "l_file_max_size s", OF assms(2), symmetric]
  show ?thesis
  proof (cases "ideal_seek (l_file_max_size s) (inline_content f) off whence")
    case (Inl h)
    then have "lfs_file_rawseek grow s p off whence = (Inl h, s)"
      using T assms(1) by (auto simp: lfs_file_rawseek_def get_file_def split: sum.splits if_splits)
    then show ?thesis using Inl assms(4) simulates_refl[OF assms(1,2)] by auto
  next
    case (Inr npos)
    then have t: "seek_target f off whence = Inr npos" "\<not> l_file_max_size s < npos" using T by (auto split: sum.splits if_splits)
    have a: "r = Inr npos" "a = (inline_content f)\<lparr>bf_pos := unat npos\<rparr>" using Inr assms(4) by auto
    then have small: "unat npos \<le> small s" "npos \<le> inline_max s" using assms(5) by (simp_all add: within_def small_def word_le_nat_alt)
    have i: "lfs_ctz_index s (f_pos f) = (0, f_pos f)" "lfs_ctz_index s npos = (0, npos)"
      using assms(3) small inline_fileD(5)[OF assms(2)] by (simp_all add: ctz_index_small small_room_def)
    note F = assms(2)[unfolded inline_file_def]
    consider "f_pos f = npos" | "f_pos f \<noteq> npos" "\<not> has_flag LFS_F_WRITING f" "npos < cfg_cache_size (l_cfg s)"
      | "f_pos f \<noteq> npos" "has_flag LFS_F_WRITING f \<or> \<not> npos < cfg_cache_size (l_cfg s)" by blast
    then show ?thesis
    proof cases
      case 1
      then have "lfs_file_rawseek grow s p off whence = (Inr npos, s)"
        using t assms(1) by (simp add: lfs_file_rawseek_def get_file_def)
      moreover have "a = inline_content f" using a(2) 1 by (simp add: inline_content_def)
      ultimately show ?thesis using a(1) simulates_refl[OF assms(1,2)] by auto
    next
      case 2
      let ?f = "f\<lparr>f_pos := npos, f_offset := npos\<rparr>"
      have "lfs_file_rawseek grow s p off whence = (Inr npos, set_file p ?f s)"
        using 2 t i F assms(1) by (simp add: lfs_file_rawseek_def get_file_def)
      moreover have "simulates p s f (set_file p ?f s) a"
        unfolding simulates_def using becomes_set_file[OF assms(1)] moved_inline[OF assms(2) 2(2) small(2), of npos] a(2)
        by (intro exI[of _ ?f]) simp
      ultimately show ?thesis using a(1) by blast
    next
      case 3
      obtain s1 where s1: "lfs_file_flush grow s p = (Inr (), s1)" "becomes p s (flushed f) s1" "file_at s1 p = Inr (flushed f)"
        by (rule flush_state[where grow = grow, OF assms(1,2)])
      let ?f = "(flushed f)\<lparr>f_pos := npos\<rparr>"
      obtain s2 where s2: "modify_file p (\<lambda>f. f\<lparr>f_pos := npos\<rparr>) s1 = (Inr (), s2)" "becomes p s1 ?f s2"
        using becomes_modify[OF s1(3)] by blast
      have "lfs_file_rawseek grow s p off whence = (Inr npos, s2)"
        using 3 t i F assms(1) s1(1) s2(1) by (auto simp: lfs_file_rawseek_def get_file_def)
      moreover have "simulates p s f s2 a"
        unfolding simulates_def
        using becomes_trans[OF s1(2) s2(2)] inline_file_flushed[OF assms(2)] a(2)
          moved_inline[OF inline_file_flushed(1)[OF assms(2)] inline_file_flushed(4)[OF assms(2)] small(2), of "f_offset (flushed f)"]
        by (intro exI[of _ ?f]) simp
      ultimately show ?thesis using a(1) by blast
    qed
  qed
qed


subsection \<open>Truncating\<close>

lemma simulatesE:
  assumes "simulates p s f s' a" "small_room s"
  obtains f' where "becomes p s f' s'" "file_at s' p = Inr f'" "inline_file s' f'" "inline_content f' = a" "has_flag LFS_O_APPEND f' = has_flag LFS_O_APPEND f"
    "small_room s'" "small s' = small s" "inline_file s' = inline_file s" "l_file_max_size s' = l_file_max_size s"
proof -
  obtain f' where f': "becomes p s f' s'" "inline_file s f'" "inline_content f' = a" "has_flag LFS_O_APPEND f' = has_flag LFS_O_APPEND f"
    using assms(1) unfolding simulates_def by blast
  note T = touchesD[OF conjunct1[OF f'(1)[unfolded becomes_def]]]
  show ?thesis using that[of f'] f' T assms(2) by (simp add: becomes_def)
qed

lemma simulates_trans:
  assumes "becomes p s f' s'" "has_flag LFS_O_APPEND f' = has_flag LFS_O_APPEND f" "simulates p s' f' s'' a"
  shows "simulates p s f s'' a"
proof -
  note T = touchesD[OF conjunct1[OF assms(1)[unfolded becomes_def]]]
  show ?thesis using assms(2,3) becomes_trans[OF assms(1)] T unfolding simulates_def by auto
qed

lemma becomes_cache: "becomes p s f s' \<Longrightarrow> same_buffer (l_read_cache s') rc \<Longrightarrow> becomes p s f (s'\<lparr>l_read_cache := rc\<rparr>)"
proof -
  assume a: "becomes p s f s'" "same_buffer (l_read_cache s') rc"
  have "touches p s' (s'\<lparr>l_read_cache := rc\<rparr>)"
    unfolding touches_def using a(2) by (intro exI[of _ "l_metadata_list s'"] exI[of _ "l_free s'"] exI[of _ rc]) simp
  then show ?thesis using a(1) touches_trans unfolding becomes_def file_at_def by auto
qed

lemma truncated_inline:
  assumes "inline_file s f" "\<not> has_flag LFS_F_WRITING f" "inline_content f = \<lparr>bf_bytes = d, bf_pos = unat sz\<rparr>" "unat sz \<le> length d" "sz \<le> inline_max s"
    "g = raise_flag (LFS_F_DIRTY OR LFS_F_READING OR LFS_F_INLINE) (f\<lparr>f_ctz := \<lparr>z_head = LFS_BLOCK_INLINE, z_size = sz\<rparr>,
           f_cache := \<lparr>c_block = LFS_BLOCK_INLINE, c_offset = 0, c_size = cfg_cache_size (l_cfg s), c_buffer = blit 0 (take (unat sz) d) (c_buffer (f_cache f))\<rparr>\<rparr>)"
  shows "inline_file s g" "inline_content g = \<lparr>bf_bytes = take (unat sz) d, bf_pos = unat sz\<rparr>" "has_flag LFS_O_APPEND g = has_flag LFS_O_APPEND f"
proof -
  note F = assms(1)[unfolded inline_file_def]
  have w: "\<not> has_flag LFS_F_WRITING g" "f_pos g = sz" "z_size (f_ctz g) = sz"
    using assms(2,3) by (simp_all add: assms(6) inline_content_def word_eq_nat_alt)
  have r: "lfs_file_rawsize g = sz" using w by (simp add: lfs_file_rawsize_def)
  have l: "length d \<le> unat (cfg_cache_size (l_cfg s))"
    using inline_content(2)[OF assms(1)] small_cache[of s] assms(3) by (simp add: within_def)
  show "has_flag LFS_O_APPEND g = has_flag LFS_O_APPEND f" by (simp add: assms(6))
  show "inline_file s g" using F w r assms(4,5) l by (simp add: inline_file_def) (simp add: assms(6))
  show "inline_content g = \<lparr>bf_bytes = take (unat sz) d, bf_pos = unat sz\<rparr>"
    using assms(4) l unfolding inline_content_def r w by (simp add: assms(6) blit_def min_def)
qed

lemma truncate_inline_shortens:
  assumes "file_at s p = Inr f" "inline_file s f" "small_room s" "sz < lfs_file_rawsize f"
  shows "\<exists>s'. truncate_inline grow s p sz = (Inr (), s') \<and>
    simulates p s f s' \<lparr>bf_bytes = take (unat sz) (bf_bytes (inline_content f)), bf_pos = unat sz\<rparr>"
proof -
  let ?d = "bf_bytes (inline_content f)"
  have len: "length ?d = unat (lfs_file_rawsize f)" "length ?d \<le> small s"
    using inline_content[OF assms(2)] by (simp_all add: within_def)
  have sz: "unat sz < length ?d" "sz \<le> inline_max s" using assms(4) len by (simp_all add: word_less_nat_alt word_le_nat_alt small_def)
  have "ideal_step (l_file_max_size s) False (Seek 0 LFS_SEEK_SET) (inline_content f) = ((Inr 0, []), (inline_content f)\<lparr>bf_pos := unat (0 :: u64)\<rparr>)"
    by (simp add: ideal_seek_def)
  from rawseek_inline[where grow = grow, OF assms(1-3) this] obtain s1 where
    s1: "lfs_file_rawseek grow s p 0 LFS_SEEK_SET = (Inr 0, s1)" "simulates p s f s1 ((inline_content f)\<lparr>bf_pos := 0\<rparr>)"
    using len by (auto simp: within_def)
  obtain f1 where f1: "becomes p s f1 s1" "file_at s1 p = Inr f1" "inline_file s1 f1" "inline_content f1 = (inline_content f)\<lparr>bf_pos := 0\<rparr>"
    "has_flag LFS_O_APPEND f1 = has_flag LFS_O_APPEND f" "small_room s1" "small s1 = small s" "inline_file s1 = inline_file s"
    by (rule simulatesE[OF s1(2) assms(3)])
  have pos: "f_pos f1 = 0" using f1(4) by (simp add: inline_content_def word_eq_nat_alt)
  then have nw: "\<not> has_flag LFS_F_WRITING f1" using f1(3) by (auto simp: inline_file_def)
  define rc where "rc = lfs_cache_drop (l_read_cache s1)"
  define s2 where "s2 = s1\<lparr>l_read_cache := rc\<rparr>"
  have b2: "becomes p s1 f1 s2" unfolding s2_def
    by (rule becomes_cache[OF becomes_refl[OF f1(2)]]) (simp add: rc_def same_buffer_def lfs_cache_drop_def)
  note T2 = touchesD[OF conjunct1[OF b2[unfolded becomes_def]]]
  have rb: "unat sz \<le> length (c_buffer rc)"
    using f1(6) sz len(2) small_cache[of s1] f1(7) by (simp add: rc_def lfs_cache_drop_def small_room_def)
  define b where "b = take (unat sz) (c_buffer rc)"
  have lb: "length b = unat sz" "length b < 2 ^ 64" using rb by (simp_all add: b_def)
  have "take (unat sz) ?d = take (length b) (drop (unat (f_pos f1)) (bf_bytes (inline_content f1)))" using lb pos f1(4) by simp
  from flushedread_inline[OF _ _ nw lb(2) this, of s2] obtain f2 where
    f2: "lfs_file_flushedread s2 f1 b = (Inr (of_nat (length (take (unat sz) ?d))), take (unat sz) ?d @ drop (length (take (unat sz) ?d)) b, f2, s2)"
      "inline_file s2 f2" "inline_content f2 = (inline_content f1)\<lparr>bf_pos := unat (f_pos f1) + length (take (unat sz) ?d)\<rparr>"
      "\<not> has_flag LFS_F_WRITING f2" "has_flag LFS_O_APPEND f2 = has_flag LFS_O_APPEND f1"
    using f1(3,6) T2 by auto
  have c2: "inline_content f2 = \<lparr>bf_bytes = ?d, bf_pos = unat sz\<rparr>" using f2(3) f1(4) pos sz by simp
  have i2: "inline_file s f2" using f2(2) T2 f1(8) by simp
  have lc: "unat sz \<le> length (c_buffer (f_cache f2))" using i2 sz len small_cache[of s] by (simp add: inline_file_def)
  define g where "g = raise_flag (LFS_F_DIRTY OR LFS_F_READING OR LFS_F_INLINE) (f2\<lparr>f_ctz := \<lparr>z_head = LFS_BLOCK_INLINE, z_size = sz\<rparr>,
           f_cache := \<lparr>c_block = LFS_BLOCK_INLINE, c_offset = 0, c_size = cfg_cache_size (l_cfg s), c_buffer = blit 0 (take (unat sz) ?d) (c_buffer (f_cache f2))\<rparr>\<rparr>)"
  note G = truncated_inline[OF i2 f2(4) c2 less_imp_le[OF sz(1)] sz(2) g_def]
  define s3 where "s3 = s2\<lparr>l_read_cache := rc\<lparr>c_buffer := blit 0 (take (unat sz) ?d) (c_buffer rc)\<rparr>\<rparr>"
  have b3: "becomes p s2 f1 s3" unfolding s3_def
    by (rule becomes_cache[OF becomes_refl]) (use b2 rb sz in \<open>simp_all add: becomes_def s2_def rc_def same_buffer_def lfs_cache_drop_def\<close>)
  have a3: "file_at s3 p = Inr f1" using b3 by (simp add: becomes_def)
  have cfg: "l_cfg s3 = l_cfg s" using touchesD(1)[OF conjunct1[OF f1(1)[unfolded becomes_def]]] by (simp add: s3_def s2_def)
  have a2: "file_at s2 p = Inr f1" using b2 by (simp add: becomes_def)
  have "mem_get (c_buffer rc) 0 (unat sz) = Inr b" using rb by (simp add: mem_get_ok b_def)
  moreover have "take (unat sz) ?d @ drop (length (take (unat sz) ?d)) b = take (unat sz) ?d" using sz lb by simp
  moreover have "mem_put (c_buffer (f_cache f2)) 0 (take (unat sz) ?d) = Inr (blit 0 (take (unat sz) ?d) (c_buffer (f_cache f2)))"
    using lc sz by (simp add: mem_put_ok)
  ultimately have "truncate_inline grow s p sz = (Inr (), set_file p g s3)"
    using s1(1) a2 f2(1) cfg unfolding truncate_inline_def g_def
    by (simp add: get_file_def Let_def s2_def[symmetric] rc_def[symmetric] del: take_append) (simp add: s2_def s3_def rc_def)
  moreover have "becomes p s g (set_file p g s3)"
    using becomes_trans[OF f1(1) becomes_trans[OF b2 becomes_trans[OF b3 becomes_set_file[OF a3]]]] .
  ultimately show ?thesis using G f2(5) f1(5) unfolding simulates_def by auto
qed


lemma truncate_zeros_inline:
  assumes "file_at s p = Inr f" "inline_file s f" "small_room s" "inline_content f = \<lparr>bf_bytes = d, bf_pos = length d\<rparr>"
    "length d \<le> unat sz" "unat sz \<le> small s" "unat sz - length d < fuel"
  shows "\<exists>s'. truncate_zeros fuel grow s p sz = (Inr (), s') \<and>
    simulates p s f s' \<lparr>bf_bytes = d @ replicate (unat sz - length d) 0, bf_pos = unat sz\<rparr>"
  using assms
proof (induction fuel arbitrary: s f d)
  case (Suc fuel)
  have pos: "unat (f_pos f) = length d" using Suc.prems(4) by (simp add: inline_content_def)
  show ?case
  proof (cases "f_pos f < sz")
    case False
    then have "unat sz = length d" using Suc.prems(5) pos by (simp add: word_less_nat_alt)
    then show ?thesis using False Suc.prems(1,4) simulates_refl[OF Suc.prems(1,2)] by (simp add: get_file_def)
  next
    case True
    have "ideal_step 0 (has_flag LFS_O_APPEND f) (Write [0]) (inline_content f) =
        ((Inr (of_nat (length [0 :: u8])), []), \<lparr>bf_bytes = d @ [0], bf_pos = length (d @ [0])\<rparr>)"
      using Suc.prems(4) by (simp add: Let_def write_at_end)
    from rawwrite_inline[where grow = grow, OF Suc.prems(1-3) this] obtain s1 where
      s1: "lfs_file_rawwrite grow s p [0] = (Inr (of_nat (length [0 :: u8])), s1)" "simulates p s f s1 \<lparr>bf_bytes = d @ [0], bf_pos = length (d @ [0])\<rparr>"
      using True pos Suc.prems(6) by (auto simp: within_def word_less_nat_alt)
    obtain f1 where f1: "becomes p s f1 s1" "file_at s1 p = Inr f1" "inline_file s1 f1" "inline_content f1 = \<lparr>bf_bytes = d @ [0], bf_pos = length (d @ [0])\<rparr>"
      "has_flag LFS_O_APPEND f1 = has_flag LFS_O_APPEND f" "small_room s1" "small s1 = small s"
      by (rule simulatesE[OF s1(2) Suc.prems(3)])
    have "length (d @ [0]) \<le> unat sz" "unat sz \<le> small s1" "unat sz - length (d @ [0]) < fuel"
      using True pos Suc.prems(6,7) f1(7) by (auto simp: word_less_nat_alt)
    from Suc.IH[OF f1(2,3,6,4) this] obtain s2 where
      s2: "truncate_zeros fuel grow s1 p sz = (Inr (), s2)"
        "simulates p s1 f1 s2 \<lparr>bf_bytes = (d @ [0]) @ replicate (unat sz - length (d @ [0])) 0, bf_pos = unat sz\<rparr>" by blast
    have "unat sz - length d = Suc (unat sz - length (d @ [0]))" using True pos by (simp add: word_less_nat_alt)
    then have "(d @ [0]) @ replicate (unat sz - length (d @ [0])) 0 = d @ replicate (unat sz - length d) 0" by simp
    moreover have "truncate_zeros (Suc fuel) grow s p sz = (Inr (), s2)" using True Suc.prems(1) s1(1) s2(1) by (simp add: get_file_def)
    ultimately show ?thesis using simulates_trans[OF f1(1,5) s2(2)] by auto
  qed
qed simp

lemma lfs_min_mono: "a \<le> a' \<Longrightarrow> b \<le> b' \<Longrightarrow> lfs_min a b \<le> lfs_min a' b'"
  by (auto simp: lfs_min_def not_less)

lemma small_truncates_inline: "small_room s \<Longrightarrow> inline_max s \<le> truncate_inline_max s"
proof -
  assume "small_room s"
  then have "cfg_block_size (l_cfg s) = l_block_size s" by (simp add: small_room_def)
  moreover have "x div 16 \<le> x div 8" for x :: u64 by (simp add: word_le_nat_alt unat_div_distrib div_le_mono2)
  ultimately show ?thesis unfolding inline_max_def truncate_inline_max_def by (intro lfs_min_mono order_refl) simp_all
qed

lemma rawtruncate_inline:
  assumes "file_at s p = Inr f" "inline_file s f" "small_room s" "unat sz \<le> small s"
  shows "\<exists>s'. lfs_file_rawtruncate grow s p sz = (Inr (), s') \<and>
    simulates p s f s' (snd (ideal_step limit app (Truncate sz) (inline_content f)))"
proof -
  let ?d = "bf_bytes (inline_content f)"
  define a where "a = snd (ideal_step limit app (Truncate sz) (inline_content f))"
  have a: "bf_bytes a = take (unat sz) ?d @ replicate (unat sz - length ?d) 0" "bf_pos a = unat (f_pos f)"
    by (simp_all add: a_def inline_content_def)
  note F = inline_fileD[OF assms(2)]
  have len: "length ?d = unat (lfs_file_rawsize f)" "length ?d \<le> small s" "unat (f_pos f) \<le> small s"
    using inline_content[OF assms(2)] F(5) by (simp_all add: within_def)
  have room: "small s < 2 ^ 63" "inline_max s \<le> l_file_max_size s" using assms(3) by (simp_all add: small_room_def)
  have wr: "f_flags f AND LFS_O_WRONLY = LFS_O_WRONLY" using F(3) access_flags by simp
  have mx: "\<not> LFS_FILE_MAX < sz" using assms(4) room(1) by (simp add: word_less_nat_alt)
  define resize where "resize = (if sz < lfs_file_rawsize f
               then if sz \<le> truncate_inline_max s then truncate_inline grow s p sz else truncate_blocks grow s p sz
               else if lfs_file_rawsize f < sz
               then andthen (lfs_file_rawseek grow s p 0 LFS_SEEK_END) (\<lambda>_ s.
                      truncate_zeros (Suc (unat (sz - lfs_file_rawsize f))) grow s p sz)
               else (Inr (), s))"
  have "\<exists>s1 k. resize = (Inr (), s1) \<and> simulates p s f s1 \<lparr>bf_bytes = bf_bytes a, bf_pos = k\<rparr>"
  proof -
    consider "sz < lfs_file_rawsize f" | "lfs_file_rawsize f < sz" | "sz = lfs_file_rawsize f" by fastforce
    then show ?thesis
    proof cases
      case 1
      then have "sz \<le> truncate_inline_max s"
        using small_truncates_inline[OF assms(3)] assms(4) by (simp add: small_def word_le_nat_alt)
      moreover obtain s1 where "truncate_inline grow s p sz = (Inr (), s1)"
        "simulates p s f s1 \<lparr>bf_bytes = take (unat sz) ?d, bf_pos = unat sz\<rparr>"
        using truncate_inline_shortens[OF assms(1-3) 1] by blast
      moreover have "bf_bytes a = take (unat sz) ?d" using 1 a(1) len(1) by (simp add: word_less_nat_alt)
      ultimately show ?thesis using 1 by (auto simp: resize_def)
    next
      case 2
      have n: "ideal_seek (l_file_max_size s) (inline_content f) 0 LFS_SEEK_END = Inr (lfs_file_rawsize f)"
      proof -
        have "of_nat (length ?d) = lfs_file_rawsize f" by (simp add: len(1))
        moreover have "\<not> sint (lfs_file_rawsize f) < 0"
        proof -
          have "unat (lfs_file_rawsize f) < 2 ^ 63" using len room(1) by linarith
          then show ?thesis by (rule sint_in_room)
        qed
        moreover have "\<not> l_file_max_size s < lfs_file_rawsize f"
          using room(2) len by (simp add: not_less small_def word_le_nat_alt)
        ultimately show ?thesis by (simp add: ideal_seek_def)
      qed
      have "ideal_step (l_file_max_size s) False (Seek 0 LFS_SEEK_END) (inline_content f) =
          ((Inr (lfs_file_rawsize f), []), \<lparr>bf_bytes = ?d, bf_pos = length ?d\<rparr>)"
        using n len(1) by simp
      from rawseek_inline[where grow = grow, OF assms(1-3) this] obtain s1 where
        s1: "lfs_file_rawseek grow s p 0 LFS_SEEK_END = (Inr (lfs_file_rawsize f), s1)" "simulates p s f s1 \<lparr>bf_bytes = ?d, bf_pos = length ?d\<rparr>"
        using len by (auto simp: within_def)
      obtain f1 where f1: "becomes p s f1 s1" "file_at s1 p = Inr f1" "inline_file s1 f1" "inline_content f1 = \<lparr>bf_bytes = ?d, bf_pos = length ?d\<rparr>"
        "has_flag LFS_O_APPEND f1 = has_flag LFS_O_APPEND f" "small_room s1" "small s1 = small s"
        by (rule simulatesE[OF s1(2) assms(3)])
      have "length ?d \<le> unat sz" "unat sz \<le> small s1" "unat sz - length ?d < Suc (unat (sz - lfs_file_rawsize f))"
        using 2 len(1) assms(4) f1(7) by (simp_all add: word_less_nat_alt unat_sub_u64)
      from truncate_zeros_inline[OF f1(2,3,6,4) this] obtain s2 where
        "truncate_zeros (Suc (unat (sz - lfs_file_rawsize f))) grow s1 p sz = (Inr (), s2)"
        "simulates p s1 f1 s2 \<lparr>bf_bytes = ?d @ replicate (unat sz - length ?d) 0, bf_pos = unat sz\<rparr>" by blast
      moreover have "bf_bytes a = ?d @ replicate (unat sz - length ?d) 0" using 2 a(1) len(1) by (simp add: word_less_nat_alt)
      ultimately show ?thesis using 2 s1(1) simulates_trans[OF f1(1,5)] by (auto simp: resize_def)
    next
      case 3
      have "\<lparr>bf_bytes = bf_bytes a, bf_pos = bf_pos (inline_content f)\<rparr> = inline_content f"
        using 3 a(1) len(1) by (intro byte_file.equality) simp_all
      then have "simulates p s f s \<lparr>bf_bytes = bf_bytes a, bf_pos = bf_pos (inline_content f)\<rparr>"
        using simulates_refl[OF assms(1,2)] by (simp only:)
      moreover have "resize = (Inr (), s)" using 3 by (simp add: resize_def)
      ultimately show ?thesis by blast
    qed
  qed
  then obtain s1 k where s1: "resize = (Inr (), s1)" "simulates p s f s1 \<lparr>bf_bytes = bf_bytes a, bf_pos = k\<rparr>" by blast
  obtain f1 where f1: "becomes p s f1 s1" "file_at s1 p = Inr f1" "inline_file s1 f1" "inline_content f1 = \<lparr>bf_bytes = bf_bytes a, bf_pos = k\<rparr>"
    "has_flag LFS_O_APPEND f1 = has_flag LFS_O_APPEND f" "small_room s1" "small s1 = small s" "inline_file s1 = inline_file s" "l_file_max_size s1 = l_file_max_size s"
    by (rule simulatesE[OF s1(2) assms(3)])
  have "\<not> l_file_max_size s < f_pos f" using room(2) len(3) by (simp add: not_less small_def word_le_nat_alt)
  then have "ideal_step (l_file_max_size s1) app (Seek (f_pos f) LFS_SEEK_SET) (inline_content f1) = ((Inr (f_pos f), []), a)"
    using f1(4,9) a(2) by (simp add: ideal_seek_def)
  moreover have "within (small s1) a" using len assms(4) f1(7) a by (auto simp: within_def min_def)
  ultimately obtain s2 where
    s2: "lfs_file_rawseek grow s1 p (f_pos f) LFS_SEEK_SET = (Inr (f_pos f), s2)" "simulates p s1 f1 s2 a"
    using rawseek_inline[where grow = grow, OF f1(2,3,6)] by blast
  have "lfs_file_rawtruncate grow s p sz = (Inr (), s2)"
    using assms(1) wr mx s1(1) s2(1) by (simp add: lfs_file_rawtruncate_def get_file_def Let_def resize_def[symmetric] del: access_flags)
  then show ?thesis using simulates_trans[OF f1(1,5) s2(2)] by (simp add: a_def)
qed


subsection \<open>The public operations\<close>

fun file_step :: "'d grow \<Rightarrow> nat \<Rightarrow> file_op \<Rightarrow> 'd lfs \<Rightarrow> (u64 result \<times> u8 list) \<times> 'd lfs" where
  "file_step grow p (Write bs) s = (case lfs_file_write grow s p bs of (r, s) \<Rightarrow> ((r, []), s))"
| "file_step grow p (Read buf) s = (case lfs_file_read grow s p buf of (r, buf, s) \<Rightarrow> ((r, buf), s))"
| "file_step grow p (Seek off whence) s = (case lfs_file_seek grow s p off whence of (r, s) \<Rightarrow> ((r, []), s))"
| "file_step grow p (Truncate n) s =
     (case lfs_file_truncate grow s p n of (r, s) \<Rightarrow> ((case r of Inl h \<Rightarrow> Inl h | Inr _ \<Rightarrow> Inr 0, []), s))"
| "file_step grow p Tell s = (case lfs_file_tell s p of (r, s) \<Rightarrow> ((r, []), s))"
| "file_step grow p Size s = (case lfs_file_size s p of (r, s) \<Rightarrow> ((r, []), s))"

definition lock_free :: "'d lfs \<Rightarrow> bool" where
  "lock_free s \<longleftrightarrow> (\<forall>d. cfg_lock (l_cfg s) d = (Inr (), d) \<and> snd (cfg_unlock (l_cfg s) d) = d)"

text \<open>The file at \<open>p\<close> after some operations from the state \<open>s0\<close> on.\<close>

definition inline_at :: "'d lfs \<Rightarrow> bool \<Rightarrow> nat \<Rightarrow> 'd lfs \<Rightarrow> byte_file \<Rightarrow> bool" where
  "inline_at s0 app p s a \<longleftrightarrow> small_room s0 \<and> lock_free s0 \<and> touches p s0 s \<and>
     (\<exists>f. file_at s p = Inr f \<and> inline_file s0 f \<and> inline_content f = a \<and> has_flag LFS_O_APPEND f = app)"

lemma unlocked: "lock_free s \<Longrightarrow> l_cfg s' = l_cfg s \<Longrightarrow> body s' = (r, s'') \<Longrightarrow> locked body s' = (r, s'')"
  by (simp add: locked_def locked_by_def lock_free_def)

lemma inline_at_simulates: "inline_at s0 app p s a \<Longrightarrow> file_at s p = Inr f \<Longrightarrow> simulates p s f s' b \<Longrightarrow> inline_at s0 app p s' b"
proof -
  assume a: "inline_at s0 app p s a" "file_at s p = Inr f" "simulates p s f s' b"
  have t: "touches p s0 s" "small_room s0" "has_flag LFS_O_APPEND f = app" using a(1,2) by (auto simp: inline_at_def)
  obtain f' where f': "becomes p s f' s'" "inline_file s f'" "inline_content f' = b" "has_flag LFS_O_APPEND f' = has_flag LFS_O_APPEND f"
    using a(3) unfolding simulates_def by blast
  show ?thesis using a(1) f' t touchesD(8)[OF t(1)] touches_trans[OF t(1), of s'] unfolding inline_at_def becomes_def by auto
qed

lemma inline_step:
  assumes "inline_at s0 app p s a" "op_fits (small s0) (l_file_max_size s0) app op a"
  shows "\<exists>s'. file_step grow p op s = (fst (ideal_step (l_file_max_size s0) app op a), s') \<and>
    inline_at s0 app p s' (snd (ideal_step (l_file_max_size s0) app op a))"
proof -
  obtain f where f: "file_at s p = Inr f" "inline_content f = a" "has_flag LFS_O_APPEND f = app" and i0: "inline_file s0 f"
    and t: "touches p s0 s" "small_room s0" "lock_free s0" using assms(1) by (auto simp: inline_at_def)
  note T = touchesD[OF t(1)]
  have i: "inline_file s f" "small_room s" "small s = small s0" "l_file_max_size s = l_file_max_size s0" "l_cfg s = l_cfg s0" using T i0 t(2) by simp_all
  note u = unlocked[OF t(3) i(5)]
  have o: "asserting_open p True body s = body s" for body :: "'a lfs \<Rightarrow> 'b result \<times> 'a lfs"
    using becomes_isopen[OF f(1)] by (simp add: asserting_open_def)
  have fit: "within (small s) (snd (ideal_step (l_file_max_size s0) app op a))" using assms(2) i(3) by simp
  note S = inline_at_simulates[OF assms(1) f(1)]
  show ?thesis
  proof (cases op)
    case (Write bs)
    obtain r b where w: "ideal_step (l_file_max_size s0) app (Write bs) a = ((r, []), b)" by (simp add: Let_def)
    obtain s' where s': "lfs_file_rawwrite grow s p bs = (r, s')" "simulates p s f s' b"
      using rawwrite_inline[where grow = grow, OF f(1) i(1,2), of "l_file_max_size s0" bs r b] w fit Write f(2,3) by auto
    have "lfs_file_write grow s p bs = (r, s')" unfolding lfs_file_write_def by (rule u) (simp add: o s'(1))
    then show ?thesis using w Write S[OF s'(2)] by simp
  next
    case (Read buf)
    obtain r buf' b where w: "ideal_step (l_file_max_size s0) app (Read buf) a = ((r, buf'), b)" by (metis prod.exhaust)
    obtain s' where s': "lfs_file_rawread grow s p buf = (r, buf', s')" "simulates p s f s' b"
      using rawread_inline[where grow = grow, OF f(1) i(1,2), of buf "l_file_max_size s0" app r buf' b] w assms(2) Read f(2) by auto
    have "locked (asserting_open p True (\<lambda>s. case lfs_file_rawread grow s p buf of (r, buffer, s) \<Rightarrow> (Inr (r, buffer), s))) s = (Inr (r, buf'), s')"
      by (rule u) (simp add: asserting_open_def becomes_isopen[OF f(1)] s'(1))
    then have "lfs_file_read grow s p buf = (r, buf', s')" by (simp add: lfs_file_read_def)
    then show ?thesis using w Read S[OF s'(2)] by simp
  next
    case (Seek off whence)
    obtain r b where w: "ideal_step (l_file_max_size s0) app (Seek off whence) a = ((r, []), b)"
      by (cases "ideal_seek (l_file_max_size s0) a off whence") simp_all
    obtain s' where s': "lfs_file_rawseek grow s p off whence = (r, s')" "simulates p s f s' b"
      using rawseek_inline[where grow = grow and app = app, OF f(1) i(1,2), of off whence r b] w fit Seek f(2) i(4) by auto
    have "lfs_file_seek grow s p off whence = (r, s')" unfolding lfs_file_seek_def by (rule u) (simp add: o s'(1))
    then show ?thesis using w Seek S[OF s'(2)] by simp
  next
    case (Truncate n)
    have "unat n \<le> small s" using fit Truncate by (simp add: within_def min_def split: if_splits)
    from rawtruncate_inline[where grow = grow and limit = "l_file_max_size s0" and app = app, OF f(1) i(1,2) this] obtain s' where
      s': "lfs_file_rawtruncate grow s p n = (Inr (), s')" "simulates p s f s' (snd (ideal_step (l_file_max_size s0) app (Truncate n) a))"
      unfolding f(2) by blast
    have "lfs_file_truncate grow s p n = (Inr (), s')" unfolding lfs_file_truncate_def by (rule u) (simp add: asserting_open_def becomes_isopen[OF f(1)] s'(1))
    then show ?thesis using Truncate S[OF s'(2)] by simp
  next
    case Tell
    have "lfs_file_tell s p = (Inr (f_pos f), s)" unfolding lfs_file_tell_def
      by (rule u) (simp add: o get_file_def f(1) lfs_file_rawtell_def)
    moreover have "of_nat (bf_pos a) = f_pos f" by (simp add: f(2)[symmetric] inline_content_def)
    ultimately show ?thesis using Tell assms(1) by simp
  next
    case Size
    have "lfs_file_size s p = (Inr (lfs_file_rawsize f), s)" unfolding lfs_file_size_def by (rule u) (simp add: o get_file_def f(1))
    moreover have "of_nat (length (bf_bytes a)) = lfs_file_rawsize f" using inline_content(1)[OF i(1)] by (simp add: f(2))
    ultimately show ?thesis using Size assms(1) by simp
  qed
qed

interpretation inline: byte_array "inline_at s0 app p" "file_step grow p" "small s0" "l_file_max_size s0" app
  for s0 :: "'d lfs" and app p grow
  by unfold_locales (rule inline_step)

end
