(* ===== verification/FileProperties.thy ===== *)
theory FileProperties
  imports InlineFile DeviceProperties
begin

text \<open>
  The properties of open files.
\<close>

subsection \<open>A sample file\<close>

text \<open>A small file, as \<open>lfs_file_open\<close> leaves it, that holds two bytes.\<close>

definition sample_inline :: lfs_file where
  "sample_inline = \<lparr>ml_id = 1, ml_type = 1, ml_metadata = mdir_zero, f_ctz = \<lparr>z_head = LFS_BLOCK_INLINE, z_size = 2\<rparr>,
     f_flags = LFS_O_RDWR OR LFS_F_INLINE, f_pos = 0, f_block = 0, f_offset = 0,
     f_cache = \<lparr>c_block = LFS_BLOCK_INLINE, c_offset = 0, c_size = 8, c_buffer = [7, 8, 0, 0, 0, 0, 0, 0]\<rparr>,
     f_cfg = \<lparr>fc_buffer = None, fc_attrs = []\<rparr>\<rparr>"

definition sample_inline_state :: "memory_device lfs" where
  "sample_inline_state =
     (let s = sample memory_ops sample_memory
      in s\<lparr>l_block_size := 128, l_cfg := (l_cfg s)\<lparr>cfg_block_size := 128\<rparr>, l_metadata_list := [(1, File sample_inline)]\<rparr>)"

lemma sample_inline_max: "inline_max sample_inline_state = 8"
  by (simp add: inline_max_def sample_inline_state_def sample_def sample_config_def lfs_min_def Let_def)

lemma sample_inline:
  "file_at sample_inline_state 1 = Inr sample_inline" "inline_file sample_inline_state sample_inline" "small_room sample_inline_state"
  "lock_free sample_inline_state" "inline_content sample_inline = \<lparr>bf_bytes = [7, 8], bf_pos = 0\<rparr>"
  "small sample_inline_state = 8" "l_file_max_size sample_inline_state = 1000" "\<not> has_flag LFS_O_APPEND sample_inline"
proof -
  show s: "small sample_inline_state = 8" unfolding small_def sample_inline_max by simp
  show "file_at sample_inline_state 1 = Inr sample_inline" by (simp add: file_at_def sample_inline_state_def Let_def)
  show "inline_file sample_inline_state sample_inline" unfolding inline_file_def sample_inline_max
    by (simp add: has_flag_def sample_inline_def sample_inline_state_def sample_def sample_config_def lfs_file_rawsize_def Let_def)
  show "small_room sample_inline_state" unfolding small_room_def s sample_inline_max
    by (simp add: sample_inline_state_def sample_def sample_config_def sample_cache_def Let_def)
  show "lock_free sample_inline_state" by (simp add: lock_free_def sample_inline_state_def sample_def sample_config_def Let_def)
  show "inline_content sample_inline = \<lparr>bf_bytes = [7, 8], bf_pos = 0\<rparr>"
    by (simp add: inline_content_def sample_inline_def lfs_file_rawsize_def has_flag_def)
  show "l_file_max_size sample_inline_state = 1000" by (simp add: sample_inline_state_def sample_def Let_def)
  show "\<not> has_flag LFS_O_APPEND sample_inline" by (simp add: has_flag_def sample_inline_def)
qed

subsection \<open>Properties\<close>

text \<open>C3: a small file is an array of bytes. For any list of writes, reads, seeks, truncations and questions for
  the position and the size, on an open file whose content is inline and stays so, the public functions of
  littlefs give the answers of an array of bytes with a position: a write beyond the end fills the gap with
  zeros, an appending write goes to the end, a read stops at the end, a seek to a negative position or beyond the
  largest size of a file is \<open>LFS_ERR_INVAL\<close> and moves nothing, a truncation keeps the position. Neither the
  device nor the write cache nor any other open file or directory is touched, and no loop runs out of its bound.\<close>

theorem lfs_file_inline_is_array:
  assumes "file_at s p = Inr f" "inline_file s f" "small_room s" "lock_free s" "app = has_flag LFS_O_APPEND f"
    and "stays (small s) (l_file_max_size s) app ops (inline_content f)"
    and "run_ops (ideal_step (l_file_max_size s) app) ops (inline_content f) = (answers, a)"
  shows "\<exists>s' f' fr rc. run_ops (file_step grow p) ops s = (answers, s') \<and> file_at s' p = Inr f' \<and> inline_content f' = a \<and>
    s' = s\<lparr>l_metadata_list := l_metadata_list s', l_free := fr, l_read_cache := rc\<rparr> \<and>
    (\<forall>q. q \<noteq> p \<longrightarrow> map_of (l_metadata_list s') q = map_of (l_metadata_list s) q) \<and>
    (rc = l_read_cache s \<or> c_block rc = LFS_BLOCK_NULL)"
proof -
  have "inline_at s app p s (inline_content f)"
    unfolding inline_at_def using assms(1-5) touches_refl[of p s] by auto
  from inline.run_ok[OF this assms(6), of grow] obtain s' where
    s': "run_ops (file_step grow p) ops s = (answers, s')" "inline_at s app p s' a"
    unfolding assms(7) by auto
  obtain f' where f': "file_at s' p = Inr f'" "inline_content f' = a" "touches p s s'" using s'(2) by (auto simp: inline_at_def)
  obtain ml fr rc where t: "s' = s\<lparr>l_metadata_list := ml, l_free := fr, l_read_cache := rc\<rparr>"
    "\<forall>q. q \<noteq> p \<longrightarrow> map_of ml q = map_of (l_metadata_list s) q" "same_buffer (l_read_cache s) rc"
    using f'(3) unfolding touches_def by blast
  have "l_metadata_list s' = ml" using t(1) by simp
  moreover from this have "s' = s\<lparr>l_metadata_list := l_metadata_list s', l_free := fr, l_read_cache := rc\<rparr>" using t(1) by (simp only:)
  ultimately show ?thesis using s'(1) f' t(2,3) unfolding same_buffer_def
    by (intro exI[of _ s'] exI[of _ f'] exI[of _ fr] exI[of _ rc]) simp
qed

text \<open>One of each kind, with a gap, an end of file and a refused seek.\<close>

definition sample_ops :: "file_op list" where
  "sample_ops = [Seek 4 LFS_SEEK_SET, Write [1, 2], Seek (- 9) LFS_SEEK_CUR, Truncate 5, Tell, Size, Seek 1 LFS_SEEK_SET, Read [0, 0, 0, 0, 0, 0]]"

theorem lfs_file_inline_is_array_witness:
  "\<exists>s'. run_ops (file_step None 1) sample_ops sample_inline_state =
     ([(Inr 4, []), (Inr 2, []), (Inl (Err LFS_ERR_INVAL), []), (Inr 0, []), (Inr 6, []), (Inr 5, []), (Inr 1, []), (Inr 4, [8, 0, 0, 1, 0, 0])], s')"
proof -
  have two: "replicate 2 (0 :: u8) = [0, 0]" by (simp add: numeral_2_eq_2)
  note eval = sample_ops_def within_def ideal_seek_def write_at_def Let_def
  have "stays 8 1000 False sample_ops \<lparr>bf_bytes = [7, 8], bf_pos = 0\<rparr>" by (simp add: eval)
  moreover have "run_ops (ideal_step 1000 False) sample_ops \<lparr>bf_bytes = [7, 8], bf_pos = 0\<rparr> =
    ([(Inr 4, []), (Inr 2, []), (Inl (Err LFS_ERR_INVAL), []), (Inr 0, []), (Inr 6, []), (Inr 5, []), (Inr 1, []), (Inr 4, [8, 0, 0, 1, 0, 0])],
     \<lparr>bf_bytes = [7, 8, 0, 0, 1], bf_pos = 5\<rparr>)" by (simp add: eval two)
  ultimately show ?thesis
    using lfs_file_inline_is_array[OF sample_inline(1-4), of False sample_ops, unfolded sample_inline(5-7)] sample_inline(8) by blast
qed

end
