(* ===== verification/SeekProperties.thy ===== *)
theory SeekProperties
  imports FileProperties
begin

text \<open>
  The position of an open file, whose arithmetic mixes signed offsets with unsigned positions.
\<close>

subsection \<open>Signed offsets\<close>

lemma add_offset:
  fixes w off :: u64
  assumes "unat w < 2 ^ 63" "t = int (unat w) + sint off"
  shows "sint (w + off) < 0 \<longleftrightarrow> t < 0 \<or> 2 ^ 63 \<le> t" and "0 \<le> t \<Longrightarrow> int (unat (w + off)) = t"
proof -
  have sum: "int (unat (w + off)) = (int (unat w) + int (unat off)) mod 2 ^ 64"
    by (simp add: unat_word_ariths zmod_int)
  define W where "W = int (unat w)"
  define D where "D = int (unat off)"
  have w: "0 \<le> W" "W < 2 ^ 63" using assms(1) unfolding W_def by (simp, metis of_nat_less_iff of_nat_numeral of_nat_power)
  have d: "0 \<le> D" "D < 2 ^ 64" using uint_lt2p[of off] by (simp_all add: D_def)
  have t: "t = (if unat off < 2 ^ 63 then W + D else W + D - 2 ^ 64)" unfolding assms(2) sint_u64 W_def D_def by simp
  have s: "unat off < 2 ^ 63 \<longleftrightarrow> D < 2 ^ 63" unfolding D_def by (metis of_nat_less_iff of_nat_numeral of_nat_power)
  have wrap: "(W + D) mod 2 ^ 64 = (W + D - 2 ^ 64) mod 2 ^ 64" by (simp only: minus_mod_self2)
  have sum: "int (unat (w + off)) = (W + D) mod 2 ^ 64" unfolding sum W_def D_def ..
  show u: "int (unat (w + off)) = t" if "0 \<le> t"
  proof (cases "unat off < 2 ^ 63")
    case True
    then have "t = W + D" "t < 2 ^ 64" using t w d s by simp_all
    then show ?thesis unfolding sum using that by (simp only: mod_pos_pos_trivial)
  next
    case False
    then have "t = W + D - 2 ^ 64" "t < 2 ^ 64" using t w d by simp_all
    then show ?thesis unfolding sum wrap using that by (simp only: mod_pos_pos_trivial)
  qed
  have neg: "int (unat (w + off)) = t + 2 ^ 64" "2 ^ 63 \<le> t + 2 ^ 64" if "t < 0"
  proof -
    have "\<not> unat off < 2 ^ 63" using that t w d by (simp split: if_splits)
    then have "t + 2 ^ 64 = W + D" "2 ^ 63 \<le> D" using t s by simp_all
    moreover have "W + D < 2 ^ 64" "0 \<le> W + D" using that calculation w d by simp_all
    ultimately show "int (unat (w + off)) = t + 2 ^ 64" "2 ^ 63 \<le> t + 2 ^ 64"
      unfolding sum using w by (simp_all only: mod_pos_pos_trivial)
  qed
  have m: "unat (w + off) < 2 ^ 63 \<longleftrightarrow> int (unat (w + off)) < 2 ^ 63" by (metis of_nat_less_iff of_nat_numeral of_nat_power)
  have lt: "int (unat (w + off)) < 2 ^ 64" using uint_lt2p[of "w + off"] by simp
  show "sint (w + off) < 0 \<longleftrightarrow> t < 0 \<or> 2 ^ 63 \<le> t"
    unfolding sint_u64 m using u neg lt by (cases "t < 0") auto
qed

definition seek_base :: "lfs_file \<Rightarrow> lfs_whence \<Rightarrow> int" where
  "seek_base f whence = (case whence of LFS_SEEK_SET \<Rightarrow> 0 | LFS_SEEK_CUR \<Rightarrow> int (unat (f_pos f)) | LFS_SEEK_END \<Rightarrow> int (unat (lfs_file_rawsize f)))"

lemma seek_target_bounds:
  assumes "unat (f_pos f) < 2 ^ 63" "unat (lfs_file_rawsize f) < 2 ^ 63" "unat limit < 2 ^ 63" "t = seek_base f whence + sint off"
  shows "seek_target f off whence = Inl h \<Longrightarrow> h = Err LFS_ERR_INVAL \<and> (t < 0 \<or> int (unat limit) < t)"
    and "seek_target f off whence = Inr n \<Longrightarrow> (limit < n \<longleftrightarrow> t < 0 \<or> int (unat limit) < t) \<and> (n \<le> limit \<longrightarrow> int (unat n) = t)"
proof -
  have lim: "int (unat limit) < 2 ^ 63" using assms(3) by (metis of_nat_less_iff of_nat_numeral of_nat_power)
  define base where "base = (case whence of LFS_SEEK_SET \<Rightarrow> 0 | LFS_SEEK_CUR \<Rightarrow> f_pos f | LFS_SEEK_END \<Rightarrow> lfs_file_rawsize f)"
  have b: "unat base < 2 ^ 63" "int (unat base) = seek_base f whence"
    using assms(1,2) by (simp_all add: base_def seek_base_def split: lfs_whence.split)
  have t: "t = int (unat base) + sint off" using assms(4) b(2) by simp
  note A = add_offset[OF b(1) t]
  have n: "(limit < base + off \<longleftrightarrow> t < 0 \<or> int (unat limit) < t) \<and> (base + off \<le> limit \<longrightarrow> int (unat (base + off)) = t)"
  proof (cases "t < 0")
    case True
    then have "\<not> unat (base + off) < 2 ^ 63" using A(1) unfolding sint_u64 by (auto split: if_splits)
    then have "limit < base + off" using assms(3) by (simp add: word_less_nat_alt)
    then show ?thesis using True by (simp add: not_le [symmetric])
  next
    case False
    then have "int (unat (base + off)) = t" using A(2) by simp
    moreover have "limit < base + off \<longleftrightarrow> int (unat limit) < int (unat (base + off))" by (simp only: word_less_nat_alt of_nat_less_iff)
    ultimately show ?thesis using False by simp
  qed
  show "seek_target f off whence = Inl h \<Longrightarrow> h = Err LFS_ERR_INVAL \<and> (t < 0 \<or> int (unat limit) < t)"
    using A(1) lim by (cases whence) (auto simp: seek_target_def base_def Let_def split: if_splits)
  show "seek_target f off whence = Inr n \<Longrightarrow> (limit < n \<longleftrightarrow> t < 0 \<or> int (unat limit) < t) \<and> (n \<le> limit \<longrightarrow> int (unat n) = t)"
    using n by (cases whence) (auto simp: seek_target_def base_def Let_def split: if_splits)
qed

subsection \<open>Properties\<close>



end
