(* ===== verification/TraverseEnds.thy ===== *)
theory TraverseEnds
  imports LogFetch FsTraverse
begin

text \<open>
  The functions that follow what the disk says come to an end, whatever it says: reading a log, a skip
  list, the list of directories and the whole file system, on a device that does not fail. Each of them
  gives an answer, \<open>LFS_ERR_CORRUPT\<close> or \<open>LFS_ERR_NOENT\<close>; none runs out of its bound, violates an assertion
  or reads outside a buffer.
\<close>

definition answered :: "'x result \<Rightarrow> bool" where
  "answered r \<longleftrightarrow> (case r of Inl h \<Rightarrow> h = Err LFS_ERR_CORRUPT \<or> h = Err LFS_ERR_NOENT | Inr _ \<Rightarrow> True)"

lemma answered_simps [simp]:
  "answered (Inr x)" "answered (Inl (Err LFS_ERR_CORRUPT))" "answered (Inl (Err LFS_ERR_NOENT))"
  by (simp_all add: answered_def)

lemma answered_Inl: "answered (Inl h :: 'x result) \<Longrightarrow> answered (Inl h :: 'y result)"
  by (simp add: answered_def)

lemma found_fits:
  assumes "log_result blk (Some c)"
  shows "fst c \<le> length blk"
proof -
  obtain st where st: "(scans blk)\<^sup>*\<^sup>* (scan_start blk) st" "ls_found st = Some c"
    using assms unfolding log_result_def by blast
  have "\<forall>c. ls_found st = Some c \<longrightarrow> fst c \<le> length blk"
    using st(1)
  proof (induction rule: rtranclp_induct)
    case (step st st')
    then show ?case
      using scans_offset[OF step.hyps(2)]
      by (elim scansE) (auto simp: after_entry_def after_commit_def tag_fits_def Let_def)
  qed (simp add: scan_start_def)
  then show ?thesis using st(2) by blast
qed

context reliable_device begin

text \<open>A walk changes the read cache, the seed, and the bits of the window of the allocator when its callback does.\<close>

definition same_window :: "lfs_free \<Rightarrow> lfs_free \<Rightarrow> bool" where
  "same_window fr fr' \<longleftrightarrow> fr' = fr\<lparr>fr_buffer := fr_buffer fr'\<rparr> \<and> length (fr_buffer fr') = length (fr_buffer fr)"

lemma same_window_refl [simp]: "same_window fr fr"
  by (simp add: same_window_def)

lemma same_window_trans: "same_window fr fr' \<Longrightarrow> same_window fr' fr'' \<Longrightarrow> same_window fr fr''"
  unfolding same_window_def by (cases fr; cases fr'; cases fr''; simp)

lemma same_windowD:
  assumes "same_window fr fr'"
  shows "fr_offset fr' = fr_offset fr" "fr_size fr' = fr_size fr" "fr_i fr' = fr_i fr" "fr_ack fr' = fr_ack fr"
    "length (fr_buffer fr') = length (fr_buffer fr)"
  using assms unfolding same_window_def by (cases fr; cases fr'; simp)+

definition walks :: "'d lfs \<Rightarrow> 'd lfs \<Rightarrow> bool" where
  "walks s s' \<longleftrightarrow> ready s' \<and> same_window (l_free s) (l_free s') \<and>
     (\<exists>rc d seed fr. s' = s\<lparr>l_read_cache := rc, l_dev := d, l_seed := seed, l_free := fr\<rparr> \<and> content d = content (l_dev s))"

lemma keeps_log_walks: "keeps_log s s' \<Longrightarrow> walks s s'"
proof -
  assume "keeps_log s s'"
  then obtain rc d seed where k: "ready s'" "s' = s\<lparr>l_read_cache := rc, l_dev := d, l_seed := seed\<rparr>" "content d = content (l_dev s)"
    unfolding keeps_log_def by blast
  then have "s' = s\<lparr>l_read_cache := rc, l_dev := d, l_seed := seed, l_free := l_free s\<rparr>" by simp
  moreover have "same_window (l_free s) (l_free s')" by (simp add: k(2))
  ultimately show "walks s s'" unfolding walks_def using k(1,3) by blast
qed

lemma walks_refl: "ready s \<Longrightarrow> walks s s"
  by (rule keeps_log_walks[OF keeps_log_refl])

lemma walks_trans: "walks s s' \<Longrightarrow> walks s' s'' \<Longrightarrow> walks s s''"
  unfolding walks_def using same_window_trans by (elim exE conjE) auto

lemma walks_ready: "walks s s' \<Longrightarrow> ready s'"
  by (simp add: walks_def)

text \<open>Reads, in a block or outside of it.\<close>

definition ends :: "'d lfs \<Rightarrow> 'x result \<Rightarrow> 'd lfs \<Rightarrow> bool" where
  "ends s r s' \<longleftrightarrow> answered r \<and> walks s s'"

lemma ends_trans: "walks s s' \<Longrightarrow> ends s' r s'' \<Longrightarrow> ends s r s''"
  unfolding ends_def using walks_trans by blast

lemma pending_keeps: "walks s s' \<Longrightarrow> pending_fits s' wc = pending_fits s wc"
  by (auto simp: walks_def pending_fits_def cache_fits_def split: option.splits)

lemma read_through_ends:
  assumes "ready s" "pending_fits s wc" "unat off + length buf < 2 ^ 64"
    and "buf = [] \<or> 0 < unat hint \<and> (unat hint \<le> bsize \<or> unat hint \<le> length buf)"
  shows "\<exists>r bytes s'. lfs_bd_read_through s wc hint block off buf = (r, bytes, s') \<and> ends s r s' \<and> length bytes = length buf"
proof -
  note b = readyD(4,5)[OF assms(1)]
  have o: "unat (off + of_nat (length buf)) = unat off + length buf" by (rule unat_add_of_nat_u64) (rule assms)
  show ?thesis
  proof (cases "unat block < bcount \<and> unat off + length buf \<le> bsize")
    case False
    then have "lfs_bd_read_through s wc hint block off buf = (Inl (Err LFS_ERR_CORRUPT), buf, s)"
      using b o by (auto simp add: lfs_bd_read_through_def lfs_bd_read_def word_less_nat_alt word_le_nat_alt not_less Let_def)
    then show ?thesis using walks_refl[OF assms(1)] by (auto simp: ends_def)
  next
    case in_block: True
    show ?thesis
    proof (cases buf)
      case Nil
      have "lfs_bd_read_through s wc hint block off buf = (Inr (), [], s)"
        using in_block b by (simp add: Nil lfs_bd_read_through_def lfs_bd_read_def word_less_nat_alt word_le_nat_alt not_le not_less)
      then show ?thesis using walks_refl[OF assms(1)] Nil by (auto simp: ends_def)
    next
      case Cons
      then have h: "0 < unat hint" "unat hint \<le> bsize" using assms(4) in_block by auto
      obtain r bytes s' where e: "lfs_bd_read_through s wc hint block off buf = (r, bytes, s')" by (metis prod_cases3)
      have R: "keeps s s'" "sound r" "length bytes = length buf" "r = Inr () \<longrightarrow> ready s'"
        using bd_read_through[OF assms(1,2) conjunct1[OF in_block] conjunct2[OF in_block] h] by (simp_all add: e own_read_def)
      then have "r = Inr ()" using sound_ok[OF R(2)] by auto
      then show ?thesis using e R keeps_log_walks[OF keeps_keeps_log] by (auto simp: ends_def)
    qed
  qed
qed

lemma read_own_ends:
  assumes "ready s" "unat off + length buf < 2 ^ 64" "buf = [] \<or> 0 < unat hint \<and> (unat hint \<le> bsize \<or> unat hint \<le> length buf)"
  shows "\<exists>r bytes s'. lfs_bd_read_own s False hint block off buf = (r, bytes, s') \<and> ends s r s' \<and> length bytes = length buf"
  using read_through_ends[OF assms(1) pending_fits_None assms(2,3), of block]
  by (simp add: lfs_bd_read_own_def lfs_bd_read_through_def)

lemma read_local_ends:
  assumes "ready s" "unat off + n < 2 ^ 64" "0 < unat hint" "unat hint \<le> bsize"
  shows "\<exists>r s'. read_local s False hint block off n = (r, s') \<and> ends s r s'"
proof -
  obtain r bytes s' where "lfs_bd_read_own s False hint block off (replicate n 0) = (r, bytes, s')" "ends s r s'"
    using read_own_ends[OF assms(1), of off "replicate n 0" hint block] assms(2-4) by auto
  then show ?thesis by (cases r) (auto simp: read_local_def ends_def answered_def)
qed

subsection \<open>Logs\<close>

lemma getslice_loop_ends:
  assumes "ready s" "4 \<le> bsize" "unat offset < 2 ^ 63" "unat goff < 2 ^ 62" "unat offset < fuel"
  shows "\<exists>r bytes s'. lfs_dir_getslice_loop fuel s dir gmask gtag goff buf offset ntag gdiff = (r, bytes, s') \<and> ends s r s'"
  using assms(1,3,5)
proof (induction fuel arbitrary: s offset ntag gdiff)
  case (Suc fuel)
  define stop where "stop \<longleftrightarrow> \<not> 4 + lfs_tag_dsize ntag \<le> offset"
  define off where "off = offset - lfs_tag_dsize ntag"
  define splice where "splice \<longleftrightarrow> lfs_tag_id gmask \<noteq> 0 \<and> lfs_tag_type1 ntag = LFS_TYPE_SPLICE \<and>
                      lfs_tag_id ntag \<le> lfs_tag_id (gtag - gdiff)"
  define created where "created \<longleftrightarrow> splice \<and> ntag = (LFS_MKTAG LFS_TYPE_CREATE 0 0 OR (LFS_MKTAG 0 0x3ff 0 AND (gtag - gdiff)))"
  define gd where "gd = (if splice then gdiff + splice_mktag ntag else gdiff)"
  define found where "found \<longleftrightarrow> (gmask AND ntag) = (gmask AND (gtag - gd))"
  define diff where "diff = unat (lfs_min (lfs_tag_size ntag) (of_nat (length buf)))"
  note U = lfs_dir_getslice_loop.simps(2)[of fuel s dir gmask gtag goff buf offset ntag gdiff, unfolded Let_def,
      folded splice_def, folded created_def gd_def, folded found_def, folded stop_def off_def diff_def]
  show ?case
  proof (cases stop)
    case True
    then show ?thesis unfolding U using walks_refl[OF Suc.prems(1)] by (auto simp: ends_def)
  next
    case False
    have d: "unat (4 + lfs_tag_dsize ntag) = 4 + unat (lfs_tag_dsize ntag)"
      using dsize_ge(2)[of ntag] by (subst unat_add_u64) simp_all
    then have le: "4 + unat (lfs_tag_dsize ntag) \<le> unat offset" using False by (simp add: stop_def word_le_nat_alt)
    then have o: "unat off = unat offset - unat (lfs_tag_dsize ntag)" unfolding off_def by (intro unat_sub_u64) linarith
    have lt: "unat off < 2 ^ 63" "unat off < fuel" using o Suc.prems(2,3) dsize_ge(1)[of ntag] le by linarith+
    have "unat off + 4 < 2 ^ 64" using lt(1) by simp
    moreover have "unat (4 :: u64) = 4" by simp
    ultimately obtain q s1 where s1: "read_local s False 4 (fst (m_pair dir)) off 4 = (q, s1)" "ends s q s1"
      using read_local_ends[OF Suc.prems(1), of off 4 4 "fst (m_pair dir)"] assms(2) by auto
    have k: "walks s s1" using s1(2) by (simp add: ends_def)
    show ?thesis
    proof (cases q)
      case (Inl h)
      then show ?thesis unfolding U using False s1 answered_Inl by (auto simp: ends_def)
    next
      case (Inr bytes)
      let ?loop = "lfs_dir_getslice_loop fuel s1 dir gmask gtag goff buf off ((lfs_frombe32 (le_word bytes) XOR ntag) AND 0x7fffffff) gd"
      let ?read = "lfs_bd_read_own s1 False (of_nat diff) (fst (m_pair dir)) (off + 4 + goff) (take diff buf)"
      have "diff \<le> unat (lfs_tag_size ntag)" unfolding diff_def lfs_min_unat by simp
      then have sz: "diff \<le> 1023" using unat_tag_size[of ntag] by linarith
      have "unat (off + 4) = unat off + 4" using lt(1) by (subst unat_add_u64) simp_all
      then have "unat (off + 4 + goff) = unat off + 4 + unat goff" using lt(1) assms(4) by (subst unat_add_u64) simp_all
      then have "unat (off + 4 + goff) + length (take diff buf) < 2 ^ 64" using lt(1) assms(4) sz by simp
      moreover have "take diff buf = [] \<or> 0 < unat (of_nat diff :: u64) \<and> unat (of_nat diff :: u64) \<le> length (take diff buf)"
      proof -
        have "diff \<le> length buf"
          unfolding diff_def lfs_min_unat unat_of_nat by (rule min.coboundedI2) simp
        moreover have "unat (of_nat diff :: u64) = diff" using sz by (intro unat_of_nat_u64) simp
        ultimately show ?thesis by (cases "diff = 0") simp_all
      qed
      ultimately obtain p b s2 where rd: "?read = (p, b, s2)" "ends s1 p s2"
        using read_own_ends[OF walks_ready[OF k]] by meson
      obtain r b' s3 where lp: "?loop = (r, b', s3)" "ends s1 r s3"
        using Suc.IH[OF walks_ready[OF k] lt] by meson
      show ?thesis
        unfolding U using False s1(1) Inr rd(1) lp(1) k ends_trans[OF k rd(2)] ends_trans[OF k lp(2)]
        by (cases p) (auto simp: ends_def answered_def)
    qed
  qed
qed simp

lemma dir_get_ends:
  assumes "ready s" "4 \<le> bsize" "unat (m_offset dir) < 2 ^ 63"
  shows "\<exists>r bytes s'. lfs_dir_get s dir gmask gtag buf = (r, bytes, s') \<and> ends s r s'"
proof -
  have "unat (0 :: u64) < 2 ^ 62" by simp
  from getslice_loop_ends[OF assms(1-3) this, of "Suc (unat (m_offset dir))"] show ?thesis
    unfolding lfs_dir_get_def lfs_dir_getslice_def Let_def by blast
qed

lemma dir_fetch_ends:
  assumes "ready s" "4 \<le> bsize"
  shows "\<exists>r dir' s'. lfs_dir_fetch s dir pair = (r, dir', s') \<and> ends s r s' \<and> (\<forall>x. r = Inr x \<longrightarrow> unat (m_offset dir') < 2 ^ 63)"
proof (cases "unat (fst pair) < bcount \<and> unat (snd pair) < bcount")
  case False
  then have "lfs_dir_fetch s dir pair = (Inl (Err LFS_ERR_CORRUPT), dir, s)"
    using readyD(5)[OF assms(1)] by (auto simp: lfs_dir_fetch_def lfs_dir_fetchmatch_def word_le_nat_alt not_less)
  then show ?thesis using walks_refl[OF assms(1)] by (auto simp: ends_def)
next
  case True
  let ?C = "content (l_dev s)"
  obtain r dir' s' res where R: "lfs_dir_fetch s dir pair = (r, dir', s')" "keeps_log s s'"
    "pair_result ?C (newest_first ?C pair) res"
    "case res of None \<Rightarrow> r = Inl (Err LFS_ERR_CORRUPT) | Some (p, c) \<Rightarrow> r = fetch_code c \<and> dir_of ?C p c dir'"
    using dir_fetch_result[OF assms(1) conjunct1[OF True] conjunct2[OF True] assms(2)] by blast
  have ans: "answered r" using R(4) by (auto simp: fetch_code_def split: option.splits prod.splits if_splits)
  have "unat (m_offset dir') < 2 ^ 63" if ok: "r = Inr x" for x
  proof -
    obtain p c where res: "res = Some (p, c)" "dir_of ?C p c dir'" using R(4) ok by (cases res) auto
    have len: "length (?C (unat b)) = bsize" if "b = fst pair \<or> b = snd pair" for b
      using that True length_content[OF readyD(3)[OF assms(1)]] by auto
    have nf: "fst (newest_first ?C pair) \<in> {fst pair, snd pair}" "snd (newest_first ?C pair) \<in> {fst pair, snd pair}"
      by (auto simp: newest_first_def)
    obtain c1 c2 where c: "log_result (?C (unat (fst (newest_first ?C pair)))) c1" "log_result (?C (unat (snd (newest_first ?C pair)))) c2"
      "res = (case c1 of Some x \<Rightarrow> Some (newest_first ?C pair, x) | None \<Rightarrow> map_option (\<lambda>x. (lfs_pair_swap (newest_first ?C pair), x)) c2)"
      using R(3) unfolding pair_result_def by blast
    then have "log_result (?C (unat (fst (newest_first ?C pair)))) (Some c) \<or> log_result (?C (unat (snd (newest_first ?C pair)))) (Some c)"
      using res(1) by (cases c1; cases c2) auto
    moreover have "length (?C (unat (fst (newest_first ?C pair)))) = bsize" "length (?C (unat (snd (newest_first ?C pair)))) = bsize"
      using nf by (auto intro: len)
    ultimately have "fst c \<le> bsize" by (auto dest: found_fits)
    moreover have "unat (m_offset dir') = fst c" using res(2) by (cases c) (simp add: dir_of_def dir_found_def)
    ultimately show ?thesis using readyD(6)[OF assms(1)] by simp
  qed
  then show ?thesis using R(1) keeps_log_walks[OF R(2)] ans by (auto simp: ends_def)
qed

subsection \<open>Skip lists and the file system\<close>

text \<open>A callback that ends, on a window with the property \<open>W\<close>, which is about its size and counters.\<close>

definition okay :: "(lfs_free \<Rightarrow> bool) \<Rightarrow> 'd lfs \<Rightarrow> bool" where
  "okay W s \<longleftrightarrow> ready s \<and> W (l_free s)"

definition block_ends :: "(lfs_free \<Rightarrow> bool) \<Rightarrow> ('d, 'c) block_callback \<Rightarrow> bool" where
  "block_ends W cb \<longleftrightarrow> (\<forall>fr fr'. same_window fr fr' \<longrightarrow> W fr \<longrightarrow> W fr') \<and>
     (\<forall>s c b. okay W s \<longrightarrow> (\<exists>r c' s'. cb s c b = (r, c', s') \<and> ends s r s'))"

lemma okay_ready: "okay W s \<Longrightarrow> ready s"
  by (simp add: okay_def)

lemma okay_walk: "block_ends W cb \<Longrightarrow> okay W s \<Longrightarrow> walks s s' \<Longrightarrow> okay W s'"
  unfolding block_ends_def okay_def walks_def by blast

lemma block_endsE:
  assumes "block_ends W cb" "okay W s"
  obtains r c' s' where "cb s c b = (r, c', s')" "ends s r s'" "walks s s'" "okay W s'"
proof -
  obtain r c' s' where e: "cb s c b = (r, c', s')" "ends s r s'" using assms unfolding block_ends_def by blast
  then have "walks s s'" by (simp add: ends_def)
  then show thesis using that[OF e] okay_walk[OF assms] by blast
qed

lemma ctz_traverse_loop_ends:
  assumes "block_ends W cb" "okay W s" "pending_fits s wc" "unat index < fuel"
  shows "\<exists>r c' s'. lfs_ctz_traverse_loop fuel cb s c wc head index = (r, c', s') \<and> ends s r s'"
  using assms(2-4)
proof (induction fuel arbitrary: s c head index)
  case (Suc fuel)
  obtain r1 c1 s1 where s1: "cb s c head = (r1, c1, s1)" "ends s r1 s1" "walks s s1" "okay W s1"
    by (rule block_endsE[OF assms(1) Suc.prems(1)])
  define count where "count = 2 - (index AND 1)"
  have odd: "unat (index AND 1) = unat index mod 2" by (simp add: and_one_eq unat_mod)
  then have "unat (index AND 1) \<le> unat (2 :: u64)" by (simp add: less_imp_le)
  then have cn: "unat count = 2 - unat index mod 2" unfolding count_def by (subst unat_sub_u64) (simp_all add: odd)
  show ?case
  proof (cases "r1 = Inr () \<and> index \<noteq> 0")
    case False
    then show ?thesis using s1 by (cases r1) (auto simp: ends_def)
  next
    case True
    then have pos: "0 < unat index" by (simp add: unat_gt_0)
    have c8: "unat (count * 8) = unat count * 8" using cn by (subst unat_mult_lem[THEN iffD1]) simp_all
    have "unat (0 :: u64) + length (replicate (unat count * 8) (0 :: u8)) < 2 ^ 64" "0 < unat (count * 8)"
      "unat (count * 8) \<le> length (replicate (unat count * 8) (0 :: u8))"
      using cn by (simp_all add: c8)
    moreover have "pending_fits s1 wc" using Suc.prems(2) pending_keeps[OF s1(3)] by simp
    ultimately obtain r2 b s2 where s2: "lfs_bd_read_through s1 wc (count * 8) head 0 (replicate (unat count * 8) 0) = (r2, b, s2)" "ends s1 r2 s2"
      using read_through_ends[OF okay_ready[OF s1(4)]] by meson
    have k2: "walks s s2" using walks_trans[OF s1(3)] s2(2) by (simp add: ends_def)
    show ?thesis
    proof (cases r2)
      case (Inl h)
      then show ?thesis using True s1(1) s2 k2 answered_Inl by (auto simp: count_def [symmetric] Let_def ends_def)
    next
      case (Inr u)
      define heads where "heads = lfs_pair_fromle64 (pair_of_bytes b)"
      obtain r3 c3 s3 where s3: "cb s2 c1 (fst heads) = (r3, c3, s3)" "ends s2 r3 s3" "walks s2 s3" "okay W s3"
        by (rule block_endsE[OF assms(1) okay_walk[OF assms(1) Suc.prems(1) k2]])
      have k3: "walks s s3" using walks_trans[OF k2 s3(3)] .
      have "unat count \<le> unat index" using pos unfolding cn by presburger
      then have "unat (index - count) = unat index - unat count" by (rule unat_sub_u64)
      then have "unat (index - count) < fuel" using pos cn Suc.prems(3) by linarith
      moreover have "pending_fits s3 wc" using Suc.prems(2) pending_keeps[OF k3] by simp
      ultimately obtain r4 c4 s4 where s4: "lfs_ctz_traverse_loop fuel cb s3 c3 wc (if count = 1 then fst heads else snd heads) (index - count) = (r4, c4, s4)"
        "ends s3 r4 s4"
        using Suc.IH[OF s3(4)] by meson
      have "lfs_ctz_traverse_loop (Suc fuel) cb s c wc head index = (case r3 of Inl h \<Rightarrow> (Inl h, c3, s3) | Inr _ \<Rightarrow> (r4, c4, s4))"
        unfolding lfs_ctz_traverse_loop.simps(2) s1(1) Let_def count_def [symmetric] s2(1) Inr prod.case sum.case heads_def [symmetric] s3(1)
        using True s4(1) by (cases r3) (simp_all del: lfs_ctz_traverse_loop.simps)
      then show ?thesis using ends_trans[OF k2 s3(2)] ends_trans[OF k3 s4(2)] by (cases r3) auto
    qed
  qed
qed simp

lemma ctz_traverse_ends:
  assumes "block_ends W cb" "okay W s" "pending_fits s wc"
  shows "\<exists>r c' s'. lfs_ctz_traverse cb s c wc head sz = (r, c', s') \<and> ends s r s'"
  using ctz_traverse_loop_ends[OF assms lessI, where c = c and head = head] walks_refl[OF okay_ready[OF assms(2)]]
  by (auto simp: lfs_ctz_traverse_def Let_def ends_def simp del: lfs_ctz_traverse_loop.simps)

lemma rawtraverse_entry_ends:
  assumes "block_ends W cb" "okay W s" "4 \<le> bsize" "unat (m_offset dir) < 2 ^ 63"
  shows "\<exists>r c' s'. rawtraverse_entry cb s c dir orphans ident = (r, c', s') \<and> ends s r s'"
proof -
  obtain r b s1 where s1: "lfs_dir_get s dir (LFS_MKTAG LFS_TYPE_GLOBALS 0x3ff 0) (LFS_MKTAG LFS_TYPE_STRUCT (ucast ident) 16) (replicate 16 0) = (r, b, s1)"
    "ends s r s1" using dir_get_ends[OF okay_ready[OF assms(2)] assms(3,4)] by blast
  then have k: "walks s s1" by (simp add: ends_def)
  note rd = okay_walk[OF assms(1,2) k]
  show ?thesis
  proof (cases r)
    case (Inl h)
    then show ?thesis using s1 answered_Inl by (auto simp: rawtraverse_entry_def ends_def)
  next
    case (Inr tag)
    define ctz where "ctz = lfs_ctz_fromle64 (ctz_of_bytes b)"
    obtain r2 c2 s2 where s2: "lfs_ctz_traverse cb s1 c None (z_head ctz) (z_size ctz) = (r2, c2, s2)" "ends s1 r2 s2"
      using ctz_traverse_ends[OF assms(1) rd pending_fits_None] by blast
    obtain r3 c3 s3 where s3: "cb s1 c (z_head ctz) = (r3, c3, s3)" "ends s1 r3 s3" "walks s1 s3" "okay W s3"
      by (rule block_endsE[OF assms(1) rd])
    obtain r4 c4 s4 where s4: "cb s3 c3 (z_size ctz) = (r4, c4, s4)" "ends s3 r4 s4" by (rule block_endsE[OF assms(1) s3(4)])
    have "rawtraverse_entry cb s c dir orphans ident =
        (if lfs_tag_type3 tag = LFS_TYPE_CTZSTRUCT then (r2, c2, s2)
         else if orphans \<and> lfs_tag_type3 tag = LFS_TYPE_DIRSTRUCT then (case r3 of Inl h \<Rightarrow> (Inl h, c3, s3) | Inr _ \<Rightarrow> (r4, c4, s4))
         else (Inr (), c, s1))"
      unfolding rawtraverse_entry_def s1(1) Inr prod.case sum.case Let_def ctz_def [symmetric] s2(1) s3(1) by (simp add: s4(1) split: sum.splits)
    then show ?thesis
      using ends_trans[OF k s2(2)] ends_trans[OF k s3(2)] ends_trans[OF walks_trans[OF k s3(3)] s4(2)] k
      by (cases r3) (auto simp: ends_def)
  qed
qed

lemma rawtraverse_entries_ends:
  assumes "block_ends W cb" "okay W s" "4 \<le> bsize" "unat (m_offset dir) < 2 ^ 63"
  shows "\<exists>r c' s'. rawtraverse_entries n cb s c dir orphans ident = (r, c', s') \<and> ends s r s'"
  using assms(2)
proof (induction n arbitrary: s c ident)
  case 0
  then show ?case using walks_refl[OF okay_ready] by (auto simp: ends_def)
next
  case (Suc n)
  obtain r1 c1 s1 where s1: "rawtraverse_entry cb s c dir orphans ident = (r1, c1, s1)" "ends s r1 s1"
    using rawtraverse_entry_ends[OF assms(1) Suc.prems assms(3,4)] by blast
  then have k: "walks s s1" by (simp add: ends_def)
  obtain r2 c2 s2 where "rawtraverse_entries n cb s1 c1 dir orphans (ident + 1) = (r2, c2, s2)" "ends s1 r2 s2"
    using Suc.IH[OF okay_walk[OF assms(1) Suc.prems k]] by blast
  then show ?case using s1 ends_trans[OF k] by (cases r1) auto
qed

lemma rawtraverse_dirs_ends:
  assumes "block_ends W cb" "okay W s" "4 \<le> bsize"
  shows "\<exists>r c' s'. rawtraverse_dirs n cb s c dir orphans = (r, c', s') \<and> ends s r s'"
  using assms(2)
proof (induction n arbitrary: s c dir)
  case 0
  then show ?case using walks_refl[OF okay_ready] by (subst rawtraverse_dirs.simps) (auto simp: ends_def)
next
  case (Suc n)
  obtain r1 c1 s1 where s1: "cb s c (fst (m_tail dir)) = (r1, c1, s1)" "ends s r1 s1" "walks s s1" "okay W s1"
    by (rule block_endsE[OF assms(1) Suc.prems])
  obtain r2 c2 s2 where s2: "cb s1 c1 (snd (m_tail dir)) = (r2, c2, s2)" "ends s1 r2 s2" "walks s1 s2" "okay W s2"
    by (rule block_endsE[OF assms(1) s1(4)])
  have k2: "walks s s2" using walks_trans[OF s1(3) s2(3)] .
  obtain r3 dir' s3 where s3: "lfs_dir_fetch s2 dir (m_tail dir) = (r3, dir', s3)" "ends s2 r3 s3"
    "\<forall>x. r3 = Inr x \<longrightarrow> unat (m_offset dir') < 2 ^ 63" using dir_fetch_ends[OF okay_ready[OF s2(4)] assms(3)] by blast
  have k3: "walks s s3" using walks_trans[OF k2] s3(2) by (simp add: ends_def)
  note rd3 = okay_walk[OF assms(1) Suc.prems k3]
  have U: "rawtraverse_dirs (Suc n) cb s c dir orphans =
      (if lfs_pair_isnull (m_tail dir) then (Inr (), c, s)
       else case r1 of Inl h \<Rightarrow> (Inl h, c1, s1)
       | Inr _ \<Rightarrow> (case r2 of Inl h \<Rightarrow> (Inl h, c2, s2)
         | Inr _ \<Rightarrow> (case r3 of Inl h \<Rightarrow> (Inl h, c2, s3)
           | Inr _ \<Rightarrow> (case rawtraverse_entries (unat (m_count dir')) cb s3 c2 dir' orphans 0 of
                (Inl h, c, s) \<Rightarrow> (Inl h, c, s)
              | (Inr _, c, s) \<Rightarrow> rawtraverse_dirs n cb s c dir' orphans))))"
    by (subst rawtraverse_dirs.simps) (simp add: s1(1) s2(1) s3(1) split: sum.splits)
  show ?case
  proof (cases "r1 = Inr () \<and> r2 = Inr () \<and> (\<exists>x. r3 = Inr x)")
    case False
    then show ?thesis
      unfolding U using s1(2) ends_trans[OF s1(3) s2(2)] ends_trans[OF k2 s3(2)] walks_refl[OF okay_ready[OF Suc.prems]] answered_Inl
      by (cases r1; cases r2; cases r3) (auto simp: ends_def)
  next
    case True
    then obtain x where x: "r3 = Inr x" by blast
    obtain r4 c4 s4 where s4: "rawtraverse_entries (unat (m_count dir')) cb s3 c2 dir' orphans 0 = (r4, c4, s4)" "ends s3 r4 s4"
      using rawtraverse_entries_ends[OF assms(1) rd3 assms(3)] s3(3) x by blast
    have k4: "walks s s4" using walks_trans[OF k3] s4(2) by (simp add: ends_def)
    obtain r5 c5 s5 where s5: "rawtraverse_dirs n cb s4 c4 dir' orphans = (r5, c5, s5)" "ends s4 r5 s5"
      using Suc.IH[OF okay_walk[OF assms(1) Suc.prems k4]] by blast
    show ?thesis
      unfolding U x s4(1) using True walks_refl[OF okay_ready[OF Suc.prems]] s5(1) ends_trans[OF k3 s4(2)] ends_trans[OF k4 s5(2)]
      by (cases r4) (auto simp: ends_def)
  qed
qed

text \<open>The caches of the open files lie in their blocks.\<close>

definition open_fits :: "'d lfs \<Rightarrow> (nat \<times> open_node) list \<Rightarrow> bool" where
  "open_fits s nodes \<longleftrightarrow> (\<forall>f. File f \<in> snd ` set nodes \<longrightarrow> pending_fits s (Some (f_cache f)))"

lemma rawtraverse_file_ends:
  assumes "block_ends W cb" "okay W s" "pending_fits s (Some (f_cache f))"
  shows "\<exists>r c' s'. rawtraverse_file cb s c f = (r, c', s') \<and> ends s r s'"
proof -
  define dirty where "dirty \<longleftrightarrow> f_flags f AND LFS_F_DIRTY \<noteq> 0 \<and> \<not> f_flags f AND LFS_F_INLINE \<noteq> 0"
  define writing where "writing \<longleftrightarrow> f_flags f AND LFS_F_WRITING \<noteq> 0 \<and> \<not> f_flags f AND LFS_F_INLINE \<noteq> 0"
  have walk: "\<exists>r c' s'. (if b then lfs_ctz_traverse cb t c (Some (f_cache f)) head sz else (Inr (), c, t)) = (r, c', s') \<and> ends t r s'"
    if "okay W t" "pending_fits t (Some (f_cache f))" for b t c head sz
    using ctz_traverse_ends[OF assms(1) that] walks_refl[OF okay_ready[OF that(1)]] by (cases b) (simp_all add: ends_def)
  obtain r1 c1 s1 where s1: "(if dirty then lfs_ctz_traverse cb s c (Some (f_cache f)) (z_head (f_ctz f)) (z_size (f_ctz f)) else (Inr (), c, s)) = (r1, c1, s1)"
    "ends s r1 s1"
    using walk[OF assms(2,3)] by blast
  then have k: "walks s s1" by (simp add: ends_def)
  have "pending_fits s1 (Some (f_cache f))" using assms(3) pending_keeps[OF k] by simp
  then obtain r2 c2 s2 where s2: "(if writing then lfs_ctz_traverse cb s1 c1 (Some (f_cache f)) (f_block f) (f_pos f) else (Inr (), c1, s1)) = (r2, c2, s2)"
    "ends s1 r2 s2"
    using walk[OF okay_walk[OF assms(1,2) k]] by blast
  have "rawtraverse_file cb s c f = (case r1 of Inl h \<Rightarrow> (Inl h, c1, s1) | Inr _ \<Rightarrow> (r2, c2, s2))"
    unfolding rawtraverse_file_def dirty_def [symmetric] writing_def [symmetric] s1(1) prod.case s2(1) ..
  then show ?thesis using s1(2) ends_trans[OF k s2(2)] by (cases r1) auto
qed

lemma rawtraverse_open_ends:
  assumes "block_ends W cb" "okay W s" "open_fits s nodes"
  shows "\<exists>r c' s'. rawtraverse_open cb s c nodes = (r, c', s') \<and> ends s r s'"
  using assms(2,3)
proof (induction nodes arbitrary: s c)
  case Nil
  then show ?case using walks_refl[OF okay_ready] by (auto simp: ends_def)
next
  case (Cons a nodes)
  obtain p e where a: "a = (p, e)" by fastforce
  have rest: "open_fits s nodes" using Cons.prems(2) by (simp add: open_fits_def)
  show ?case
  proof (cases e)
    case (File f)
    have "pending_fits s (Some (f_cache f))" using Cons.prems(2) File by (simp add: open_fits_def a)
    then obtain r1 c1 s1 where s1: "rawtraverse_file cb s c f = (r1, c1, s1)" "ends s r1 s1"
      using rawtraverse_file_ends[OF assms(1) Cons.prems(1)] by blast
    then have k: "walks s s1" by (simp add: ends_def)
    have "open_fits s1 nodes" using rest pending_keeps[OF k] by (simp add: open_fits_def)
    then obtain r2 c2 s2 where s2: "rawtraverse_open cb s1 c1 nodes = (r2, c2, s2)" "ends s1 r2 s2"
      using Cons.IH[OF okay_walk[OF assms(1) Cons.prems(1) k]] by blast
    show ?thesis
      using s1 s2(1) ends_trans[OF k s2(2)] Cons.IH[OF Cons.prems(1) rest] by (cases r1) (auto simp: a File)
  qed (use Cons.IH[OF Cons.prems(1) rest] in \<open>simp_all add: a\<close>)
qed

lemma rawtraverse_ends:
  assumes "block_ends W cb" "okay W s" "4 \<le> bsize" "open_fits s (l_metadata_list s)"
  shows "\<exists>r c' s'. lfs_fs_rawtraverse cb s c orphans = (r, c', s') \<and> ends s r s'"
proof -
  obtain r1 c1 s1 where s1: "rawtraverse_dirs (unat (l_block_count s div 2)) cb s c (mdir_zero\<lparr>m_tail := (0, 1)\<rparr>) orphans = (r1, c1, s1)" "ends s r1 s1"
    using rawtraverse_dirs_ends[OF assms(1-3)] by blast
  then have k: "walks s s1" by (simp add: ends_def)
  have "l_metadata_list s1 = l_metadata_list s" using k by (auto simp: walks_def)
  moreover have "open_fits s1 (l_metadata_list s)" using assms(4) pending_keeps[OF k] by (simp add: open_fits_def)
  ultimately obtain r2 c2 s2 where "rawtraverse_open cb s1 c1 (l_metadata_list s1) = (r2, c2, s2)" "ends s1 r2 s2"
    using rawtraverse_open_ends[OF assms(1) okay_walk[OF assms(1,2) k]] by metis
  then show ?thesis using s1 ends_trans[OF k] by (cases r1) (auto simp: lfs_fs_rawtraverse_def)
qed

lemma size_count_ends: "block_ends (\<lambda>_. True) lfs_fs_size_count"
  using walks_refl by (auto simp: block_ends_def okay_def lfs_fs_size_count_def ends_def)

lemma rawsize_ends:
  assumes "ready s" "4 \<le> bsize" "open_fits s (l_metadata_list s)"
  shows "\<exists>r s'. lfs_fs_rawsize s = (r, s') \<and> ends s r s'"
proof -
  obtain r c s' where "lfs_fs_rawtraverse lfs_fs_size_count s 0 False = (r, c, s')" "ends s r s'"
    using rawtraverse_ends[OF size_count_ends _ assms(2,3)] assms(1) unfolding okay_def by blast
  then show ?thesis using answered_Inl by (cases r) (auto simp: lfs_fs_rawsize_def ends_def)
qed

subsection \<open>Searching the list of directories\<close>

lemma pred_ends:
  assumes "ready s" "4 \<le> bsize"
  shows "\<exists>r dir' s'. fs_pred_loop n s pair dir = (r, dir', s') \<and> ends s r s'"
  using assms(1)
proof (induction n arbitrary: s dir)
  case 0
  then show ?case using walks_refl by (subst fs_pred_loop.simps) (auto simp: ends_def)
next
  case (Suc n)
  obtain r1 d1 s1 where s1: "lfs_dir_fetch s dir (m_tail dir) = (r1, d1, s1)" "ends s r1 s1"
    using dir_fetch_ends[OF Suc.prems assms(2)] by blast
  then have k: "walks s s1" by (simp add: ends_def)
  obtain r2 d2 s2 where s2: "fs_pred_loop n s1 pair d1 = (r2, d2, s2)" "ends s1 r2 s2" using Suc.IH[OF walks_ready[OF k]] by blast
  show ?case
    using walks_refl[OF Suc.prems] s1 s2(1) ends_trans[OF k s2(2)] answered_Inl
    by (subst fs_pred_loop.simps, cases r1) (auto simp: ends_def)
qed

end

end
