(* ===== verification/Frame.thy ===== *)
theory Frame
  imports Allocator
begin

text \<open>
  Reading does not look at the state of the allocator: with another \<open>l_free\<close> every function that only
  reads returns the same and leaves the same, up to \<open>l_free\<close>. This is what lets the allocator run the
  traversal of the file system while it changes its own window.
\<close>

named_theorems free_simps \<open>functions that ignore the state of the allocator\<close>

definition with_free :: "lfs_free \<Rightarrow> 'd lfs \<Rightarrow> 'd lfs" where
  "with_free x s = s\<lparr>l_free := x\<rparr>"

lemma with_free_select [simp]:
  "l_read_cache (with_free x s) = l_read_cache s" "l_write_cache (with_free x s) = l_write_cache s"
  "l_root (with_free x s) = l_root s" "l_metadata_list (with_free x s) = l_metadata_list s"
  "l_seed (with_free x s) = l_seed s" "l_gstate (with_free x s) = l_gstate s" "l_gdisk (with_free x s) = l_gdisk s"
  "l_gdelta (with_free x s) = l_gdelta s" "l_free (with_free x s) = x" "l_cfg (with_free x s) = l_cfg s"
  "l_dev (with_free x s) = l_dev s" "l_erase_size (with_free x s) = l_erase_size s"
  "l_block_size (with_free x s) = l_block_size s" "l_block_count (with_free x s) = l_block_count s"
  "l_name_max_length (with_free x s) = l_name_max_length s"
  by (simp_all add: with_free_def)

lemma with_free_update [simp]:
  "l_dev_update f (with_free x s) = with_free x (l_dev_update f s)"
  "l_read_cache_update g (with_free x s) = with_free x (l_read_cache_update g s)"
  "l_seed_update h (with_free x s) = with_free x (l_seed_update h s)"
  "l_free_update k (with_free x s) = with_free (k x) s"
  "with_free x (with_free y s) = with_free x s" "with_free (l_free s) s = s"
  by (simp_all add: with_free_def)

lemma rawread_loop_free [free_simps]:
  "lfs_bd_rawread_loop fuel (with_free x s) block off buffer sz =
     (case lfs_bd_rawread_loop fuel s block off buffer sz of (r, b, s) \<Rightarrow> (r, b, with_free x s))"
  by (induction fuel s block off buffer sz rule: lfs_bd_rawread_loop.induct) (auto simp: Let_def split: prod.splits sum.splits)

lemma rawread_free [free_simps]:
  "lfs_bd_rawread (with_free x s) block off buffer = (case lfs_bd_rawread s block off buffer of (r, b, s) \<Rightarrow> (r, b, with_free x s))"
  by (simp add: lfs_bd_rawread_def rawread_loop_free Let_def)

lemma load_read_cache_free [free_simps]:
  "load_read_cache (with_free x s) rc hint block off =
     (case load_read_cache s rc hint block off of (r, rc, s) \<Rightarrow> (r, rc, with_free x s))"
  by (simp add: load_read_cache_def rawread_free Let_def split: prod.splits sum.splits)

lemma bd_read_loop_free [free_simps]:
  "lfs_bd_read_loop fuel (with_free x s) wc rc hint block off buffer data sz =
     (case lfs_bd_read_loop fuel s wc rc hint block off buffer data sz of (r, b, rc, s) \<Rightarrow> (r, b, rc, with_free x s))"
proof (induction fuel arbitrary: s rc off buffer data sz)
  case (Suc fuel)
  show ?case
    by (simp add: Let_def rawread_free load_read_cache_free Suc.IH split: prod.split sum.split option.split)
qed simp

lemma bd_read_free [free_simps]:
  "lfs_bd_read (with_free x s) wc rc hint block off buffer =
     (case lfs_bd_read s wc rc hint block off buffer of (r, b, rc, s) \<Rightarrow> (r, b, rc, with_free x s))"
  by (simp add: lfs_bd_read_def bd_read_loop_free Let_def)

lemma bd_read_own_free [free_simps]:
  "lfs_bd_read_own (with_free x s) w hint block off buffer =
     (case lfs_bd_read_own s w hint block off buffer of (r, b, s) \<Rightarrow> (r, b, with_free x s))"
  by (simp add: lfs_bd_read_own_def bd_read_free split: prod.splits)

lemma bd_read_through_free [free_simps]:
  "lfs_bd_read_through (with_free x s) wc hint block off buffer =
     (case lfs_bd_read_through s wc hint block off buffer of (r, b, s) \<Rightarrow> (r, b, with_free x s))"
  by (simp add: lfs_bd_read_through_def bd_read_free split: prod.splits)

lemma read_local_free [free_simps]:
  "read_local (with_free x s) w hint block off n = (case read_local s w hint block off n of (r, s) \<Rightarrow> (r, with_free x s))"
  by (simp add: read_local_def bd_read_own_free split: prod.splits sum.splits)

lemma getslice_loop_free [free_simps]:
  "lfs_dir_getslice_loop fuel (with_free x s) dir gmask gtag goff gbuffer off ntag gdiff =
     (case lfs_dir_getslice_loop fuel s dir gmask gtag goff gbuffer off ntag gdiff of (r, b, s) \<Rightarrow> (r, b, with_free x s))"
proof (induction fuel arbitrary: s off ntag gdiff)
  case (Suc fuel)
  define splice where "splice \<longleftrightarrow> lfs_tag_id gmask \<noteq> 0 \<and> lfs_tag_type1 ntag = LFS_TYPE_SPLICE \<and>
                      lfs_tag_id ntag \<le> lfs_tag_id (gtag - gdiff)"
  define created where "created \<longleftrightarrow> splice \<and> ntag = (LFS_MKTAG LFS_TYPE_CREATE 0 0 OR (LFS_MKTAG 0 0x3ff 0 AND (gtag - gdiff)))"
  define gd where "gd = (if splice then gdiff + splice_mktag ntag else gdiff)"
  define found where "found \<longleftrightarrow> (gmask AND ntag) = (gmask AND (gtag - gd))"
  note U = lfs_dir_getslice_loop.simps(2)[of fuel _ dir gmask gtag goff gbuffer off ntag gdiff, unfolded Let_def,
      folded splice_def, folded created_def gd_def, folded found_def]
  show ?case
    unfolding U by (simp add: read_local_free bd_read_own_free Suc.IH split: prod.split sum.split)
qed simp

lemma getslice_free [free_simps]:
  "lfs_dir_getslice (with_free x s) dir gmask gtag goff gbuffer =
     (case lfs_dir_getslice s dir gmask gtag goff gbuffer of (r, b, s) \<Rightarrow> (r, b, with_free x s))"
  by (simp add: lfs_dir_getslice_def getslice_loop_free Let_def del: lfs_dir_getslice_loop.simps)

lemma dir_get_free [free_simps]:
  "lfs_dir_get (with_free x s) dir gmask gtag buffer =
     (case lfs_dir_get s dir gmask gtag buffer of (r, b, s) \<Rightarrow> (r, b, with_free x s))"
  by (simp add: lfs_dir_get_def getslice_free)

lemma scan_failed_free [free_simps]:
  "scan_failed h sc (with_free x s) = (case scan_failed h sc s of (r, sc, s) \<Rightarrow> (r, sc, with_free x s))"
  by (simp add: scan_failed_def)

lemma scan_entry_crc_free [free_simps]:
  "scan_entry_crc n (with_free x s) j sc = (case scan_entry_crc n s j sc of (r, sc, s) \<Rightarrow> (r, sc, with_free x s))"
proof (induction n arbitrary: s j sc)
  case (Suc n)
  show ?case by (simp add: bd_read_own_free Suc.IH split: prod.split sum.split)
qed simp

lemma scan_commit_free [free_simps]:
  "scan_commit (with_free x s) tag sc = (case scan_commit s tag sc of (r, sc, s) \<Rightarrow> (r, sc, with_free x s))"
  by (simp add: scan_commit_def Let_def read_local_free scan_failed_free split: prod.split sum.split)

lemma scan_entry_free [free_simps]:
  "scan_entry (with_free x s) tag sc = (case scan_entry s tag sc of (r, sc, s) \<Rightarrow> (r, sc, with_free x s))"
  by (simp add: scan_entry_def Let_def bd_read_own_free scan_failed_free split: prod.split sum.split)

text \<open>The callbacks of \<open>lfs_dir_fetchmatch\<close> have to ignore it as well.\<close>

definition match_ignores_free :: "'d match_callback \<Rightarrow> bool" where
  "match_ignores_free cb \<longleftrightarrow> (\<forall>s x tag disk. cb (with_free x s) tag disk = (case cb s tag disk of (r, s) \<Rightarrow> (r, with_free x s)))"

lemma scan_match_free [free_simps]:
  assumes "match_ignores_free cb"
  shows "scan_match cb (with_free x s) fmask ftag tag sc =
     (case scan_match cb s fmask ftag tag sc of (r, sc, s) \<Rightarrow> (r, sc, with_free x s))"
proof -
  have "cb (with_free x s) tag d = (case cb s tag d of (r, s) \<Rightarrow> (r, with_free x s))" for d
    using assms by (simp add: match_ignores_free_def)
  then show ?thesis by (simp add: scan_match_def scan_failed_free split: prod.split sum.split)
qed

lemma scan_step_free [free_simps]:
  assumes "match_ignores_free cb"
  shows "scan_step cb (with_free x s) fmask ftag sc =
     (case scan_step cb s fmask ftag sc of (r, sc, s) \<Rightarrow> (r, sc, with_free x s))"
  by (simp add: scan_step_def Let_def read_local_free scan_failed_free scan_commit_free scan_entry_crc_free scan_entry_free
      scan_match_free[OF assms] split: prod.split sum.split)

lemma scan_loop_free [free_simps]:
  assumes "match_ignores_free cb"
  shows "scan_loop fuel cb (with_free x s) fmask ftag sc =
     (case scan_loop fuel cb s fmask ftag sc of (r, sc, s) \<Rightarrow> (r, sc, with_free x s))"
proof (induction fuel arbitrary: s sc)
  case (Suc fuel)
  show ?case by (simp add: scan_step_free[OF assms] Suc.IH split: prod.split sum.split)
qed simp

lemma scan_block_free [free_simps]:
  assumes "match_ignores_free cb"
  shows "scan_block cb (with_free x s) fmask ftag dir besttag =
     (case scan_block cb s fmask ftag dir besttag of (r, sc, s) \<Rightarrow> (r, sc, with_free x s))"
  by (simp add: scan_block_def scan_loop_free[OF assms] del: scan_loop.simps)

lemma fetch_revision_free [free_simps]:
  "fetch_revision (with_free x s) block revn other =
     (case fetch_revision s block revn other of (r, v, s) \<Rightarrow> (r, v, with_free x s))"
  by (simp add: fetch_revision_def Let_def bd_read_own_free split: prod.split sum.split)

lemma synthetic_move_free [free_simps]: "synthetic_move (with_free x s) pair besttag = synthetic_move s pair besttag"
  by (simp add: synthetic_move_def)

lemma fetch_blocks_free [free_simps]:
  assumes "match_ignores_free cb"
  shows "fetch_blocks n cb (with_free x s) fmask ftag revn dir besttag =
     (case fetch_blocks n cb s fmask ftag revn dir besttag of (r, dir, i, s) \<Rightarrow> (r, dir, i, with_free x s))"
proof (induction n arbitrary: s revn dir besttag)
  case (Suc n)
  show ?case by (simp add: Let_def scan_block_free[OF assms] synthetic_move_free Suc.IH split: prod.split sum.split)
qed simp

lemma fetchmatch_free [free_simps]:
  assumes "match_ignores_free cb"
  shows "lfs_dir_fetchmatch (with_free x s) dir pair fmask ftag cb =
     (case lfs_dir_fetchmatch s dir pair fmask ftag cb of (r, dir, i, s) \<Rightarrow> (r, dir, i, with_free x s))"
  by (simp add: lfs_dir_fetchmatch_def Let_def fetch_revision_free fetch_blocks_free[OF assms] del: fetch_blocks.simps
      split: prod.split sum.split)

lemma dir_fetch_free [free_simps]:
  "lfs_dir_fetch (with_free x s) dir pair = (case lfs_dir_fetch s dir pair of (r, dir, s) \<Rightarrow> (r, dir, with_free x s))"
  by (simp add: lfs_dir_fetch_def fetchmatch_free match_ignores_free_def split: prod.split)

end
