(* ===== verification/ReadOnly.thy ===== *)
theory ReadOnly
  imports Mount
begin

text \<open>
  The functions that only read change nothing of the state but the read cache, the device behind
  \<open>cfg->read\<close>, and the seed, which \<open>lfs_dir_fetchmatch\<close> mixes with the checksums it meets.
\<close>

definition reads_only :: "'d lfs \<Rightarrow> 'd lfs \<Rightarrow> bool" where
  "reads_only s s' \<longleftrightarrow> s' = s\<lparr>l_read_cache := l_read_cache s', l_dev := l_dev s', l_seed := l_seed s'\<rparr>"

lemma reads_only_refl [simp]: "reads_only s s"
  by (simp add: reads_only_def)

lemma reads_only_update [simp]:
  "reads_only s (s'\<lparr>l_dev := d\<rparr>) = reads_only s s'" "reads_only s (s'\<lparr>l_read_cache := rc\<rparr>) = reads_only s s'"
  "reads_only s (s'\<lparr>l_seed := x\<rparr>) = reads_only s s'"
  "reads_only (s\<lparr>l_dev := d\<rparr>) s' = reads_only s s'" "reads_only (s\<lparr>l_read_cache := rc\<rparr>) s' = reads_only s s'"
  "reads_only (s\<lparr>l_seed := x\<rparr>) s' = reads_only s s'"
  unfolding reads_only_def by (cases s; cases s'; auto)+

lemma reads_only_trans: "reads_only s s' \<Longrightarrow> reads_only s' s'' \<Longrightarrow> reads_only s s''"
  unfolding reads_only_def by (cases s; cases s'; cases s''; simp)

lemma reads_onlyD:
  assumes "reads_only s s'"
  shows "l_write_cache s' = l_write_cache s" "l_root s' = l_root s" "l_metadata_list s' = l_metadata_list s"
    "l_gstate s' = l_gstate s" "l_gdisk s' = l_gdisk s" "l_gdelta s' = l_gdelta s" "l_free s' = l_free s"
    "l_cfg s' = l_cfg s" "l_block_size s' = l_block_size s" "l_block_count s' = l_block_count s"
  using assms unfolding reads_only_def by (cases s; cases s'; simp)+

named_theorems only_reads \<open>functions that only read\<close>

lemma rawread_loop_only [only_reads]:
  "lfs_bd_rawread_loop fuel s block off buffer sz = (r, b, s') \<Longrightarrow> reads_only s s'"
proof (induction fuel arbitrary: s block off buffer sz)
  case (Suc fuel)
  from Suc.prems show ?case by (auto simp: Let_def split: if_splits prod.splits sum.splits dest!: Suc.IH)
qed simp

lemma rawread_only [only_reads]: "lfs_bd_rawread s block off buffer = (r, b, s') \<Longrightarrow> reads_only s s'"
  by (auto simp: lfs_bd_rawread_def Let_def simp del: lfs_bd_rawread_loop.simps split: if_splits dest: only_reads)

lemma load_read_cache_only [only_reads]: "load_read_cache s rc hint block off = (r, rc', s') \<Longrightarrow> reads_only s s'"
  by (auto simp: load_read_cache_def Let_def split: prod.splits sum.splits dest: only_reads)

lemma bd_read_loop_only [only_reads]:
  "lfs_bd_read_loop fuel s wc rc hint block off buffer data sz = (r, b, rc', s') \<Longrightarrow> reads_only s s'"
proof (induction fuel arbitrary: s wc rc off buffer data sz)
  case (Suc fuel)
  from Suc.prems show ?case
    by (auto simp: Let_def split: if_splits prod.splits sum.splits option.splits dest!: Suc.IH rawread_only load_read_cache_only
        intro: reads_only_trans)
qed simp

lemma bd_read_only [only_reads]: "lfs_bd_read s wc rc hint block off buffer = (r, b, rc', s') \<Longrightarrow> reads_only s s'"
  by (auto simp: lfs_bd_read_def Let_def simp del: lfs_bd_read_loop.simps split: if_splits dest: only_reads)

lemma bd_read_own_only [only_reads]: "lfs_bd_read_own s w hint block off buffer = (r, b, s') \<Longrightarrow> reads_only s s'"
  by (auto simp: lfs_bd_read_own_def split: prod.splits dest: only_reads)

lemma bd_read_through_only [only_reads]: "lfs_bd_read_through s wc hint block off buffer = (r, b, s') \<Longrightarrow> reads_only s s'"
  by (auto simp: lfs_bd_read_through_def split: prod.splits dest: only_reads)

lemma read_local_only [only_reads]: "read_local s w hint block off n = (r, s') \<Longrightarrow> reads_only s s'"
  by (auto simp: read_local_def split: prod.splits sum.splits dest: only_reads)

lemma cmp_loop_only [only_reads]:
  "lfs_bd_cmp_loop fuel s wc rc hint block off data sz idx = (r, rc', s') \<Longrightarrow> reads_only s s'"
proof (induction fuel arbitrary: s rc idx)
  case (Suc fuel)
  from Suc.prems show ?case
    by (auto simp: Let_def split: if_splits prod.splits sum.splits lfs_cmp.splits dest!: Suc.IH bd_read_only intro: reads_only_trans)
qed simp

lemma bd_cmp_only [only_reads]: "lfs_bd_cmp_own s hint block off data sz = (r, s') \<Longrightarrow> reads_only s s'"
  by (auto simp: lfs_bd_cmp_own_def lfs_bd_cmp_def simp del: lfs_bd_cmp_loop.simps split: prod.splits dest: only_reads)

lemma getslice_loop_only [only_reads]:
  "lfs_dir_getslice_loop fuel s dir gmask gtag goff gbuffer off ntag gdiff = (r, b, s') \<Longrightarrow> reads_only s s'"
proof (induction fuel arbitrary: s off ntag gdiff)
  case (Suc fuel)
  define splice where "splice \<longleftrightarrow> lfs_tag_id gmask \<noteq> 0 \<and> lfs_tag_type1 ntag = LFS_TYPE_SPLICE \<and>
                      lfs_tag_id ntag \<le> lfs_tag_id (gtag - gdiff)"
  define created where "created \<longleftrightarrow> splice \<and> ntag = (LFS_MKTAG LFS_TYPE_CREATE 0 0 OR (LFS_MKTAG 0 0x3ff 0 AND (gtag - gdiff)))"
  define gd where "gd = (if splice then gdiff + splice_mktag ntag else gdiff)"
  define found where "found \<longleftrightarrow> (gmask AND ntag) = (gmask AND (gtag - gd))"
  note U = lfs_dir_getslice_loop.simps(2)[of fuel _ dir gmask gtag goff gbuffer off ntag gdiff, unfolded Let_def,
      folded splice_def, folded created_def gd_def, folded found_def]
  from Suc.prems show ?case
    unfolding U by (auto split: if_splits prod.splits sum.splits dest!: Suc.IH read_local_only bd_read_own_only intro: reads_only_trans)
qed simp

lemma getslice_only [only_reads]: "lfs_dir_getslice s dir gmask gtag goff gbuffer = (r, b, s') \<Longrightarrow> reads_only s s'"
  by (auto simp: lfs_dir_getslice_def Let_def simp del: lfs_dir_getslice_loop.simps dest: only_reads)

lemma dir_get_only [only_reads]: "lfs_dir_get s dir gmask gtag buffer = (r, b, s') \<Longrightarrow> reads_only s s'"
  by (auto simp: lfs_dir_get_def dest: only_reads)

subsection \<open>Fetching and finding\<close>

lemma scan_failed_only [only_reads]: "scan_failed h sc s = (r, sc', s') \<Longrightarrow> reads_only s s'"
  by (auto simp: scan_failed_def split: if_splits)

lemma scan_failed_state [simp]: "snd (snd (scan_failed h sc s)) = s"
  by (simp add: scan_failed_def)

lemma scan_entry_crc_only [only_reads]: "scan_entry_crc n s j sc = (r, sc', s') \<Longrightarrow> reads_only s s'"
proof (induction n arbitrary: s j sc)
  case (Suc n)
  from Suc.prems show ?case
    by (auto split: if_splits prod.splits sum.splits dest!: Suc.IH bd_read_own_only intro: reads_only_trans)
qed simp

lemma scan_commit_only [only_reads]: "scan_commit s tag sc = (r, sc', s') \<Longrightarrow> reads_only s s'"
  by (auto simp: scan_commit_def Let_def split: if_splits prod.splits sum.splits dest!: read_local_only scan_failed_only intro: reads_only_trans)

lemma scan_entry_only [only_reads]:
  assumes "scan_entry s tag sc = (r, sc', s')"
  shows "reads_only s s'"
proof -
  have "reads_only s (snd (snd (scan_entry s tag sc)))"
    unfolding scan_entry_def Let_def if_distrib [of snd] snd_conv
    by (auto split: prod.splits sum.splits dest!: bd_read_own_only scan_failed_only intro: reads_only_trans)
  then show ?thesis by (simp add: assms)
qed

text \<open>The callbacks that compare an entry only read, too.\<close>

definition match_reads_only :: "'d match_callback \<Rightarrow> bool" where
  "match_reads_only cb \<longleftrightarrow> (\<forall>s tag disk r s'. cb s tag disk = (r, s') \<longrightarrow> reads_only s s')"

lemma match_reads_onlyD: "match_reads_only cb \<Longrightarrow> cb s tag disk = (r, s') \<Longrightarrow> reads_only s s'"
  by (simp add: match_reads_only_def)

lemma scan_match_only [only_reads]:
  assumes "scan_match cb s fmask ftag tag sc = (r, sc', s')" "match_reads_only cb"
  shows "reads_only s s'"
proof -
  obtain q s1 where e: "cb s tag \<lparr>do_block = fst (m_pair (sc_dir sc)), do_offset = sc_offset sc + 4\<rparr> = (q, s1)" by (metis prod.exhaust)
  have "reads_only s s1" using match_reads_onlyD[OF assms(2) e] .
  then have "reads_only s (snd (snd (scan_match cb s fmask ftag tag sc)))"
    unfolding scan_match_def e if_distrib [of snd] snd_conv
    by (cases q) (auto split: prod.splits dest!: scan_failed_only intro: reads_only_trans)
  then show ?thesis by (simp add: assms(1))
qed

lemma scan_step_only [only_reads]:
  assumes "scan_step cb s fmask ftag sc = (r, sc', s')" "match_reads_only cb"
  shows "reads_only s s'"
  using assms
  by (auto simp: scan_step_def Let_def split: if_split_asm prod.splits sum.splits
      dest!: read_local_only scan_failed_only scan_commit_only scan_entry_crc_only scan_entry_only scan_match_only intro: reads_only_trans)

lemma scan_loop_only [only_reads]:
  "scan_loop fuel cb s fmask ftag sc = (r, sc', s') \<Longrightarrow> match_reads_only cb \<Longrightarrow> reads_only s s'"
proof (induction fuel arbitrary: s sc)
  case (Suc fuel)
  from Suc.prems show ?case
    by (auto split: if_splits prod.splits sum.splits dest!: Suc.IH scan_step_only intro: reads_only_trans)
qed simp

lemma scan_block_only [only_reads]:
  "scan_block cb s fmask ftag dir besttag = (r, sc', s') \<Longrightarrow> match_reads_only cb \<Longrightarrow> reads_only s s'"
  unfolding scan_block_def by (rule scan_loop_only)

lemma fetch_revision_only [only_reads]: "fetch_revision s block revn other = (r, v, s') \<Longrightarrow> reads_only s s'"
  by (auto simp: fetch_revision_def Let_def split: if_splits prod.splits sum.splits dest: only_reads)

lemma fetch_blocks_only [only_reads]:
  "fetch_blocks n cb s fmask ftag revn dir besttag = (r, dir', i, s') \<Longrightarrow> match_reads_only cb \<Longrightarrow> reads_only s s'"
proof (induction n arbitrary: s revn dir besttag)
  case (Suc n)
  from Suc.prems show ?case
    by (auto simp: Let_def split: if_splits prod.splits sum.splits dest!: Suc.IH scan_block_only intro: reads_only_trans)
qed simp

lemma fetchmatch_only [only_reads]:
  "lfs_dir_fetchmatch s dir pair fmask ftag cb = (r, dir', i, s') \<Longrightarrow> match_reads_only cb \<Longrightarrow> reads_only s s'"
  by (auto simp: lfs_dir_fetchmatch_def Let_def simp del: fetch_blocks.simps split: if_splits prod.splits sum.splits
      dest!: fetch_revision_only fetch_blocks_only intro: reads_only_trans)

lemma dir_fetch_only [only_reads]: "lfs_dir_fetch s dir pair = (r, dir', s') \<Longrightarrow> reads_only s s'"
  by (auto simp: lfs_dir_fetch_def match_reads_only_def split: prod.splits dest!: fetchmatch_only)

lemma find_match_only: "match_reads_only (lfs_dir_find_match name)"
  by (auto simp: match_reads_only_def lfs_dir_find_match_def Let_def split: prod.splits sum.splits dest: only_reads)

lemma parent_match_only: "match_reads_only (lfs_fs_parent_match pair)"
  by (auto simp: match_reads_only_def lfs_fs_parent_match_def Let_def split: prod.splits sum.splits dest: only_reads)

lemma find_entry_only [only_reads]:
  "find_entry fuel s dir name want ident = (r, dir', i, s') \<Longrightarrow> reads_only s s'"
proof (induction fuel arbitrary: s dir ident)
  case (Suc fuel)
  from Suc.prems show ?case
    by (auto simp: Let_def split: if_splits prod.splits sum.splits dest!: Suc.IH fetchmatch_only[OF _ find_match_only] intro: reads_only_trans)
qed simp

lemma find_path_only [only_reads]:
  "find_path fuel s dir tag name path ident = (r, dir', path', i, s') \<Longrightarrow> reads_only s s'"
proof (induction fuel arbitrary: s dir tag name path ident)
  case (Suc fuel)
  from Suc.prems show ?case
    by (auto simp: Let_def simp del: find_entry.simps split: if_splits prod.splits sum.splits
        dest!: Suc.IH dir_get_only find_entry_only intro: reads_only_trans)
qed simp

lemma dir_find_only [only_reads]: "lfs_dir_find s dir path = (r, dir', path', i, s') \<Longrightarrow> reads_only s s'"
  unfolding lfs_dir_find_def by (rule find_path_only)

lemma getgstate_only [only_reads]: "lfs_dir_getgstate s dir g = (r, g', s') \<Longrightarrow> reads_only s s'"
  by (auto simp: lfs_dir_getgstate_def split: prod.splits sum.splits dest: only_reads)

lemma getinfo_only [only_reads]: "lfs_dir_getinfo s dir i info = (r, info', s') \<Longrightarrow> reads_only s s'"
  by (auto simp: lfs_dir_getinfo_def Let_def split: if_split_asm prod.splits sum.splits dest!: dir_get_only intro: reads_only_trans)

subsection \<open>Visiting blocks\<close>

definition block_reads_only :: "('d, 'c) block_callback \<Rightarrow> bool" where
  "block_reads_only cb \<longleftrightarrow> (\<forall>s c b r c' s'. cb s c b = (r, c', s') \<longrightarrow> reads_only s s')"

lemma block_reads_onlyD: "block_reads_only cb \<Longrightarrow> cb s c b = (r, c', s') \<Longrightarrow> reads_only s s'"
  by (simp add: block_reads_only_def)

lemma ctz_traverse_loop_only [only_reads]:
  assumes cb: "block_reads_only cb"
  shows "lfs_ctz_traverse_loop fuel cb s c wc head index = (r, c', s') \<Longrightarrow> reads_only s s'"
proof (induction fuel arbitrary: s c head index)
  case (Suc fuel)
  from Suc.prems show ?case
    by (auto simp: Let_def split: if_split_asm prod.splits sum.splits
        dest!: Suc.IH block_reads_onlyD[OF cb] bd_read_through_only intro: reads_only_trans)
qed simp

lemma ctz_traverse_only [only_reads]:
  assumes cb: "block_reads_only cb"
  shows "lfs_ctz_traverse cb s c wc head sz = (r, c', s') \<Longrightarrow> reads_only s s'"
  by (auto simp: lfs_ctz_traverse_def Let_def simp del: lfs_ctz_traverse_loop.simps split: if_splits
      dest!: ctz_traverse_loop_only[OF cb])

lemma rawtraverse_entry_only [only_reads]:
  assumes cb: "block_reads_only cb"
  shows "rawtraverse_entry cb s c dir o' ident = (r, c', s') \<Longrightarrow> reads_only s s'"
  by (auto simp: rawtraverse_entry_def Let_def split: if_split_asm prod.splits sum.splits
      dest!: dir_get_only ctz_traverse_only[OF cb] block_reads_onlyD[OF cb] intro: reads_only_trans)

lemma rawtraverse_entries_only [only_reads]:
  assumes cb: "block_reads_only cb"
  shows "rawtraverse_entries n cb s c dir o' ident = (r, c', s') \<Longrightarrow> reads_only s s'"
proof (induction n arbitrary: s c ident)
  case (Suc n)
  from Suc.prems show ?case
    by (auto split: prod.splits sum.splits dest!: Suc.IH rawtraverse_entry_only[OF cb] intro: reads_only_trans)
qed simp

lemma rawtraverse_dirs_only [only_reads]:
  assumes cb: "block_reads_only cb"
  shows "rawtraverse_dirs n cb s c dir o' = (r, c', s') \<Longrightarrow> reads_only s s'"
proof (induction n arbitrary: s c dir)
  case 0
  then show ?case by (simp add: rawtraverse_dirs.simps split: if_splits)
next
  case (Suc n)
  from Suc.prems show ?case
    by (subst (asm) rawtraverse_dirs.simps, auto split: if_splits prod.splits sum.splits
        dest!: Suc.IH rawtraverse_entries_only[OF cb] dir_fetch_only block_reads_onlyD[OF cb]; blast intro: reads_only_trans)
qed

lemma rawtraverse_file_only [only_reads]:
  assumes cb: "block_reads_only cb"
  shows "rawtraverse_file cb s c f = (r, c', s') \<Longrightarrow> reads_only s s'"
  by (auto simp: rawtraverse_file_def split: if_split_asm prod.splits sum.splits dest!: ctz_traverse_only[OF cb] intro: reads_only_trans)

lemma rawtraverse_open_only [only_reads]:
  assumes cb: "block_reads_only cb"
  shows "rawtraverse_open cb s c nodes = (r, c', s') \<Longrightarrow> reads_only s s'"
proof (induction nodes arbitrary: s c)
  case (Cons node nodes)
  obtain p e where n: "node = (p, e)" by (metis prod.exhaust)
  from Cons.prems show ?case
    unfolding n by (cases e) (auto split: if_split_asm prod.splits sum.splits
        dest!: rawtraverse_file_only[OF cb] Cons.IH intro: reads_only_trans)
qed simp

lemma rawtraverse_only [only_reads]:
  assumes cb: "block_reads_only cb"
  shows "lfs_fs_rawtraverse cb s c o' = (r, c', s') \<Longrightarrow> reads_only s s'"
  by (auto simp: lfs_fs_rawtraverse_def split: prod.splits sum.splits
      dest!: rawtraverse_dirs_only[OF cb] rawtraverse_open_only[OF cb] intro: reads_only_trans)

lemma size_count_only: "block_reads_only lfs_fs_size_count"
  by (simp add: block_reads_only_def lfs_fs_size_count_def)

lemma rawstat_only [only_reads]: "lfs_fs_rawstat s info = (r, info', s') \<Longrightarrow> reads_only s s'"
  by (auto simp: lfs_fs_rawstat_def lfs_fs_rawsize_def split: prod.splits sum.splits dest!: rawtraverse_only[OF size_count_only])

subsection \<open>Operations that only read\<close>

lemma raw_stat_only [only_reads]: "lfs_raw_stat s path info = (r, info', s') \<Longrightarrow> reads_only s s'"
  by (auto simp: lfs_raw_stat_def split: prod.splits sum.splits dest!: dir_find_only getinfo_only intro: reads_only_trans)

lemma read_entries_only [only_reads]: "read_entries n s dir info = (r, dir', info', s') \<Longrightarrow> reads_only s s'"
proof (induction n arbitrary: s dir info)
  case (Suc n)
  from Suc.prems show ?case
    by (auto split: if_splits prod.splits sum.splits dest!: Suc.IH getinfo_only intro: reads_only_trans)
qed simp

lemma rawread_dir_loop_only [only_reads]: "rawread_loop fuel s dir info = (r, dir', info', s') \<Longrightarrow> reads_only s s'"
proof (induction fuel arbitrary: s dir info)
  case (Suc fuel)
  from Suc.prems show ?case
    by (auto simp del: read_entries.simps split: if_split_asm prod.splits sum.splits
        dest!: Suc.IH read_entries_only dir_fetch_only intro: reads_only_trans)
qed simp

lemma dir_rawread_only [only_reads]: "lfs_dir_rawread s dir = (r, dir', info, s') \<Longrightarrow> reads_only s s'"
  by (auto simp: lfs_dir_rawread_def Let_def simp del: rawread_loop.simps split: if_splits dest: only_reads)

lemma get_attribute_only [only_reads]: "lfs_raw_get_attribute s path type buffer = (r, b, s') \<Longrightarrow> reads_only s s'"
  by (auto simp: lfs_raw_get_attribute_def find_attribute_owner_def Let_def split: if_split_asm prod.splits sum.splits
      dest!: dir_get_only dir_fetch_only dir_find_only intro: reads_only_trans)


end
