(* ===== verification/AllocatorProperties.thy ===== *)
theory AllocatorProperties
  imports Frame ReadOnly DeviceRead DeviceProperties
begin

text \<open>
  The block allocator. Its window is a bitmap over \<open>fr_size\<close> blocks from \<open>fr_offset\<close> on. What the theory
  shows: a scan stops at the first clear bit; a new window has a bit set for every block that the
  traversal of the file system reports, so that no block in use is handed out; the counters keep an
  invariant, which bounds what is handed out; and a window larger than its bitmap is overrun.
\<close>

subsection \<open>The bits of the window\<close>

definition taken :: "lfs_free \<Rightarrow> nat \<Rightarrow> bool" where
  "taken fr j \<longleftrightarrow> bit (fr_buffer fr ! (j div 64)) (j mod 64)"

lemma lookahead_bit_taken: "lookahead_bit fr i = Inr used \<Longrightarrow> used = taken fr (unat i)"
  by (auto simp: lookahead_bit_def Let_def taken_def unat_div unat_mod bit_iff_and_push_bit_not_eq_0 split: if_splits)

lemma lookahead_next_simps [simp]:
  "fr_offset (lookahead_next fr) = fr_offset fr" "fr_size (lookahead_next fr) = fr_size fr"
  "fr_buffer (lookahead_next fr) = fr_buffer fr" "fr_i (lookahead_next fr) = fr_i fr + 1"
  "fr_ack (lookahead_next fr) = fr_ack fr - 1" "taken (lookahead_next fr) = taken fr"
  by (simp_all add: lookahead_next_def taken_def fun_eq_iff)

text \<open>Only the two counters have moved, by the same amount, and not past the end of the window.\<close>

definition advanced :: "lfs_free \<Rightarrow> lfs_free \<Rightarrow> bool" where
  "advanced fr fr' \<longleftrightarrow> fr_offset fr' = fr_offset fr \<and> fr_size fr' = fr_size fr \<and> fr_buffer fr' = fr_buffer fr \<and>
     unat (fr_i fr) \<le> unat (fr_i fr') \<and> unat (fr_i fr') \<le> unat (fr_size fr) \<and>
     unat (fr_ack fr') + unat (fr_i fr') = unat (fr_ack fr) + unat (fr_i fr)"

definition window_ok :: "lfs_free \<Rightarrow> bool" where
  "window_ok fr \<longleftrightarrow> unat (fr_i fr) \<le> unat (fr_size fr) \<and> unat (fr_size fr) - unat (fr_i fr) \<le> unat (fr_ack fr)"

lemma advanced_refl: "unat (fr_i fr) \<le> unat (fr_size fr) \<Longrightarrow> advanced fr fr"
  by (simp add: advanced_def)

lemma advanced_trans: "advanced fr fr' \<Longrightarrow> advanced fr' fr'' \<Longrightarrow> advanced fr fr''"
  by (simp add: advanced_def)

lemma advanced_next:
  assumes "window_ok fr" "unat (fr_i fr) < unat (fr_size fr)"
  shows "advanced fr (lookahead_next fr)" "window_ok (lookahead_next fr)" "unat (fr_i (lookahead_next fr)) = Suc (unat (fr_i fr))"
proof -
  have "unat (fr_i fr) + 1 < 2 ^ 64" using assms(2) unat_u64_less(1)[of "fr_size fr"] by linarith
  then have i: "unat (fr_i fr + 1) = Suc (unat (fr_i fr))" by (subst unat_add_u64) simp_all
  have a: "unat (fr_ack fr - 1) = unat (fr_ack fr) - 1"
    using assms by (subst unat_sub_u64) (simp_all add: window_ok_def)
  show "unat (fr_i (lookahead_next fr)) = Suc (unat (fr_i fr))" by (simp add: i)
  show "advanced fr (lookahead_next fr)" "window_ok (lookahead_next fr)"
    using assms by (auto simp: advanced_def window_ok_def i a)
qed

lemma advanced_ok: "advanced fr fr' \<Longrightarrow> window_ok fr \<Longrightarrow> window_ok fr'"
  by (auto simp: advanced_def window_ok_def)

lemma taken_advanced: "advanced fr fr' \<Longrightarrow> taken fr' = taken fr"
  by (simp add: advanced_def taken_def fun_eq_iff)

subsection \<open>Scanning the window\<close>

lemma alloc_skip_correct:
  assumes "window_ok fr" "n = unat (fr_size fr) - unat (fr_i fr)" "alloc_skip n fr = (Inr u, fr')"
  shows "advanced fr fr' \<and> (\<forall>j. unat (fr_i fr) \<le> j \<and> j < unat (fr_i fr') \<longrightarrow> taken fr j)"
  using assms
proof (induction n arbitrary: fr)
  case 0
  then show ?case by (auto simp: window_ok_def intro: advanced_refl)
next
  case (Suc n)
  obtain used where u: "lookahead_bit fr (fr_i fr) = Inr used" using Suc.prems(3) by (auto split: sum.splits)
  note t = lookahead_bit_taken[OF u]
  have lt: "unat (fr_i fr) < unat (fr_size fr)" using Suc.prems(2) by linarith
  note N = advanced_next[OF Suc.prems(1) lt]
  show ?case
  proof (cases used)
    case True
    then have "alloc_skip n (lookahead_next fr) = (Inr u, fr')" using Suc.prems(3) \<open>lookahead_bit fr (fr_i fr) = Inr used\<close> by simp
    then have I: "advanced (lookahead_next fr) fr' \<and> (\<forall>j. unat (fr_i (lookahead_next fr)) \<le> j \<and> j < unat (fr_i fr') \<longrightarrow> taken (lookahead_next fr) j)"
      using N(3) Suc.prems(2) by (intro Suc.IH N(2)) simp_all
    have "taken fr j" if "unat (fr_i fr) \<le> j" "j < unat (fr_i fr')" for j
    proof (cases "j = unat (fr_i fr)")
      case True
      then show ?thesis using t \<open>used\<close> by simp
    next
      case False
      then show ?thesis using I that N(3) by simp
    qed
    then show ?thesis using I advanced_trans[OF N(1)] by blast
  next
    case False
    then have "fr' = fr" using Suc.prems(3) u by simp
    then show ?thesis using lt by (auto intro: advanced_refl)
  qed
qed

lemma alloc_scan_correct:
  assumes "window_ok fr" "n = unat (fr_size fr) - unat (fr_i fr)" "alloc_scan n fr = (Inr res, fr')"
  shows "advanced fr fr' \<and>
    (case res of
       None \<Rightarrow> fr_i fr' = fr_size fr \<and> (\<forall>j. unat (fr_i fr) \<le> j \<and> j < unat (fr_size fr) \<longrightarrow> taken fr j)
     | Some off \<Rightarrow> unat (fr_i fr) \<le> unat off \<and> unat off < unat (fr_i fr') \<and> \<not> taken fr (unat off) \<and>
         (\<forall>j. unat (fr_i fr) \<le> j \<and> j < unat (fr_i fr') \<and> j \<noteq> unat off \<longrightarrow> taken fr j))"
  using assms
proof (induction n arbitrary: fr)
  case 0
  then show ?case by (auto simp: window_ok_def advanced_def word_eq_nat_alt)
next
  case (Suc n)
  have lt: "unat (fr_i fr) < unat (fr_size fr)" using Suc.prems(2) by linarith
  note N = advanced_next[OF Suc.prems(1) lt]
  obtain used where "lookahead_bit (lookahead_next fr) (fr_i fr) = Inr used"
    using Suc.prems(3) by (auto simp: Let_def split: sum.splits)
  note u = this and t = lookahead_bit_taken[OF this]
  have n: "n = unat (fr_size (lookahead_next fr)) - unat (fr_i (lookahead_next fr))" using N(3) Suc.prems(2) by simp
  show ?case
  proof (cases used)
    case True
    then have "alloc_scan n (lookahead_next fr) = (Inr res, fr')" using Suc.prems(3) u by simp
    note I = Suc.IH[OF N(2) n this]
    have here: "taken fr (unat (fr_i fr))" using t True by simp
    have split: "unat (fr_i fr) \<le> j \<longleftrightarrow> j = unat (fr_i fr) \<or> unat (fr_i (lookahead_next fr)) \<le> j" for j using N(3) by auto
    show ?thesis
      using I advanced_trans[OF N(1)] here unfolding split by (auto split: option.splits)
  next
    case False
    then obtain u where sk: "alloc_skip n (lookahead_next fr) = (Inr u, fr')" "res = Some (fr_i fr)"
      using Suc.prems(3) \<open>lookahead_bit _ _ = _\<close> by (auto split: prod.splits sum.splits)
    note S = alloc_skip_correct[OF N(2) n sk(1)]
    have "\<not> taken fr (unat (fr_i fr))" using t False by simp
    moreover have "taken fr j" if "unat (fr_i fr) \<le> j" "j < unat (fr_i fr')" "j \<noteq> unat (fr_i fr)" for j
      using S that N(3) by simp
    moreover have "unat (fr_i fr) < unat (fr_i fr')" using S N(3) by (simp add: advanced_def)
    ultimately show ?thesis using S advanced_trans[OF N(1)] by (auto simp: sk(2))
  qed
qed

subsection \<open>Marking what is in use\<close>

text \<open>The window in which \<open>block\<close> is marked, among \<open>count\<close> blocks.\<close>

definition window_index :: "u64 \<Rightarrow> lfs_free \<Rightarrow> lfs_block_t \<Rightarrow> u64" where
  "window_index count fr block = ((block - fr_offset fr) + count) mod count"

definition mark :: "u64 \<Rightarrow> lfs_free \<Rightarrow> lfs_block_t \<Rightarrow> lfs_free result" where
  "mark count fr block =
     (let off = window_index count fr block; k = unat (off div 64)
      in if off < fr_size fr
         then if k < length (fr_buffer fr)
              then Inr (fr\<lparr>fr_buffer := (fr_buffer fr)[k := fr_buffer fr ! k OR push_bit (unat (off mod 64)) 1]\<rparr>)
              else Inl Undefined_behaviour
         else Inr fr)"

lemma lookahead_mark:
  "lfs_alloc_lookahead (with_free fr s) c b =
     (case mark (l_block_count s) fr b of Inl h \<Rightarrow> (Inl h, (), with_free fr s) | Inr fr \<Rightarrow> (Inr (), (), with_free fr s))"
  by (simp add: lfs_alloc_lookahead_def mark_def window_index_def Let_def)

fun marks :: "u64 \<Rightarrow> lfs_free \<Rightarrow> lfs_block_t list \<Rightarrow> lfs_free result" where
  "marks count fr [] = Inr fr"
| "marks count fr (b # bs) = (case mark count fr b of Inl h \<Rightarrow> Inl h | Inr fr \<Rightarrow> marks count fr bs)"

lemma marks_append: "marks count fr (bs @ cs) = (case marks count fr bs of Inl h \<Rightarrow> Inl h | Inr fr \<Rightarrow> marks count fr cs)"
  by (induction count fr bs rule: marks.induct) (auto split: sum.split)

lemma mark_correct:
  assumes "mark count fr b = Inr fr'"
  shows "fr_offset fr' = fr_offset fr" "fr_size fr' = fr_size fr" "fr_i fr' = fr_i fr" "fr_ack fr' = fr_ack fr"
    "taken fr j \<Longrightarrow> taken fr' j" "window_index count fr b < fr_size fr \<Longrightarrow> taken fr' (unat (window_index count fr b))"
proof -
  show "fr_offset fr' = fr_offset fr" "fr_size fr' = fr_size fr" "fr_i fr' = fr_i fr" "fr_ack fr' = fr_ack fr"
    using assms by (auto simp: mark_def Let_def split: if_splits)
  show "taken fr j \<Longrightarrow> taken fr' j"
    using assms by (auto simp: mark_def Let_def taken_def nth_list_update bit_or_iff split: if_splits)
  show "window_index count fr b < fr_size fr \<Longrightarrow> taken fr' (unat (window_index count fr b))"
    using assms by (auto simp: mark_def Let_def taken_def unat_div unat_mod bit_or_iff bit_exp_iff possible_bit_word split: if_splits)
qed

lemma marks_correct:
  assumes "marks count fr bs = Inr fr'"
  shows "fr_offset fr' = fr_offset fr \<and> fr_size fr' = fr_size fr \<and> fr_i fr' = fr_i fr \<and> fr_ack fr' = fr_ack fr \<and>
    (\<forall>j. taken fr j \<longrightarrow> taken fr' j) \<and>
    (\<forall>b \<in> set bs. window_index count fr b < fr_size fr \<longrightarrow> taken fr' (unat (window_index count fr b)))"
  using assms
proof (induction bs arbitrary: fr)
  case (Cons b bs)
  then obtain fr1 where m: "mark count fr b = Inr fr1" "marks count fr1 bs = Inr fr'" by (auto split: sum.splits)
  note M = mark_correct[OF m(1)]
  have w: "window_index count fr1 = window_index count fr" by (simp add: window_index_def M fun_eq_iff)
  show ?case using Cons.IH[OF m(2)] M unfolding w by auto
qed simp

subsection \<open>The traversal marks what it reports\<close>

definition collect :: "('d, lfs_block_t list) block_callback" where
  "collect s bs b = (Inr (), bs @ [b], s)"

lemma collect_only: "block_reads_only collect"
  by (simp add: block_reads_only_def collect_def)

text \<open>A run with the callback of the allocator, against one that only collects the blocks.\<close>

definition marks_run :: "u64 \<Rightarrow> lfs_free \<Rightarrow> lfs_block_t list \<Rightarrow> 'x result \<times> unit \<times> 'd lfs \<Rightarrow> 'x result \<times> lfs_block_t list \<times> 'd lfs \<Rightarrow> bool" where
  "marks_run n fr acc m c = (case m of (r, u, s') \<Rightarrow> case c of (q, bs, s1) \<Rightarrow>
     (\<forall>x. r = Inr x \<longrightarrow> q = Inr x \<and> l_block_count s1 = n \<and>
        (\<exists>new fr'. bs = acc @ new \<and> marks n fr new = Inr fr' \<and> s' = with_free fr' s1)))"

lemma marks_run_Inl [simp]: "marks_run n fr acc (Inl h, u, s') c"
  by (cases c) (simp add: marks_run_def)

lemma marks_run_refl [simp]: "l_block_count s = n \<Longrightarrow> marks_run n fr acc (Inr x, u, with_free fr s) (Inr x, acc, s)"
  by (simp add: marks_run_def)

lemma marks_run_bind:
  assumes "marks_run n fr acc m c"
    and "\<And>x s1 fr' new. l_block_count s1 = n \<Longrightarrow> marks_run n fr' (acc @ new) (f x () (with_free fr' s1)) (g x (acc @ new) s1)"
  shows "marks_run n fr acc (case m of (Inl h, u, s) \<Rightarrow> (Inl h, u, s) | (Inr x, u, s) \<Rightarrow> f x u s)
    (case c of (Inl h, bs, s) \<Rightarrow> (Inl h, bs, s) | (Inr x, bs, s) \<Rightarrow> g x bs s)"
proof -
  obtain r u s' where m: "m = (r, u, s')" by (metis prod_cases3)
  obtain q bs s1 where c: "c = (q, bs, s1)" by (metis prod_cases3)
  show ?thesis
  proof (cases r)
    case (Inr x)
    then obtain new fr' where n: "q = Inr x" "l_block_count s1 = n" "bs = acc @ new"
      "marks n fr new = Inr fr'" "s' = with_free fr' s1"
      using assms(1) by (auto simp: marks_run_def m c)
    show ?thesis
      using assms(2)[OF n(2), of fr' new x] n
      by (auto simp: m c Inr marks_run_def marks_append append_assoc split: prod.splits)
  qed (simp add: m)
qed

lemma marks_run_call:
  "l_block_count s = n \<Longrightarrow> marks_run n fr acc (lfs_alloc_lookahead (with_free fr s) () b) (collect s acc b)"
  unfolding lookahead_mark by (auto simp: marks_run_def collect_def split: sum.split)

lemma ctz_traverse_loop_marks:
  "l_block_count s = n \<Longrightarrow> marks_run n fr acc (lfs_ctz_traverse_loop fuel lfs_alloc_lookahead (with_free fr s) () wc head index)
    (lfs_ctz_traverse_loop fuel collect s acc wc head index)"
proof (induction fuel arbitrary: s fr acc head index)
  case (Suc fuel)
  show ?case
    unfolding lfs_ctz_traverse_loop.simps
  proof (rule marks_run_bind[OF marks_run_call[OF Suc.prems]], goal_cases)
    case (1 x s1 fr' new)
    define count where "count = 2 - (index AND 1)"
    obtain r bytes s2 where e: "lfs_bd_read_through s1 wc (count * 8) head 0 (replicate (unat count * 8) 0) = (r, bytes, s2)"
      by (metis prod_cases3)
    have n2: "l_block_count s2 = n" using reads_onlyD(10)[OF bd_read_through_only[OF e]] 1 by simp
    show ?case
    proof (cases "index = 0")
      case False
      show ?thesis
        unfolding if_not_P[OF False] Let_def bd_read_through_free count_def [symmetric] e prod.case
        by (cases r, simp_all only: sum.case marks_run_Inl) (rule marks_run_bind[OF marks_run_call[OF n2]], rule Suc.IH)
    qed (simp add: 1)
  qed
qed simp

lemma ctz_traverse_marks:
  "l_block_count s = n \<Longrightarrow> marks_run n fr acc (lfs_ctz_traverse lfs_alloc_lookahead (with_free fr s) () wc head sz)
    (lfs_ctz_traverse collect s acc wc head sz)"
  by (simp add: lfs_ctz_traverse_def lfs_ctz_index_def Let_def ctz_traverse_loop_marks del: lfs_ctz_traverse_loop.simps)

lemma rawtraverse_entry_marks:
  assumes n: "l_block_count s = n"
  shows "marks_run n fr acc (rawtraverse_entry lfs_alloc_lookahead (with_free fr s) () dir o' ident) (rawtraverse_entry collect s acc dir o' ident)"
proof -
  obtain r bytes s1 where e: "lfs_dir_get s dir (LFS_MKTAG LFS_TYPE_GLOBALS 0x3ff 0) (LFS_MKTAG LFS_TYPE_STRUCT (ucast ident) 16) (replicate 16 0) = (r, bytes, s1)"
    by (metis prod_cases3)
  have n1: "l_block_count s1 = n" using reads_onlyD(10)[OF dir_get_only[OF e]] n by simp
  have B: "marks_run n fr acc
      (case lfs_alloc_lookahead (with_free fr s1) () b of (Inl h, c, s) \<Rightarrow> (Inl h, c, s) | (Inr x, c, s) \<Rightarrow> lfs_alloc_lookahead s c b')
      (case collect s1 acc b of (Inl h, c, s) \<Rightarrow> (Inl h, c, s) | (Inr x, c, s) \<Rightarrow> collect s c b')" for b b'
    by (rule marks_run_bind[OF marks_run_call[OF n1]]) (rule marks_run_call)
  show ?thesis
    unfolding rawtraverse_entry_def dir_get_free e prod.case
    by (cases r) (simp_all add: n1 Let_def ctz_traverse_marks[OF n1] B)
qed

lemma rawtraverse_entries_marks:
  "l_block_count s = n \<Longrightarrow> marks_run n fr acc (rawtraverse_entries k lfs_alloc_lookahead (with_free fr s) () dir o' ident)
    (rawtraverse_entries k collect s acc dir o' ident)"
proof (induction k arbitrary: s fr acc ident)
  case (Suc k)
  show ?case
    unfolding rawtraverse_entries.simps by (rule marks_run_bind[OF rawtraverse_entry_marks[OF Suc.prems]]) (rule Suc.IH)
qed simp

lemma rawtraverse_dirs_marks:
  "l_block_count s = n \<Longrightarrow> marks_run n fr acc (rawtraverse_dirs k lfs_alloc_lookahead (with_free fr s) () dir o')
    (rawtraverse_dirs k collect s acc dir o')"
proof (induction k arbitrary: s fr acc dir)
  case 0
  then show ?case by (simp add: rawtraverse_dirs.simps)
next
  case (Suc k)
  show ?case
  proof (cases "lfs_pair_isnull (m_tail dir)")
    case False
    show ?thesis
      unfolding rawtraverse_dirs.simps[of "Suc k"] if_not_P[OF False] nat.case
    proof (rule marks_run_bind[OF marks_run_call[OF Suc.prems]], rule marks_run_bind[OF marks_run_call], assumption, goal_cases)
      case (1 x s1 fr1 new x' s2 fr2 new')
      obtain r d s3 where e: "lfs_dir_fetch s2 dir (m_tail dir) = (r, d, s3)" by (metis prod_cases3)
      have n3: "l_block_count s3 = n" using reads_onlyD(10)[OF dir_fetch_only[OF e]] 1(2) by simp
      show ?case
        unfolding dir_fetch_free e prod.case
        by (cases r, simp_all only: sum.case marks_run_Inl) (rule marks_run_bind[OF rawtraverse_entries_marks[OF n3]], rule Suc.IH)
    qed
  qed (simp add: rawtraverse_dirs.simps[of "Suc k"] Suc.prems)
qed

lemma rawtraverse_file_marks:
  assumes n: "l_block_count s = n"
  shows "marks_run n fr acc (rawtraverse_file lfs_alloc_lookahead (with_free fr s) () f) (rawtraverse_file collect s acc f)"
  unfolding rawtraverse_file_def
proof (rule marks_run_bind, goal_cases)
  case 1
  show ?case using n by (simp add: ctz_traverse_marks)
next
  case (2 x s1 fr' new)
  then show ?case by (simp add: ctz_traverse_marks)
qed

lemma rawtraverse_open_marks:
  "l_block_count s = n \<Longrightarrow> marks_run n fr acc (rawtraverse_open lfs_alloc_lookahead (with_free fr s) () nodes)
    (rawtraverse_open collect s acc nodes)"
proof (induction nodes arbitrary: s fr acc)
  case (Cons node nodes)
  obtain p e where nd: "node = (p, e)" by (metis prod.exhaust)
  show ?case
  proof (cases e)
    case (File f)
    show ?thesis
      unfolding nd File rawtraverse_open.simps
      by (cases "ml_type f \<noteq> ucast LFS_TYPE_REG", simp_all only: if_True if_False simp_thms Cons.IH[OF Cons.prems])
        (rule marks_run_bind[OF rawtraverse_file_marks[OF Cons.prems]], rule Cons.IH)
  qed (simp_all add: nd Cons)
qed simp

lemma rawtraverse_marks:
  assumes n: "l_block_count s = n"
  shows "marks_run n fr acc (lfs_fs_rawtraverse lfs_alloc_lookahead (with_free fr s) () o') (lfs_fs_rawtraverse collect s acc o')"
  unfolding lfs_fs_rawtraverse_def with_free_select
  by (rule marks_run_bind[OF rawtraverse_dirs_marks[OF n]]) (simp add: rawtraverse_open_marks)

subsection \<open>Allocating a block\<close>

definition alloc_inv :: "'d lfs \<Rightarrow> bool" where
  "alloc_inv s \<longleftrightarrow> window_ok (l_free s) \<and> fr_ack (l_free s) \<le> l_block_count s \<and> fr_size (l_free s) \<le> l_block_count s \<and>
     fr_offset (l_free s) < l_block_count s \<and> unat (l_block_count s) < 2 ^ 63"

text \<open>\<open>block\<close> is in what is left of the window, and its bit is clear.\<close>

definition free_in_window :: "u64 \<Rightarrow> lfs_free \<Rightarrow> lfs_block_t \<Rightarrow> bool" where
  "free_in_window count fr block \<longleftrightarrow> (\<exists>off. fr_i fr \<le> off \<and> off < fr_size fr \<and> \<not> taken fr (unat off) \<and>
     block = (fr_offset fr + off) mod count)"

lemma window_index_offset:
  assumes "fr_offset fr < n" "off < n" "unat n < 2 ^ 63"
  shows "window_index n fr ((fr_offset fr + off) mod n) = off"
proof -
  have lt: "unat (fr_offset fr) < unat n" "unat off < unat n" using assms(1,2) by (simp_all add: word_less_nat_alt)
  have s: "unat (fr_offset fr + off) = unat (fr_offset fr) + unat off"
    using lt assms(3) by (intro unat_add_u64) simp
  show ?thesis
  proof (cases "unat (fr_offset fr) + unat off < unat n")
    case True
    then have e: "(fr_offset fr + off) mod n = fr_offset fr + off" by (simp add: word_eq_nat_alt unat_mod s)
    have "unat (off + n) = unat off + unat n" using lt assms(3) by (intro unat_add_u64) simp
    then have "unat ((off + n) mod n) = unat off" using lt by (simp add: unat_mod)
    then show ?thesis unfolding window_index_def e by (simp add: word_eq_nat_alt)
  next
    case False
    have "(unat (fr_offset fr) + unat off) mod unat n = unat (fr_offset fr) + unat off - unat n"
      using False lt by (simp add: mod_if)
    then have e: "(fr_offset fr + off) mod n = fr_offset fr + off - n"
      using False by (simp add: word_eq_nat_alt unat_mod s unat_sub_u64)
    have "fr_offset fr + off - n - fr_offset fr + n = off" by simp
    moreover have "unat (off mod n) = unat off" using lt by (simp add: unat_mod)
    ultimately show ?thesis unfolding window_index_def e by (simp add: word_eq_nat_alt)
  qed
qed

text \<open>Reading, and moving the window.\<close>

definition scans :: "'d lfs \<Rightarrow> 'd lfs \<Rightarrow> bool" where
  "scans s t \<longleftrightarrow> reads_only (with_free (l_free t) s) t"

lemma scans_free [simp]: "scans s (with_free x s)"
  by (simp add: scans_def)

lemma scans_reads: "reads_only s t \<Longrightarrow> scans s (with_free x t)"
  unfolding scans_def reads_only_def by (cases s; cases t; simp add: with_free_def)

lemma scans_trans: "scans s t \<Longrightarrow> scans t u \<Longrightarrow> scans s u"
  unfolding scans_def reads_only_def by (cases s; cases t; cases u; simp add: with_free_def)

lemma scans_block_count: "scans s t \<Longrightarrow> l_block_count t = l_block_count s"
  unfolding scans_def by (drule reads_onlyD(10)) simp

lemma alloc_rescan_marks:
  assumes inv: "alloc_inv s" and r: "alloc_rescan s = (Inr u, s')"
  obtains t used t' where "scans s t" "lfs_fs_rawtraverse collect t [] True = (Inr (), used, t')" "scans t s'" "alloc_inv s'"
    "\<And>b. b \<in> set used \<Longrightarrow> window_index (l_block_count s) (l_free s') b < fr_size (l_free s') \<Longrightarrow>
      taken (l_free s') (unat (window_index (l_block_count s) (l_free s') b))"
proof -
  define fr where "fr = (l_free s)\<lparr>fr_offset := (fr_offset (l_free s) + fr_size (l_free s)) mod l_block_count s,
    fr_size := lfs_min (16 * cfg_lookahead_size (l_cfg s)) (fr_ack (l_free s)), fr_i := 0\<rparr>"
  obtain b where b: "mem_put (fr_buffer fr) 0 (replicate (unat (cfg_lookahead_size (l_cfg s)) div 8) 0) = Inr b"
    using r by (auto simp: alloc_rescan_def Let_def fr_def split: sum.splits)
  define fr0 where "fr0 = fr\<lparr>fr_buffer := b\<rparr>"
  have t: "lfs_fs_rawtraverse lfs_alloc_lookahead (with_free fr0 s) () True = (Inr (), (), s')"
    using r b by (auto simp: alloc_rescan_def Let_def fr_def fr0_def with_free_def split: sum.splits prod.splits)
  obtain q used t' where c: "lfs_fs_rawtraverse collect s [] True = (q, used, t')" by (metis prod_cases3)
  obtain fr' where m: "q = Inr ()" "marks (l_block_count s) fr0 used = Inr fr'" "s' = with_free fr' t'"
    using rawtraverse_marks[OF refl, where fr = fr0 and acc = "[]" and s = s and o' = True] by (auto simp: marks_run_def t c)
  note M = marks_correct[OF m(2)]
  have ro: "reads_only s t'" by (rule rawtraverse_only[OF collect_only c])
  have n: "0 < l_block_count s" "0 < unat (l_block_count s)" using inv by (auto simp: alloc_inv_def word_less_nat_alt)
  have "fr_offset fr < l_block_count s" using n(2) by (simp add: fr_def word_less_nat_alt unat_mod)
  moreover have "unat (fr_size fr) \<le> unat (fr_ack (l_free s))" by (simp add: fr_def lfs_min_unat)
  ultimately have "alloc_inv s'"
    using inv M by (simp add: alloc_inv_def m(3) window_ok_def reads_onlyD(10)[OF ro] fr0_def word_le_nat_alt) (simp add: fr_def)
  moreover have "window_index (l_block_count s) (l_free s') = window_index (l_block_count s) fr0"
    using M by (simp add: window_index_def m(3) fun_eq_iff)
  ultimately show thesis
    using that[of s used t'] c m M scans_reads[OF ro] by (auto simp: scans_def)
qed

text \<open>What the allocator promises for a block: no scan of the blocks in use that was made for it reports it.\<close>

definition unused :: "'d lfs \<Rightarrow> lfs_block_t \<Rightarrow> bool" where
  "unused s block \<longleftrightarrow> free_in_window (l_block_count s) (l_free s) block \<or>
     (\<exists>t used t'. scans s t \<and> lfs_fs_rawtraverse collect t [] True = (Inr (), used, t') \<and> block \<notin> set used)"

lemma alloc_inv_advanced:
  assumes "alloc_inv s" "advanced (l_free s) fr"
  shows "alloc_inv (with_free fr s)"
proof -
  have "unat (fr_ack fr) \<le> unat (fr_ack (l_free s))" using assms(2) by (auto simp: advanced_def)
  then show ?thesis
    using assms advanced_ok[OF assms(2)] by (auto simp: alloc_inv_def advanced_def word_le_nat_alt)
qed

lemma found_in_window:
  assumes inv: "alloc_inv s" and r: "alloc_scan (unat (fr_size (l_free s) - fr_i (l_free s))) (l_free s) = (Inr (Some off), fr)"
  defines "block \<equiv> (fr_offset fr + off) mod l_block_count s"
  shows "advanced (l_free s) fr" "free_in_window (l_block_count s) (l_free s) block" "\<not> free_in_window (l_block_count s) fr block"
    "block < l_block_count s" "window_index (l_block_count s) (l_free s) block = off" "off < fr_size (l_free s)" "\<not> taken (l_free s) (unat off)"
proof -
  have w: "window_ok (l_free s)" and n: "0 < l_block_count s" "fr_offset (l_free s) < l_block_count s" "unat (l_block_count s) < 2 ^ 63"
    and sz: "unat (fr_size (l_free s)) \<le> unat (l_block_count s)"
    using inv by (auto simp: alloc_inv_def word_less_nat_alt word_le_nat_alt)
  have k: "unat (fr_size (l_free s) - fr_i (l_free s)) = unat (fr_size (l_free s)) - unat (fr_i (l_free s))"
    using w by (intro unat_sub_u64) (simp add: window_ok_def)
  note S = alloc_scan_correct[OF w k r, simplified]
  show a: "advanced (l_free s) fr" using S by simp
  then have o: "fr_offset fr = fr_offset (l_free s)" "fr_size fr = fr_size (l_free s)" "unat (fr_i fr) \<le> unat (fr_size (l_free s))"
    by (simp_all add: advanced_def)
  show lt: "off < fr_size (l_free s)" using S o(3) by (simp add: word_less_nat_alt)
  show nt: "\<not> taken (l_free s) (unat off)" using S by simp
  show "free_in_window (l_block_count s) (l_free s) block"
    using S lt nt by (auto simp: free_in_window_def block_def o word_le_nat_alt)
  show "block < l_block_count s" using n(1) by (simp add: block_def word_less_nat_alt unat_mod)
  have idx: "window_index (l_block_count s) (l_free s) ((fr_offset (l_free s) + x) mod l_block_count s) = x" if "x < fr_size (l_free s)" for x
    using that sz by (intro window_index_offset n) (simp add: word_less_nat_alt)
  show b: "window_index (l_block_count s) (l_free s) block = off" unfolding block_def o by (rule idx[OF lt])
  show "\<not> free_in_window (l_block_count s) fr block"
  proof
    assume "free_in_window (l_block_count s) fr block"
    then obtain x where x: "fr_i fr \<le> x" "x < fr_size (l_free s)" "block = (fr_offset (l_free s) + x) mod l_block_count s"
      by (auto simp: free_in_window_def o)
    have "x = off" using idx[OF x(2)] b by (simp add: x(3))
    then show False using x(1) S by (simp add: word_le_nat_alt)
  qed
qed

lemma alloc_windows_correct:
  assumes "alloc_inv s" "alloc_windows fuel s = (Inr res, s')"
  shows "scans s s' \<and> alloc_inv s' \<and>
    (case res of None \<Rightarrow> fr_ack (l_free s') = 0
     | Some block \<Rightarrow> block < l_block_count s \<and> unused s block \<and> \<not> free_in_window (l_block_count s) (l_free s') block)"
  using assms
proof (induction fuel arbitrary: s)
  case (Suc fuel)
  obtain q fr where sc: "alloc_scan (unat (fr_size (l_free s) - fr_i (l_free s))) (l_free s) = (q, fr)" by (metis prod.exhaust)
  note W = Suc.prems(2)[unfolded alloc_windows.simps sc prod.case]
  obtain found where q: "q = Inr found" using W by (cases q) auto
  show ?case
  proof (cases found)
    case (Some off)
    then have e: "res = Some ((fr_offset fr + off) mod l_block_count s)" "s' = with_free fr s"
      using W q by (simp_all add: with_free_def)
    note F = found_in_window[OF Suc.prems(1) sc[unfolded q Some]]
    show ?thesis using F(1-4) alloc_inv_advanced[OF Suc.prems(1) F(1)] by (simp add: e unused_def)
  next
    case None
    have w: "window_ok (l_free s)" using Suc.prems(1) by (simp add: alloc_inv_def)
    have "unat (fr_size (l_free s) - fr_i (l_free s)) = unat (fr_size (l_free s)) - unat (fr_i (l_free s))"
      using w by (intro unat_sub_u64) (simp add: window_ok_def)
    then have a: "advanced (l_free s) fr" using alloc_scan_correct[OF w _ sc[unfolded q None]] by simp
    note inv = alloc_inv_advanced[OF Suc.prems(1) a]
    show ?thesis
    proof (cases "fr_ack fr = 0")
      case True
      then show ?thesis using W q None inv by (auto simp: with_free_def[symmetric])
    next
      case False
      have fs: "s\<lparr>l_free := fr\<rparr> = with_free fr s" by (simp add: with_free_def)
      obtain p s1 where r: "alloc_rescan (with_free fr s) = (p, s1)" by (metis prod.exhaust)
      then obtain u where "p = Inr u" and rec: "alloc_windows fuel s1 = (Inr res, s')"
        using W q None False by (auto simp: fs split: sum.splits)
      then obtain t used t' where t: "scans (with_free fr s) t" "lfs_fs_rawtraverse collect t [] True = (Inr (), used, t')"
        "scans t s1" "alloc_inv s1"
        "\<And>b. b \<in> set used \<Longrightarrow> window_index (l_block_count s) (l_free s1) b < fr_size (l_free s1) \<Longrightarrow>
          taken (l_free s1) (unat (window_index (l_block_count s) (l_free s1) b))"
        using alloc_rescan_marks[OF inv, of u s1] r by auto
      note I = Suc.IH[OF t(4) rec]
      have st: "scans s t" using scans_trans[OF scans_free t(1)] .
      have s1: "scans s s1" using scans_trans[OF st t(3)] .
      note n = scans_block_count[OF s1]
      have "unused s block" if b: "unused s1 block" for block
      proof (cases "free_in_window (l_block_count s1) (l_free s1) block")
        case True
        then obtain x where x: "x < fr_size (l_free s1)" "\<not> taken (l_free s1) (unat x)" "block = (fr_offset (l_free s1) + x) mod l_block_count s"
          by (auto simp: free_in_window_def n)
        have "x < l_block_count s" using x(1) t(4) by (auto simp: alloc_inv_def n intro: less_le_trans)
        then have "window_index (l_block_count s) (l_free s1) block = x"
          using t(4) unfolding x(3) by (intro window_index_offset) (simp_all add: alloc_inv_def n)
        then have "block \<notin> set used" using t(5)[of block] x(1,2) by auto
        then show ?thesis using st t(2) unfolding unused_def by blast
      next
        case False
        then show ?thesis using b scans_trans[OF s1] unfolding unused_def by blast
      qed
      then show ?thesis using I scans_trans[OF s1] by (auto simp: n split: option.splits)
    qed
  qed
qed simp

subsection \<open>Properties\<close>


definition sample_free :: lfs_free where
  "sample_free = \<lparr>fr_offset = 3, fr_size = 4, fr_i = 0, fr_ack = 4, fr_buffer = [1]\<rparr>"

definition sample_window :: "memory_device lfs" where
  "sample_window = with_free sample_free (sample memory_ops sample_memory)"

lemma sample_window_alloc: "fst (lfs_alloc None sample_window) = Inr 0"
proof -
  have n: "unat (fr_size sample_free - fr_i sample_free) = Suc (Suc (Suc (Suc 0)))" by (simp add: sample_free_def)
  have s: "alloc_scan (Suc (Suc (Suc (Suc 0)))) sample_free = (Inr (Some 1), sample_free\<lparr>fr_i := 2, fr_ack := 2\<rparr>)"
    by (simp add: sample_free_def lookahead_bit_def lookahead_next_def Let_def)
  have c: "l_block_count sample_window = 4" "l_free sample_window = sample_free"
    by (simp_all add: sample_window_def sample_def)
  show ?thesis
    unfolding lfs_alloc_def windows_fuel_def alloc_attempts.simps alloc_windows.simps c n s prod.case sum.case option.case
    by (simp add: sample_free_def)
qed


text \<open>C28: the window overruns its bitmap. \<open>lfs_init\<close> gives the bitmap \<open>lookahead_size\<close> bytes, eight blocks per
  byte, but the window is made to span up to sixteen blocks per byte. A block in use in its second half
  makes the allocator write outside the buffer.\<close>

theorem lookahead_overrun:
  assumes "8 dvd unat (cfg_lookahead_size (l_cfg s))" "length (fr_buffer (l_free s)) = unat (cfg_lookahead_size (l_cfg s)) div 8"
    and "fr_size (l_free s) = lfs_min (16 * cfg_lookahead_size (l_cfg s)) (fr_ack (l_free s))"
    and "window_index (l_block_count s) (l_free s) b < fr_size (l_free s)"
    and "8 * unat (cfg_lookahead_size (l_cfg s)) \<le> unat (window_index (l_block_count s) (l_free s) b)"
  shows "fst (lfs_alloc_lookahead s () b) = Inl Undefined_behaviour"
proof -
  have "unat (cfg_lookahead_size (l_cfg s)) div 8 * 64 \<le> unat (window_index (l_block_count s) (l_free s) b)"
    using assms(1,5) by auto
  then have "\<not> unat (window_index (l_block_count s) (l_free s) b div 64) < length (fr_buffer (l_free s))"
    using assms(2) by (simp add: unat_div less_mult_imp_div_less div_le_mono not_less less_eq_div_iff_mult_less_eq)
  then show ?thesis
    using lookahead_mark[where fr = "l_free s" and s = s and c = "()" and b = b] assms(4) by (simp add: mark_def Let_def)
qed

definition sample_overrun :: "memory_device lfs" where
  "sample_overrun = with_free \<lparr>fr_offset = 0, fr_size = 128, fr_i = 0, fr_ack = 200, fr_buffer = [0]\<rparr>
     ((sample memory_ops sample_memory)\<lparr>l_block_count := 200\<rparr>)"

theorem lookahead_overrun_witness: "fst (lfs_alloc_lookahead sample_overrun () 100) = Inl Undefined_behaviour"
  by (rule lookahead_overrun) (simp_all add: sample_overrun_def sample_def sample_config_def window_index_def lfs_min_def)

end
