(* ===== verification/AllocatorEnds.thy ===== *)
theory AllocatorEnds
  imports TraverseEnds AllocatorProperties
begin

text \<open>
  The allocator always answers, on a device that does not fail and whatever it holds, as long as the
  window fits its bitmap. It gives up only when every block it was to look at is in use.
\<close>

subsection \<open>Inside the bitmap\<close>

definition window_fits :: "lfs_free \<Rightarrow> bool" where
  "window_fits fr \<longleftrightarrow> unat (fr_size fr) \<le> 64 * length (fr_buffer fr)"

lemma lookahead_bit_fits:
  assumes "window_fits fr" "unat i < unat (fr_size fr)"
  shows "\<exists>used. lookahead_bit fr i = Inr used"
proof -
  have "unat i div 64 < length (fr_buffer fr)"
    using assms unfolding window_fits_def by (intro less_mult_imp_div_less) linarith
  then show ?thesis by (simp add: lookahead_bit_def unat_div Let_def)
qed

lemma window_fits_advanced: "window_fits fr \<Longrightarrow> advanced fr fr' \<Longrightarrow> window_fits fr'"
  by (simp add: window_fits_def advanced_def)

lemma alloc_skip_ends:
  assumes "window_fits fr" "window_ok fr" "n = unat (fr_size fr) - unat (fr_i fr)"
  shows "\<exists>fr'. alloc_skip n fr = (Inr (), fr')"
  using assms
proof (induction n arbitrary: fr)
  case (Suc n)
  have lt: "unat (fr_i fr) < unat (fr_size fr)" using Suc.prems(3) by linarith
  note N = advanced_next[OF Suc.prems(2) lt]
  obtain used where "lookahead_bit fr (fr_i fr) = Inr used" using lookahead_bit_fits[OF Suc.prems(1) lt] by blast
  moreover have "\<exists>fr'. alloc_skip n (lookahead_next fr) = (Inr (), fr')"
    using N(3) Suc.prems(3) by (intro Suc.IH window_fits_advanced[OF Suc.prems(1) N(1)] N(2)) simp
  ultimately show ?case by (cases used) simp_all
qed simp

lemma alloc_scan_ends:
  assumes "window_fits fr" "window_ok fr" "n = unat (fr_size fr) - unat (fr_i fr)"
  shows "\<exists>res fr'. alloc_scan n fr = (Inr res, fr')"
  using assms
proof (induction n arbitrary: fr)
  case (Suc n)
  have lt: "unat (fr_i fr) < unat (fr_size fr)" using Suc.prems(3) by linarith
  note N = advanced_next[OF Suc.prems(2) lt]
  have fits: "window_fits (lookahead_next fr)" by (rule window_fits_advanced[OF Suc.prems(1) N(1)])
  have n: "n = unat (fr_size (lookahead_next fr)) - unat (fr_i (lookahead_next fr))" using N(3) Suc.prems(3) by simp
  have "unat (fr_i fr) < unat (fr_size (lookahead_next fr))" using lt by simp
  then obtain used where "lookahead_bit (lookahead_next fr) (fr_i fr) = Inr used" using lookahead_bit_fits[OF fits] by blast
  then show ?case using Suc.IH[OF fits N(2) n] alloc_skip_ends[OF fits N(2) n] by (cases used) (auto simp: Let_def)
qed simp

text \<open>The bitmap has a bit for every block of the device, and the window is not empty.\<close>

definition bitmap_fits :: "'d lfs \<Rightarrow> bool" where
  "bitmap_fits s \<longleftrightarrow> (let la = unat (cfg_lookahead_size (l_cfg s)) in 0 < la \<and> la < 2 ^ 59 \<and>
     length (fr_buffer (l_free s)) = la div 8 \<and> unat (l_block_count s) \<le> 64 * (la div 8))"

text \<open>A bit that is set after the marks was set before, or stands for a block that was reported.\<close>

lemma marks_taken:
  assumes "marks count fr bs = Inr fr'" "taken fr' j"
  shows "taken fr j \<or> (\<exists>b \<in> set bs. unat (window_index count fr b) = j)"
  using assms
proof (induction bs arbitrary: fr)
  case (Cons b bs)
  then obtain fr1 where m: "mark count fr b = Inr fr1" "marks count fr1 bs = Inr fr'" by (auto split: sum.splits)
  note M = mark_correct[OF m(1)]
  have w: "window_index count fr1 = window_index count fr" by (simp add: window_index_def M fun_eq_iff)
  have "taken fr1 j \<Longrightarrow> taken fr j \<or> unat (window_index count fr b) = j"
  proof -
    let ?i = "unat (window_index count fr b)"
    assume t: "taken fr1 j"
    show ?thesis
    proof (cases "window_index count fr b < fr_size fr")
      case True
      then have "fr1 = fr\<lparr>fr_buffer := (fr_buffer fr)[?i div 64 := fr_buffer fr ! (?i div 64) OR push_bit (?i mod 64) 1]\<rparr>"
        and k: "?i div 64 < length (fr_buffer fr)"
        using m(1) by (simp_all add: mark_def Let_def unat_div unat_mod split: if_splits)
      then have "taken fr j \<or> j div 64 = ?i div 64 \<and> j mod 64 = ?i mod 64"
        using t by (auto simp: taken_def nth_list_update bit_or_iff bit_exp_iff bit_push_bit_iff split: if_splits)
      then show ?thesis using div_mult_mod_eq[of j 64] div_mult_mod_eq[of ?i 64] by metis
    next
      case False
      then show ?thesis using m(1) t by (simp add: mark_def Let_def)
    qed
  qed
  then show ?case using Cons.IH[OF m(2) Cons.prems(2)] unfolding w by auto
qed simp

lemma window_index_block:
  assumes "fr_offset fr < n" "b < n" "unat n < 2 ^ 63"
  shows "(unat (fr_offset fr) + unat (window_index n fr b)) mod unat n = unat b"
proof -
  have lt: "unat (fr_offset fr) < unat n" "unat b < unat n" using assms(1,2) by (simp_all add: word_less_nat_alt)
  have e: "b - fr_offset fr + n = b + (n - fr_offset fr)" by simp
  have "unat (n - fr_offset fr) = unat n - unat (fr_offset fr)" using lt by (intro unat_sub_u64) simp
  then have s: "unat (b - fr_offset fr + n) = unat b + (unat n - unat (fr_offset fr))"
    unfolding e using lt assms(3) by (subst unat_add_u64) simp_all
  have "(unat (fr_offset fr) + (unat b + (unat n - unat (fr_offset fr))) mod unat n) mod unat n =
    (unat (fr_offset fr) + (unat b + (unat n - unat (fr_offset fr)))) mod unat n"
    by (rule mod_add_right_eq)
  also have "\<dots> = (unat b + unat n) mod unat n" using lt by (simp add: algebra_simps)
  finally show ?thesis using lt by (simp add: window_index_def unat_mod s)
qed

context reliable_device begin

lemma ready_free [simp]: "ready (with_free x s) = ready s"
  by (simp add: ready_def geometry_def runs_on_def cache_holds_def cache_fits_def)

lemma lookahead_ends: "block_ends window_fits lfs_alloc_lookahead"
proof -
  have "\<exists>r c' s'. lfs_alloc_lookahead s c b = (r, c', s') \<and> ends s r s'" if okay: "okay window_fits s" for s c b
  proof -
    have rd: "ready s" "window_fits (l_free s)" using okay by (simp_all add: okay_def)
    define off where "off = window_index (l_block_count s) (l_free s) b"
    show ?thesis
    proof (cases "off < fr_size (l_free s)")
      case True
      then have "unat off div 64 < length (fr_buffer (l_free s))"
        using rd(2) unfolding window_fits_def by (intro less_mult_imp_div_less) (simp add: word_less_nat_alt)
      then obtain fr where fr: "mark (l_block_count s) (l_free s) b = Inr fr" "same_window (l_free s) fr"
        using True by (simp add: mark_def off_def [symmetric] Let_def unat_div same_window_def)
      have e: "lfs_alloc_lookahead s c b = (Inr (), (), with_free fr s)"
        using lookahead_mark[of "l_free s" s c b] by (simp add: fr(1))
      have "walks s (with_free fr s)" unfolding walks_def using fr(2) ready_free[THEN iffD2, OF rd(1)]
        by (intro conjI exI[of _ "l_read_cache s"] exI[of _ "l_dev s"] exI[of _ "l_seed s"] exI[of _ fr]) (simp_all add: with_free_def)
      then show ?thesis using e by (simp add: ends_def)
    next
      case False
      then have "mark (l_block_count s) (l_free s) b = Inr (l_free s)" by (simp add: mark_def off_def Let_def)
      then have "lfs_alloc_lookahead s c b = (Inr (), (), s)" using lookahead_mark[of "l_free s" s c b] by simp
      then show ?thesis using walks_refl[OF rd(1)] by (simp add: ends_def)
    qed
  qed
  moreover have "same_window fr fr' \<Longrightarrow> window_fits fr \<Longrightarrow> window_fits fr'" for fr fr'
    using same_windowD(2,5)[of fr fr'] by (simp add: window_fits_def)
  ultimately show ?thesis unfolding block_ends_def by blast
qed

text \<open>The same file system on the same disk; the caches, the seed and the window may differ.\<close>

definition same_fs :: "'d lfs \<Rightarrow> 'd lfs \<Rightarrow> bool" where
  "same_fs s t \<longleftrightarrow> ready t \<and> (\<exists>rc d seed fr. t = s\<lparr>l_read_cache := rc, l_dev := d, l_seed := seed, l_free := fr\<rparr> \<and> content d = content (l_dev s))"

lemma walks_same_fs: "walks s t \<Longrightarrow> same_fs s t"
  unfolding walks_def same_fs_def by blast

lemma same_fs_free: "ready s \<Longrightarrow> same_fs s (with_free fr s)"
  unfolding same_fs_def
  by (intro conjI exI[of _ "l_read_cache s"] exI[of _ "l_dev s"] exI[of _ "l_seed s"] exI[of _ fr]) (simp_all, simp add: with_free_def)

lemma same_fs_trans: "same_fs s t \<Longrightarrow> same_fs t u \<Longrightarrow> same_fs s u"
  unfolding same_fs_def by (elim exE conjE) auto

lemma same_fsD:
  assumes "same_fs s t"
  shows "ready t" "l_block_count t = l_block_count s" "l_cfg t = l_cfg s" "l_metadata_list t = l_metadata_list s"
    "open_fits t = open_fits s"
  using assms by (auto simp: same_fs_def open_fits_def pending_fits_def cache_fits_def fun_eq_iff split: option.splits)

text \<open>A scan of the file system in some such state reports the block, or something that is no block.\<close>

definition reported :: "'d lfs \<Rightarrow> lfs_block_t \<Rightarrow> bool" where
  "reported s b \<longleftrightarrow> (\<exists>t used t'. same_fs s t \<and> lfs_fs_rawtraverse collect t [] True = (Inr (), used, t') \<and>
     (b \<in> set used \<or> (\<exists>b' \<in> set used. \<not> b' < l_block_count s)))"

lemma reported_trans: "same_fs s t \<Longrightarrow> reported t b \<Longrightarrow> reported s b"
  unfolding reported_def using same_fs_trans same_fsD(2) by metis

definition alloc_ready :: "'d lfs \<Rightarrow> bool" where
  "alloc_ready s \<longleftrightarrow> ready s \<and> 4 \<le> bsize \<and> open_fits s (l_metadata_list s) \<and> alloc_inv s \<and> bitmap_fits s"

lemma alloc_readyD:
  assumes "alloc_ready s"
  shows "ready s" "4 \<le> bsize" "open_fits s (l_metadata_list s)" "alloc_inv s" "bitmap_fits s" "window_ok (l_free s)" "window_fits (l_free s)"
    "unat (fr_size (l_free s)) \<le> unat (l_block_count s)" "unat (fr_ack (l_free s)) \<le> unat (l_block_count s)"
    "fr_offset (l_free s) < l_block_count s" "unat (l_block_count s) < 2 ^ 63"
proof -
  show "ready s" "4 \<le> bsize" "open_fits s (l_metadata_list s)" "bitmap_fits s" and inv: "alloc_inv s" using assms by (simp_all add: alloc_ready_def)
  show "window_ok (l_free s)" "fr_offset (l_free s) < l_block_count s" "unat (l_block_count s) < 2 ^ 63"
    and l: "unat (fr_size (l_free s)) \<le> unat (l_block_count s)" "unat (fr_ack (l_free s)) \<le> unat (l_block_count s)"
    using inv by (simp_all add: alloc_inv_def word_le_nat_alt)
  show "window_fits (l_free s)" using l \<open>bitmap_fits s\<close> by (simp add: bitmap_fits_def window_fits_def Let_def)
qed

lemma alloc_ready_advanced:
  assumes "alloc_ready s" "advanced (l_free s) fr"
  shows "alloc_ready (with_free fr s)"
  using alloc_readyD[OF assms(1)] alloc_inv_advanced[OF _ assms(2)] assms(2)
  by (simp add: alloc_ready_def open_fits_def pending_fits_def cache_fits_def bitmap_fits_def advanced_def)

text \<open>The next window.\<close>

definition next_window :: "'d lfs \<Rightarrow> lfs_free" where
  "next_window s = (l_free s)\<lparr>fr_offset := (fr_offset (l_free s) + fr_size (l_free s)) mod l_block_count s,
     fr_size := lfs_min (16 * cfg_lookahead_size (l_cfg s)) (fr_ack (l_free s)), fr_i := 0,
     fr_buffer := replicate (length (fr_buffer (l_free s))) 0\<rparr>"

lemma rescan_next_window:
  assumes "alloc_ready s"
  shows "alloc_rescan s = (case lfs_fs_rawtraverse lfs_alloc_lookahead (with_free (next_window s) s) () True of
    (Inl h, _, s) \<Rightarrow> (Inl h, lfs_alloc_drop s) | (Inr _, _, s) \<Rightarrow> (Inr (), s))"
proof -
  define fr where "fr = (l_free s)\<lparr>fr_offset := (fr_offset (l_free s) + fr_size (l_free s)) mod l_block_count s,
     fr_size := lfs_min (16 * cfg_lookahead_size (l_cfg s)) (fr_ack (l_free s)), fr_i := 0\<rparr>"
  have "mem_put (fr_buffer fr) 0 (replicate (unat (cfg_lookahead_size (l_cfg s)) div 8) 0) = Inr (replicate (length (fr_buffer (l_free s))) 0)"
    using alloc_readyD(5)[OF assms] by (simp add: fr_def bitmap_fits_def Let_def mem_simps blit_def)
  moreover have "fr\<lparr>fr_buffer := replicate (length (fr_buffer (l_free s))) 0\<rparr> = next_window s" by (simp add: fr_def next_window_def)
  ultimately show ?thesis unfolding alloc_rescan_def Let_def with_free_def by (simp add: fr_def split: prod.split sum.split)
qed

lemma next_window_facts:
  assumes "alloc_ready s" "0 < unat (fr_ack (l_free s))"
  shows "window_fits (next_window s)" "window_ok (next_window s)" "fr_offset (next_window s) < l_block_count s"
    "0 < unat (fr_size (next_window s))" "unat (fr_size (next_window s)) \<le> unat (fr_ack (l_free s))"
    "j < unat (fr_size (next_window s)) \<Longrightarrow> \<not> taken (next_window s) j"
    "unat (fr_offset (next_window s)) = (unat (fr_offset (l_free s)) + unat (fr_size (l_free s))) mod unat (l_block_count s)"
proof -
  note D = alloc_readyD[OF assms(1)]
  define la where "la = unat (cfg_lookahead_size (l_cfg s))"
  have la: "0 < la" "la < 2 ^ 59" "length (fr_buffer (l_free s)) = la div 8" "unat (l_block_count s) \<le> 64 * (la div 8)"
    using D(5) by (simp_all add: bitmap_fits_def la_def Let_def)
  have "unat (16 * cfg_lookahead_size (l_cfg s)) = 16 * la" using la(2) unfolding la_def by (subst unat_mult_lem[THEN iffD1]) simp_all
  then have sz: "unat (fr_size (next_window s)) = min (16 * la) (unat (fr_ack (l_free s)))" by (simp add: next_window_def lfs_min_unat)
  then show "0 < unat (fr_size (next_window s))" "unat (fr_size (next_window s)) \<le> unat (fr_ack (l_free s))" using la(1) assms(2) by simp_all
  show f: "window_fits (next_window s)" using sz la D(9) by (simp add: window_fits_def next_window_def)
  show "window_ok (next_window s)" using sz by (simp add: window_ok_def next_window_def)
  show "fr_offset (next_window s) < l_block_count s" using D(10) by (simp add: next_window_def word_less_nat_alt unat_mod)
  show "j < unat (fr_size (next_window s)) \<Longrightarrow> \<not> taken (next_window s) j"
  proof -
    assume "j < unat (fr_size (next_window s))"
    then have "j div 64 < length (fr_buffer (l_free s))" using f unfolding window_fits_def by (intro less_mult_imp_div_less) (simp add: next_window_def)
    then show ?thesis by (simp add: taken_def next_window_def)
  qed
  have "unat (fr_offset (l_free s) + fr_size (l_free s)) = unat (fr_offset (l_free s)) + unat (fr_size (l_free s))"
    using D(8,10,11) by (intro unat_add_u64) (simp add: word_less_nat_alt)
  then show "unat (fr_offset (next_window s)) = (unat (fr_offset (l_free s)) + unat (fr_size (l_free s))) mod unat (l_block_count s)"
    by (simp add: next_window_def unat_mod)
qed

lemma rescan_ends:
  assumes "alloc_ready s" "0 < unat (fr_ack (l_free s))"
  shows "\<exists>r s'. alloc_rescan s = (r, s') \<and> answered r \<and> (r = Inr () \<longrightarrow> same_fs s s' \<and> alloc_ready s' \<and>
    same_window (next_window s) (l_free s') \<and>
    (\<forall>j b. j < unat (fr_size (l_free s')) \<longrightarrow> taken (l_free s') j \<longrightarrow>
       unat b = (unat (fr_offset (l_free s')) + j) mod unat (l_block_count s) \<longrightarrow> reported s b))"
proof -
  note D = alloc_readyD[OF assms(1)] and N = next_window_facts[OF assms]
  let ?s = "with_free (next_window s) s" and ?n = "l_block_count s"
  have o: "okay window_fits ?s" using D(1) N(1) by (simp add: okay_def)
  have "open_fits ?s (l_metadata_list ?s)" using D(3) same_fsD(5)[OF same_fs_free[OF D(1)]] by simp
  from rawtraverse_ends[OF lookahead_ends o D(2) this] obtain r c s1 where
    e: "lfs_fs_rawtraverse lfs_alloc_lookahead ?s () True = (r, c, s1)" "ends ?s r s1" by blast
  have R: "alloc_rescan s = (case r of Inl h \<Rightarrow> (Inl h, lfs_alloc_drop s1) | Inr _ \<Rightarrow> (Inr (), s1))"
    unfolding rescan_next_window[OF assms(1)] by (cases r) (simp_all add: e(1))
  have "walks ?s s1" using e(2) by (simp add: ends_def)
  then have same: "same_fs s s1" by (rule same_fs_trans[OF same_fs_free[OF D(1)] walks_same_fs])
  have w: "same_window (next_window s) (l_free s1)" using e(2) by (simp add: ends_def walks_def)
  show ?thesis
  proof (cases r)
    case (Inl h)
    then show ?thesis using R e(2) by (simp add: ends_def)
  next
    case (Inr u)
    then have R: "alloc_rescan s = (Inr (), s1)" using R by simp
    have "alloc_inv s1" by (rule alloc_rescan_marks[OF D(4) R])
    moreover have "bitmap_fits s1" using D(5) w same_fsD(2,3)[OF same] by (simp add: bitmap_fits_def same_window_def next_window_def)
    ultimately have a: "alloc_ready s1" using same_fsD[OF same] D(2,3) by (simp add: alloc_ready_def)
    obtain q used t' where t: "lfs_fs_rawtraverse collect s [] True = (q, used, t')" by (metis prod_cases3)
    obtain fr' where m: "q = Inr ()" "marks ?n (next_window s) used = Inr fr'" "s1 = with_free fr' t'"
      using rawtraverse_marks[OF refl, where fr = "next_window s" and acc = "[]" and s = s and o' = True] Inr
      by (auto simp: marks_run_def t e(1))
    have rep: "reported s b" if j: "j < unat (fr_size (l_free s1))" "taken (l_free s1) j" "unat b = (unat (fr_offset (l_free s1)) + j) mod unat ?n" for j b
    proof -
      have f: "l_free s1 = fr'" "fr_size fr' = fr_size (next_window s)" "fr_offset fr' = fr_offset (next_window s)"
        using m(3) marks_correct[OF m(2)] by simp_all
      then obtain b' where b': "b' \<in> set used" "unat (window_index ?n (next_window s) b') = j"
        using marks_taken[OF m(2)] N(6) j(1,2) by auto
      have "b' = b" if "b' < ?n"
        using window_index_block[OF N(3) that D(11)] b'(2) j(3) f by (simp add: word_eq_nat_alt)
      then show ?thesis
        unfolding reported_def using same_fs_free[OF D(1), of "l_free s"] t m(1) b'(1) by auto
    qed
    then show ?thesis using R same a w by auto
  qed
qed

text \<open>The blocks that are still to be looked at, and those known to be in use.\<close>

definition pending :: "'d lfs \<Rightarrow> lfs_block_t \<Rightarrow> bool" where
  "pending s b \<longleftrightarrow> (\<exists>x. unat (fr_i (l_free s)) \<le> x \<and> x < unat (fr_i (l_free s)) + unat (fr_ack (l_free s)) \<and>
     unat b = (unat (fr_offset (l_free s)) + x) mod unat (l_block_count s))"

definition in_use :: "'d lfs \<Rightarrow> lfs_block_t \<Rightarrow> bool" where
  "in_use s b \<longleftrightarrow> (\<exists>x. unat (fr_i (l_free s)) \<le> x \<and> x < unat (fr_size (l_free s)) \<and> taken (l_free s) x \<and>
     unat b = (unat (fr_offset (l_free s)) + x) mod unat (l_block_count s)) \<or> reported s b"

lemma windows_end:
  assumes "alloc_ready s" "unat (fr_ack (l_free s)) + of_bool (fr_i (l_free s) = fr_size (l_free s)) < fuel"
  shows "\<exists>r s'. alloc_windows fuel s = (r, s') \<and> answered r \<and> (r = Inr None \<longrightarrow> (\<forall>b. pending s b \<longrightarrow> in_use s b))"
  using assms
proof (induction fuel arbitrary: s)
  case (Suc fuel)
  note D = alloc_readyD[OF Suc.prems(1)]
  let ?fr = "l_free s" and ?n = "unat (l_block_count s)"
  have "unat (fr_size ?fr - fr_i ?fr) = unat (fr_size ?fr) - unat (fr_i ?fr)"
    using D(6) by (intro unat_sub_u64) (simp add: window_ok_def)
  note k = this
  from alloc_scan_ends[OF D(7,6) k] obtain res fr where sc: "alloc_scan (unat (fr_size ?fr - fr_i ?fr)) ?fr = (Inr res, fr)" by blast
  note S = alloc_scan_correct[OF D(6) k sc]
  show ?case
  proof (cases res)
    case (Some off)
    then show ?thesis by (simp add: sc)
  next
    case None
    have a: "advanced ?fr fr" and i: "fr_i fr = fr_size ?fr" and tk: "unat (fr_i ?fr) \<le> j \<Longrightarrow> j < unat (fr_size ?fr) \<Longrightarrow> taken ?fr j" for j
      using S None by auto
    have ack: "unat (fr_ack fr) + unat (fr_size ?fr) = unat (fr_ack ?fr) + unat (fr_i ?fr)" "unat (fr_i ?fr) \<le> unat (fr_size ?fr)"
      "fr_size fr = fr_size ?fr" "fr_offset fr = fr_offset ?fr"
      using a i by (simp_all add: advanced_def)
    have head: "in_use s b" if "unat (fr_i ?fr) \<le> x" "x < unat (fr_size ?fr)" "unat b = (unat (fr_offset ?fr) + x) mod ?n" for x b
      using that tk unfolding in_use_def by blast
    let ?s = "with_free fr s"
    note A = alloc_ready_advanced[OF Suc.prems(1) a]
    show ?thesis
    proof (cases "fr_ack fr = 0")
      case True
      then have "unat (fr_size ?fr) = unat (fr_ack ?fr) + unat (fr_i ?fr)" using ack(1) by simp
      then have "in_use s b" if "pending s b" for b using that head unfolding pending_def by (metis add.commute)
      then show ?thesis using True None by (simp add: sc)
    next
      case False
      then have pos: "0 < unat (fr_ack (l_free ?s))" by (simp add: unat_gt_0)
      from rescan_ends[OF A pos] obtain r s1 where s1: "alloc_rescan ?s = (r, s1)" "answered r" "r = Inr () \<longrightarrow> same_fs ?s s1 \<and> alloc_ready s1 \<and>
          same_window (next_window ?s) (l_free s1) \<and>
          (\<forall>j b. j < unat (fr_size (l_free s1)) \<longrightarrow> taken (l_free s1) j \<longrightarrow>
             unat b = (unat (fr_offset (l_free s1)) + j) mod unat (l_block_count ?s) \<longrightarrow> reported ?s b)" by blast
      have W: "alloc_windows (Suc fuel) s = (case r of Inl h \<Rightarrow> (Inl h, s1) | Inr _ \<Rightarrow> alloc_windows fuel s1)"
        unfolding alloc_windows.simps sc prod.case sum.case None option.case if_not_P[OF False] s1(1)[unfolded with_free_def] ..
      show ?thesis
      proof (cases r)
        case (Inl h)
        then show ?thesis using W s1(2) by (simp add: answered_def)
      next
        case (Inr u)
        then have ok: "r = Inr ()" by simp
        note S1 = s1(3)[THEN mp, OF ok] and N = next_window_facts[OF A pos]
        have f: "fr_size (l_free s1) = fr_size (next_window ?s)" "fr_i (l_free s1) = 0" "fr_ack (l_free s1) = fr_ack fr"
          "fr_offset (l_free s1) = fr_offset (next_window ?s)"
          using S1 same_windowD[of "next_window ?s" "l_free s1"] by (simp_all add: next_window_def)
        have same: "same_fs s s1" using S1 same_fs_trans[OF same_fs_free[OF D(1)]] by blast
        note n1 = same_fsD(2)[OF same]
        have off: "unat (fr_offset (l_free s1)) = (unat (fr_offset ?fr) + unat (fr_size ?fr)) mod ?n" using N(7) f(4) ack(3,4) by simp
        have "fr_i (l_free s1) \<noteq> fr_size (l_free s1)" using N(4) f by auto
        then have "unat (fr_ack (l_free s1)) + of_bool (fr_i (l_free s1) = fr_size (l_free s1)) < fuel"
          using Suc.prems(2) ack(1,2) f(3) by (cases "fr_i ?fr = fr_size ?fr") (auto simp: word_eq_nat_alt)
        from Suc.IH[OF _ this] obtain r' s' where r': "alloc_windows fuel s1 = (r', s')" "answered r'"
          "r' = Inr None \<Longrightarrow> pending s1 b \<Longrightarrow> in_use s1 b" for b using S1 by blast
        have "in_use s b" if none: "r' = Inr None" and pend: "pending s b" for b
        proof -
          obtain x where x: "unat (fr_i ?fr) \<le> x" "x < unat (fr_i ?fr) + unat (fr_ack ?fr)" "unat b = (unat (fr_offset ?fr) + x) mod ?n"
            using pend unfolding pending_def by blast
          show ?thesis
          proof (cases "x < unat (fr_size ?fr)")
            case True
            then show ?thesis using head x by blast
          next
            case False
            define y where "y = x - unat (fr_size ?fr)"
            have "unat b = (unat (fr_offset (l_free s1)) + y) mod ?n"
              using x(3) False unfolding off y_def mod_add_left_eq by simp
            moreover have "y < unat (fr_ack (l_free s1))" using x(2) False ack(1) f(3) by (simp add: y_def)
            ultimately have "in_use s1 b" using r'(3)[OF none, of b] unfolding pending_def f(2) n1 by auto
            then consider j where "j < unat (fr_size (l_free s1))" "taken (l_free s1) j" "unat b = (unat (fr_offset (l_free s1)) + j) mod ?n"
              | "reported s1 b" unfolding in_use_def n1 by blast
            then have "reported s b"
            proof cases
              case 1
              then have "reported ?s b" using S1 by auto
              then show ?thesis by (rule reported_trans[OF same_fs_free[OF D(1)]])
            next
              case 2
              then show ?thesis by (rule reported_trans[OF same])
            qed
            then show ?thesis by (simp add: in_use_def)
          qed
        qed
        then show ?thesis using W ok r'(1,2) by auto
      qed
    qed
  qed
qed simp

text \<open>After an acknowledgement every block is to be looked at.\<close>

lemma pending_all:
  assumes "fr_ack (l_free s) = l_block_count s" "b < l_block_count s"
  shows "pending s b"
proof -
  define n where "n = unat (l_block_count s)"
  define a where "a = unat (fr_offset (l_free s)) + unat (fr_i (l_free s))"
  define y where "y = (unat b + (n - a mod n)) mod n"
  have n: "unat b < n" "0 < n" using assms(2) by (simp_all add: n_def word_less_nat_alt)
  have "(a + y) mod n = (a mod n + (unat b + (n - a mod n))) mod n" by (simp add: y_def mod_simps)
  also have "a mod n + (unat b + (n - a mod n)) = unat b + n" using n(2) mod_less_divisor[of n a] by linarith
  finally have "unat b = (a + y) mod n" using n(1) by simp
  moreover have "y < n" using n(2) by (simp add: y_def)
  ultimately show ?thesis
    unfolding pending_def assms(1) n_def [symmetric] by (intro exI[of _ "unat (fr_i (l_free s)) + y"]) (simp add: a_def add.assoc)
qed

lemma alloc_ends:
  assumes "alloc_ready s"
  shows "\<exists>r s'. lfs_alloc None s = (r, s') \<and> (answered r \<or> r = Inl (Err LFS_ERR_NOSPC) \<and> (\<forall>b. pending s b \<longrightarrow> in_use s b))"
proof -
  have "unat (fr_ack (l_free s)) + of_bool (fr_i (l_free s) = fr_size (l_free s)) < windows_fuel s"
    by (cases "fr_i (l_free s) = fr_size (l_free s)") (simp_all add: windows_fuel_def)
  from windows_end[OF assms this] obtain r s' where
    W: "alloc_windows (windows_fuel s) s = (r, s')" "answered r" "r = Inr None \<longrightarrow> (\<forall>b. pending s b \<longrightarrow> in_use s b)" by blast
  then have "lfs_alloc None s = (case r of Inl h \<Rightarrow> (Inl h, s') | Inr None \<Rightarrow> (Inl (Err LFS_ERR_NOSPC), s') | Inr (Some b) \<Rightarrow> (Inr b, s'))"
    unfolding lfs_alloc_def alloc_attempts.simps by (simp split: sum.split option.split)
  then show ?thesis using W(2,3) by (cases r) (auto simp: answered_def split: option.splits)
qed

end

end
