(* ===== verification/EndsProperties.thy ===== *)
theory EndsProperties
  imports AllocatorEnds FetchProperties
begin

text \<open>
  What ends, and with which answers, on a memory device that may hold anything.
\<close>

subsection \<open>A file system without files\<close>

text \<open>One commit with nothing but its checksum, and a device whose first block holds it.\<close>

definition empty_block :: "u8 list" where
  "empty_block = [1, 0, 0, 0, 175, 240, 3, 251, 220, 34, 249, 247] @ replicate 28 255"

definition empty_found :: found_commit where
  "empty_found = (12, 0x500ffc04, 0, (LFS_BLOCK_NULL, LFS_BLOCK_NULL), False)"

definition empty_memory :: memory_device where
  "empty_memory = \<lparr>md_block_size = 40, md_block_count = 4, md_storage = empty_block @ replicate 120 0\<rparr>"

definition empty_state :: "memory_device lfs" where
  "empty_state = (sample memory_ops empty_memory)\<lparr>l_block_size := 40, l_erase_size := 40\<rparr>"

definition empty_scan :: log_scan where
  "empty_scan = \<lparr>ls_offset = 12, ls_tag = 0x500ffc04, ls_crc = 0xffffffff, ls_count = 0,
     ls_tail = (LFS_BLOCK_NULL, LFS_BLOCK_NULL), ls_split = False, ls_found = Some empty_found\<rparr>"

lemma empty_log: "log_result empty_block (Some empty_found)"
proof -
  have "tag_fits empty_block (scan_start empty_block)" "lfs_tag_type1 (next_tag empty_block (scan_start empty_block)) = LFS_TYPE_CRC"
    "ls_offset (scan_start empty_block) + 8 \<le> length empty_block"
    "lfs_crc (ls_crc (scan_start empty_block)) (bytes_at empty_block (ls_offset (scan_start empty_block)) 4) =
       le_word (bytes_at empty_block (ls_offset (scan_start empty_block) + 4) 4)"
    "after_commit empty_block (scan_start empty_block) = empty_scan"
    by code_simp+
  then have "LogScan.scans empty_block (scan_start empty_block) empty_scan"
    using scans.commit[of empty_block "scan_start empty_block"] by simp
  moreover have "\<not> LogScan.scans empty_block empty_scan st'" for st'
  proof -
    have "\<not> tag_fits empty_block empty_scan" by code_simp
    then show ?thesis by (auto elim: scansE)
  qed
  moreover have "ls_found empty_scan = Some empty_found" by (simp add: empty_scan_def)
  ultimately show ?thesis unfolding log_result_def by blast
qed

lemma empty_state:
  "runs_on empty_state memory_ops" "geometry empty_state 40 4"
  "memory_inv (l_block_size empty_state) (l_block_count empty_state) (l_dev empty_state)"
  "cache_holds empty_state (l_read_cache empty_state) (memory_content (l_dev empty_state))"
  "2 * 40 + unat (cfg_read_size (l_cfg empty_state)) \<le> 2 ^ 64" "l_dev empty_state = empty_memory"
  "l_block_count empty_state = 4" "l_block_size empty_state = 40" "l_metadata_list empty_state = []" "alloc_inv empty_state" "bitmap_fits empty_state"
  "fr_ack (l_free empty_state) = l_block_count empty_state" "fr_size (l_free empty_state) = 0"
  by (simp_all add: empty_state_def runs_on_def geometry_def sample_def sample_config_def cache_holds_def sample_cache_def
      memory_inv_def empty_memory_def empty_block_def alloc_inv_def window_ok_def bitmap_fits_def)

lemma empty_content: "memory_content empty_memory 0 = empty_block" "memory_content empty_memory 1 = replicate 40 0"
  by (simp_all add: memory_content_def empty_memory_def empty_block_def)

lemma empty_newest: "newest_first (memory_content empty_memory) (0, 1) = (0, 1)"
proof -
  have "revision empty_block = 1" "revision (replicate 40 0) = 0" by code_simp+
  then show ?thesis by (simp add: newest_first_def empty_content lfs_scmp_def del: One_nat_def)
qed

text \<open>However its caches and its allocator stand, a scan of this file system reports the blocks 0 and 1.\<close>

lemma empty_traverse:
  assumes "mem.same_fs (l_block_size empty_state) (l_block_count empty_state) empty_state t"
  shows "\<exists>t'. lfs_fs_rawtraverse collect t [] True = (Inr (), [0, 1], t')"
proof -
  have rd: "mem.ready (l_block_size empty_state) (l_block_count empty_state) t" and c: "memory_content (l_dev t) = memory_content empty_memory"
    and n: "l_block_count t = 4" "l_metadata_list t = []"
    using assms unfolding mem.same_fs_def by (auto simp: empty_state)
  let ?dir = "mdir_zero\<lparr>m_tail := (0, 1)\<rparr>"
  have "unat (fst (0, 1)) < unat (l_block_count empty_state)" "unat (snd (0, 1)) < unat (l_block_count empty_state)" "4 \<le> unat (l_block_size empty_state)"
    by (simp_all add: empty_state)
  from mem.dir_fetch_result[OF rd this, of ?dir] obtain r dir' t1 res where
    F: "lfs_dir_fetch t ?dir (0, 1) = (r, dir', t1)" "mem.keeps_log (l_block_size empty_state) (l_block_count empty_state) t t1"
      "pair_result (memory_content empty_memory) (0, 1) res"
      "case res of None \<Rightarrow> r = Inl (Err LFS_ERR_CORRUPT) | Some (p, c) \<Rightarrow> r = fetch_code c \<and> dir_of (memory_content empty_memory) p c dir'"
    unfolding c empty_newest by blast
  have "res = Some ((0, 1), empty_found)"
    by (rule pair_result_first[OF _ F(3)]) (simp add: empty_content empty_log)
  then have d: "r = Inr 0" "m_count dir' = 0" "m_tail dir' = (LFS_BLOCK_NULL, LFS_BLOCK_NULL)"
    using F(4) by (simp_all add: empty_found_def fetch_code_def dir_of_def dir_found_def)
  have two: "unat (l_block_count t div 2) = Suc 1" by (simp add: n)
  have null: "lfs_pair_isnull (m_tail dir')" "\<not> lfs_pair_isnull (0, 1)" using d(3) by simp_all
  have "l_metadata_list t1 = []" using F(2) n(2) unfolding mem.keeps_log_def by auto
  then have "lfs_fs_rawtraverse collect t [] True = (Inr (), [0, 1], t1)"
    unfolding lfs_fs_rawtraverse_def two
    by (subst rawtraverse_dirs.simps) (simp add: null collect_def F(1) d(1,2) rawtraverse_dirs.simps[of "Suc 0"])
  then show ?thesis by blast
qed

subsection \<open>Properties\<close>

text \<open>C8: following the disk comes to an end. Whatever the device holds, cycles in the list of directories, logs and
  skip lists without meaning, the traversal of all blocks, counting them and looking for the predecessor of a
  directory return: with an answer, \<open>LFS_ERR_CORRUPT\<close> or \<open>LFS_ERR_NOENT\<close>. No loop runs out of its bound, no
  assertion is violated, no buffer is overrun, and the device keeps what it holds.\<close>

theorem lfs_fs_traverse_ends:
  assumes "runs_on s memory_ops" "geometry s bs bc" "memory_inv (l_block_size s) (l_block_count s) (l_dev s)"
    and "cache_holds s (l_read_cache s) (memory_content (l_dev s))" "2 * bs + unat (cfg_read_size (l_cfg s)) \<le> 2 ^ 64"
    and "4 \<le> bs" "\<forall>p f. (p, File f) \<in> set (l_metadata_list s) \<longrightarrow> pending_fits s (Some (f_cache f))"
  shows "\<exists>r used s1 q s2 p pdir s3.
    lfs_fs_rawtraverse collect s [] orphans = (r, used, s1) \<and> answered r \<and> memory_content (l_dev s1) = memory_content (l_dev s) \<and>
    lfs_fs_rawsize s = (q, s2) \<and> answered q \<and> memory_content (l_dev s2) = memory_content (l_dev s) \<and>
    lfs_fs_pred s pair dir = (p, pdir, s3) \<and> answered p \<and> memory_content (l_dev s3) = memory_content (l_dev s)"
proof -
  note rd = mem_ready(1)[OF assms(1-5)]
  have b: "4 \<le> unat (l_block_size s)" using mem_ready(2)[OF assms(1-5)] assms(6) by simp
  have o: "mem.open_fits s (l_metadata_list s)" using assms(7) by (auto simp: mem.open_fits_def)
  have okay: "mem.okay (l_block_size s) (l_block_count s) (\<lambda>_. True) s" using rd by (simp add: mem.okay_def)
  have coll: "mem.block_ends (l_block_size s) (l_block_count s) (\<lambda>_. True) collect"
    using mem.walks_refl by (auto simp: mem.block_ends_def mem.okay_def collect_def mem.ends_def)
  have w: "mem.walks (l_block_size s) (l_block_count s) s s' \<Longrightarrow> memory_content (l_dev s') = memory_content (l_dev s)" for s'
    by (auto simp: mem.walks_def)
  from mem.rawtraverse_ends[OF coll okay b o, of "[]" orphans] mem.rawsize_ends[OF rd b o] mem.pred_ends[OF rd b]
  show ?thesis unfolding mem.ends_def lfs_fs_pred_def using w by meson
qed

theorem lfs_fs_traverse_ends_witness:
  "\<exists>r used s1. lfs_fs_rawtraverse collect torn_state [] True = (r, used, s1) \<and> answered r"
proof -
  have "\<forall>p f. (p, File f) \<in> set (l_metadata_list torn_state) \<longrightarrow> pending_fits torn_state (Some (f_cache f))"
    by (simp add: torn_state_def sample_def)
  from lfs_fs_traverse_ends[OF torn_state(1-5) _ this, where orphans = True] show ?thesis by fastforce
qed



end
