(* ===== verification/PathProperties.thy ===== *)
theory PathProperties
  imports Fetch
begin

text \<open>
  The names that \<open>lfs_dir_find\<close> looks up for a path, against the usual meaning of a path: its components
  from left to right, where \<open>.\<close> stays and \<open>..\<close> goes one up. The code never goes up. It looks ahead
  whether a later \<open>..\<close> takes a name back, and then skips both.
\<close>

subsection \<open>Paths as lists of names\<close>

abbreviation (input) dot :: "u8 list" where "dot \<equiv> [0x2e]"
abbreviation (input) dotdot :: "u8 list" where "dotdot \<equiv> [0x2e, 0x2e]"

function components :: "u8 list \<Rightarrow> u8 list list" where
  "components path =
     (let p = skip_slashes path; c = name_component p in if c = [] then [] else c # components (name_rest p))"
  by pat_completeness auto

termination
  by (relation "measure length") (auto simp: length_next_component)

declare components.simps [simp del]

text \<open>The usual meaning: a stack of names, the innermost first.\<close>

fun resolve :: "u8 list list \<Rightarrow> u8 list list \<Rightarrow> u8 list list" where
  "resolve stack [] = rev stack"
| "resolve stack (c # cs) =
     (if c = dot then resolve stack cs else if c = dotdot then resolve (tl stack) cs else resolve (c # stack) cs)"

text \<open>The names the code looks up, one after the other.\<close>

lemma length_next_name: "length (next_name name) \<le> length name"
proof (induction name rule: next_name.induct)
  case (1 name)
  define n where "n = skip_slashes name"
  have n: "length n \<le> length name" by (simp add: n_def length_skip_slashes)
  have r: "length (name_rest n) \<le> length name"
    using n length_dropWhile_le[of _ n] unfolding name_rest_def by (rule order_trans[rotated])
  show ?case
  proof (cases "name_component n = dot \<or> name_component n = dotdot")
    case True
    then have "length (next_name (name_rest n)) \<le> length (name_rest n)" using "1.IH"(1)[OF n_def refl] by blast
    then show ?thesis using True r by (subst next_name.simps) (simp add: n_def [symmetric] Let_def)
  next
    case False
    show ?thesis
    proof (cases "dotdot_suffix 1 (name_rest n)")
      case None
      then show ?thesis using False n by (subst next_name.simps) (simp add: n_def [symmetric] Let_def)
    next
      case (Some rest)
      have "length (next_name rest) \<le> length rest" using "1.IH"(2)[OF n_def refl False Some] .
      moreover have "length rest < length (name_rest n)" using length_dotdot_suffix[OF Some] .
      ultimately show ?thesis using False Some r by (subst next_name.simps) (simp add: n_def [symmetric] Let_def)
    qed
  qed
qed

lemma skip_slashes_component: "name_component (skip_slashes path) = [] \<longleftrightarrow> skip_slashes path = []"
proof (cases "skip_slashes path")
  case (Cons a rest)
  then have "a \<noteq> 0x2f" by (simp add: skip_slashes_def dropWhile_eq_Cons_conv)
  then show ?thesis by (simp add: Cons name_component_def)
qed (simp add: name_component_def)

lemma next_name_component: "next_name name = [] \<or> name_component (next_name name) \<noteq> []"
proof (induction name rule: next_name.induct)
  case (1 name)
  define n where "n = skip_slashes name"
  have "n = [] \<or> name_component n \<noteq> []" by (simp add: n_def skip_slashes_component)
  then show ?case
    using "1.IH"(1)[OF n_def refl] "1.IH"(2)[OF n_def refl] by (subst (1 2) next_name.simps) (auto simp: n_def [symmetric] Let_def split: option.split)
qed

function lookups :: "u8 list \<Rightarrow> u8 list list" where
  "lookups path = (let name = next_name path in if name = [] then [] else name_component name # lookups (name_rest name))"
  by pat_completeness auto

termination
proof (relation "measure length", goal_cases)
  case (2 path name)
  then have "length (name_rest name) < length name" using next_name_component[of path] by (intro length_name_rest) auto
  then show ?case using 2 length_next_name[of path] by simp
qed simp

declare lookups.simps [simp del]

subsection \<open>The same on lists of names\<close>

fun cancel :: "int \<Rightarrow> u8 list list \<Rightarrow> u8 list list option" where
  "cancel d [] = None"
| "cancel d (c # cs) = (if c = dotdot then if d - 1 = 0 then Some cs else cancel (d - 1) cs else cancel (d + 1) cs)"

lemma length_cancel: "cancel d cs = Some rest \<Longrightarrow> length rest < length cs"
  by (induction d cs rule: cancel.induct) (auto split: if_splits)

lemma set_cancel: "cancel d cs = Some rest \<Longrightarrow> set rest \<subseteq> set cs"
  by (induction d cs rule: cancel.induct) (auto split: if_splits)

function next_names :: "u8 list list \<Rightarrow> u8 list list" where
  "next_names [] = []"
| "next_names (c # cs) =
     (if c = dot \<or> c = dotdot then next_names cs
      else case cancel 1 cs of Some rest \<Rightarrow> next_names rest | None \<Rightarrow> c # cs)"
  by pat_completeness auto

termination
  by (relation "measure length") (auto dest: length_cancel)

lemma components_cases:
  "name_component (skip_slashes path) = [] \<Longrightarrow> components path = []"
  "name_component (skip_slashes path) \<noteq> [] \<Longrightarrow> components path = name_component (skip_slashes path) # components (name_rest (skip_slashes path))"
  by (simp_all add: components.simps[of path] Let_def)

lemma dotdot_suffix_cancel: "map_option components (dotdot_suffix d suffix) = cancel d (components suffix)"
proof (induction d suffix rule: dotdot_suffix.induct)
  case (1 d suffix)
  define t where "t = skip_slashes suffix"
  show ?case
  proof (cases "name_component t = []")
    case True
    then show ?thesis by (subst dotdot_suffix.simps) (simp add: t_def components_cases(1) Let_def)
  next
    case False
    have "map_option components (dotdot_suffix (d - 1) (name_rest t)) = cancel (d - 1) (components (name_rest t))"
      if "name_component t = dotdot" "d - 1 \<noteq> 0" using "1.IH"(1)[OF t_def refl False that] .
    moreover have "map_option components (dotdot_suffix (d + 1) (name_rest t)) = cancel (d + 1) (components (name_rest t))"
      if "name_component t \<noteq> dotdot" using "1.IH"(2)[OF t_def refl False that] .
    ultimately show ?thesis
      using False components_cases(2)[of suffix]
      by (subst dotdot_suffix.simps) (simp add: t_def [symmetric] Let_def)
  qed
qed

lemma components_skip: "components (skip_slashes path) = components path"
proof -
  have "skip_slashes (skip_slashes path) = skip_slashes path" by (simp add: skip_slashes_def)
  then show ?thesis by (simp add: components.simps[of path] components.simps[of "skip_slashes path"])
qed

lemma next_name_names: "components (next_name path) = next_names (components path)"
proof (induction path rule: next_name.induct)
  case (1 path)
  define n where "n = skip_slashes path"
  show ?case
  proof (cases "name_component n = []")
    case True
    then have "n = []" by (simp add: n_def skip_slashes_component)
    moreover have "dotdot_suffix 1 (name_rest []) = None"
      by (subst dotdot_suffix.simps) (simp add: name_rest_def skip_slashes_def name_component_def)
    ultimately have "next_name path = []" by (subst next_name.simps) (simp add: n_def [symmetric] Let_def name_component_def)
    moreover have "components [] = []" by (subst components.simps) (simp add: skip_slashes_def name_component_def)
    ultimately show ?thesis using True by (simp add: n_def components_cases(1))
  next
    case False
    have c: "components path = name_component n # components (name_rest n)" using False unfolding n_def by (rule components_cases(2))
    show ?thesis
    proof (cases "name_component n = dot \<or> name_component n = dotdot")
      case True
      then have "components (next_name (name_rest n)) = next_names (components (name_rest n))" using "1.IH"(1)[OF n_def refl] by blast
      then show ?thesis using True unfolding c by (subst next_name.simps) (auto simp: n_def [symmetric] Let_def)
    next
      case nodot: False
      show ?thesis
      proof (cases "dotdot_suffix 1 (name_rest n)")
        case None
        then have "cancel 1 (components (name_rest n)) = None" using dotdot_suffix_cancel[of 1 "name_rest n"] by simp
        moreover have "components n = components path" unfolding n_def by (rule components_skip)
        ultimately show ?thesis using nodot None c by (subst next_name.simps) (simp add: n_def [symmetric] Let_def)
      next
        case (Some rest)
        then have "cancel 1 (components (name_rest n)) = Some (components rest)" using dotdot_suffix_cancel[of 1 "name_rest n"] by simp
        moreover have "components (next_name rest) = next_names (components rest)" using "1.IH"(2)[OF n_def refl nodot Some] .
        ultimately show ?thesis using nodot Some unfolding c by (subst next_name.simps) (simp add: n_def [symmetric] Let_def)
      qed
    qed
  qed
qed

lemma cancel_found:
  assumes "dot \<notin> set cs" "cancel (int (length xs)) cs = Some rest" "xs \<noteq> []"
  shows "resolve (xs @ stack) cs = resolve stack rest"
  using assms
proof (induction cs arbitrary: xs)
  case (Cons c cs)
  obtain x ys where xs: "xs = x # ys" using Cons.prems(3) by (cases xs) auto
  show ?case
  proof (cases "c = dotdot")
    case True
    then show ?thesis using Cons.prems Cons.IH[of ys] by (cases ys) (auto simp: xs)
  next
    case False
    then show ?thesis using Cons.prems Cons.IH[of "c # xs"] by (auto simp: add.commute)
  qed
qed simp

lemma cancel_none:
  assumes "dot \<notin> set cs" "cancel (int (Suc (length xs))) cs = None"
  shows "resolve (xs @ c # stack) cs = rev (c # stack) @ resolve xs cs"
  using assms
proof (induction cs arbitrary: xs)
  case (Cons d cs)
  show ?case
  proof (cases "d = dotdot")
    case True
    then show ?thesis using Cons.prems Cons.IH[of "tl xs"] by (cases xs) (auto simp: add.commute)
  next
    case False
    then show ?thesis using Cons.prems Cons.IH[of "d # xs"] by (auto simp: add.commute)
  qed
qed simp

lemma next_names_resolve:
  assumes "dot \<notin> set cs"
  shows "case next_names cs of [] \<Rightarrow> resolve [] cs = [] | c # rest \<Rightarrow> resolve [] cs = c # resolve [] rest \<and> set rest \<subseteq> set cs \<and> length rest < length cs"
  using assms
proof (induction cs rule: next_names.induct)
  case (2 c cs)
  show ?case
  proof (cases "c = dotdot")
    case True
    then show ?thesis using 2 by (auto split: list.splits)
  next
    case False
    show ?thesis
    proof (cases "cancel 1 cs")
      case None
      then show ?thesis using False "2.prems" cancel_none[of cs "[]" c "[]"] by (auto simp: None)
    next
      case (Some rest)
      have "set rest \<subseteq> set cs" by (rule set_cancel[OF Some])
      then have nd: "dot \<notin> set rest" "c \<noteq> dot" using "2.prems" by auto
      have "next_names (c # cs) = next_names rest" "resolve [] (c # cs) = resolve [] rest"
        using False Some nd(2) "2.prems" cancel_found[of cs "[c]" rest "[]"] by simp_all
      then show ?thesis
        using "2.IH"(2)[OF _ Some nd(1)] False nd(2) length_cancel[OF Some] \<open>set rest \<subseteq> set cs\<close>
        by (cases "next_names rest") auto
    qed
  qed
qed simp

lemma lookups_names: "dot \<notin> set (components path) \<Longrightarrow> lookups path = resolve [] (components path)"
proof (induction path rule: lookups.induct)
  case (1 path)
  define n where "n = next_name path"
  have N: "components n = next_names (components path)" by (simp add: n_def next_name_names)
  note R = next_names_resolve[OF "1.prems"]
  show ?case
  proof (cases "n = []")
    case True
    have "components [] = []" by (subst components.simps) (simp add: skip_slashes_def name_component_def)
    then have "next_names (components path) = []" using True N by simp
    then show ?thesis using R True by (subst lookups.simps) (simp add: n_def [symmetric] Let_def)
  next
    case False
    then have ne: "name_component n \<noteq> []" using next_name_component[of path] by (simp add: n_def)
    then have "hd n \<noteq> 0x2f" "n \<noteq> []" by (cases n; auto simp: name_component_def)+
    then have "skip_slashes n = n" by (cases n) (simp_all add: skip_slashes_def)
    then have c: "next_names (components path) = name_component n # components (name_rest n)"
      using components_cases(2)[of n] ne N by simp
    then have r: "resolve [] (components path) = name_component n # resolve [] (components (name_rest n))"
      "dot \<notin> set (components (name_rest n))" using R "1.prems" by auto
    have "lookups (name_rest n) = resolve [] (components (name_rest n))" using "1.IH"[OF n_def False r(2)] .
    then show ?thesis using False r(1) by (subst lookups.simps) (simp add: n_def [symmetric] Let_def)
  qed
qed

subsection \<open>Properties\<close>

text \<open>C14: paths mean what they should. The names that \<open>lfs_dir_find\<close> looks up for a path are, in order, the
  components that are left when its components are read from left to right and every \<open>..\<close> takes the name before it
  back, or nothing at the root: the look-ahead for a later \<open>..\<close> gives the same names as going up would.
  Slashes may be doubled, and stand at the beginning and the end. The path has no component \<open>.\<close>, which the
  look-ahead counts as a name.\<close>

theorem lfs_dir_find_names:
  assumes "[0x2e] \<notin> set (components path)"
  shows "lookups path = resolve [] (components path)"
  using assms by (rule lookups_names)

text \<open>The path \<open>/a//../b/c/\<close>.\<close>

definition sample_path :: "u8 list" where
  "sample_path = [47, 97, 47, 47, 46, 46, 47, 98, 47, 99, 47]"

lemma sample_components: "components sample_path = [[97], [46, 46], [98], [99]]"
  by (simp add: sample_path_def components.simps skip_slashes_def name_component_def name_rest_def Let_def)

theorem lfs_dir_find_names_witness: "lookups sample_path = [[98], [99]]"
proof -
  have "[0x2e] \<notin> set (components sample_path)" unfolding sample_components by simp
  then show ?thesis unfolding lfs_dir_find_names[OF \<open>_\<close>] sample_components by simp
qed


end
