(* ===== verification/VfsTypes.thy ===== *)
theory VfsTypes
  imports VfsProperties
begin

text \<open>
  The page table of a file object keeps its shape through every operation, whether it succeeds or not:
  every step that works on an object is \<open>well_paged\<close>, and the combinators put such steps together.
\<close>

subsection \<open>Steps\<close>

definition well_paged :: "'a result \<times> VFSFileObject \<times> 'd vfs \<Rightarrow> bool" where
  "well_paged m \<longleftrightarrow> pages_wf (fst (snd m))"

named_theorems paged \<open>steps that keep the page table in shape\<close>

lemma well_paged_pair [simp]: "well_paged (r, f, s) = pages_wf f"
  by (simp add: well_paged_def)

lemma well_paged_beside [paged]: "pages_wf f \<Longrightarrow> well_paged (beside f m)"
  by (cases m) (simp add: beside_def)

lemma well_paged_andthen [paged]:
  assumes "well_paged m" "\<And>x f s. pages_wf f \<Longrightarrow> well_paged (k x (f, s))"
  shows "well_paged (andthen m k)"
proof -
  obtain r f s where m: "m = (r, f, s)" by (metis prod_cases3)
  then show ?thesis using assms by (cases r) simp_all
qed

lemma well_paged_attempt [paged]:
  assumes "well_paged m" "\<And>x f s. pages_wf f \<Longrightarrow> well_paged (k x (f, s))"
  shows "well_paged (attempt m k)"
proof -
  obtain r f s where m: "m = (r, f, s)" by (metis prod_cases3)
  then show ?thesis using assms by (cases r) (auto simp: attempt_def split: halt.split)
qed

lemma well_paged_guard [paged]:
  assumes "\<And>s. well_paged (body (f, s))"
  shows "well_paged (file_guard body (f, s))"
proof -
  obtain r f' s' where e: "body (f, mutex_lock s) = (r, f', s')" by (metis prod_cases3)
  then show ?thesis using assms[of "mutex_lock s"] by (simp add: file_guard_def)
qed

lemma well_paged_if [paged]: "(c \<Longrightarrow> well_paged a) \<Longrightarrow> (\<not> c \<Longrightarrow> well_paged b) \<Longrightarrow> well_paged (if c then a else b)"
  by simp

lemma well_paged_result [paged]:
  "(\<And>h. x = Inl h \<Longrightarrow> well_paged (a h)) \<Longrightarrow> (\<And>y. x = Inr y \<Longrightarrow> well_paged (b y)) \<Longrightarrow> well_paged (case x of Inl h \<Rightarrow> a h | Inr y \<Rightarrow> b y)"
  by (cases x) simp_all

subsection \<open>The operations of a file object\<close>

lemma init_file_state_paged [paged]: "pages_wf f \<Longrightarrow> well_paged (init_file_state (f, s))"
  unfolding init_file_state_def by (auto intro!: paged)

lemma load_page_paged [paged]:
  fixes s :: "'d vfs"
  assumes "pages_wf f"
  shows "well_paged (load_page ops i (f, s))"
proof -
  have "well_paged (case seek_and_read ops f s pos buf of (r, bytes, s) \<Rightarrow> attempt (r, f, s) (\<lambda>_ (f, s). (mem_put data 0 bytes, f, s)))"
    if "pages_wf f" for f :: VFSFileObject and s :: "'d vfs" and pos buf data
    using that by (auto split: prod.split intro!: well_paged_attempt)
  then show ?thesis using assms unfolding load_page_def Let_def by (auto intro!: paged)
qed

lemma load_page_if_needed_paged [paged]:
  assumes "pages_wf f"
  shows "well_paged (load_page_if_needed ops i (f, s))"
proof -
  define g where "g = set_page i (page_at f i) f"
  have g: "pages_wf g" using assms pages_wf_page_at[OF assms, of i] by (simp add: g_def pages_wf_set_page)
  obtain r f' s' where e: "load_page ops i (g, s) = (r, f', s')" by (metis prod_cases3)
  have "pages_wf f'" using load_page_paged[OF g, of ops i s] by (simp add: e)
  moreover have "length data = 4096" if "r = Inr data" for data using load_page_ok(2) e that by blast
  ultimately have "well_paged (andthen (load_page ops i (g, s)) (\<lambda>data (f, s). (Inr (), set_page i ((page_at f i)\<lparr>pg_data := data\<rparr>) f, s)))"
    unfolding e by (cases r) (auto intro!: pages_wf_set_page)
  then show ?thesis using g by (simp add: load_page_if_needed_def g_def Let_def)
qed

lemma clean_page_wf: "pages_wf f \<Longrightarrow> pages_wf (set_page i ((page_at f i)\<lparr>pg_dirty := False\<rparr>) f)"
  by (rule pages_wf_set_page) (simp_all add: pages_wf_page_at(1))

lemma flush_page_paged [paged]: "pages_wf f \<Longrightarrow> well_paged (flush_page ops i (f, s))"
  unfolding flush_page_def Let_def by (auto intro!: paged clean_page_wf)

lemma flush_pages_paged [paged]: "pages_wf f \<Longrightarrow> well_paged (flush_pages ops is (f, s))"
  by (induction "is" arbitrary: f s) (auto intro!: paged)

lemma flush_internal_paged [paged]: "pages_wf f \<Longrightarrow> well_paged (flush_internal ops (f, s))"
  unfolding flush_internal_def by (auto intro!: paged)

lemma close_paged [paged]: "pages_wf f \<Longrightarrow> well_paged (VFSFileObject_close ops (f, s))"
  unfolding VFSFileObject_close_def by (auto intro!: paged)

lemma flush_paged [paged]: "pages_wf f \<Longrightarrow> well_paged (VFSFileObject_flush ops (f, s))"
  unfolding VFSFileObject_flush_def by (auto intro!: paged)

lemma cut_pages_wf: "pages_wf f \<Longrightarrow> pages_wf (f\<lparr>vf_file_size := x, vf_pos := y, vf_pages := filter P (vf_pages f)\<rparr>)"
  by (auto simp: pages_wf_def distinct_map_filter)

lemma truncate_paged [paged]: "pages_wf f \<Longrightarrow> well_paged (VFSFileObject_truncate ops sz (f, s))"
  unfolding VFSFileObject_truncate_def Let_def by (auto intro!: paged cut_pages_wf)

lemma seek_paged [paged]: "pages_wf f \<Longrightarrow> well_paged (VFSFileObject_seek off type (f, s))"
  unfolding VFSFileObject_seek_def by (auto intro!: paged)

lemma read_paged [paged]: "pages_wf f \<Longrightarrow> well_paged (VFSFileObject_read ops data (f, s))"
  unfolding VFSFileObject_read_def Let_def by (auto intro!: well_paged_guard simp del: read_loop.simps split: prod.split sum.split)

lemma write_loop_paged [paged]: "pages_wf f \<Longrightarrow> well_paged (write_loop fuel ops src k (f, s))"
proof (induction fuel arbitrary: k f s)
  case (Suc fuel)
  define chunk where "chunk = min (of_nat (length src) - k) (4096 - (vf_pos f + k) mod 4096)"
  let ?i = "(vf_pos f + k) div 4096" and ?m = "(vf_pos f + k) mod 4096" and ?bs = "take (unat chunk) (drop (unat k) src)"
  obtain r f1 s1 where e: "load_page_if_needed ops ?i (f, s) = (r, f1, s1)" by (metis prod_cases3)
  have f1: "pages_wf f1" using load_page_if_needed_paged[OF Suc.prems, of ops ?i s] by (simp add: e)
  have c4: "k < of_nat (length src) \<Longrightarrow> ?bs \<noteq> []"
  proof -
    assume lt: "k < of_nat (length src)"
    have "unat k < unat (of_nat (length src) :: u64)" using lt by (simp only: word_less_nat_alt)
    then have "unat k < length src" by (rule less_le_trans) (simp add: unat_of_nat)
    moreover have "unat ?m < 4096" by (simp add: unat_mod)
    then have "unat (4096 - ?m) \<noteq> 0" by (subst unat_sub_u64) simp_all
    moreover have "unat (of_nat (length src) - k) \<noteq> 0" using lt by (simp add: unat_sub word_le_nat_alt word_less_nat_alt)
    ultimately show ?thesis unfolding chunk_def by (simp add: unat_min_word)
  qed
  have step: "well_paged (case mem_put (pg_data (page_at f1 ?i)) (unat ?m) ?bs of
      Inl h \<Rightarrow> (Inl h, f1, s1)
    | Inr data \<Rightarrow> (let f = set_page ?i \<lparr>pg_data = data, pg_dirty = True\<rparr> f1;
          f = (if vf_file_size f < vf_pos f0 + k + chunk then f\<lparr>vf_file_size := vf_pos f0 + k + chunk\<rparr> else f)
       in write_loop fuel ops src (k + chunk) (f, s1)))" if k: "k < of_nat (length src)" for f0 :: VFSFileObject
  proof (cases "mem_put (pg_data (page_at f1 ?i)) (unat ?m) ?bs")
    case (Inr data)
    then have d: "length data = length (pg_data (page_at f1 ?i))" "unat ?m + length ?bs \<le> length (pg_data (page_at f1 ?i))"
      by (auto simp: mem_put_def split: if_splits)
    then have "pg_data (page_at f1 ?i) \<noteq> []" using c4[OF k] by auto
    then have "length data = 4096" using d(1) pages_wf_page_at(1)[OF f1, of ?i] by simp
    moreover from this have "data \<noteq> []" by auto
    ultimately have "pages_wf (set_page ?i \<lparr>pg_data = data, pg_dirty = True\<rparr> f1)" by (intro pages_wf_set_page f1) simp_all
    then show ?thesis using Inr Suc.IH by (simp add: Let_def)
  qed (simp add: f1)
  show ?case
  proof (cases "k < of_nat (length src)")
    case True
    have "write_loop (Suc fuel) ops src k (f, s) = andthen (r, f1, s1) (\<lambda>_ (f1, s1).
        case mem_put (pg_data (page_at f1 ?i)) (unat ?m) ?bs of
          Inl h \<Rightarrow> (Inl h, f1, s1)
        | Inr data \<Rightarrow> (let f1 = set_page ?i \<lparr>pg_data = data, pg_dirty = True\<rparr> f1;
              f1 = (if vf_file_size f1 < vf_pos f + k + chunk then f1\<lparr>vf_file_size := vf_pos f + k + chunk\<rparr> else f1)
           in write_loop fuel ops src (k + chunk) (f1, s1)))"
      unfolding write_loop.simps(2) Let_def chunk_def e [symmetric] using True by (simp only: not_True_eq_False if_False)
    then show ?thesis using step[OF True, of f] f1 by (cases r) simp_all
  qed (simp add: Suc.prems)
qed simp

lemma write_paged [paged]: "pages_wf f \<Longrightarrow> well_paged (VFSFileObject_write ops data (f, s))"
  unfolding VFSFileObject_write_def by (auto simp del: write_loop.simps intro!: paged)

subsection \<open>Properties\<close>

text \<open>The calls a user makes on a file object.\<close>

datatype object_call = CallInit | CallRead "u8 list" | CallWrite "u8 list" | CallSeek u64 SeekType | CallTruncate u64 | CallFlush | CallClose

fun run_call :: "'d IBlockDevice \<Rightarrow> object_call \<Rightarrow> VFSFileObject \<times> 'd vfs \<Rightarrow> VFSFileObject \<times> 'd vfs" where
  "run_call ops CallInit fs = snd (init_file_state fs)"
| "run_call ops (CallRead buf) fs = snd (VFSFileObject_read ops buf fs)"
| "run_call ops (CallWrite data) fs = snd (VFSFileObject_write ops data fs)"
| "run_call ops (CallSeek off type) fs = snd (VFSFileObject_seek off type fs)"
| "run_call ops (CallTruncate sz) fs = snd (VFSFileObject_truncate ops sz fs)"
| "run_call ops CallFlush fs = snd (VFSFileObject_flush ops fs)"
| "run_call ops CallClose fs = snd (VFSFileObject_close ops fs)"

lemma run_call_paged: "pages_wf f \<Longrightarrow> pages_wf (fst (run_call ops c (f, s)))"
  using init_file_state_paged[of f s] read_paged[of f ops _ s] write_paged[of f ops _ s] seek_paged[of f _ _ s]
    truncate_paged[of f ops _ s] flush_paged[of f ops s] close_paged[of f ops s]
  by (cases c) (simp_all add: well_paged_def)

text \<open>C18: the page table is well typed. Whatever calls are made on a file object from its construction on, in
  whatever order and whatever littlefs and the device answer to them, its table has one entry per page number, a
  page is either empty or has exactly 4096 bytes, and only pages with content are marked dirty.\<close>

theorem vfs_pages_well_typed: "pages_wf (fst (fold (run_call ops) calls (VFSFileObject_new p, s)))"
proof -
  have "pages_wf f \<Longrightarrow> pages_wf (fst (fold (run_call ops) calls (f, s)))" for f
  proof (induction calls arbitrary: f s)
    case (Cons c calls)
    obtain f1 s1 where e: "run_call ops c (f, s) = (f1, s1)" by (metis prod.exhaust)
    then have "pages_wf f1" using run_call_paged[OF Cons.prems, of ops c s] by simp
    then show ?case using Cons.IH by (simp add: e)
  qed simp
  moreover have "pages_wf (VFSFileObject_new p)" by (simp add: pages_wf_def VFSFileObject_new_def)
  ultimately show ?thesis .
qed

end
