(* ===== verification/FileIndexProperties.thy ===== *)
theory FileIndexProperties
  imports OwnRead Bits FsTraverse DeviceProperties
begin

text \<open>
  Properties of the skip list in which the blocks of a file lie. Block 0 holds only data; block \<open>i\<close>
  starts with one pointer more than \<open>i\<close> has trailing zeros, and its pointer \<open>k\<close> leads to block
  \<open>i - 2 ^ k\<close>. The closed form of \<open>lfs_ctz_index\<close> is compared with the layout by counting bytes block by
  block.
\<close>

subsection \<open>Trailing zeros of a number\<close>

fun low_zeros :: "nat \<Rightarrow> nat" where
  "low_zeros n = (if n = 0 \<or> odd n then 0 else Suc (low_zeros (n div 2)))"

declare low_zeros.simps [simp del]

lemma low_zeros_simps:
  "odd n \<Longrightarrow> low_zeros n = 0" "0 < n \<Longrightarrow> low_zeros (2 * n) = Suc (low_zeros n)"
  by (simp_all add: low_zeros.simps[of n] low_zeros.simps[of "2 * n"])

lemma pop_Suc_low_zeros: "Suc n < 2 ^ K \<Longrightarrow> pop K (Suc n) + low_zeros (Suc n) = Suc (pop K n)"
proof (induction K arbitrary: n)
  case (Suc K)
  show ?case
  proof (cases "even n")
    case True
    then have "Suc n div 2 = n div 2" "Suc n mod 2 = 1" "n mod 2 = 0" by presburger+
    then show ?thesis using True by (simp add: low_zeros_simps(1) del: mod2_Suc_Suc)
  next
    case False
    then obtain m where m: "n = 2 * m + 1" by (rule oddE)
    have "Suc n = 2 * Suc m" using m by simp
    then have "low_zeros (Suc n) = Suc (low_zeros (Suc m))" "pop (Suc K) (Suc n) = pop K (Suc m)"
      by (simp_all only: low_zeros_simps(2) zero_less_Suc) simp
    moreover have "Suc m < 2 ^ K" using Suc.prems m by simp
    ultimately show ?thesis using Suc.IH[of m] m by simp
  qed
qed simp

lemma low_zeros_bit: "0 < n \<Longrightarrow> bit n (low_zeros n) \<and> (\<forall>k < low_zeros n. \<not> bit n k)"
proof (induction n rule: low_zeros.induct)
  case (1 n)
  show ?case
  proof (cases "odd n")
    case False
    have "low_zeros n = Suc (low_zeros (n div 2))" using False 1(2) by (subst low_zeros.simps) simp
    moreover have "\<not> bit n k" if "k < Suc j" "\<forall>i<j. \<not> bit (n div 2) i" for k j
      using that False by (cases k) (auto simp: bit_0 bit_Suc)
    ultimately show ?thesis using 1 False by (auto simp: bit_Suc elim!: evenE)
  qed (simp add: low_zeros_simps bit_0)
qed

lemma unat_ctz64_low_zeros: "i \<noteq> 0 \<Longrightarrow> unat (lfs_ctz64 i) = low_zeros (unat i)"
proof -
  assume i: "i \<noteq> 0"
  then have "0 < unat i" by (simp add: unat_gt_0)
  note Z = low_zeros_bit[OF this]
  have b: "bit (unat i) k = bit i k" for k by (auto simp: bit_unsigned_iff dest: bit_imp_le_length)
  show ?thesis
    using Z unat_lfs_ctz64[OF i] unfolding b by (metis linorder_neqE_nat)
qed

lemma pop_bound: "n < 2 ^ k \<Longrightarrow> pop m n \<le> k"
proof (induction k arbitrary: m n)
  case 0
  have "pop m 0 = 0" for m by (induction m) simp_all
  then show ?case using 0 by simp
next
  case (Suc k)
  have "n div 2 < 2 ^ k" using Suc.prems by simp
  have "n mod 2 \<le> 1" by simp
  then have "n mod 2 + pop j (n div 2) \<le> Suc k" for j
    using Suc.IH[OF \<open>n div 2 < 2 ^ k\<close>, of j] by linarith
  then show ?case by (cases m) (simp_all del: mod2_Suc_Suc)
qed

lemma unat_popc64: "unat (lfs_popc64 w) = pop 64 (unat w)"
proof -
  have "bit (unat w) i = bit w i" for i by (auto simp: bit_unsigned_iff dest: bit_imp_le_length)
  then show ?thesis by (simp add: unat_lfs_popc64 pop_eq_card)
qed


subsection \<open>The layout, block by block\<close>

definition ctz_header :: "nat \<Rightarrow> nat" where
  "ctz_header i = (if i = 0 then 0 else 8 * Suc (low_zeros i))"

text \<open>The bytes of the file that lie before block \<open>i\<close>, in blocks of \<open>B\<close> bytes.\<close>

primrec ctz_before :: "nat \<Rightarrow> nat \<Rightarrow> nat" where
  "ctz_before B 0 = 0"
| "ctz_before B (Suc i) = ctz_before B i + (B - ctz_header i)"

lemma low_zeros_less:
  assumes "0 < n" "n < 2 ^ k"
  shows "low_zeros n < k"
proof -
  have "bit n (low_zeros n)" using low_zeros_bit[OF assms(1)] by simp
  then have "2 ^ low_zeros n \<le> n" by (metis bit_nat_iff div_eq_0_iff even_zero not_le_imp_less bit_iff_odd)
  then show ?thesis using assms(2) by (meson le_less_trans nat_power_less_imp_less zero_less_numeral)
qed

lemma ctz_header_bound: "i < 2 ^ 31 \<Longrightarrow> ctz_header i \<le> 248"
  using low_zeros_less[of i 31] by (auto simp: ctz_header_def)

lemma ctz_header_pop: "0 < i \<Longrightarrow> i < 2 ^ 64 \<Longrightarrow> 8 * pop 64 i + ctz_header i = 16 + 8 * pop 64 (i - 1)"
  using pop_Suc_low_zeros[of "i - 1" 64] by (simp add: ctz_header_def)

lemma ctz_before_closed:
  assumes "0 < i" "i \<le> 2 ^ 31" "264 \<le> b"
  shows "ctz_before (b + 16) i = i * b + 16 + 8 * pop 64 (i - 1)"
  using assms(1,2)
proof (induction i)
  case (Suc i)
  show ?case
  proof (cases "i = 0")
    case True
    have "pop k 0 = 0" for k by (induction k) simp_all
    then show ?thesis using True by (simp add: ctz_header_def)
  next
    case False
    then have "ctz_header i \<le> b + 16" using ctz_header_bound[of i] Suc.prems assms(3) by simp
    then show ?thesis using Suc False ctz_header_pop[of i] by simp
  qed
qed simp

text \<open>The estimate of the block is at most one too large, and the correction finds that out.\<close>

lemma ctz_index_nat:
  fixes b N i0 i1 :: nat
  defines "i0 \<equiv> N div b" and "i1 \<equiv> (N - 8 * (pop 64 (i0 - 1) + 2)) div b"
  assumes b: "264 \<le> b" and i0: "0 < i0" "i0 < 2 ^ 31"
  shows "8 * (pop 64 (i0 - 1) + 2) \<le> N" "i1 \<le> i0" "b * i1 + 8 * pop 64 i1 \<le> N"
    "ctz_header i1 \<le> N - b * i1 - 8 * pop 64 i1" "N - b * i1 - 8 * pop 64 i1 < b + 16"
    "N = ctz_before (b + 16) i1 + (N - b * i1 - 8 * pop 64 i1 - ctz_header i1)"
proof -
  define e where "e = 8 * (pop 64 (i0 - 1) + 2)"
  have pb: "pop 64 i \<le> 31" if "i < 2 ^ 31" for i using pop_bound[OF that] .
  have "pop 64 (i0 - 1) \<le> 31" by (rule pb) (use i0(2) in linarith)
  then have e: "e \<le> b" using b by (simp add: e_def)
  have lo: "i0 * b \<le> N" and hi: "N < i0 * b + b"
    using b mod_less_divisor[of b N] div_mult_mod_eq[of N b] unfolding i0_def by linarith+
  have be: "b \<le> i0 * b" using i0 by (cases i0) simp_all
  show N: "8 * (pop 64 (i0 - 1) + 2) \<le> N" unfolding e_def [symmetric] using e lo be by linarith
  have i1: "i1 = (N - e) div b" by (simp add: i1_def e_def)
  show le: "i1 \<le> i0" unfolding i1 i0_def by (rule div_le_mono) simp
  have "(i0 * b - b) div b \<le> i1" unfolding i1 by (rule div_le_mono) (use e lo in linarith)
  moreover have "i0 * b - b = (i0 - 1) * b" by (simp only: diff_mult_distrib mult_1)
  then have "(i0 * b - b) div b = i0 - 1" using b by simp
  ultimately have "i1 = i0 \<or> Suc i1 = i0" using le by linarith
  then have "b * i1 + 8 * pop 64 i1 \<le> N \<and> ctz_header i1 \<le> N - b * i1 - 8 * pop 64 i1 \<and>
    N - b * i1 - 8 * pop 64 i1 < b + 16 \<and> N = ctz_before (b + 16) i1 + (N - b * i1 - 8 * pop 64 i1 - ctz_header i1)"
  proof
    assume s: "i1 = i0"
    have "i1 * b \<le> N - e" unfolding i1 by simp
    then have "i1 * b + 16 + 8 * pop 64 (i1 - 1) \<le> N" using N s by (simp add: e_def)
    moreover have "8 * pop 64 i1 + ctz_header i1 = 16 + 8 * pop 64 (i1 - 1)"
      using ctz_header_pop[of i1] i0 s by simp
    moreover have "ctz_before (b + 16) i1 = i1 * b + 16 + 8 * pop 64 (i1 - 1)"
      using ctz_before_closed[of i1 b] i0 s b by simp
    ultimately show ?thesis using hi unfolding s mult.commute[of b] by (intro conjI) linarith+
  next
    assume s: "Suc i1 = i0"
    have "N - e < (N - e) div b * b + b" using b mod_less_divisor[of b "N - e"] div_mult_mod_eq[of "N - e" b] by linarith
    then have "N < i1 * b + b + e" unfolding i1 [symmetric] by arith
    moreover have "Suc i1 \<le> 2 ^ 31" using s i0(2) by linarith
    then have "ctz_before (b + 16) (Suc i1) = i1 * b + b + 16 + 8 * pop 64 i1"
      by (subst ctz_before_closed[OF _ _ b]) simp_all
    moreover have "i0 - 1 = i1" using s by simp
    then have "e = 8 * pop 64 i1 + 16" by (simp only: e_def) simp
    ultimately have up: "N < ctz_before (b + 16) (Suc i1)" by linarith
    have lo': "i1 * b + b \<le> N" using lo s[symmetric] by simp
    show ?thesis
    proof (cases "i1 = 0")
      case True
      have "pop 64 0 = 0" by (simp add: numeral_eq_Suc)
      then show ?thesis using up True by (simp add: ctz_header_def)
    next
      case False
      have h: "8 * pop 64 i1 + ctz_header i1 = 16 + 8 * pop 64 (i1 - 1)"
        using ctz_header_pop[of i1] i0 s False by simp
      have c: "ctz_before (b + 16) i1 = i1 * b + 16 + 8 * pop 64 (i1 - 1)"
        using ctz_before_closed[of i1 b] i0 s b False by simp
      have "ctz_header i1 \<le> 248" using ctz_header_bound[of i1] i0 s by simp
      moreover have "8 * pop 64 (i1 - 1) \<le> 248" using pb[of "i1 - 1"] i0 s by simp
      moreover have "N < ctz_before (b + 16) i1 + (b + 16 - ctz_header i1)" using up by simp
      ultimately show ?thesis using h c lo' b unfolding mult.commute[of b] by (intro conjI) linarith+
    qed
  qed
  then show "b * i1 + 8 * pop 64 i1 \<le> N" "ctz_header i1 \<le> N - b * i1 - 8 * pop 64 i1"
    "N - b * i1 - 8 * pop 64 i1 < b + 16" "N = ctz_before (b + 16) i1 + (N - b * i1 - 8 * pop 64 i1 - ctz_header i1)"
    by simp_all
qed

lemma ctz_index_position:
  assumes B: "280 \<le> unat (l_block_size s)" and off: "unat off div (unat (l_block_size s) - 16) < 2 ^ 31"
    and e: "lfs_ctz_index s off = (i, o')"
  shows "unat i < 2 ^ 31 \<and> ctz_header (unat i) \<le> unat o' \<and> unat o' < unat (l_block_size s) \<and>
    unat off = ctz_before (unat (l_block_size s)) (unat i) + (unat o' - ctz_header (unat i))"
proof -
  define b N where "b = unat (l_block_size s) - 16" and "N = unat off"
  have b: "264 \<le> b" "unat (l_block_size s) = b + 16" using B by (simp_all add: b_def)
  define w where "w = l_block_size s - 2 * 8"
  have w: "unat w = b" unfolding w_def b_def using B by (subst unat_sub_u64) simp_all
  define j where "j = off div w"
  have j: "unat j = N div b" by (simp add: j_def unat_div w N_def)
  have jb: "N div b < 2 ^ 31" using off by (simp add: N_def b_def)
  show ?thesis
  proof (cases "j = 0")
    case True
    have "lfs_ctz_index s off = (0, off)" using True by (simp add: lfs_ctz_index_def Let_def j_def w_def)
    moreover have "N < b" using j True b by (simp add: div_eq_0_iff)
    ultimately show ?thesis using e by (simp add: b ctz_header_def N_def)
  next
    case False
    have i0: "0 < N div b" using False j by (simp add: unat_gt_0 [symmetric])
    note I = ctz_index_nat[OF b(1) i0 jb]
    define k where "k = (off - 8 * (lfs_popc64 (j - 1) + 2)) div w"
    have j1: "unat (j - 1) = N div b - 1" using i0 j by (subst unat_sub_u64) simp_all
    have "pop 64 (N div b - 1) \<le> 64" by (rule pop_le)
    then have "unat (8 * (lfs_popc64 (j - 1) + 2)) = 8 * (pop 64 (N div b - 1) + 2)"
      by (simp add: unat_mult_u64 unat_add_u64 unat_popc64 j1)
    then have k: "unat k = (N - 8 * (pop 64 (N div b - 1) + 2)) div b"
      unfolding k_def using I(1) by (simp add: unat_div w unat_sub_u64 N_def)
    have k31: "unat k < 2 ^ 31" using I(2) jb unfolding k by (rule le_less_trans)
    have "lfs_ctz_index s off = (ucast k, off - w * k - 8 * lfs_popc64 k)"
      using False by (simp add: lfs_ctz_index_def Let_def j_def k_def w_def)
    then have i: "i = ucast k" "o' = off - w * k - 8 * lfs_popc64 k" using e by simp_all
    have ui: "unat i = unat k" using k31 by (simp add: i unsigned_ucast_eq take_bit_nat_eq_self)
    have NN: "N < 2 ^ 64" by (simp add: N_def)
    have wk: "unat (w * k) = b * unat k" using I(3) NN unfolding k[symmetric] by (subst unat_mult_u64) (simp_all add: w)
    have "pop 64 (unat k) \<le> 64" by (rule pop_le)
    then have p: "unat (8 * lfs_popc64 k) = 8 * pop 64 (unat k)" by (simp add: unat_mult_u64 unat_popc64)
    have "unat (off - w * k) = N - b * unat k"
      using I(3) unfolding k[symmetric] by (subst unat_sub_u64) (simp_all add: wk N_def)
    then have o: "unat o' = N - b * unat k - 8 * pop 64 (unat k)"
      unfolding i using I(3) unfolding k[symmetric] by (subst unat_sub_u64) (simp_all add: p)
    show ?thesis using I(4-6) k31 unfolding k[symmetric] ui o b(2) N_def[symmetric] by simp
  qed
qed

subsection \<open>Skip lists on a disk\<close>

text \<open>\<open>blocks ! i\<close> is block \<open>i\<close> of the file.\<close>

definition skip_list :: "(nat \<Rightarrow> u8 list) \<Rightarrow> lfs_block_t list \<Rightarrow> bool" where
  "skip_list disk blocks \<longleftrightarrow> (\<forall>i < length blocks. \<forall>k. 0 < i \<longrightarrow> k \<le> low_zeros i \<longrightarrow>
     le_word (take 8 (drop (8 * k) (disk (unat (blocks ! i))))) = blocks ! (i - 2 ^ k))"

lemma skip_listD:
  "skip_list disk blocks \<Longrightarrow> i < length blocks \<Longrightarrow> 0 < i \<Longrightarrow> k \<le> low_zeros i \<Longrightarrow>
    le_word (take 8 (drop (8 * k) (disk (unat (blocks ! i))))) = blocks ! (i - 2 ^ k)"
  by (simp add: skip_list_def)

text \<open>A step of the search: the largest skip that the block offers and that does not go too far.\<close>

lemma ctz_find_skip:
  fixes current target :: u64
  defines "skip \<equiv> lfs_min (lfs_npw2_64 (current - target + 1) - 1) (lfs_ctz64 current)"
  assumes "target < current" "unat current < 2 ^ 31"
  shows "unat skip \<le> low_zeros (unat current)" "2 ^ unat skip \<le> unat current - unat target" "unat skip < 31"
    "unat (current - push_bit (unat skip) 1) = unat current - 2 ^ unat skip"
proof -
  have lt: "unat target < unat current" using assms(2) by (simp add: word_less_nat_alt)
  have d: "unat (current - target + 1) = unat current - unat target + 1"
    using lt assms(3) by (subst unat_add_u64) (simp_all add: unat_sub_u64)
  then have "1 < current - target + 1" using lt by (simp add: word_less_nat_alt)
  note P = unat_lfs_npw2_64[OF this]
  have p: "unat (lfs_npw2_64 (current - target + 1) - 1) = unat (lfs_npw2_64 (current - target + 1)) - 1"
    using P(1) by (subst unat_sub_u64) simp_all
  have c0: "current \<noteq> 0" using lt by auto
  have u: "unat skip = min (unat (lfs_npw2_64 (current - target + 1)) - 1) (low_zeros (unat current))"
    unfolding skip_def lfs_min_unat p unat_ctz64_low_zeros[OF c0] ..
  then show z: "unat skip \<le> low_zeros (unat current)" by simp
  have "(2::nat) ^ unat skip \<le> 2 ^ (unat (lfs_npw2_64 (current - target + 1)) - 1)"
    using u by (intro power_increasing) simp_all
  then show d2: "2 ^ unat skip \<le> unat current - unat target" using P(3) d by linarith
  show s31: "unat skip < 31" using z low_zeros_less[of "unat current" 31] assms(3) lt by linarith
  have "unat (push_bit (unat skip) 1 :: u64) = 2 ^ unat skip"
  proof -
    have "(2::nat) ^ unat skip < 2 ^ 64" using s31 by (intro power_strict_increasing) simp_all
    moreover have "push_bit (unat skip) 1 = (of_nat (2 ^ unat skip) :: u64)" by (simp add: push_bit_eq_mult)
    ultimately show ?thesis by (simp only: unat_of_nat_u64)
  qed
  then show "unat (current - push_bit (unat skip) 1) = unat current - 2 ^ unat skip"
    using d2 by (subst unat_sub_u64) simp_all
qed

context readable_device begin

lemma read_pre_step:
  "read_pre s wc rc hint block \<Longrightarrow> same_disk s s' \<Longrightarrow> cache_holds s rc' (content (l_dev s)) \<Longrightarrow>
    block' < l_block_count s \<Longrightarrow> read_pre s' wc rc' hint block'"
  by (simp add: read_pre_def same_diskD)

lemma ctz_find_loop:
  assumes "read_pre s wc rc 8 (blocks ! unat current)" "skip_list (overlay wc (content (l_dev s))) blocks"
    and "\<forall>b \<in> set blocks. b < l_block_count s" "unat current < length blocks" "length blocks \<le> 2 ^ 31" "256 \<le> bsize"
    and "unat target \<le> unat current" "unat current < fuel + unat target"
  shows "case lfs_ctz_find_loop fuel s wc rc (blocks ! unat current) current target of (r, rc', s') \<Rightarrow>
    same_disk s s' \<and> sound r \<and> (\<forall>h. r = Inr h \<longrightarrow> h = blocks ! unat target \<and> cache_holds s rc' (content (l_dev s)))"
  using assms(1-4,7,8)
proof (induction fuel arbitrary: s rc current)
  case (Suc fuel)
  have g: "inv (l_dev s)" "cache_holds s rc (content (l_dev s))" using Suc.prems(1) by (simp_all add: read_pre_def)
  show ?case
  proof (cases "target < current")
    case False
    then have "current = target" using Suc.prems(5) by (simp add: word_less_nat_alt word_unat_eq_iff)
    then show ?thesis using g by (simp add: same_disk_refl)
  next
    case True
    define skip where "skip = lfs_min (lfs_npw2_64 (current - target + 1) - 1) (lfs_ctz64 current)"
    have c31: "unat current < 2 ^ 31" using Suc.prems(4) assms(5) by simp
    note S = ctz_find_skip[OF True c31, folded skip_def]
    have o: "unat (8 * skip) = 8 * unat skip" using S(3) by (subst unat_mult_u64) simp_all
    have fit: "unat (8 * skip) + length (le_bytes 8 (blocks ! unat current)) \<le> bsize"
      using S(3) assms(6) by (simp add: o)
    obtain r bytes rc1 s1 where e: "lfs_bd_read s wc rc 8 (blocks ! unat current) (8 * skip) (le_bytes 8 (blocks ! unat current)) = (r, bytes, rc1, s1)"
      by (metis prod_cases4)
    note R = bd_read[OF Suc.prems(1) fit, unfolded e, simplified]
    show ?thesis
    proof (cases r)
      case (Inl h)
      then show ?thesis using R True by (simp add: skip_def[symmetric] e)
    next
      case (Inr x)
      define current' where "current' = current - push_bit (unat skip) 1"
      have cs: "current - 2 ^ unat skip = current'" by (simp add: current'_def)
      have c': "unat current' = unat current - 2 ^ unat skip" by (simp only: current'_def S(4))
      have "le_word bytes = blocks ! unat current'"
        using R Inr skip_listD[OF Suc.prems(2,4) _ S(1)] True by (simp add: o c' word_less_nat_alt)
      moreover have len: "unat current' < length blocks" using c' Suc.prems(4) by simp
      then have in_disk: "blocks ! unat current' < l_block_count s" using Suc.prems(3) by simp
      have pre: "read_pre s1 wc rc1 8 (blocks ! unat current')"
        using R Inr by (intro read_pre_step[OF Suc.prems(1)]) (simp_all add: in_disk)
      have "same_disk s s1" using R by simp
      note sd = same_diskD[OF this]
      have lt: "unat target < unat current" using True by (simp add: word_less_nat_alt)
      have p2: "(1::nat) \<le> 2 ^ unat skip" by simp
      have IH: "case lfs_ctz_find_loop fuel s1 wc rc1 (blocks ! unat current') current' target of (r, rc', s') \<Rightarrow>
          same_disk s1 s' \<and> sound r \<and> (\<forall>h. r = Inr h \<longrightarrow> h = blocks ! unat target \<and> cache_holds s1 rc' (content (l_dev s1)))"
      proof (intro Suc.IH pre len)
        show "unat target \<le> unat current'" using S(2) Suc.prems(5) c' by linarith
        show "unat current' < fuel + unat target" using p2 S(2) Suc.prems(6) c' lt by linarith
        show "\<forall>b \<in> set blocks. b < l_block_count s1" unfolding sd by (rule Suc.prems(3))
      qed (simp only: sd Suc.prems(2))
      ultimately show ?thesis
        using R Inr True IH
        by (auto simp: skip_def[symmetric] e cs lfs_fromle64_def same_diskD intro: same_disk_trans split: prod.splits)
    qed
  qed
qed simp

end

subsection \<open>Finding the block of a byte\<close>

lemma ctz_before_mono: "i \<le> j \<Longrightarrow> ctz_before B i \<le> ctz_before B j"
  by (induction j) (auto simp: le_Suc_eq)

lemma ctz_before_index:
  assumes "ctz_before B i \<le> n" "n \<le> m" "m < ctz_before B (Suc j)"
  shows "i \<le> j"
  using assms ctz_before_mono[of "Suc j" i B] by linarith

text \<open>The data of the file: what is behind the pointers of each block.\<close>

primrec ctz_data :: "(nat \<Rightarrow> u8 list) \<Rightarrow> lfs_block_t list \<Rightarrow> nat \<Rightarrow> u8 list" where
  "ctz_data disk blocks 0 = []"
| "ctz_data disk blocks (Suc i) = ctz_data disk blocks i @ drop (ctz_header i) (disk (unat (blocks ! i)))"

lemma length_ctz_data: "(\<And>i. i < n \<Longrightarrow> length (disk (unat (blocks ! i))) = B) \<Longrightarrow> length (ctz_data disk blocks n) = ctz_before B n"
  by (induction n) simp_all

lemma nth_ctz_data:
  assumes "\<And>i. i < n \<Longrightarrow> length (disk (unat (blocks ! i))) = B" "i < n" "k < B - ctz_header i"
  shows "ctz_data disk blocks n ! (ctz_before B i + k) = disk (unat (blocks ! i)) ! (ctz_header i + k)"
  using assms
proof (induction n)
  case (Suc n)
  have l: "length (ctz_data disk blocks n) = ctz_before B n" using Suc.prems(1) by (intro length_ctz_data) simp
  show ?case
  proof (cases "i = n")
    case True
    then show ?thesis using Suc.prems(1)[of n] Suc.prems(3) l by (simp add: nth_append)
  next
    case False
    then have "i < n" using Suc.prems(2) by simp
    moreover have "ctz_before B i + k < ctz_before B n"
      using ctz_before_mono[of "Suc i" n B] Suc.prems(3) \<open>i < n\<close> by simp
    ultimately show ?thesis using Suc l by (simp add: nth_append)
  qed
qed simp

lemma unat_scast_index: "unat i < 2 ^ 31 \<Longrightarrow> unat (scast (i :: u32) :: u64) = unat i"
proof -
  assume i: "unat i < 2 ^ 31"
  have "scast i = (of_nat (unat i) :: u64)"
    unfolding scast_eq sint_small[OF i] by (rule of_int_of_nat_eq)
  moreover have "unat i < 2 ^ 64" using i by simp
  ultimately show ?thesis by (simp only: unat_of_nat_u64)
qed

context readable_device begin

lemma ctz_find:
  assumes pre: "ready s" "pending_fits s wc" "cache_holds s rc (content (l_dev s))"
    and l: "skip_list (overlay wc (content (l_dev s))) blocks" "\<forall>b \<in> set blocks. b < l_block_count s"
    and n: "length blocks = Suc (unat (fst (lfs_ctz_index s (sz - 1))))" "pos < sz" "280 \<le> bsize"
    and i: "unat sz div (bsize - 16) < 2 ^ 31"
  shows "case lfs_ctz_find s wc rc (last blocks) sz pos of (r, rc', s') \<Rightarrow> same_disk s s' \<and> sound r \<and>
    (\<forall>b off. r = Inr (b, off) \<longrightarrow> b \<in> set blocks \<and> unat off < bsize \<and>
      overlay wc (content (l_dev s)) (unat b) ! unat off = ctz_data (overlay wc (content (l_dev s))) blocks (length blocks) ! unat pos)"
proof -
  have B: "unat (l_block_size s) = bsize" using readyD[OF pre(1)] by simp
  obtain i1 o1 where e1: "lfs_ctz_index s (sz - 1) = (i1, o1)" by (metis prod.exhaust)
  obtain i2 o2 where e2: "lfs_ctz_index s pos = (i2, o2)" by (metis prod.exhaust)
  have sz: "unat (sz - 1) = unat sz - 1" "unat pos \<le> unat sz - 1"
    using n(2) by (simp_all add: word_less_nat_alt unat_sub_u64)
  have "unat pos \<le> unat sz" using sz(2) by linarith
  then have "unat (sz - 1) div (bsize - 16) < 2 ^ 31" "unat pos div (bsize - 16) < 2 ^ 31"
    using i div_le_mono[of "unat sz - 1" "unat sz" "bsize - 16"] div_le_mono[of "unat pos" "unat sz" "bsize - 16"] sz by simp_all
  then have P1: "unat i1 < 2 ^ 31" "ctz_header (unat i1) \<le> unat o1" "unat o1 < bsize" "unat sz - 1 = ctz_before bsize (unat i1) + (unat o1 - ctz_header (unat i1))"
    and P2: "unat i2 < 2 ^ 31" "ctz_header (unat i2) \<le> unat o2" "unat o2 < bsize" "unat pos = ctz_before bsize (unat i2) + (unat o2 - ctz_header (unat i2))"
    using ctz_index_position[OF _ _ e1] ctz_index_position[OF _ _ e2] n(3) by (simp_all add: B sz)
  have le: "unat i2 \<le> unat i1"
    by (rule ctz_before_index[OF _ sz(2), of bsize]) (use P1 P2 in simp_all)
  have blk: "last blocks = blocks ! unat i1" "unat i1 < length blocks" "length blocks \<le> 2 ^ 31" "unat i2 < length blocks"
    using n(1) P1(1) le by (simp_all add: e1 last_conv_nth) (metis diff_Suc_1 last_conv_nth length_0_conv nat.simps(3))
  have u: "unat (scast i1 :: u64) = unat i1" "unat (scast i2 :: u64) = unat i2" using P1(1) P2(1) by (simp_all add: unat_scast_index)
  have bs64: "2 * bsize + unat (cfg_read_size (l_cfg s)) \<le> 2 ^ 64" using pre(1) by (simp add: ready_def)
  have rp: "read_pre s wc rc 8 (blocks ! unat (scast i1 :: u64))"
    using pre l(2) blk(2) n(3) readyD[OF pre(1)] bs64 by (simp add: read_pre_def u)
  obtain r rc' s' where e: "lfs_ctz_find_loop (Suc (unat (scast i1 :: u64))) s wc rc (blocks ! unat (scast i1 :: u64)) (scast i1) (scast i2) = (r, rc', s')"
    by (metis prod_cases3)
  have L: "same_disk s s' \<and> sound r \<and> (\<forall>h. r = Inr h \<longrightarrow> h = blocks ! unat i2)"
    using ctz_find_loop[OF rp l _ blk(3), of "scast i2" "Suc (unat (scast i1 :: u64))"] le blk(2) n(3)
    by (simp add: u e [unfolded u] del: lfs_ctz_find_loop.simps)
  have "sz \<noteq> 0" using n(2) by (auto simp: word_less_nat_alt)
  then have f: "lfs_ctz_find s wc rc (last blocks) sz pos = (case r of Inl h \<Rightarrow> Inl h | Inr head \<Rightarrow> Inr (head, o2), rc', s')"
    using e by (simp add: lfs_ctz_find_def e1 e2 Let_def blk(1) u del: lfs_ctz_find_loop.simps split: sum.split)
  have len: "length (overlay wc (content (l_dev s)) (unat (blocks ! k))) = bsize" if "k < length blocks" for k
  proof -
    have "read_pre s wc rc 8 (blocks ! k)" using rp l(2) that by (simp add: read_pre_def)
    then show ?thesis by (rule length_overlay)
  qed
  have "ctz_data (overlay wc (content (l_dev s))) blocks (length blocks) ! unat pos =
      overlay wc (content (l_dev s)) (unat (blocks ! unat i2)) ! unat o2"
    using nth_ctz_data[where disk = "overlay wc (content (l_dev s))" and blocks = blocks and n = "length blocks" and B = bsize,
        of "unat i2" "unat o2 - ctz_header (unat i2)"] len blk(4) P2
    by simp
  then show ?thesis using L P2(3) blk(4) unfolding f by (cases r) auto
qed

end

subsection \<open>Visiting all blocks\<close>

text \<open>The order in which \<open>lfs_ctz_traverse\<close> reports the blocks of a file whose last block is \<open>i\<close>.\<close>

fun ctz_visits :: "lfs_block_t list \<Rightarrow> nat \<Rightarrow> lfs_block_t list" where
  "ctz_visits blocks i =
     blocks ! i # (if i = 0 then [] else blocks ! (i - 1) # ctz_visits blocks (if odd i then i - 1 else i - 2))"

declare ctz_visits.simps [simp del]

lemma set_ctz_visits: "set (ctz_visits blocks i) = (\<lambda>k. blocks ! k) ` {..i}"
proof (induction blocks i rule: ctz_visits.induct)
  case (1 blocks i)
  have "{..i} = {i, i - 1} \<union> {..if odd i then i - 1 else i - 2}" if "i \<noteq> 0"
    using that by auto
  then show ?case using 1 by (subst ctz_visits.simps) (auto)
qed

lemma length_ctz_visits: "length (ctz_visits blocks i) = Suc i + i mod 2"
proof (induction blocks i rule: ctz_visits.induct)
  case (1 blocks i)
  show ?case
  proof (cases "i = 0")
    case False
    then have "length (ctz_visits blocks i) = Suc (Suc (length (ctz_visits blocks (if odd i then i - 1 else i - 2))))"
      by (subst ctz_visits.simps) simp
    also have "\<dots> = Suc i + i mod 2" unfolding "1.IH"[OF False] using False by (auto elim!: oddE evenE)
    finally show ?thesis .
  qed (simp add: ctz_visits.simps)
qed

context readable_device begin

lemma ctz_traverse_loop:
  assumes "ready s" "pending_fits s wc" "skip_list (overlay wc (content (l_dev s))) blocks"
    and "\<forall>b \<in> set blocks. unat b < bcount" "unat index < length blocks" "16 \<le> bsize" "unat index < fuel"
    and cb: "\<And>s c b. cb s c b = (Inr (), f c b, s)"
  shows "case lfs_ctz_traverse_loop fuel cb s c wc (blocks ! unat index) index of (r, c', s') \<Rightarrow> keeps s s' \<and> sound r \<and>
    (r = Inr () \<longrightarrow> ready s' \<and> c' = foldl f c (ctz_visits blocks (unat index)))"
  using assms(1-5,7)
proof (induction fuel arbitrary: s c index)
  case (Suc fuel)
  let ?b = "blocks ! unat index"
  show ?case
  proof (cases "index = 0")
    case True
    then show ?thesis using Suc.prems(1) by (simp add: cb keeps_refl readyD ctz_visits.simps)
  next
    case False
    then have i0: "0 < unat index" by (simp add: unat_gt_0)
    define count where "count = 2 - (index AND 1)"
    have "unat (index AND 1) = unat index mod 2" by (simp add: and_one_eq unat_mod)
    then have cnt: "unat count = 2 - unat index mod 2" unfolding count_def by (subst unat_sub_u64) simp_all
    have c18: "1 \<le> unat count" using cnt mod_less_divisor[of 2 "unat index"] by linarith
    have c8: "unat (count * 8) = unat count * 8" using cnt by (subst unat_mult_u64) simp_all
    have fit: "unat (0::u64) + length (replicate (unat count * 8) (0::u8)) \<le> bsize" using assms(6) cnt by simp
    have hint: "0 < unat (count * 8)" "unat (count * 8) \<le> bsize" using assms(6) cnt by (simp_all add: c8)
    obtain r bytes s1 where e: "lfs_bd_read_through s wc (count * 8) ?b 0 (replicate (unat count * 8) 0) = (r, bytes, s1)"
      by (metis prod_cases3)
    note R = bd_read_through[OF Suc.prems(1,2) _ fit hint, of ?b, unfolded e own_read_def]
    have bb: "unat ?b < bcount" using Suc.prems(4,5) by simp
    let ?heads = "lfs_pair_fromle64 (pair_of_bytes bytes)"
    have step: "lfs_ctz_traverse_loop (Suc fuel) cb s c wc ?b index = (case r of Inl h \<Rightarrow> (Inl h, f c ?b, s1)
      | Inr _ \<Rightarrow> lfs_ctz_traverse_loop fuel cb s1 (f (f c ?b) (fst ?heads)) wc
          (if count = 1 then fst ?heads else snd ?heads) (index - count))"
      unfolding lfs_ctz_traverse_loop.simps cb Let_def count_def [symmetric] prod.case sum.case e using False
      by (cases r) simp_all
    show ?thesis
    proof (cases r)
      case (Inl h)
      then show ?thesis using R[OF bb] unfolding step by simp
    next
      case (Inr u)
      define index' where "index' = index - count"
      have "unat count \<le> unat index" using cnt i0 by (cases "unat index") (auto split: if_splits elim: oddE simp: mod_Suc)
      then have i': "unat index' = unat index - unat count" unfolding index'_def by (rule unat_sub_u64)
      have h1: "fst ?heads = blocks ! (unat index - 1)"
        using R[OF bb] Inr skip_listD[OF Suc.prems(3,5) i0, of 0] c18
        by (simp add: lfs_pair_fromle64_def lfs_fromle64_def pair_of_bytes_def min_def)
      have nxt: "(if count = 1 then fst ?heads else snd ?heads) = blocks ! unat index'"
      proof (cases "odd (unat index)")
        case True
        then have "unat count = 1" using cnt by (simp add: odd_iff_mod_2_eq_one)
        then show ?thesis using h1 i' by (simp add: word_unat_eq_iff)
      next
        case ev: False
        then have c2: "unat count = 2" using cnt by (simp add: even_iff_mod_2_eq_zero)
        have "1 \<le> low_zeros (unat index)" using ev i0 by (subst low_zeros.simps) simp
        then have "snd ?heads = blocks ! (unat index - 2)"
          using R[OF bb] Inr skip_listD[OF Suc.prems(3,5) i0, of 1] c2
          by (simp add: lfs_pair_fromle64_def lfs_fromle64_def pair_of_bytes_def drop_take)
        then show ?thesis using c2 i' by (auto simp: word_unat_eq_iff)
      qed
      have s1: "ready s1" "keeps s s1" using R[OF bb] Inr by simp_all
      note k = keepsD[OF s1(2)]
      have lt: "unat index' < length blocks" "unat index' < fuel" using i' cnt Suc.prems(5,6) i0 by auto
      have IH: "case lfs_ctz_traverse_loop fuel cb s1 (f (f c ?b) (blocks ! (unat index - 1))) wc (blocks ! unat index') index' of (r, c', s') \<Rightarrow>
          keeps s1 s' \<and> sound r \<and> (r = Inr () \<longrightarrow> ready s' \<and> c' = foldl f (f (f c ?b) (blocks ! (unat index - 1))) (ctz_visits blocks (unat index')))"
        by (intro Suc.IH s1 lt) (simp_all only: k Suc.prems(2,3), rule Suc.prems(4))
      have v: "ctz_visits blocks (unat index) = ?b # blocks ! (unat index - 1) # ctz_visits blocks (unat index')"
        using i0 i' cnt by (subst ctz_visits.simps) (auto simp: odd_iff_mod_2_eq_one even_iff_mod_2_eq_zero)
      have "lfs_ctz_traverse_loop (Suc fuel) cb s c wc ?b index =
          lfs_ctz_traverse_loop fuel cb s1 (f (f c ?b) (blocks ! (unat index - 1))) wc (blocks ! unat index') index'"
        unfolding step Inr sum.case nxt index'_def [symmetric] unfolding h1 ..
      then show ?thesis
        using IH s1(2) unfolding v by (auto intro: keeps_trans simp del: lfs_ctz_traverse_loop.simps)
    qed
  qed
qed simp

lemma ctz_traverse:
  assumes pre: "ready s" "pending_fits s wc" "skip_list (overlay wc (content (l_dev s))) blocks"
    and l: "\<forall>b \<in> set blocks. unat b < bcount" "length blocks = Suc (unat (fst (lfs_ctz_index s (sz - 1))))" "0 < sz"
    and B: "280 \<le> bsize" "unat sz div (bsize - 16) < 2 ^ 31"
    and cb: "\<And>s c b. cb s c b = (Inr (), f c b, s)"
  shows "case lfs_ctz_traverse cb s c wc (last blocks) sz of (r, c', s') \<Rightarrow> keeps s s' \<and> sound r \<and>
    (r = Inr () \<longrightarrow> c' = foldl f c (ctz_visits blocks (length blocks - 1)))"
proof -
  obtain i o' where e: "lfs_ctz_index s (sz - 1) = (i, o')" by (metis prod.exhaust)
  have "unat (sz - 1) = unat sz - 1" using l(3) by (simp add: word_less_nat_alt unat_sub_u64)
  then have "unat (sz - 1) div (unat (l_block_size s) - 16) < 2 ^ 31"
    using B(2) div_le_mono[of "unat sz - 1" "unat sz" "bsize - 16"] readyD(4)[OF pre(1)] by simp
  then have "unat i < 2 ^ 31" using ctz_index_position[OF _ _ e] B(1) readyD(4)[OF pre(1)] by simp
  then have u: "unat (scast i :: u64) = unat i" by (rule unat_scast_index)
  have b: "last blocks = blocks ! unat (scast i :: u64)" "unat (scast i :: u64) < length blocks"
    using l(2) by (simp_all add: e u) (metis diff_Suc_1 last_conv_nth length_0_conv nat.simps(3))
  have n: "unat (scast i :: u64) = length blocks - 1" using l(2) by (simp add: e u)
  have L: "case lfs_ctz_traverse_loop (Suc (unat (scast i :: u64))) cb s c wc (blocks ! unat (scast i :: u64)) (scast i) of (r, c', s') \<Rightarrow>
      keeps s s' \<and> sound r \<and> (r = Inr () \<longrightarrow> ready s' \<and> c' = foldl f c (ctz_visits blocks (unat (scast i :: u64))))"
    using B(1) by (intro ctz_traverse_loop[OF pre l(1) b(2) _ _ cb]) simp_all
  have "lfs_ctz_traverse cb s c wc (last blocks) sz =
      lfs_ctz_traverse_loop (Suc (unat (scast i :: u64))) cb s c wc (blocks ! unat (scast i :: u64)) (scast i)"
    using l(3) by (auto simp: lfs_ctz_traverse_def e b(1) Let_def simp del: lfs_ctz_traverse_loop.simps)
  then show ?thesis using L unfolding n [symmetric] by (auto simp del: lfs_ctz_traverse_loop.simps)
qed

end

subsection \<open>Properties\<close>

text \<open>C19: where a byte of a file lies. For a position \<open>off\<close>, \<open>lfs_ctz_index\<close> returns the block \<open>i\<close> and the
  offset in it such that exactly \<open>off\<close> bytes of data come before it, when block 0 holds only data and every
  block \<open>i\<close> starts with one eight-byte pointer more than \<open>i\<close> has trailing zeros. The closed form with one
  division and a population count thus agrees with adding up the blocks, for block sizes from 280 bytes
  and every index that fits the \<open>int\<close> it is returned in.\<close>

theorem lfs_ctz_index_correct:
  assumes "280 \<le> unat (l_block_size s)" "unat off div (unat (l_block_size s) - 16) < 2 ^ 31"
    and "lfs_ctz_index s off = (i, o')"
  shows "ctz_header (unat i) \<le> unat o' \<and> unat o' < unat (l_block_size s) \<and>
    unat off = ctz_before (unat (l_block_size s)) (unat i) + (unat o' - ctz_header (unat i))"
  using ctz_index_position[OF assms] by simp

definition sample_file_device :: memory_device where
  "sample_file_device = \<lparr>md_block_size = 512, md_block_count = 4,
     md_storage = replicate 1024 0 @ le_bytes 8 (1 :: u64) @ replicate 1016 7\<rparr>"

definition sample_file :: "memory_device lfs" where
  "sample_file = (sample memory_ops sample_file_device)\<lparr>l_block_size := 512, l_erase_size := 512\<rparr>"

lemma sample_file_index:
  "lfs_ctz_index sample_file 599 = (1, 95)" "lfs_ctz_index sample_file 515 = (1, 11)"
  by (simp_all add: lfs_ctz_index_def sample_file_def Let_def lfs_popc64_def)

theorem lfs_ctz_index_correct_witness: "(599 :: nat) = ctz_before 512 1 + (95 - ctz_header 1)"
  using lfs_ctz_index_correct[of sample_file 599 1 95, OF _ _ sample_file_index(1)] by (simp add: sample_file_def)

text \<open>C12: random access. If the last blocks in \<open>blocks\<close> are linked on the device as a skip list, then
  \<open>lfs_ctz_find\<close> follows at most as many links as there are blocks, never past the target, and returns the
  block and the offset that hold byte \<open>pos\<close> of the data of the file; it fails in no way and changes
  nothing but the read cache.\<close>

theorem lfs_ctz_find_correct:
  assumes "runs_on s memory_ops" "geometry s bs bc" "memory_inv (l_block_size s) (l_block_count s) (l_dev s)"
    and "cache_holds s (l_read_cache s) (memory_content (l_dev s))" "2 * bs + unat (cfg_read_size (l_cfg s)) \<le> 2 ^ 64"
    and "skip_list (memory_content (l_dev s)) blocks" "\<forall>b \<in> set blocks. b < l_block_count s"
    and "length blocks = Suc (unat (fst (lfs_ctz_index s (sz - 1))))" "pos < sz" "280 \<le> bs" "unat sz div (bs - 16) < 2 ^ 31"
  shows "\<exists>b off rc d. lfs_ctz_find s None (l_read_cache s) (last blocks) sz pos = (Inr (b, off), rc, s\<lparr>l_dev := d\<rparr>) \<and>
    b \<in> set blocks \<and> unat off < bs \<and>
    memory_content (l_dev s) (unat b) ! unat off = ctz_data (memory_content (l_dev s)) blocks (length blocks) ! unat pos"
proof -
  note r = mem_ready(1)[OF assms(1-5)] and b = mem_ready(2,3)[OF assms(1-5)]
  obtain q rc s' where e: "lfs_ctz_find s None (l_read_cache s) (last blocks) sz pos = (q, rc, s')" by (metis prod_cases3)
  show ?thesis
    using mem.ctz_find[OF r pending_fits_None assms(4) _ assms(7,8,9), unfolded overlay_None e mem.same_disk_def mem.sound_reliable, unfolded b] assms(6,10,11)
    by (auto simp: e)
qed

lemma sample_file_content:
  "memory_content sample_file_device 1 = replicate 512 0"
  "memory_content sample_file_device 2 = le_bytes 8 (1 :: u64) @ replicate 504 7"
  by (simp_all add: memory_content_def sample_file_device_def del: le_bytes.simps)

lemma sample_file_header: "low_zeros (Suc 0) = 0" "ctz_header (Suc 0) = 8"
  by (simp_all add: low_zeros_simps ctz_header_def)

lemma sample_file_blocks: "skip_list (memory_content sample_file_device) [1, 2]"
proof -
  have "take 8 (memory_content sample_file_device 2) = le_bytes 8 (1 :: u64)"
    unfolding sample_file_content by (simp del: le_bytes.simps)
  then show ?thesis
    by (simp add: skip_list_def less_Suc_eq le_word_le_bytes sample_file_header del: le_bytes.simps)
qed

lemma sample_file_facts:
  "runs_on sample_file memory_ops" "geometry sample_file 512 4"
  "memory_inv (l_block_size sample_file) (l_block_count sample_file) (l_dev sample_file)"
  "cache_holds sample_file (l_read_cache sample_file) (memory_content (l_dev sample_file))"
  "2 * 512 + unat (cfg_read_size (l_cfg sample_file)) \<le> 2 ^ 64" "l_dev sample_file = sample_file_device"
  "l_block_count sample_file = 4"
  by (simp_all add: sample_file_def runs_on_def geometry_def sample_def sample_config_def cache_holds_def sample_cache_def
      memory_inv_def sample_file_device_def)

theorem lfs_ctz_find_correct_witness:
  "\<exists>b off rc d. lfs_ctz_find sample_file None (l_read_cache sample_file) 2 600 515 = (Inr (b, off), rc, sample_file\<lparr>l_dev := d\<rparr>) \<and>
    memory_content sample_file_device (unat b) ! unat off = 7"
proof -
  have c: "memory_content sample_file_device (unat (1 :: u64)) = replicate 512 0"
    "memory_content sample_file_device (unat (2 :: u64)) = le_bytes 8 (1 :: u64) @ replicate 504 7"
    using sample_file_content by simp_all
  have "ctz_data (memory_content sample_file_device) [1, 2] (Suc (Suc 0)) = replicate 512 0 @ replicate 504 7"
    by (simp only: ctz_data.simps nth_Cons_0 nth_Cons_Suc c sample_file_header) (simp add: ctz_header_def del: le_bytes.simps)
  then have "ctz_data (memory_content sample_file_device) [1, 2] (Suc (Suc 0)) ! 515 = 7"
    by (simp only: nth_append length_replicate) simp
  then show ?thesis
    using lfs_ctz_find_correct[OF sample_file_facts(1-5), of "[1, 2]" 600 515] sample_file_blocks
    by (auto simp: sample_file_facts(6,7) sample_file_index)
qed

text \<open>C29: visiting the blocks of a file. \<open>lfs_ctz_traverse\<close>, which the allocator uses to learn which blocks
  are taken, reports exactly the blocks of the file, from the last to the first. The block before the last
  one is reported twice when the index of the last is odd, so \<open>lfs_fs_size\<close> counts one block too many for
  every such file.\<close>

theorem lfs_ctz_traverse_visits:
  assumes "runs_on s memory_ops" "geometry s bs bc" "memory_inv (l_block_size s) (l_block_count s) (l_dev s)"
    and "cache_holds s (l_read_cache s) (memory_content (l_dev s))" "2 * bs + unat (cfg_read_size (l_cfg s)) \<le> 2 ^ 64"
    and "skip_list (memory_content (l_dev s)) blocks" "\<forall>b \<in> set blocks. unat b < bc"
    and "length blocks = Suc (unat (fst (lfs_ctz_index s (sz - 1))))" "0 < sz" "280 \<le> bs" "unat sz div (bs - 16) < 2 ^ 31"
  shows "(\<exists>visited s'. lfs_ctz_traverse (\<lambda>s bs b. (Inr (), bs @ [b], s)) s [] None (last blocks) sz = (Inr (), visited, s') \<and>
      set visited = set blocks \<and> length visited = length blocks + (length blocks - 1) mod 2) \<and>
    (\<exists>s'. lfs_ctz_traverse lfs_fs_size_count s 0 None (last blocks) sz =
      (Inr (), of_nat (length blocks + (length blocks - 1) mod 2), s'))"
proof -
  note r = mem_ready(1)[OF assms(1-5)] and b = mem_ready(2,3)[OF assms(1-5)]
  have sk: "skip_list (overlay None (memory_content (l_dev s))) blocks" using assms(6) by simp
  let ?v = "ctz_visits blocks (length blocks - 1)"
  have T: "\<exists>s'. lfs_ctz_traverse cb s c None (last blocks) sz = (Inr (), foldl f c ?v, s')"
    if "\<And>s c b. cb s c b = (Inr (), f c b, s)" for cb and f :: "'c \<Rightarrow> u64 \<Rightarrow> 'c" and c
    using mem.ctz_traverse[where cb = cb and f = f and c = c, OF r pending_fits_None sk _ assms(8,9) _ _ that, unfolded mem.sound_reliable, unfolded b] assms(7,10,11)
    by (auto split: prod.splits)
  have col: "foldl (\<lambda>bs b. bs @ [b]) xs ys = xs @ ys" for xs ys :: "u64 list" by (induction ys arbitrary: xs) simp_all
  have cnt: "foldl (\<lambda>n b. n + 1) m ys = m + of_nat (length ys)" for m :: u64 and ys :: "u64 list"
    by (induction ys arbitrary: m) simp_all
  have n: "length ?v = length blocks + (length blocks - 1) mod 2" using assms(8) by (simp add: length_ctz_visits)
  have "set ?v = set blocks" using assms(8) by (auto simp: set_ctz_visits in_set_conv_nth less_Suc_eq_le image_iff Bex_def)
  then show ?thesis
    using T[of "\<lambda>s bs b. (Inr (), bs @ [b], s)" "\<lambda>bs b. bs @ [b]" "[]"] T[of lfs_fs_size_count "\<lambda>n b. n + 1" 0] n
    by (auto simp: col cnt lfs_fs_size_count_def)
qed

theorem lfs_ctz_traverse_visits_witness:
  "\<exists>s'. lfs_ctz_traverse lfs_fs_size_count sample_file 0 None 2 600 = (Inr (), 3, s')"
  using lfs_ctz_traverse_visits[OF sample_file_facts(1-5), of "[1, 2]" 600] sample_file_blocks
  by (auto simp: sample_file_facts(6,7) sample_file_index)

end
