(* ===== verification/Spec2Isabelle.thy ===== *)
theory Spec2Isabelle
  imports ScannerProperties FuseProperties FetchProperties FilterProperties FileProperties SeekProperties EndsProperties PathProperties VfsTypes VfsProperties DeviceProperties TagProperties FileIndexProperties AllocatorProperties ReadOnly StateProperties LogProperties Toplevel
begin

text \<open>
  littlefs v2 in C++: the file system (\<open>src/littlefs_v2\<close>, \<open>include/lfs.h\<close>, \<open>include/lfs_utility.h\<close>), the block
  devices under it (\<open>include/lfs_block_device.h\<close>), the object interface on top of it
  (\<open>example/lfs_interface.*\<close>, \<open>include/lfs_result.h\<close>) and two programs that use that interface
  (\<open>example/lfs_fuse.cpp\<close>, \<open>example/dpx_scanner.cpp\<close>). Paths are below \<open>src/\<close>, those of source files below
  \<open>src/src/\<close>.

  \<^bold>\<open>The program.\<close> A block device offers blocks that are read, programmed and erased. littlefs reads and writes
  it through two caches. A directory is a chain of metadata pairs, each two blocks that hold a log of
  tags, of which the newer block with a valid checksum counts; a commit appends to the log, and compacts it
  into the other block or splits the directory when the block is full. A file is kept inline in its directory, or
  in a backward skip list of blocks. Free blocks are found by traversing everything in use into a bitmap that
  covers a window of the device. Global state (orphans, a pending move) is spread as exclusive or over all
  directories, so that operations on two directories survive a power loss. The public functions take a lock
  around these operations. The object interface adds a cache of pages, streams, and error codes of its own.

  \<^bold>\<open>The model.\<close> Every function of the sources is a function on an explicit state, named as in the source. The
  record \<open>lfs\<close> is \<open>lfs_t\<close>; its field \<open>l_dev\<close> is what lies behind \<open>cfg->context\<close>, and \<open>cfg->read\<close> and the other
  callbacks are functions on it. Open files and directories live in \<open>l_metadata_list\<close> under their addresses, as
  in the linked list of the source, because a commit updates all of them. Integers keep the width they have in
  the source, so they wrap around as there; buffers are lists of bytes of the size of the buffer. A call returns
  \<open>Inr x\<close>, or \<open>Inl h\<close> with what stopped it: an error number, a failed \<open>LFS_ASSERT\<close>, an access outside a
  buffer or other undefined behaviour, or an exhausted bound. Values that a function writes through pointers are
  further components of its result.

  \<^bold>\<open>Bounds of loops.\<close> A loop without a structural argument has a number of passes as its first argument, which its
  caller computes. Loops over the bytes of a buffer get one pass per byte, or two where a pass may only fill a
  cache (\<open>Device\<close>). Loops over a log get the size of the block, as each tag takes four bytes; the
  traversal of a log, which filters each tag against the later ones, gets a cube of the block size and the
  number of attributes. Skip lists get the index of the last block. The functions that walk over all directories
  count to half the number of blocks in the source already. Chains of pairs in \<open>lfs_dir_find\<close> and
  \<open>lfs_dir_read\<close> get the square of the number of blocks: the source has no bound there, and a chain
  that comes back to itself exhausts any. Relocations get twice the number of blocks, as every pass takes a block
  out of use. The windows of the allocator get the number of blocks not yet looked at. For reading, writing,
  comparing, fetching, traversing and allocating, theorems say that the bounds are enough, whatever the disk holds.

  \<^bold>\<open>Theories of the model\<close>, each after those it uses:
  \<^item> \<open>Prelude\<close>: words, results, checked memory accesses, byte orders; \<open>SignedWords\<close>: words read as signed numbers;
    \<open>Lfs_Types\<close>: constants and types of \<open>include/lfs.h\<close>; \<open>Utility\<close>: \<open>include/lfs_utility.h\<close>; \<open>Bits\<close> and \<open>Crc\<close>: its
    bit tricks and its checksum against their definitions.
  \<^item> \<open>BlockDevice\<close>: the devices and decorators of \<open>include/lfs_block_device.h\<close>, with the interface as a record of
    operations; the locales \<open>readable_device\<close>, \<open>block_device\<close> and \<open>reliable_device\<close> state what littlefs may
    rely on, and are interpreted for the memory device and for the decorators on it, each as far as it keeps them.
  \<^item> \<open>Device\<close>: \<open>lfs_device.cpp\<close>; \<open>Metadata\<close> and \<open>Fetch\<close>: \<open>lfs_metadata.cpp\<close>; \<open>FileIndex\<close>: \<open>lfs_file_index.cpp\<close>;
    \<open>FsTraverse\<close> and \<open>Consistency\<close>: \<open>lfs_operations.cpp\<close>; \<open>Allocator\<close>: \<open>lfs_allocator.cpp\<close>; \<open>Commit\<close> and \<open>DirCommit\<close>:
    \<open>lfs_commit.cpp\<close>; \<open>FileCore\<close> and \<open>File\<close>: \<open>lfs_file.cpp\<close>; \<open>Directory\<close>: \<open>lfs_directory.cpp\<close>; \<open>General\<close> and
    \<open>Mount\<close>: \<open>lfs_general.cpp\<close>; \<open>Toplevel\<close>: \<open>lfs_toplevel.cpp\<close>.
  \<^item> \<open>Vfs\<close>, \<open>VfsFile\<close>, \<open>VfsSystem\<close>: error codes and callbacks, file objects and streams, the file system
    object with its factories and builder; \<open>Fuse\<close> and \<open>Scanner\<close>: the two programs.

  \<^bold>\<open>Theories of lemmas\<close> and what they show:
  \<^item> \<open>DeviceRead\<close>, \<open>DeviceWrite\<close>, \<open>DeviceProperties\<close>: through the caches a reader sees the device with the pending
    writes laid over it, and a write changes exactly its bytes; a validated flush that succeeds has
    reached the disk; scrambling is undone, and the fault-injecting device stops when it should; the checksum is
    the CRC-32 and detects short bursts.
  \<^item> \<open>TagProperties\<close>, \<open>StateProperties\<close>: tags, structures on disk, global state and its shares.
  \<^item> \<open>OwnRead\<close>, \<open>LogModel\<close>, \<open>LogRead\<close>, \<open>LogCommit\<close>, \<open>LogProperties\<close>: the meaning of a log by forward replay; the
    backward search of \<open>lfs_dir_get\<close> computes it, and \<open>lfs_dir_commit_attribute\<close> extends the log.
  \<^item> \<open>LogScan\<close>, \<open>LogFetch\<close>, \<open>FetchProperties\<close>: what a fetch makes of any two blocks, and that it finds the last
    commit again after a power loss; \<open>FilterProperties\<close>: the filter of the traversal ignores splices on disk.
  \<^item> \<open>PathProperties\<close>: the names that \<open>lfs_dir_find\<close> looks up against the components of a path.
  \<^item> \<open>FileIndexProperties\<close>: the closed formula for the index of a block, and the search in the skip list.
  \<^item> \<open>Frame\<close>, \<open>ReadOnly\<close>: what functions that only read leave unchanged.
  \<^item> \<open>AllocatorProperties\<close>, \<open>TraverseEnds\<close>, \<open>AllocatorEnds\<close>, \<open>EndsProperties\<close>: the allocator hands out blocks that the
    traversal did not report, the traversal and the allocator end on any disk, and the allocator gives up only
    when all blocks are in use.
  \<^item> \<open>ByteFile\<close>, \<open>InlineFile\<close>, \<open>FileProperties\<close>: a file is an array of bytes with a position (the locale
    \<open>byte_array\<close>); the operations on an open inline file implement it; \<open>SeekProperties\<close>: no seek wraps around.
  \<^item> \<open>VfsProperties\<close>, \<open>VfsTypes\<close>: the page cache of a file object, streams, flushing, error codes, and the shape of
    the page table under any calls.
  \<^item> \<open>FuseProperties\<close>, \<open>ScannerProperties\<close>: what the programs report.

  The witnesses are small: a memory device of a few blocks whose bytes are given, so that the kernel can run the code
  on them.

  \<^bold>\<open>Not modelled.\<close> Failure of \<open>malloc\<close>: it succeeds and gives zeros. Tracing and logging have no
  effect on the state. The mutexes are counters: calls are not interleaved, as every public function holds
  the lock from its beginning to its end. The event listener of \<open>lfs_interface.h\<close> has no caller. The
  overloads for wide strings only convert the path. \<open>example/file_backend.h\<close> and \<open>example/memory_backend.h\<close> are
  older devices that no file includes. The other examples, the tests and the benchmarks drive the library and
  print what they see. libfuse and the directory walk of the host are not in the repository; what the code takes
  from them is an argument. There is no theorem about whole commits and compactions with relocation, about
  files in a skip list beyond finding a position, or about mounting: these functions are modelled, and their
  parts are covered by the theorems above.
\<close>

end
